(* ===== verification/Prelude.thy ===== *)
theory Prelude
  imports Complex_Main "HOL-Library.AList" "HOL-Library.Sublist"
begin

section \<open>Prelude: results, stateful operations, slices and ordered dictionaries\<close>

text \<open>
  The vocabulary every component of the development shares.
  \<^item> A Python function that may raise returns a value of a sum type, \<open>Inl\<close> the exception.
    \<open>rbind\<close> runs the rest of the function only when the first part returned.
  \<^item> A method that also changes its object is an \<open>action\<close>: it takes the object's state and
    returns the outcome together with the state it leaves behind. The state survives an
    exception, as the mutations made before a \<^verbatim>\<open>raise\<close> do in Python.
  \<^item> \<open>last_n\<close> and \<open>drop_last\<close> are the slices \<^verbatim>\<open>xs[-n:]\<close> and \<^verbatim>\<open>xs[:-n]\<close>, with Python's
    reading of \<open>n = 0\<close>.
  \<^item> An \<^verbatim>\<open>OrderedDict\<close> is an association list in insertion order, oldest entry first; the locale
    \<open>keyed_store\<close> states the laws its clients rely on and is interpreted on it.
\<close>

named_theorems result_simps \<open>inversion rules for results and actions\<close>
named_theorems od_simps \<open>lookup laws of ordered dictionaries\<close>
named_theorems inv_rules \<open>an operation keeps an invariant\<close>

subsection \<open>Results\<close>

definition rbind :: "('e + 'a) \<Rightarrow> ('a \<Rightarrow> 'e + 'b) \<Rightarrow> 'e + 'b" where
  "rbind m f = (case m of Inl e \<Rightarrow> Inl e | Inr x \<Rightarrow> f x)"

lemma rbind_simps [simp]:
  "rbind (Inl e) f = Inl e"
  "rbind (Inr x) f = f x"
  by (simp_all add: rbind_def)

text \<open>
  An evaluation that inlines the binds stops at the first error and never looks into a continuation
  before its argument is known.
\<close>

declare rbind_def [code_unfold]

lemma rbind_eq_Inr [result_simps]:
  "rbind m f = Inr y \<longleftrightarrow> (\<exists>x. m = Inr x \<and> f x = Inr y)"
  by (cases m) simp_all

lemma rbind_eq_Inl [result_simps]:
  "rbind m f = Inl e \<longleftrightarrow> m = Inl e \<or> (\<exists>x. m = Inr x \<and> f x = Inl e)"
  by (cases m) simp_all

lemma rbind_cong [fundef_cong]:
  "m = m' \<Longrightarrow> (\<And>x. m' = Inr x \<Longrightarrow> f x = f' x) \<Longrightarrow> rbind m f = rbind m' f'"
  by (cases m') simp_all

text \<open>\<open>require b e\<close>: raise \<open>e\<close> unless \<open>b\<close>.\<close>

definition require :: "bool \<Rightarrow> 'e \<Rightarrow> 'e + unit" where
  "require b e = (if b then Inr () else Inl e)"

lemma require_simps [simp]:
  "require True e = Inr ()"
  "require False e = Inl e"
  by (simp_all add: require_def)

lemma require_eq [result_simps]:
  "require b e = Inr u \<longleftrightarrow> b"
  "require b e = Inl e' \<longleftrightarrow> \<not> b \<and> e' = e"
  by (auto simp: require_def)

text \<open>
  A \<^verbatim>\<open>for\<close> loop that builds a list and may raise, with the loop index counted from the first
  argument.
\<close>

fun traverse_from :: "nat \<Rightarrow> (nat \<Rightarrow> 'a \<Rightarrow> 'e + 'b) \<Rightarrow> 'a list \<Rightarrow> 'e + 'b list" where
  "traverse_from i f [] = Inr []"
| "traverse_from i f (x # xs) =
     rbind (f i x) (\<lambda>y. rbind (traverse_from (Suc i) f xs) (\<lambda>ys. Inr (y # ys)))"

lemma traverse_from_length:
  "traverse_from i f xs = Inr ys \<Longrightarrow> length ys = length xs"
  by (induction xs arbitrary: i ys) (auto simp: result_simps)

lemma traverse_from_nth:
  "traverse_from i f xs = Inr ys \<Longrightarrow> k < length xs \<Longrightarrow> f (i + k) (xs ! k) = Inr (ys ! k)"
proof (induction xs arbitrary: i ys k)
  case Nil
  then show ?case by simp
next
  case (Cons x xs)
  then obtain y zs where y: "f i x = Inr y" and zs: "traverse_from (Suc i) f xs = Inr zs"
    and ys: "ys = y # zs"
    by (auto simp: result_simps)
  show ?case
  proof (cases k)
    case 0
    with y ys show ?thesis by simp
  next
    case (Suc j)
    with Cons.prems(2) have "f (Suc i + j) (xs ! j) = Inr (zs ! j)"
      using Cons.IH [OF zs, of j] by simp
    with Suc ys show ?thesis by simp
  qed
qed

lemma traverse_from_append:
  "traverse_from i f (xs @ ys) =
     rbind (traverse_from i f xs) (\<lambda>us. rbind (traverse_from (i + length xs) f ys) (\<lambda>vs. Inr (us @ vs)))"
proof (induction xs arbitrary: i)
  case Nil
  show ?case by (cases "traverse_from i f ys") simp_all
next
  case (Cons x xs)
  show ?case
    by (cases "f i x"; cases "traverse_from (Suc i) f xs";
        cases "traverse_from (Suc (i + length xs)) f ys") (simp_all add: Cons.IH)
qed

text \<open>A \<^verbatim>\<open>for\<close> loop that only checks its elements.\<close>

fun check_all :: "('a \<Rightarrow> 'e + unit) \<Rightarrow> 'a list \<Rightarrow> 'e + unit" where
  "check_all f [] = Inr ()"
| "check_all f (x # xs) = rbind (f x) (\<lambda>_. check_all f xs)"

lemma check_all_Inr [result_simps]:
  "check_all f xs = Inr u \<longleftrightarrow> (\<forall>x\<in>set xs. f x = Inr ())"
  by (induction xs) (auto simp: result_simps)

subsection \<open>Stateful operations\<close>

type_synonym ('s, 'e, 'a) action = "'s \<Rightarrow> ('e + 'a) \<times> 's"

definition sret :: "'a \<Rightarrow> ('s, 'e, 'a) action" where
  "sret x s = (Inr x, s)"

definition slift :: "('e + 'a) \<Rightarrow> ('s, 'e, 'a) action" where
  "slift r s = (r, s)"

definition sbind :: "('s, 'e, 'a) action \<Rightarrow> ('a \<Rightarrow> ('s, 'e, 'b) action) \<Rightarrow> ('s, 'e, 'b) action" where
  "sbind m f s = (case m s of (Inl e, s') \<Rightarrow> (Inl e, s') | (Inr x, s') \<Rightarrow> f x s')"

lemma sbind_eta [code_unfold]:
  "sbind m f = (\<lambda>s. case m s of (r, s') \<Rightarrow> (case r of Inl e \<Rightarrow> (Inl e, s') | Inr x \<Rightarrow> f x s'))"
  by (rule ext) (simp add: sbind_def split: prod.split sum.split)

lemma sret_apply [simp]: "sret x s = (Inr x, s)"
  by (simp add: sret_def)

lemma slift_apply [simp]: "slift r s = (r, s)"
  by (simp add: slift_def)

lemma sbind_Inr [simp]: "m s = (Inr x, s') \<Longrightarrow> sbind m f s = f x s'"
  by (simp add: sbind_def)

lemma sbind_Inl [simp]: "m s = (Inl e, s') \<Longrightarrow> sbind m f s = (Inl e, s')"
  by (simp add: sbind_def)

lemma sbind_slift: "sbind (slift r) f s = (case r of Inl e \<Rightarrow> (Inl e, s) | Inr x \<Rightarrow> f x s)"
  by (simp add: sbind_def split: sum.splits)

lemma sbind_eq_Inr [result_simps]:
  "sbind m f s = (Inr y, s'') \<longleftrightarrow> (\<exists>x s'. m s = (Inr x, s') \<and> f x s' = (Inr y, s''))"
  by (auto simp: sbind_def split: prod.splits sum.splits)

lemma sbind_eq_Inl [result_simps]:
  "sbind m f s = (Inl e, s'') \<longleftrightarrow>
     m s = (Inl e, s'') \<or> (\<exists>x s'. m s = (Inr x, s') \<and> f x s' = (Inl e, s''))"
  by (auto simp: sbind_def split: prod.splits sum.splits)

text \<open>
  \<open>keeps P m\<close>: the operation leaves a state with \<open>P\<close> whenever it starts in one, whether it
  returns or raises. The rules compose it along \<open>sbind\<close>.
\<close>

definition keeps :: "('s \<Rightarrow> bool) \<Rightarrow> ('s, 'e, 'a) action \<Rightarrow> bool" where
  "keeps P m \<longleftrightarrow> (\<forall>s. P s \<longrightarrow> P (snd (m s)))"

lemma keepsD: "keeps P m \<Longrightarrow> P s \<Longrightarrow> P (snd (m s))"
  by (simp add: keeps_def)

lemma keepsI [intro?]: "(\<And>s. P s \<Longrightarrow> P (snd (m s))) \<Longrightarrow> keeps P m"
  by (simp add: keeps_def)

lemma keeps_sret [inv_rules]: "keeps P (sret x)"
  by (simp add: keeps_def)

lemma keeps_slift [inv_rules]: "keeps P (slift r)"
  by (simp add: keeps_def)

lemma keeps_sbind [inv_rules]:
  assumes "keeps P m" and "\<And>x. keeps P (f x)"
  shows "keeps P (sbind m f)"
proof
  fix s assume "P s"
  then have "P (snd (m s))" using assms(1) by (rule keepsD [rotated])
  then show "P (snd (sbind m f s))"
    using assms(2) by (auto simp: sbind_def keeps_def split: prod.splits sum.splits)
qed

subsection \<open>Slices from the end\<close>

text \<open>\<^verbatim>\<open>xs[-n:]\<close> and \<^verbatim>\<open>xs[:-n]\<close>; for \<open>n = 0\<close> these are \<^verbatim>\<open>xs[0:]\<close> and \<^verbatim>\<open>xs[:0]\<close>.\<close>

definition last_n :: "nat \<Rightarrow> 'a list \<Rightarrow> 'a list" where
  "last_n n xs = (if n = 0 then xs else drop (length xs - n) xs)"

definition drop_last :: "nat \<Rightarrow> 'a list \<Rightarrow> 'a list" where
  "drop_last n xs = (if n = 0 then [] else take (length xs - n) xs)"

lemma drop_last_append_last_n: "drop_last n xs @ last_n n xs = xs"
  by (simp add: drop_last_def last_n_def)

lemma last_n_append [simp]: "ys \<noteq> [] \<Longrightarrow> last_n (length ys) (xs @ ys) = ys"
  by (simp add: last_n_def)

lemma drop_last_append [simp]: "ys \<noteq> [] \<Longrightarrow> drop_last (length ys) (xs @ ys) = xs"
  by (simp add: drop_last_def)

lemma last_n_eq_iff_suffix:
  "ys \<noteq> [] \<Longrightarrow> last_n (length ys) xs = ys \<longleftrightarrow> suffix ys xs"
proof
  assume ne: "ys \<noteq> []" and eq: "last_n (length ys) xs = ys"
  then have "xs = take (length xs - length ys) xs @ ys"
    by (metis append_take_drop_id last_n_def length_0_conv)
  then show "suffix ys xs" by (metis suffixI)
next
  assume "ys \<noteq> []" and "suffix ys xs"
  then show "last_n (length ys) xs = ys" by (auto elim!: suffixE)
qed

subsection \<open>Ordered dictionaries\<close>

text \<open>
  The entries of an \<^verbatim>\<open>OrderedDict\<close>, oldest first. \<open>od_put\<close> is \<^verbatim>\<open>d[k] = v\<close> followed by
  \<^verbatim>\<open>d.move_to_end(k)\<close>, \<open>od_touch\<close> is \<^verbatim>\<open>d.move_to_end(k)\<close> on a present key, \<open>od_pop\<close> is
  \<^verbatim>\<open>d.pop(k, None)\<close>, and \<^verbatim>\<open>d.popitem(last=False)\<close> is \<open>hd\<close> and \<open>tl\<close>.
\<close>

type_synonym ('k, 'v) odict = "('k \<times> 'v) list"

definition od_pop :: "'k \<Rightarrow> ('k, 'v) odict \<Rightarrow> ('k, 'v) odict" where
  "od_pop k d = filter (\<lambda>e. fst e \<noteq> k) d"

definition od_put :: "'k \<Rightarrow> 'v \<Rightarrow> ('k, 'v) odict \<Rightarrow> ('k, 'v) odict" where
  "od_put k v d = od_pop k d @ [(k, v)]"

definition od_touch :: "'k \<Rightarrow> ('k, 'v) odict \<Rightarrow> ('k, 'v) odict" where
  "od_touch k d = (case map_of d k of None \<Rightarrow> d | Some v \<Rightarrow> od_put k v d)"

definition od_keys :: "('k, 'v) odict \<Rightarrow> 'k list" where
  "od_keys d = map fst d"

lemma od_keys_simps [simp]:
  "od_keys [] = []"
  "od_keys (e # d) = fst e # od_keys d"
  "od_keys (d @ d') = od_keys d @ od_keys d'"
  by (simp_all add: od_keys_def)

lemma length_od_keys [simp]: "length (od_keys d) = length d"
  by (simp add: od_keys_def)

lemma map_of_eq_None_keys: "map_of d k = None \<longleftrightarrow> k \<notin> set (od_keys d)"
  by (induction d) auto

lemma od_keys_pop [simp]: "od_keys (od_pop k d) = filter (\<lambda>k'. k' \<noteq> k) (od_keys d)"
  by (induction d) (auto simp: od_pop_def)

lemma map_of_od_pop [od_simps, simp]:
  "map_of (od_pop k d) k' = (if k' = k then None else map_of d k')"
  by (induction d) (auto simp: od_pop_def)

lemma map_of_od_put [od_simps, simp]:
  "map_of (od_put k v d) k' = (if k' = k then Some v else map_of d k')"
  by (auto simp: od_put_def map_add_def split: option.splits)

lemma map_of_od_touch [od_simps, simp]: "map_of (od_touch k d) k' = map_of d k'"
  by (auto simp: od_touch_def split: option.splits)

lemma od_keys_put [simp]: "od_keys (od_put k v d) = filter (\<lambda>k'. k' \<noteq> k) (od_keys d) @ [k]"
  by (simp add: od_put_def)

lemma distinct_od_put [simp]: "distinct (od_keys d) \<Longrightarrow> distinct (od_keys (od_put k v d))"
  by simp

lemma distinct_od_pop [simp]: "distinct (od_keys d) \<Longrightarrow> distinct (od_keys (od_pop k d))"
  by simp

lemma set_od_keys_touch [simp]: "set (od_keys (od_touch k d)) = set (od_keys d)"
proof (cases "map_of d k")
  case None
  then show ?thesis by (simp add: od_touch_def)
next
  case (Some v)
  then have "k \<in> set (od_keys d)"
    by (metis map_of_eq_None_keys option.distinct(1))
  with Some show ?thesis by (auto simp: od_touch_def)
qed

lemma distinct_od_touch [simp]: "distinct (od_keys d) \<Longrightarrow> distinct (od_keys (od_touch k d))"
  by (simp add: od_touch_def split: option.splits)

lemma length_filter_neq_distinct:
  "distinct xs \<Longrightarrow> x \<in> set xs \<Longrightarrow> Suc (length (filter (\<lambda>y. y \<noteq> x) xs)) = length xs"
  by (induction xs) (auto intro!: arg_cong [where f = length] filter_True)

lemma length_od_pop: "length (od_pop k d) = length (filter (\<lambda>k'. k' \<noteq> k) (od_keys d))"
  by (metis length_od_keys od_keys_pop)

lemma length_od_put_le: "length (od_put k v d) \<le> Suc (length d)"
  by (simp add: od_put_def od_pop_def)

lemma length_od_put_present:
  assumes "distinct (od_keys d)" and "k \<in> set (od_keys d)"
  shows "length (od_put k v d) = length d"
  using length_filter_neq_distinct [OF assms] by (simp add: od_put_def length_od_pop)

lemma length_od_touch [simp]:
  "distinct (od_keys d) \<Longrightarrow> length (od_touch k d) = length d"
proof (cases "map_of d k")
  case None
  then show ?thesis by (simp add: od_touch_def)
next
  case (Some v)
  assume "distinct (od_keys d)"
  moreover from Some have "k \<in> set (od_keys d)"
    by (metis map_of_eq_None_keys option.distinct(1))
  ultimately show ?thesis using Some by (simp add: od_touch_def length_od_put_present)
qed

lemma map_of_tl_distinct:
  assumes "distinct (od_keys d)" and "d \<noteq> []"
  shows "map_of (tl d) k = (if k = fst (hd d) then None else map_of d k)"
  using assms by (cases d) (auto simp: map_of_eq_None_keys)

text \<open>
  What the clients of a keyed store rely on: lookups after insertion, removal and a touch. The
  locale's lemmas are the facts about sequences of operations that the clients repeat.
\<close>

locale keyed_store =
  fixes lookup :: "'s \<Rightarrow> 'k \<Rightarrow> 'v option"
    and put :: "'k \<Rightarrow> 'v \<Rightarrow> 's \<Rightarrow> 's"
    and remove :: "'k \<Rightarrow> 's \<Rightarrow> 's"
    and touch :: "'k \<Rightarrow> 's \<Rightarrow> 's"
  assumes lookup_put: "lookup (put k v s) k' = (if k' = k then Some v else lookup s k')"
    and lookup_remove: "lookup (remove k s) k' = (if k' = k then None else lookup s k')"
    and lookup_touch: "lookup (touch k s) k' = lookup s k'"
begin

lemma lookup_put_same: "lookup (put k v s) k = Some v"
  by (simp add: lookup_put)

lemma lookup_put_other: "k' \<noteq> k \<Longrightarrow> lookup (put k v s) k' = lookup s k'"
  by (simp add: lookup_put)

lemma last_put_wins: "lookup (put k v (put k w s)) = lookup (put k v s)"
  by (rule ext) (simp add: lookup_put)

lemma remove_put: "lookup (remove k (put k v s)) = lookup (remove k s)"
  by (rule ext) (simp add: lookup_put lookup_remove)

lemma put_commute: "k \<noteq> k' \<Longrightarrow> lookup (put k v (put k' w s)) = lookup (put k' w (put k v s))"
  by (rule ext) (simp add: lookup_put)

end

interpretation od: keyed_store "map_of :: ('k \<times> 'v) list \<Rightarrow> 'k \<Rightarrow> 'v option" od_put od_pop od_touch
  by unfold_locales simp_all

end
