(* ===== verification/PyValue.thy ===== *)
theory PyValue
  imports Prelude
begin

section \<open>Python values and the string operations the program uses\<close>

text \<open>
  The program inspects untyped JSON-like values (request bodies, messages, recorded sessions,
  engine responses), so the development has one type for them, with one constructor per Python
  type the code tells apart by \<^verbatim>\<open>isinstance\<close> or \<^verbatim>\<open>type\<close>.
  \<^item> \<^verbatim>\<open>int\<close> is unbounded. A finite \<^verbatim>\<open>float\<close> is the rational number it denotes; the two
    infinities and NaN are separate values. The program compares floats and never computes with
    them, and Python compares an \<^verbatim>\<open>int\<close> with a \<^verbatim>\<open>float\<close> exactly.
  \<^item> A \<^verbatim>\<open>dict\<close> is the list of its entries in insertion order, looked up with \<open>map_of\<close>; keys are
    strings, as JSON's are.
  \<^item> A \<^verbatim>\<open>str\<close> is a list of characters, each one of the code points 0 to 255.
  \<^item> \<open>py_eq\<close> is \<^verbatim>\<open>==\<close>: numbers by value across types (\<^verbatim>\<open>True == 1 == 1.0\<close>), lists elementwise,
    dictionaries by key whatever their order. One NaN object equals itself inside a container
    (Python compares identity first, and \<^verbatim>\<open>json.loads\<close> shares one NaN object), which is the
    only place where the code compares containers that may hold one.
\<close>

datatype flt = Fin rat | PosInf | NegInf | NaN

datatype pyval =
    PNone
  | PBool bool
  | PInt int
  | PFloat flt
  | PStr string
  | PList "pyval list"
  | PTuple "pyval list"
  | PDict "(string \<times> pyval) list"

type_synonym pydict = "(string \<times> pyval) list"

subsection \<open>Dictionaries\<close>

text \<open>\<^verbatim>\<open>d.get(k)\<close>, and \<^verbatim>\<open>d[k] = v\<close> on a plain dict (in place, or appended).\<close>

definition dget :: "pydict \<Rightarrow> string \<Rightarrow> pyval" where
  "dget d k = (case map_of d k of None \<Rightarrow> PNone | Some v \<Rightarrow> v)"

definition has_key :: "pydict \<Rightarrow> string \<Rightarrow> bool" where
  "has_key d k = (map_of d k \<noteq> None)"

text \<open>\<^verbatim>\<open>d.get(k, default)\<close>.\<close>

definition dget_or :: "pydict \<Rightarrow> string \<Rightarrow> pyval \<Rightarrow> pyval" where
  "dget_or d k v = (case map_of d k of None \<Rightarrow> v | Some x \<Rightarrow> x)"

abbreviation dset :: "string \<Rightarrow> pyval \<Rightarrow> pydict \<Rightarrow> pydict" where
  "dset \<equiv> AList.update"

lemma dget_dset [simp]: "dget (dset k v d) k' = (if k' = k then v else dget d k')"
  by (simp add: dget_def update_conv')

lemma has_key_dset [simp]: "has_key (dset k v d) k' \<longleftrightarrow> k' = k \<or> has_key d k'"
  by (simp add: has_key_def update_conv')

lemma dget_od_pop [simp]: "dget (od_pop k d) k' = (if k' = k then PNone else dget d k')"
  by (simp add: dget_def)

lemma has_key_od_pop [simp]: "has_key (od_pop k d) k' \<longleftrightarrow> k' \<noteq> k \<and> has_key d k'"
  by (simp add: has_key_def)

lemma dget_Cons [simp]: "dget ((k, v) # d) k' = (if k' = k then v else dget d k')"
  by (simp add: dget_def)

lemma dget_Nil [simp]: "dget [] k = PNone"
  by (simp add: dget_def)

subsection \<open>Type tests and truth\<close>

fun is_str :: "pyval \<Rightarrow> bool" where
  "is_str (PStr _) = True" | "is_str _ = False"

fun is_list :: "pyval \<Rightarrow> bool" where
  "is_list (PList _) = True" | "is_list _ = False"

fun is_dict :: "pyval \<Rightarrow> bool" where
  "is_dict (PDict _) = True" | "is_dict _ = False"

text \<open>\<^verbatim>\<open>type(v) is int\<close> and \<^verbatim>\<open>type(v) is bool\<close>: a \<^verbatim>\<open>bool\<close> is not exactly an \<^verbatim>\<open>int\<close>.\<close>

fun is_int :: "pyval \<Rightarrow> bool" where
  "is_int (PInt _) = True" | "is_int _ = False"

fun is_bool :: "pyval \<Rightarrow> bool" where
  "is_bool (PBool _) = True" | "is_bool _ = False"

text \<open>An \<^verbatim>\<open>int\<close> or \<^verbatim>\<open>float\<close> that is not a \<^verbatim>\<open>bool\<close>.\<close>

fun is_number :: "pyval \<Rightarrow> bool" where
  "is_number (PInt _) = True" | "is_number (PFloat _) = True" | "is_number _ = False"

text \<open>\<^verbatim>\<open>type(v) is int and v >= 0\<close>, the test for a token ID.\<close>

fun is_token :: "pyval \<Rightarrow> bool" where
  "is_token (PInt i) = (0 \<le> i)" | "is_token _ = False"

text \<open>The integers of a list of token ids.\<close>

fun int_of_val :: "pyval \<Rightarrow> int" where
  "int_of_val (PInt i) = i" | "int_of_val _ = 0"

lemma tokens_nonneg: "list_all is_token xs \<Longrightarrow> list_all (\<lambda>t. 0 \<le> t) (map int_of_val xs)"
proof (induction xs)
  case (Cons x xs)
  then show ?case by (cases x) simp_all
qed simp

fun truthy :: "pyval \<Rightarrow> bool" where
  "truthy PNone = False"
| "truthy (PBool b) = b"
| "truthy (PInt i) = (i \<noteq> 0)"
| "truthy (PFloat f) = (f \<noteq> Fin 0)"
| "truthy (PStr s) = (s \<noteq> [])"
| "truthy (PList xs) = (xs \<noteq> [])"
| "truthy (PTuple xs) = (xs \<noteq> [])"
| "truthy (PDict d) = (d \<noteq> [])"

lemma is_str_iff: "is_str v \<longleftrightarrow> (\<exists>s. v = PStr s)"
  by (cases v) auto

lemma is_list_iff: "is_list v \<longleftrightarrow> (\<exists>xs. v = PList xs)"
  by (cases v) auto

lemma is_dict_iff: "is_dict v \<longleftrightarrow> (\<exists>d. v = PDict d)"
  by (cases v) auto

lemma is_int_iff: "is_int v \<longleftrightarrow> (\<exists>i. v = PInt i)"
  by (cases v) auto

lemma is_token_iff: "is_token v \<longleftrightarrow> (\<exists>i. v = PInt i \<and> 0 \<le> i)"
  by (cases v) auto

lemmas type_test_iffs = is_str_iff is_list_iff is_dict_iff is_int_iff is_token_iff

subsection \<open>Numbers\<close>

text \<open>The numeric value of a number (\<^verbatim>\<open>bool\<close> included), as Python compares it.\<close>

fun num_key :: "pyval \<Rightarrow> flt option" where
  "num_key (PBool b) = Some (Fin (if b then 1 else 0))"
| "num_key (PInt i) = Some (Fin (of_int i))"
| "num_key (PFloat f) = Some f"
| "num_key _ = None"

text \<open>The value of a number whose \<^verbatim>\<open>finite\<close> test passed; bounds are checked on it.\<close>

fun rat_of :: "pyval \<Rightarrow> rat" where
  "rat_of (PInt i) = of_int i"
| "rat_of (PFloat (Fin q)) = q"
| "rat_of _ = 0"

text \<open>
  \<^verbatim>\<open>math.isfinite\<close> converts an \<^verbatim>\<open>int\<close> to a double and raises \<^verbatim>\<open>OverflowError\<close> when it rounds
  beyond the largest one, that is from \<open>2 ^ 1024 - 2 ^ 970\<close> on.
\<close>

definition double_overflow :: int where
  "double_overflow = 2 ^ 1024 - 2 ^ 970"

fun finite_num :: "pyval \<Rightarrow> bool" where
  "finite_num (PInt i) = (\<bar>i\<bar> < double_overflow)"
| "finite_num (PFloat (Fin q)) = True"
| "finite_num _ = False"

lemma finite_num_is_number: "finite_num v \<Longrightarrow> is_number v"
  by (cases v) auto

lemma finite_num_num_key: "finite_num v \<Longrightarrow> num_key v = Some (Fin (rat_of v))"
  by (cases v rule: finite_num.cases) simp_all

subsection \<open>Equality\<close>

lemma size_list_member: "x \<in> set xs \<Longrightarrow> size x < Suc (size_list size xs)"
  by (induction xs) auto

lemma size_dict_value: "map_of d k = Some v \<Longrightarrow> size v < Suc (size_list (size_prod (\<lambda>_. 0) size) d)"
  by (induction d) (auto split: if_splits)

function py_eq :: "pyval \<Rightarrow> pyval \<Rightarrow> bool" where
  "py_eq a b =
     (case (a, b) of
        (PNone, PNone) \<Rightarrow> True
      | (PStr s, PStr t) \<Rightarrow> s = t
      | (PList xs, PList ys) \<Rightarrow>
          length xs = length ys \<and> list_all (\<lambda>(x, y). py_eq x y) (zip xs ys)
      | (PTuple xs, PTuple ys) \<Rightarrow>
          length xs = length ys \<and> list_all (\<lambda>(x, y). py_eq x y) (zip xs ys)
      | (PDict d, PDict e) \<Rightarrow>
          list_all (\<lambda>k. map_of d k \<noteq> None) (map fst e) \<and>
          list_all (\<lambda>k. case map_of d k of None \<Rightarrow> True
                       | Some v \<Rightarrow> (case map_of e k of None \<Rightarrow> False | Some w \<Rightarrow> py_eq v w))
            (map fst d)
      | _ \<Rightarrow> num_key a \<noteq> None \<and> num_key a = num_key b)"
  by pat_completeness auto

termination
  by (relation "measure (\<lambda>(a, b). size a)")
    (auto dest!: set_zip_leftD dest: size_list_member size_dict_value)

declare py_eq.simps [simp del]

lemma py_eq_atoms [simp]:
  "py_eq PNone b \<longleftrightarrow> b = PNone"
  "py_eq a PNone \<longleftrightarrow> a = PNone"
  "py_eq (PStr s) b \<longleftrightarrow> b = PStr s"
  "py_eq a (PStr s) \<longleftrightarrow> a = PStr s"
  by (auto simp: py_eq.simps [of PNone b] py_eq.simps [of a PNone] py_eq.simps [of "PStr s" b]
      py_eq.simps [of a "PStr s"] split: pyval.splits)

lemma py_eq_num [simp]:
  "py_eq (PInt i) b \<longleftrightarrow> num_key b = Some (Fin (of_int i))"
  "py_eq (PBool c) b \<longleftrightarrow> num_key b = Some (Fin (if c then 1 else 0))"
  "py_eq (PFloat f) b \<longleftrightarrow> num_key b = Some f"
  by (auto simp: py_eq.simps [of "PInt i" b] py_eq.simps [of "PBool c" b]
      py_eq.simps [of "PFloat f" b] split: pyval.splits)

lemma py_eq_list [simp]:
  "py_eq (PList xs) (PList ys) \<longleftrightarrow> list_all2 py_eq xs ys"
  "py_eq (PTuple xs) (PTuple ys) \<longleftrightarrow> list_all2 py_eq xs ys"
  by (auto simp: py_eq.simps [of "PList xs" "PList ys"] py_eq.simps [of "PTuple xs" "PTuple ys"]
      list_all2_iff list_all_iff)

lemma py_eq_dict:
  "py_eq (PDict d) (PDict e) \<longleftrightarrow> (\<forall>k. rel_option py_eq (map_of d k) (map_of e k))"
proof -
  have *: "(case map_of d k of None \<Rightarrow> True
       | Some v \<Rightarrow> (case map_of e k of None \<Rightarrow> False | Some w \<Rightarrow> py_eq v w))
      \<longleftrightarrow> rel_option py_eq (map_of d k) (map_of e k)" if "k \<in> fst ` set d" for k
  proof -
    from that have "map_of d k \<noteq> None" by (simp add: map_of_eq_None_iff)
    then show ?thesis by (cases "map_of d k"; cases "map_of e k") simp_all
  qed
  have "py_eq (PDict d) (PDict e) \<longleftrightarrow>
      (\<forall>k \<in> fst ` set e. map_of d k \<noteq> None) \<and>
      (\<forall>k \<in> fst ` set d. rel_option py_eq (map_of d k) (map_of e k))"
    using * by (simp add: py_eq.simps [of "PDict d" "PDict e"] list_all_iff)
  also have "\<dots> \<longleftrightarrow> (\<forall>k. rel_option py_eq (map_of d k) (map_of e k))" (is "?l \<longleftrightarrow> ?r")
  proof
    assume l: ?l
    show ?r
    proof
      fix k
      show "rel_option py_eq (map_of d k) (map_of e k)"
      proof (cases "k \<in> fst ` set d")
        case True
        with l show ?thesis by blast
      next
        case False
        then have "map_of d k = None" by (simp add: map_of_eq_None_iff)
        moreover with l have "map_of e k = None" by (metis map_of_eq_None_iff)
        ultimately show ?thesis by simp
      qed
    qed
  next
    assume r: ?r
    then have "map_of d k \<noteq> None" if "k \<in> fst ` set e" for k
      using that by (metis map_of_eq_None_iff option.rel_sel)
    with r show ?l by blast
  qed
  finally show ?thesis .
qed

lemma py_eq_kinds [simp]:
  "\<not> py_eq (PList xs) (PTuple ys)" "\<not> py_eq (PTuple xs) (PList ys)"
  "\<not> py_eq (PList xs) (PDict d)" "\<not> py_eq (PDict d) (PList xs)"
  "\<not> py_eq (PTuple xs) (PDict d)" "\<not> py_eq (PDict d) (PTuple xs)"
  "py_eq (PList xs) (PInt i) = False" "py_eq (PList xs) (PBool c) = False"
  "py_eq (PList xs) (PFloat f) = False"
  "py_eq (PTuple xs) (PInt i) = False" "py_eq (PTuple xs) (PBool c) = False"
  "py_eq (PTuple xs) (PFloat f) = False"
  "py_eq (PDict d) (PInt i) = False" "py_eq (PDict d) (PBool c) = False"
  "py_eq (PDict d) (PFloat f) = False"
  by (simp_all add: py_eq.simps)

lemma py_eq_refl [simp, intro]: "py_eq v v"
proof (induction v)
  case (PList xs)
  then show ?case by (simp add: list.rel_refl_strong)
next
  case (PTuple xs)
  then show ?case by (simp add: list.rel_refl_strong)
next
  case (PDict d)
  have "rel_option py_eq (map_of d k) (map_of d k)" for k
    using PDict by (cases "map_of d k") (auto dest: map_of_SomeD intro: snds.intros)
  then show ?case by (simp add: py_eq_dict)
qed simp_all

text \<open>Equality of two lists of dictionaries, and of two dictionaries.\<close>

abbreviation dict_eq :: "pydict \<Rightarrow> pydict \<Rightarrow> bool" where
  "dict_eq d e \<equiv> py_eq (PDict d) (PDict e)"

definition dicts_eq :: "pydict list \<Rightarrow> pydict list \<Rightarrow> bool" where
  "dicts_eq ds es = list_all2 dict_eq ds es"

lemma dicts_eq_refl [simp]: "dicts_eq ds ds"
  by (simp add: dicts_eq_def list.rel_refl)

lemma dicts_eq_length: "dicts_eq ds es \<Longrightarrow> length ds = length es"
  by (simp add: dicts_eq_def list_all2_lengthD)

subsection \<open>Strings\<close>

text \<open>\<^verbatim>\<open>str.isspace\<close> on one character, for the code points 0 to 255.\<close>

definition is_space :: "char \<Rightarrow> bool" where
  "is_space c = (let n = of_char c :: nat in
     (9 \<le> n \<and> n \<le> 13) \<or> (28 \<le> n \<and> n \<le> 32) \<or> n = 133 \<or> n = 160)"

definition lstrip :: "string \<Rightarrow> string" where
  "lstrip s = dropWhile is_space s"

definition strip :: "string \<Rightarrow> string" where
  "strip s = rev (dropWhile is_space (rev (lstrip s)))"

text \<open>\<^verbatim>\<open>sep.join(parts)\<close>.\<close>

fun join :: "string \<Rightarrow> string list \<Rightarrow> string" where
  "join sep [] = []"
| "join sep [s] = s"
| "join sep (s # t # ts) = s @ sep @ join sep (t # ts)"

text \<open>\<^verbatim>\<open>text.partition(sep)\<close>: the text before the first \<open>sep\<close> and the text after it, if any.\<close>

fun partition_at :: "string \<Rightarrow> string \<Rightarrow> (string \<times> string) option" where
  "partition_at sep [] = (if sep = [] then Some ([], []) else None)"
| "partition_at sep (c # cs) =
     (if prefix sep (c # cs) then Some ([], drop (length sep) (c # cs))
      else map_option (\<lambda>(a, b). (c # a, b)) (partition_at sep cs))"

lemma partition_at_Some: "partition_at sep s = Some (a, b) \<Longrightarrow> s = a @ sep @ b"
proof (induction s arbitrary: a)
  case Nil
  then show ?case by (simp split: if_splits)
next
  case (Cons c cs)
  show ?case
  proof (cases "prefix sep (c # cs)")
    case True
    with Cons.prems show ?thesis by (auto elim!: prefixE)
  next
    case False
    with Cons show ?thesis by auto
  qed
qed

text \<open>\<^verbatim>\<open>text.rpartition(sep)\<close>: the text before the last \<open>sep\<close> and the text after it, if any.\<close>

fun rpartition_at :: "string \<Rightarrow> string \<Rightarrow> (string \<times> string) option" where
  "rpartition_at sep [] = (if sep = [] then Some ([], []) else None)"
| "rpartition_at sep (c # cs) =
     (case rpartition_at sep cs of
        Some (a, b) \<Rightarrow> Some (c # a, b)
      | None \<Rightarrow> if prefix sep (c # cs) then Some ([], drop (length sep) (c # cs)) else None)"

lemma rpartition_at_Some: "rpartition_at sep s = Some (a, b) \<Longrightarrow> s = a @ sep @ b"
proof (induction s arbitrary: a)
  case Nil
  then show ?case by (simp split: if_splits)
next
  case (Cons c cs)
  then show ?case by (auto split: option.splits if_splits elim!: prefixE)
qed

lemma strip_all_space: "list_all is_space s \<Longrightarrow> strip s = []"
  by (simp add: strip_def lstrip_def list_all_iff dropWhile_eq_Nil_conv [THEN iffD2])

end
