(* ===== verification/Messages.thy ===== *)
theory Messages
  imports PyValue
begin

section \<open>Chat messages: normalization and tool definitions\<close>

text \<open>
  The message helpers of \<^verbatim>\<open>proxyserver/token_stream.py\<close>: \<^verbatim>\<open>as_token_ids\<close>,
  \<^verbatim>\<open>normalize_messages\<close>, \<^verbatim>\<open>validate_tools\<close>, \<^verbatim>\<open>_same_message\<close> and
  \<^verbatim>\<open>_extends_conversation\<close>. A message is a dictionary (\<open>pydict\<close>). Every \<^verbatim>\<open>raise\<close> of that file
  is a constructor of \<open>ts_error\<close>, carrying the numbers its text reports; the wording is not
  modelled. An exception of the tokenizer that the file does not translate is \<open>TokenizerRaised\<close>.
\<close>

datatype py_exn = TypeError | OtherError string

datatype ts_error =
    NoSessionId
  | MessagesNotList
  | MessageNotObject nat
  | UnsupportedRole nat
  | BadContentType nat
  | BadContentPart nat
  | ToolsNotList
  | NotFunctionTool
  | ToolUnnamed
  | BadToolParameters
  | StrictTool
  | RenderedNoInputIds
  | RenderedNotSequence
  | RenderedBatch nat
  | RenderedNotInt nat
  | MissingAssistantTurn nat
  | StreamEvicted
  | NoStream nat
  | ToolsChanged
  | EffortChanged
  | ReplaysExhausted nat
  | NotExtending nat nat
  | HistoryModified nat
  | NoAssistantEcho nat
  | BadGapRoles
  | PrefixNotStripped
  | UnstrippedSystemPrefix
  | HeaderMismatch string
  | CannotTokenize string
  | SystemInDelta
  | UnknownToolCall
  | ToolNameMismatch
  | HookRaised py_exn
  | TokenizerRaised py_exn

subsection \<open>Token lists\<close>

fun seq_items :: "pyval \<Rightarrow> pyval list option" where
  "seq_items (PList xs) = Some xs"
| "seq_items (PTuple xs) = Some xs"
| "seq_items _ = None"

fun token_item :: "nat \<Rightarrow> pyval \<Rightarrow> ts_error + int" where
  "token_item i (PInt n) = Inr n"
| "token_item i _ = Inl (RenderedNotInt i)"

definition as_token_ids :: "pyval \<Rightarrow> ts_error + int list" where
  "as_token_ids rendered =
     rbind (case rendered of
              PDict d \<Rightarrow> if has_key d ''input_ids'' then Inr (dget d ''input_ids'')
                          else Inl RenderedNoInputIds
            | v \<Rightarrow> Inr v)
       (\<lambda>ids. case seq_items ids of
           None \<Rightarrow> Inl RenderedNotSequence
         | Some xs \<Rightarrow>
             rbind (case xs of
                      [] \<Rightarrow> Inr []
                    | x # _ \<Rightarrow> (case seq_items x of
                          None \<Rightarrow> Inr xs
                        | Some ys \<Rightarrow> if length xs \<noteq> 1 then Inl (RenderedBatch (length xs)) else Inr ys))
               (traverse_from 0 token_item))"

lemma traverse_token_item: "traverse_from i token_item (map PInt ids) = Inr ids"
  by (induction ids arbitrary: i) simp_all

lemma as_token_ids_flat [simp]: "as_token_ids (PList (map PInt ids)) = Inr ids"
proof (cases ids)
  case Nil
  then show ?thesis by (simp add: as_token_ids_def)
next
  case (Cons j js)
  then show ?thesis
    using traverse_token_item [of 0 ids] by (simp add: as_token_ids_def)
qed

lemma token_item_Inr: "token_item i v = Inr n \<longleftrightarrow> v = PInt n"
  by (cases v) auto

text \<open>Whatever shape was rendered, the result is exactly the integers it lists, in order.\<close>

lemma traverse_token_item_Inr:
  "traverse_from i token_item xs = Inr ids \<Longrightarrow> xs = map PInt ids"
  by (induction xs arbitrary: i ids) (auto simp: result_simps token_item_Inr)

subsection \<open>Normalization\<close>

definition chat_roles :: "string list" where
  "chat_roles = [''system'', ''developer'', ''user'', ''assistant'', ''tool'']"

definition role_is :: "string \<Rightarrow> pydict \<Rightarrow> bool" where
  "role_is r m = (dget m ''role'' = PStr r)"

definition role_in :: "string list \<Rightarrow> pydict \<Rightarrow> bool" where
  "role_in rs m = (case dget m ''role'' of PStr r \<Rightarrow> r \<in> set rs | _ \<Rightarrow> False)"

text \<open>One part of a multi-part content: a string, or \<^verbatim>\<open>{"type": "text", "text": <str>}\<close>.\<close>

fun text_part :: "nat \<Rightarrow> pyval \<Rightarrow> ts_error + string" where
  "text_part i (PStr s) = Inr s"
| "text_part i (PDict d) =
     (if dget d ''type'' = PStr ''text'' then
        (case dget d ''text'' of PStr s \<Rightarrow> Inr s | _ \<Rightarrow> Inl (BadContentPart i))
      else Inl (BadContentPart i))"
| "text_part i _ = Inl (BadContentPart i)"

definition normalize_content :: "nat \<Rightarrow> pydict \<Rightarrow> ts_error + pydict" where
  "normalize_content i msg =
     (case dget msg ''content'' of
        PList parts \<Rightarrow>
          rbind (traverse_from 0 (\<lambda>_. text_part i) parts)
            (\<lambda>texts. Inr (dset ''content'' (PStr (join [CHR 10] texts)) msg))
      | _ \<Rightarrow> Inr msg)"

definition normalize_message :: "nat \<Rightarrow> pyval \<Rightarrow> ts_error + pydict" where
  "normalize_message i v =
     (case v of
        PDict msg \<Rightarrow>
          rbind (require (role_in chat_roles msg) (UnsupportedRole i)) (\<lambda>_.
          rbind (require (dget msg ''content'' = PNone \<or> is_str (dget msg ''content'')
                          \<or> is_list (dget msg ''content'')) (BadContentType i)) (\<lambda>_.
          rbind (normalize_content i msg) (\<lambda>msg.
            if role_is ''assistant'' msg \<and> has_key msg ''tool_calls'' \<and> dget msg ''content'' = PNone
            then Inr (dset ''content'' (PStr []) msg)
            else Inr msg)))
      | _ \<Rightarrow> Inl (MessageNotObject i))"

definition normalize_messages :: "pyval \<Rightarrow> ts_error + pydict list" where
  "normalize_messages messages =
     (case messages of
        PList ms \<Rightarrow> traverse_from 0 normalize_message ms
      | _ \<Rightarrow> Inl MessagesNotList)"

text \<open>
  What a normalized message is: its role is known, its content is text or absent, and an
  assistant message with tool calls has text.
\<close>

definition wf_message :: "pydict \<Rightarrow> bool" where
  "wf_message m \<longleftrightarrow> role_in chat_roles m \<and> (dget m ''content'' = PNone \<or> is_str (dget m ''content'')) \<and>
     (role_is ''assistant'' m \<and> has_key m ''tool_calls'' \<longrightarrow> dget m ''content'' \<noteq> PNone)"

lemma role_in_dset_content [simp]:
  "role_in rs (dset ''content'' v m) = role_in rs m"
  "role_is r (dset ''content'' v m) = role_is r m"
  by (simp_all add: role_in_def role_is_def)

lemma normalize_content_normal:
  "\<not> is_list (dget m ''content'') \<Longrightarrow> normalize_content i m = Inr m"
  by (cases "dget m ''content''") (auto simp: normalize_content_def)

lemma normalize_message_normalized:
  assumes "normalize_message i v = Inr m"
  shows "wf_message m"
proof -
  from assms obtain d m1 where v: "v = PDict d" and role: "role_in chat_roles d"
    and content: "dget d ''content'' = PNone \<or> is_str (dget d ''content'') \<or> is_list (dget d ''content'')"
    and m1: "normalize_content i d = Inr m1"
    and m: "m = (if role_is ''assistant'' m1 \<and> has_key m1 ''tool_calls'' \<and> dget m1 ''content'' = PNone
                 then dset ''content'' (PStr []) m1 else m1)"
    by (auto simp: normalize_message_def result_simps split: pyval.splits if_splits)
  from m1 content have "role_in chat_roles m1 = role_in chat_roles d"
    and "dget m1 ''content'' = PNone \<or> is_str (dget m1 ''content'')"
    by (auto simp: normalize_content_def result_simps split: pyval.splits)
  with role m show ?thesis by (auto simp: wf_message_def)
qed

lemma normalize_message_id: "wf_message m \<Longrightarrow> normalize_message i (PDict m) = Inr m"
  by (auto simp: normalize_message_def wf_message_def require_def type_test_iffs normalize_content_normal)

lemma normalize_messages_normalized:
  assumes "normalize_messages v = Inr ms"
  shows "\<forall>m\<in>set ms. wf_message m"
proof
  fix m assume "m \<in> set ms"
  then obtain k where k: "k < length ms" and m: "m = ms ! k" by (metis in_set_conv_nth)
  from assms obtain vs where vs: "traverse_from 0 normalize_message vs = Inr ms"
    by (auto simp: normalize_messages_def split: pyval.splits)
  with k have "normalize_message (0 + k) (vs ! k) = Inr (ms ! k)"
    by (intro traverse_from_nth) (auto dest: traverse_from_length)
  with m show "wf_message m" using normalize_message_normalized by metis
qed

lemma traverse_normalized:
  "\<forall>m\<in>set ms. wf_message m \<Longrightarrow> traverse_from i normalize_message (map PDict ms) = Inr ms"
  by (induction ms arbitrary: i) (simp_all add: normalize_message_id)

lemma normalize_messages_id:
  "\<forall>m\<in>set ms. wf_message m \<Longrightarrow> normalize_messages (PList (map PDict ms)) = Inr ms"
  by (simp add: normalize_messages_def traverse_normalized)

lemma normalize_messages_idem:
  "normalize_messages v = Inr ms \<Longrightarrow> normalize_messages (PList (map PDict ms)) = Inr ms"
  by (rule normalize_messages_id) (rule normalize_messages_normalized)

subsection \<open>Tool definitions\<close>

definition validate_tool :: "pyval \<Rightarrow> ts_error + unit" where
  "validate_tool tool =
     (case tool of
        PDict t \<Rightarrow>
          rbind (require (dget t ''type'' = PStr ''function'') NotFunctionTool) (\<lambda>_.
            case dget t ''function'' of
              PDict f \<Rightarrow>
                rbind (require (case dget f ''name'' of PStr n \<Rightarrow> strip n \<noteq> [] | _ \<Rightarrow> False) ToolUnnamed) (\<lambda>_.
                rbind (require (dget f ''parameters'' = PNone \<or> is_dict (dget f ''parameters''))
                        BadToolParameters) (\<lambda>_.
                  require (dget f ''strict'' = PNone \<or> dget f ''strict'' = PBool False) StrictTool))
            | _ \<Rightarrow> Inl ToolUnnamed)
      | _ \<Rightarrow> Inl NotFunctionTool)"

definition validate_tools :: "pyval \<Rightarrow> ts_error + unit" where
  "validate_tools tools =
     (case tools of
        PNone \<Rightarrow> Inr ()
      | PList ts \<Rightarrow> check_all validate_tool ts
      | _ \<Rightarrow> Inl ToolsNotList)"

subsection \<open>Comparing conversations\<close>

definition same_message :: "pydict \<Rightarrow> pydict \<Rightarrow> bool" where
  "same_message prev cur =
     (py_eq (dget prev ''role'') (dget cur ''role'') \<and> py_eq (dget prev ''content'') (dget cur ''content''))"

definition extends_conversation :: "pydict list \<Rightarrow> pydict list \<Rightarrow> bool" where
  "extends_conversation previous candidate =
     (length candidate > length previous \<and>
      list_all (\<lambda>(p, c). same_message p c) (zip previous candidate))"

lemma same_message_refl [simp]: "same_message m m"
  by (simp add: same_message_def)

lemma extends_conversation_append:
  "extends_conversation ms (ms @ ns) \<longleftrightarrow> ns \<noteq> []"
proof -
  have "list_all (\<lambda>(p, c). same_message p c) (zip ms (ms @ ns))"
    by (auto simp: list_all_iff set_zip nth_append)
  then show ?thesis by (auto simp: extends_conversation_def)
qed

end
