(* ===== verification/TokenStream.thy ===== *)
theory TokenStream
  imports Messages
begin

section \<open>The strict token-in-token-out stream manager\<close>

text \<open>
  \<^verbatim>\<open>TokenStreamManager\<close> of \<^verbatim>\<open>proxyserver/token_stream.py\<close>. It keeps, per stream id, the
  authoritative token stream (\<open>ss_stream\<close>) and the normalized messages of the last request, builds
  every follow-up prompt as that stream plus the tokens of the new messages only, and evicts the
  least recently used streams beyond \<open>mgr_max_sessions\<close>.

  The tokenizer is not part of the repository: it is a record of functions, an argument of the
  model (\<open>apply_chat_template\<close> with \<^verbatim>\<open>tokenize=True\<close>, the same rendering as text, and \<open>encode\<close>).
  Each may raise. The lazily filled caches of the class (\<^verbatim>\<open>_sys_ids\<close>, \<^verbatim>\<open>_gen_ids\<close>, \<^verbatim>\<open>_end_ids\<close>,
  \<^verbatim>\<open>_header_ids\<close>) are fields of the state, and a method is an action on it. Log calls are left out.
  A method is one step: the class takes its lock around the dictionary accesses, and its callers
  serialize the requests of one stream.
\<close>

subsection \<open>State\<close>

record tokenizer =
  apply_chat_template :: "pydict list \<Rightarrow> pyval \<Rightarrow> string option \<Rightarrow> py_exn + pyval"
  template_text :: "pydict list \<Rightarrow> py_exn + string"
  encode :: "string \<Rightarrow> py_exn + pyval"

record parsed_completion =
  pc_content :: "string option"
  pc_tool_calls :: "pyval list option"
  pc_finish_reason :: string
  pc_reasoning_content :: "string option"

definition message_content :: "parsed_completion \<Rightarrow> string option" where
  "message_content p =
     (case pc_tool_calls p of
        Some (c # cs) \<Rightarrow>
          (let text = strip (case pc_content p of None \<Rightarrow> [] | Some t \<Rightarrow> t)
           in if text = [] then None else Some text)
      | _ \<Rightarrow> pc_content p)"

record committed_turn =
  ct_completion_len :: nat
  ct_log_probs :: "flt list"
  ct_finish_reason :: string
  ct_engine_meta :: pydict
  ct_parsed_completion :: "parsed_completion option"
  ct_tools :: pyval

record session_state =
  ss_stream :: "int list"
  ss_messages :: "pydict list"
  ss_last_turn :: "committed_turn option"
  ss_replays :: nat
  ss_tools :: pyval
  ss_reasoning_effort :: "string option"

type_synonym delta_hook = "pydict list \<Rightarrow> pydict \<Rightarrow> ts_error + pydict list"

record manager =
  mgr_tokenizer :: tokenizer
  mgr_max_sessions :: nat
  mgr_max_turn_replays :: nat
  mgr_generation_prompt :: string
  mgr_assistant_turn_end :: string
  mgr_continuation_headers :: "string list"
  mgr_assistant_turn_endings :: "string list"
  mgr_prepare_delta :: "delta_hook option"
  mgr_default_effort :: "string option"
  mgr_sessions :: "(string, session_state) odict"
  mgr_evicted :: "(string, unit) odict"
  mgr_sys_ids :: "int list option"
  mgr_sys_ids_measured :: bool
  mgr_gen_ids :: "int list option"
  mgr_end_ids :: "int list option"
  mgr_header_ids :: "int list option"

type_synonym 'a mgr_action = "(manager, ts_error, 'a) action"

definition MAX_TURN_REPLAYS :: nat where
  "MAX_TURN_REPLAYS = 4"

definition gap_roles :: "string list" where
  "gap_roles = [''tool'', ''user'', ''system'']"

text \<open>\<^verbatim>\<open>tools or []\<close>.\<close>

definition tools_or_empty :: "pyval \<Rightarrow> pyval" where
  "tools_or_empty tools = (if truthy tools then tools else PList [])"

definition new_session_state ::
  "int list \<Rightarrow> pydict list \<Rightarrow> committed_turn option \<Rightarrow> pyval \<Rightarrow> string option \<Rightarrow> session_state" where
  "new_session_state stream msgs last_turn tools effort =
     \<lparr>ss_stream = stream, ss_messages = msgs, ss_last_turn = last_turn, ss_replays = 0,
      ss_tools = tools_or_empty tools, ss_reasoning_effort = effort\<rparr>"

definition init_manager ::
  "tokenizer \<Rightarrow> nat \<Rightarrow> string \<Rightarrow> nat \<Rightarrow> string \<Rightarrow> string list \<Rightarrow> string list \<Rightarrow> delta_hook option \<Rightarrow>
   string option \<Rightarrow> manager" where
  "init_manager tok max_sessions generation_prompt max_turn_replays assistant_turn_end
     continuation_headers assistant_turn_endings prepare_delta default_effort =
     \<lparr>mgr_tokenizer = tok, mgr_max_sessions = max_sessions,
      mgr_max_turn_replays = max_turn_replays, mgr_generation_prompt = generation_prompt,
      mgr_assistant_turn_end = assistant_turn_end,
      mgr_continuation_headers = continuation_headers,
      mgr_assistant_turn_endings = assistant_turn_endings,
      mgr_prepare_delta = prepare_delta, mgr_default_effort = default_effort,
      mgr_sessions = [], mgr_evicted = [],
      mgr_sys_ids = None, mgr_sys_ids_measured = True, mgr_gen_ids = None,
      mgr_end_ids = None, mgr_header_ids = None\<rparr>"

subsection \<open>Rendering and tokenizing\<close>

definition render :: "tokenizer \<Rightarrow> pydict list \<Rightarrow> pyval \<Rightarrow> string option \<Rightarrow> ts_error + int list" where
  "render tok msgs tools effort =
     (case apply_chat_template tok msgs tools effort of
        Inl x \<Rightarrow> Inl (TokenizerRaised x)
      | Inr r \<Rightarrow> as_token_ids r)"

definition tokenize :: "tokenizer \<Rightarrow> string \<Rightarrow> ts_error + int list" where
  "tokenize tok text =
     (case encode tok text of
        Inl TypeError \<Rightarrow> Inl (CannotTokenize text)
      | Inl x \<Rightarrow> Inl (TokenizerRaised x)
      | Inr r \<Rightarrow> as_token_ids r)"

text \<open>
  \<^verbatim>\<open>_measure_implicit_prefix\<close>: the prefix, and whether the probes isolated it. One user message
  renders as \<open>prefix + block\<close>, two as \<open>prefix + block + block\<close>.
\<close>

definition prefix_probe :: pydict where
  "prefix_probe = [(''role'', PStr ''user''), (''content'', PStr ''__rollout_proxy_prefix_probe__'')]"

definition measure_implicit_prefix :: "tokenizer \<Rightarrow> int list \<times> bool" where
  "measure_implicit_prefix tok =
     (case (render tok [prefix_probe] PNone None, render tok [prefix_probe, prefix_probe] PNone None) of
        (Inr one, Inr two) \<Rightarrow>
          (let n = 2 * int (length one) - int (length two)
           in if n < 0 \<or> two \<noteq> one @ drop (nat n) one then ([], False)
              else (take (nat n) one, True))
      | _ \<Rightarrow> ([], False))"

definition get_sys_ids :: "(int list) mgr_action" where
  "get_sys_ids m =
     (case mgr_sys_ids m of
        Some ids \<Rightarrow> (Inr ids, m)
      | None \<Rightarrow>
          (let (ids, measured) = measure_implicit_prefix (mgr_tokenizer m)
           in (Inr ids, m\<lparr>mgr_sys_ids := Some ids,
                          mgr_sys_ids_measured := mgr_sys_ids_measured m \<and> measured\<rparr>)))"

definition header_probe :: string where
  "header_probe = ''__rollout_proxy_header_probe__''"

definition measure_system_header :: "tokenizer \<Rightarrow> int list" where
  "measure_system_header tok =
     (case template_text tok [[(''role'', PStr ''system''), (''content'', PStr header_probe)]] of
        Inl _ \<Rightarrow> []
      | Inr text \<Rightarrow>
          (case partition_at header_probe text of
             Some (head, _) \<Rightarrow>
               if head \<noteq> [] then (case tokenize tok head of Inl _ \<Rightarrow> [] | Inr ids \<Rightarrow> ids) else []
           | None \<Rightarrow> []))"

definition system_header_ids :: "(int list) mgr_action" where
  "system_header_ids m =
     (case mgr_header_ids m of
        Some ids \<Rightarrow> (Inr ids, m)
      | None \<Rightarrow> (let ids = measure_system_header (mgr_tokenizer m)
                 in (Inr ids, m\<lparr>mgr_header_ids := Some ids\<rparr>)))"

definition turn_end_ids :: "(int list) mgr_action" where
  "turn_end_ids m =
     (case mgr_end_ids m of
        Some ids \<Rightarrow> (Inr ids, m)
      | None \<Rightarrow> (case tokenize (mgr_tokenizer m) (mgr_assistant_turn_end m) of
           Inl e \<Rightarrow> (Inl e, m)
         | Inr ids \<Rightarrow> (Inr ids, m\<lparr>mgr_end_ids := Some ids\<rparr>)))"

definition generation_prompt_ids :: "(int list) mgr_action" where
  "generation_prompt_ids m =
     (case mgr_gen_ids m of
        Some ids \<Rightarrow> (Inr ids, m)
      | None \<Rightarrow> (case tokenize (mgr_tokenizer m) (mgr_generation_prompt m) of
           Inl e \<Rightarrow> (Inl e, m)
         | Inr ids \<Rightarrow> (Inr ids, m\<lparr>mgr_gen_ids := Some ids\<rparr>)))"

subsection \<open>The gap and the delta\<close>

fun has_complete_ending :: "tokenizer \<Rightarrow> string list \<Rightarrow> int list \<Rightarrow> ts_error + bool" where
  "has_complete_ending tok [] stream = Inr False"
| "has_complete_ending tok (ending # es) stream =
     rbind (tokenize tok ending) (\<lambda>ids.
       if ids \<noteq> [] \<and> last_n (length ids) stream = ids then Inr True
       else has_complete_ending tok es stream)"

text \<open>\<^verbatim>\<open>for have in range(len(end), 0, -1)\<close>, from \<open>have\<close> down.\<close>

fun missing_suffix :: "nat \<Rightarrow> int list \<Rightarrow> int list \<Rightarrow> int list" where
  "missing_suffix 0 end_ids stream = end_ids"
| "missing_suffix (Suc h) end_ids stream =
     (if last_n (Suc h) stream = take (Suc h) end_ids then drop (Suc h) end_ids
      else missing_suffix h end_ids stream)"

definition turn_gap_ids :: "int list \<Rightarrow> (int list) mgr_action" where
  "turn_gap_ids stream m =
     sbind (slift (has_complete_ending (mgr_tokenizer m) (mgr_assistant_turn_endings m) stream))
       (\<lambda>complete.
         if complete then sret []
         else sbind turn_end_ids (\<lambda>end_ids. sret (missing_suffix (length end_ids) end_ids stream))) m"

definition reject_unstripped_system_prefix :: "pydict list \<Rightarrow> int list \<Rightarrow> unit mgr_action" where
  "reject_unstripped_system_prefix new_msgs delta m =
     (if mgr_sys_ids_measured m \<or> (case new_msgs of [] \<Rightarrow> False | msg # _ \<Rightarrow> role_is ''system'' msg)
      then (Inr (), m)
      else sbind system_header_ids (\<lambda>header.
        slift (require (\<not> (header \<noteq> [] \<and> take (length header) delta = header)) UnstrippedSystemPrefix)) m)"

fun strip_continuation_header ::
  "tokenizer \<Rightarrow> string list \<Rightarrow> int list \<Rightarrow> int list \<Rightarrow> ts_error + int list" where
  "strip_continuation_header tok [] stream delta = Inr delta"
| "strip_continuation_header tok (header # hs) stream delta =
     rbind (tokenize tok header) (\<lambda>ids.
       if ids \<noteq> [] \<and> last_n (length ids) stream = ids then
         (if take (length ids) delta \<noteq> ids then Inl (HeaderMismatch header)
          else Inr (drop (length ids) delta))
       else strip_continuation_header tok hs stream delta)"

definition first_mismatch :: "pydict list \<Rightarrow> pydict list \<Rightarrow> nat option" where
  "first_mismatch previous current =
     (case filter (\<lambda>(i, p, c). \<not> same_message p c) (zip [0..<length previous] (zip previous current)) of
        [] \<Rightarrow> None | (i, _) # _ \<Rightarrow> Some i)"

text \<open>The structural checks of \<^verbatim>\<open>_delta_ids\<close>; the result is the list of new messages.\<close>

definition check_continuation :: "session_state \<Rightarrow> pydict list \<Rightarrow> ts_error + pydict list" where
  "check_continuation state normalized =
     (let n_prev = length (ss_messages state) in
      rbind (require (length normalized \<ge> n_prev + 2) (NotExtending (length normalized) (n_prev + 2))) (\<lambda>_.
      rbind (case first_mismatch (ss_messages state) normalized of
               Some i \<Rightarrow> Inl (HistoryModified i) | None \<Rightarrow> Inr ()) (\<lambda>_.
      rbind (require (role_is ''assistant'' (normalized ! n_prev)) (NoAssistantEcho n_prev)) (\<lambda>_.
        let new_msgs = drop (n_prev + 1) normalized in
        rbind (require (list_all (role_in gap_roles) new_msgs) BadGapRoles) (\<lambda>_. Inr new_msgs)))))"

text \<open>
  The assistant message a profile hook sees: the parsed completion the proxy served, when cached,
  else the echo of the request.
\<close>

definition echo_for_hook :: "session_state \<Rightarrow> pydict \<Rightarrow> pydict" where
  "echo_for_hook state echo =
     (case ss_last_turn state of
        None \<Rightarrow> echo
      | Some t \<Rightarrow> (case ct_parsed_completion t of
          None \<Rightarrow> echo
        | Some p \<Rightarrow>
            [(''role'', PStr ''assistant''),
             (''content'', case message_content p of None \<Rightarrow> PNone | Some c \<Rightarrow> PStr c),
             (''tool_calls'', case pc_tool_calls p of None \<Rightarrow> PNone | Some cs \<Rightarrow> PList cs)]))"

definition prepare_new_messages ::
  "delta_hook option \<Rightarrow> session_state \<Rightarrow> pydict list \<Rightarrow> pydict \<Rightarrow> ts_error + pydict list" where
  "prepare_new_messages hook state new_msgs echo =
     (case hook of None \<Rightarrow> Inr new_msgs | Some f \<Rightarrow> f new_msgs (echo_for_hook state echo))"

definition strip_implicit_prefix :: "int list \<Rightarrow> bool \<Rightarrow> int list \<Rightarrow> ts_error + int list" where
  "strip_implicit_prefix sys_ids measured delta =
     (if sys_ids = [] then Inr delta
      else if take (length sys_ids) delta = sys_ids then Inr (drop (length sys_ids) delta)
      else if measured then Inl PrefixNotStripped
      else Inr delta)"

definition delta_ids :: "session_state \<Rightarrow> pydict list \<Rightarrow> (int list) mgr_action" where
  "delta_ids state normalized m =
     sbind (slift (check_continuation state normalized)) (\<lambda>new_msgs.
     sbind (slift (prepare_new_messages (mgr_prepare_delta m) state new_msgs
                    (normalized ! length (ss_messages state)))) (\<lambda>new_msgs.
     sbind (slift (render (mgr_tokenizer m) new_msgs PNone None)) (\<lambda>delta.
     sbind get_sys_ids (\<lambda>sys_ids.
     sbind (\<lambda>m. slift (strip_implicit_prefix sys_ids (mgr_sys_ids_measured m) delta) m) (\<lambda>delta.
     sbind (reject_unstripped_system_prefix new_msgs delta) (\<lambda>_.
     sbind (slift (strip_continuation_header (mgr_tokenizer m) (mgr_continuation_headers m)
                    (ss_stream state) delta)) (\<lambda>delta.
     sbind (turn_gap_ids (ss_stream state)) (\<lambda>gap.
     sbind generation_prompt_ids (\<lambda>gen.
       sret (gap @ delta @ gen)))))))))) m"

subsection \<open>Prompts\<close>

definition full_render :: "pydict list \<Rightarrow> pyval \<Rightarrow> string option \<Rightarrow> (int list) mgr_action" where
  "full_render normalized tools effort m =
     sbind (slift (render (mgr_tokenizer m) normalized tools
              (if effort \<noteq> None \<and> effort \<noteq> mgr_default_effort m then effort else None))) (\<lambda>ids.
     sbind generation_prompt_ids (\<lambda>gen. sret (ids @ gen))) m"

definition check_reasoning_effort :: "session_state \<Rightarrow> string option \<Rightarrow> ts_error + unit" where
  "check_reasoning_effort state effort = require (effort = ss_reasoning_effort state) EffortChanged"

fun first_assistant :: "pydict list \<Rightarrow> nat option" where
  "first_assistant [] = None"
| "first_assistant (m # ms) =
     (if role_is ''assistant'' m then Some 0 else map_option Suc (first_assistant ms))"

definition build_prompt ::
  "string option \<Rightarrow> pyval \<Rightarrow> pyval \<Rightarrow> string option \<Rightarrow> (int list) mgr_action" where
  "build_prompt session_id messages tools effort m =
     (case session_id of
        None \<Rightarrow> (Inl NoSessionId, m)
      | Some sid \<Rightarrow>
          sbind (slift (normalize_messages messages)) (\<lambda>normalized.
          sbind (slift (validate_tools tools)) (\<lambda>_ m.
            let state = map_of (mgr_sessions m) sid;
                evicted = map_of (mgr_evicted m) sid \<noteq> None;
                m = m\<lparr>mgr_sessions := od_touch sid (mgr_sessions m)\<rparr>
            in case first_assistant normalized of
                 None \<Rightarrow>
                   (case state of
                      Some s \<Rightarrow>
                        if extends_conversation (ss_messages s) normalized
                        then (Inl (MissingAssistantTurn (length (ss_messages s))), m)
                        else full_render normalized tools effort m
                    | None \<Rightarrow> full_render normalized tools effort m)
               | Some pos \<Rightarrow>
                   (case state of
                      None \<Rightarrow> (Inl (if evicted then StreamEvicted else NoStream pos), m)
                    | Some s \<Rightarrow>
                        sbind (slift (require (py_eq (tools_or_empty tools) (ss_tools s)) ToolsChanged)) (\<lambda>_.
                        sbind (slift (check_reasoning_effort s effort)) (\<lambda>_.
                        sbind (delta_ids s normalized) (\<lambda>delta. sret (ss_stream s @ delta)))) m))) m)"

subsection \<open>Commit, replay and release\<close>

type_synonym turn_result = "int list \<times> int list \<times> flt list \<times> string \<times> pydict"

definition replay_of :: "session_state \<Rightarrow> committed_turn \<Rightarrow> turn_result" where
  "replay_of state turn =
     (drop_last (ct_completion_len turn) (ss_stream state),
      last_n (ct_completion_len turn) (ss_stream state),
      ct_log_probs turn, ct_finish_reason turn, ct_engine_meta turn)"

definition cached_turn ::
  "string option \<Rightarrow> pyval \<Rightarrow> string option \<Rightarrow> (turn_result option) mgr_action" where
  "cached_turn session_id messages effort m =
     (case session_id of
        None \<Rightarrow> (Inr None, m)
      | Some sid \<Rightarrow>
          (case map_of (mgr_sessions m) sid of
             None \<Rightarrow> (Inr None, m)
           | Some state \<Rightarrow>
               (case ss_last_turn state of
                  None \<Rightarrow> (Inr None, m)
                | Some turn \<Rightarrow>
                    sbind (slift (normalize_messages messages)) (\<lambda>normalized.
                      if \<not> dicts_eq normalized (ss_messages state) then sret None
                      else
                        sbind (slift (check_reasoning_effort state effort)) (\<lambda>_.
                        sbind (slift (require (ss_replays state < mgr_max_turn_replays m)
                                       (ReplaysExhausted (ss_replays state)))) (\<lambda>_ m.
                          (Inr (Some (replay_of state turn)),
                           m\<lparr>mgr_sessions := od_put sid (state\<lparr>ss_replays := Suc (ss_replays state)\<rparr>)
                                              (mgr_sessions m)\<rparr>)))) m)))"

definition committed_turn :: "manager \<Rightarrow> string \<Rightarrow> int list \<Rightarrow> committed_turn option" where
  "committed_turn m sid completion_ids =
     (case map_of (mgr_sessions m) sid of
        None \<Rightarrow> None
      | Some state \<Rightarrow>
          (case ss_last_turn state of
             None \<Rightarrow> None
           | Some turn \<Rightarrow>
               if length completion_ids \<noteq> ct_completion_len turn
                  \<or> last_n (ct_completion_len turn) (ss_stream state) \<noteq> completion_ids
               then None else Some turn))"

definition push_evicted :: "nat \<Rightarrow> string \<Rightarrow> (string, unit) odict \<Rightarrow> (string, unit) odict" where
  "push_evicted cap k ev = (let ev = AList.update k () ev in if length ev > cap then tl ev else ev)"

fun evict_excess ::
  "nat \<Rightarrow> (string, session_state) odict \<Rightarrow> (string, unit) odict \<Rightarrow>
   (string, session_state) odict \<times> (string, unit) odict" where
  "evict_excess cap [] ev = ([], ev)"
| "evict_excess cap (e # rest) ev =
     (if length (e # rest) > cap then evict_excess cap rest (push_evicted cap (fst e) ev)
      else (e # rest, ev))"

definition turn_to_cache ::
  "int list \<Rightarrow> flt list option \<Rightarrow> string option \<Rightarrow> pydict option \<Rightarrow> pyval \<Rightarrow> committed_turn option" where
  "turn_to_cache completion_ids log_probs finish_reason engine_meta tools =
     (case (log_probs, finish_reason) of
        (Some lps, Some reason) \<Rightarrow>
          if completion_ids \<noteq> [] then
            Some \<lparr>ct_completion_len = length completion_ids, ct_log_probs = lps,
                  ct_finish_reason = reason,
                  ct_engine_meta = (case engine_meta of None \<Rightarrow> [] | Some d \<Rightarrow> d),
                  ct_parsed_completion = None, ct_tools = tools\<rparr>
          else None
      | _ \<Rightarrow> None)"

definition commit ::
  "string \<Rightarrow> pyval \<Rightarrow> int list \<Rightarrow> int list \<Rightarrow> flt list option \<Rightarrow> string option \<Rightarrow> pydict option \<Rightarrow> pyval \<Rightarrow>
   string option \<Rightarrow> unit mgr_action" where
  "commit sid messages prompt_ids completion_ids log_probs finish_reason engine_meta tools effort m =
     (let last_turn = turn_to_cache completion_ids log_probs finish_reason engine_meta tools
      in sbind (slift (normalize_messages messages)) (\<lambda>normalized m.
           let state = new_session_state (prompt_ids @ completion_ids) normalized last_turn tools effort;
               (sessions, evicted) =
                 evict_excess (mgr_max_sessions m) (od_put sid state (mgr_sessions m))
                   (od_pop sid (mgr_evicted m))
           in (Inr (), m\<lparr>mgr_sessions := sessions, mgr_evicted := evicted\<rparr>)) m)"

definition drop_stream :: "string \<Rightarrow> manager \<Rightarrow> manager" where
  "drop_stream sid m =
     m\<lparr>mgr_sessions := od_pop sid (mgr_sessions m), mgr_evicted := od_pop sid (mgr_evicted m)\<rparr>"

definition has_session :: "string \<Rightarrow> manager \<Rightarrow> bool" where
  "has_session sid m = (map_of (mgr_sessions m) sid \<noteq> None)"

text \<open>
  What \<^verbatim>\<open>parse_completion\<close> (\<^verbatim>\<open>rollout_base.py\<close>) does with a parsed completion of the committed turn:
  publish it unless one is there already, and serve the published one.
\<close>

definition publish_parsed ::
  "string \<Rightarrow> int list \<Rightarrow> parsed_completion \<Rightarrow> manager \<Rightarrow> parsed_completion \<times> manager" where
  "publish_parsed sid token_ids result m =
     (case committed_turn m sid token_ids of
        None \<Rightarrow> (result, m)
      | Some turn \<Rightarrow>
          (case ct_parsed_completion turn of
             Some p \<Rightarrow> (p, m)
           | None \<Rightarrow>
               (result,
                m\<lparr>mgr_sessions := map (\<lambda>(k, s). (k, if k = sid
                     then s\<lparr>ss_last_turn := Some (turn\<lparr>ct_parsed_completion := Some result\<rparr>)\<rparr> else s))
                   (mgr_sessions m)\<rparr>)))"

subsection \<open>The caches are transparent\<close>

text \<open>
  The abstract specification of a follow-up prompt: the same computation without any cache, a
  pure function of the configuration, the stream state and the request.
\<close>

definition gap_spec :: "manager \<Rightarrow> int list \<Rightarrow> ts_error + int list" where
  "gap_spec m stream =
     rbind (has_complete_ending (mgr_tokenizer m) (mgr_assistant_turn_endings m) stream) (\<lambda>complete.
       if complete then Inr []
       else rbind (tokenize (mgr_tokenizer m) (mgr_assistant_turn_end m)) (\<lambda>end_ids.
         Inr (missing_suffix (length end_ids) end_ids stream)))"

definition reject_spec :: "tokenizer \<Rightarrow> bool \<Rightarrow> pydict list \<Rightarrow> int list \<Rightarrow> ts_error + unit" where
  "reject_spec tok measured new_msgs delta =
     (if measured \<or> (case new_msgs of [] \<Rightarrow> False | msg # _ \<Rightarrow> role_is ''system'' msg) then Inr ()
      else (let header = measure_system_header tok
            in require (\<not> (header \<noteq> [] \<and> take (length header) delta = header)) UnstrippedSystemPrefix))"

text \<open>The tokens of the new messages: rendered, without the implicit prefix and a sampled header.\<close>

definition new_message_tokens :: "manager \<Rightarrow> session_state \<Rightarrow> pydict list \<Rightarrow> ts_error + int list" where
  "new_message_tokens m state normalized =
     rbind (check_continuation state normalized) (\<lambda>new_msgs.
     rbind (prepare_new_messages (mgr_prepare_delta m) state new_msgs
             (normalized ! length (ss_messages state))) (\<lambda>new_msgs.
     rbind (render (mgr_tokenizer m) new_msgs PNone None) (\<lambda>delta.
     rbind (strip_implicit_prefix (fst (measure_implicit_prefix (mgr_tokenizer m)))
             (snd (measure_implicit_prefix (mgr_tokenizer m))) delta) (\<lambda>delta.
     rbind (reject_spec (mgr_tokenizer m) (snd (measure_implicit_prefix (mgr_tokenizer m)))
             new_msgs delta) (\<lambda>_.
       strip_continuation_header (mgr_tokenizer m) (mgr_continuation_headers m)
         (ss_stream state) delta)))))"

definition delta_spec :: "manager \<Rightarrow> session_state \<Rightarrow> pydict list \<Rightarrow> ts_error + int list" where
  "delta_spec m state normalized =
     rbind (new_message_tokens m state normalized) (\<lambda>delta.
     rbind (gap_spec m (ss_stream state)) (\<lambda>gap.
     rbind (tokenize (mgr_tokenizer m) (mgr_generation_prompt m)) (\<lambda>gen.
       Inr (gap @ delta @ gen))))"

text \<open>A state's caches hold what a fresh computation would; \<open>clear_caches\<close> forgets them.\<close>

definition caches_ok :: "manager \<Rightarrow> bool" where
  "caches_ok m \<longleftrightarrow>
     (\<forall>ids. mgr_gen_ids m = Some ids \<longrightarrow> tokenize (mgr_tokenizer m) (mgr_generation_prompt m) = Inr ids) \<and>
     (\<forall>ids. mgr_end_ids m = Some ids \<longrightarrow> tokenize (mgr_tokenizer m) (mgr_assistant_turn_end m) = Inr ids) \<and>
     (\<forall>ids. mgr_header_ids m = Some ids \<longrightarrow> ids = measure_system_header (mgr_tokenizer m)) \<and>
     (case mgr_sys_ids m of
        None \<Rightarrow> mgr_sys_ids_measured m
      | Some ids \<Rightarrow> measure_implicit_prefix (mgr_tokenizer m) = (ids, mgr_sys_ids_measured m))"

definition clear_caches :: "manager \<Rightarrow> manager" where
  "clear_caches m =
     m\<lparr>mgr_sys_ids := None, mgr_sys_ids_measured := True, mgr_gen_ids := None,
       mgr_end_ids := None, mgr_header_ids := None\<rparr>"

definition warmed :: "manager \<Rightarrow> manager \<Rightarrow> bool" where
  "warmed m m' \<longleftrightarrow> clear_caches m' = clear_caches m \<and> (caches_ok m \<longrightarrow> caches_ok m')"

lemma warmed_refl [simp]: "warmed m m"
  by (simp add: warmed_def)

lemma warmed_trans: "warmed m m' \<Longrightarrow> warmed m' m'' \<Longrightarrow> warmed m m''"
  by (simp add: warmed_def)

lemma clear_caches_fields:
  assumes "clear_caches m' = clear_caches m"
  shows "mgr_tokenizer m' = mgr_tokenizer m" "mgr_max_sessions m' = mgr_max_sessions m"
    "mgr_max_turn_replays m' = mgr_max_turn_replays m"
    "mgr_generation_prompt m' = mgr_generation_prompt m"
    "mgr_assistant_turn_end m' = mgr_assistant_turn_end m"
    "mgr_continuation_headers m' = mgr_continuation_headers m"
    "mgr_assistant_turn_endings m' = mgr_assistant_turn_endings m"
    "mgr_prepare_delta m' = mgr_prepare_delta m" "mgr_default_effort m' = mgr_default_effort m"
    "mgr_sessions m' = mgr_sessions m" "mgr_evicted m' = mgr_evicted m"
  using arg_cong [OF assms, of mgr_tokenizer]
    arg_cong [OF assms, of mgr_max_sessions]
    arg_cong [OF assms, of mgr_max_turn_replays]
    arg_cong [OF assms, of mgr_generation_prompt]
    arg_cong [OF assms, of mgr_assistant_turn_end]
    arg_cong [OF assms, of mgr_continuation_headers]
    arg_cong [OF assms, of mgr_assistant_turn_endings]
    arg_cong [OF assms, of mgr_prepare_delta]
    arg_cong [OF assms, of mgr_default_effort]
    arg_cong [OF assms, of mgr_sessions]
    arg_cong [OF assms, of mgr_evicted]
  by (simp_all add: clear_caches_def)

lemma warmed_clear: "warmed m m' \<Longrightarrow> clear_caches m' = clear_caches m"
  by (simp add: warmed_def)

lemmas warmed_fields = clear_caches_fields [OF warmed_clear]

lemma warmed_caches_ok: "caches_ok m \<Longrightarrow> warmed m m' \<Longrightarrow> caches_ok m'"
  by (simp add: warmed_def)

lemma get_sys_ids_spec:
  assumes "caches_ok m"
  obtains m' where "get_sys_ids m = (Inr (fst (measure_implicit_prefix (mgr_tokenizer m))), m')"
    and "warmed m m'" and "mgr_sys_ids_measured m' = snd (measure_implicit_prefix (mgr_tokenizer m))"
proof (cases "mgr_sys_ids m")
  case (Some ids)
  with assms have "measure_implicit_prefix (mgr_tokenizer m) = (ids, mgr_sys_ids_measured m)"
    by (simp add: caches_ok_def)
  with Some show ?thesis by (intro that [of m]) (simp_all add: get_sys_ids_def)
next
  case None
  obtain ids b where mm: "measure_implicit_prefix (mgr_tokenizer m) = (ids, b)" by fastforce
  let ?m = "m\<lparr>mgr_sys_ids := Some ids, mgr_sys_ids_measured := b\<rparr>"
  from assms None have "mgr_sys_ids_measured m" by (simp add: caches_ok_def)
  with None mm have "get_sys_ids m = (Inr ids, ?m)"
    by (simp add: get_sys_ids_def)
  moreover have "warmed m ?m"
    using None mm by (auto simp: warmed_def clear_caches_def caches_ok_def)
  ultimately show ?thesis using mm by (intro that [of ?m]) simp_all
qed

lemma system_header_ids_spec:
  assumes "caches_ok m"
  obtains m' where "system_header_ids m = (Inr (measure_system_header (mgr_tokenizer m)), m')"
    and "warmed m m'"
proof (cases "mgr_header_ids m")
  case (Some ids)
  with assms show ?thesis by (intro that [of m]) (auto simp: system_header_ids_def caches_ok_def)
next
  case None
  let ?m = "m\<lparr>mgr_header_ids := Some (measure_system_header (mgr_tokenizer m))\<rparr>"
  have "warmed m ?m" by (auto simp: warmed_def clear_caches_def caches_ok_def split: option.splits)
  with None show ?thesis by (intro that [of ?m]) (simp_all add: system_header_ids_def Let_def)
qed

lemma turn_end_ids_spec:
  assumes "caches_ok m"
  obtains m' where "turn_end_ids m = (tokenize (mgr_tokenizer m) (mgr_assistant_turn_end m), m')"
    and "warmed m m'"
proof (cases "mgr_end_ids m")
  case (Some ids)
  with assms show ?thesis by (intro that [of m]) (auto simp: turn_end_ids_def caches_ok_def)
next
  case None
  show ?thesis
  proof (cases "tokenize (mgr_tokenizer m) (mgr_assistant_turn_end m)")
    case (Inl e)
    with None show ?thesis by (intro that [of m]) (auto simp: turn_end_ids_def)
  next
    case (Inr ids)
    let ?m = "m\<lparr>mgr_end_ids := Some ids\<rparr>"
    have "warmed m ?m"
      using Inr by (auto simp: warmed_def clear_caches_def caches_ok_def split: option.splits)
    with None Inr show ?thesis by (intro that [of ?m]) (simp_all add: turn_end_ids_def)
  qed
qed

lemma generation_prompt_ids_spec:
  assumes "caches_ok m"
  obtains m' where "generation_prompt_ids m = (tokenize (mgr_tokenizer m) (mgr_generation_prompt m), m')"
    and "warmed m m'"
proof (cases "mgr_gen_ids m")
  case (Some ids)
  with assms show ?thesis by (intro that [of m]) (auto simp: generation_prompt_ids_def caches_ok_def)
next
  case None
  show ?thesis
  proof (cases "tokenize (mgr_tokenizer m) (mgr_generation_prompt m)")
    case (Inl e)
    with None show ?thesis by (intro that [of m]) (auto simp: generation_prompt_ids_def)
  next
    case (Inr ids)
    let ?m = "m\<lparr>mgr_gen_ids := Some ids\<rparr>"
    have "warmed m ?m"
      using Inr by (auto simp: warmed_def clear_caches_def caches_ok_def split: option.splits)
    with None Inr show ?thesis by (intro that [of ?m]) (simp_all add: generation_prompt_ids_def)
  qed
qed

lemma turn_gap_ids_spec:
  assumes "caches_ok m"
  obtains m' where "turn_gap_ids stream m = (gap_spec m stream, m')" and "warmed m m'"
proof -
  obtain m1 where m1: "turn_end_ids m = (tokenize (mgr_tokenizer m) (mgr_assistant_turn_end m), m1)"
    "warmed m m1"
    using turn_end_ids_spec [OF assms] .
  show ?thesis
  proof (cases "has_complete_ending (mgr_tokenizer m) (mgr_assistant_turn_endings m) stream")
    case (Inl e)
    then show ?thesis by (intro that [of m]) (simp_all add: turn_gap_ids_def gap_spec_def sbind_slift)
  next
    case (Inr b)
    show ?thesis
    proof (cases b)
      case True
      with Inr show ?thesis
        by (intro that [of m]) (simp_all add: turn_gap_ids_def gap_spec_def sbind_slift)
    next
      case False
      with Inr m1 show ?thesis
        by (intro that [of m1])
          (simp_all add: turn_gap_ids_def gap_spec_def sbind_slift sbind_def split: sum.splits)
    qed
  qed
qed

lemma reject_spec:
  assumes "caches_ok m"
  obtains m' where "reject_unstripped_system_prefix new_msgs delta m =
      (reject_spec (mgr_tokenizer m) (mgr_sys_ids_measured m) new_msgs delta, m')" and "warmed m m'"
proof (cases "mgr_sys_ids_measured m \<or> (case new_msgs of [] \<Rightarrow> False | msg # _ \<Rightarrow> role_is ''system'' msg)")
  case True
  then show ?thesis
    by (intro that [of m]) (simp_all add: reject_unstripped_system_prefix_def reject_spec_def)
next
  case False
  obtain m1 where "system_header_ids m = (Inr (measure_system_header (mgr_tokenizer m)), m1)" "warmed m m1"
    using system_header_ids_spec [OF assms] .
  with False show ?thesis
    by (intro that [of m1]) (simp_all add: reject_unstripped_system_prefix_def reject_spec_def Let_def)
qed

lemmas delta_unfolds = delta_ids_def delta_spec_def new_message_tokens_def sbind_slift

lemma delta_tail_spec:
  assumes "caches_ok m" and "caches_ok m1" and "warmed m m1"
  obtains m' where
    "sbind (slift (strip_continuation_header (mgr_tokenizer m) (mgr_continuation_headers m) stream delta)) (\<lambda>delta.
       sbind (turn_gap_ids stream) (\<lambda>gap.
       sbind generation_prompt_ids (\<lambda>gen. sret (gap @ delta @ gen)))) m1 =
     (rbind (strip_continuation_header (mgr_tokenizer m) (mgr_continuation_headers m) stream delta) (\<lambda>delta.
        rbind (gap_spec m stream) (\<lambda>gap.
        rbind (tokenize (mgr_tokenizer m) (mgr_generation_prompt m)) (\<lambda>gen. Inr (gap @ delta @ gen)))), m')"
    and "warmed m m'"
proof (cases "strip_continuation_header (mgr_tokenizer m) (mgr_continuation_headers m) stream delta")
  case (Inl e)
  with assms(3) show ?thesis by (intro that [of m1]) (simp_all add: sbind_slift)
next
  case (Inr d)
  obtain m2 where m2: "turn_gap_ids stream m1 = (gap_spec m1 stream, m2)" "warmed m1 m2"
    using turn_gap_ids_spec [OF assms(2)] .
  have gap: "gap_spec m1 stream = gap_spec m stream"
    unfolding gap_spec_def warmed_fields [OF assms(3)] by (rule refl)
  have w2: "warmed m m2" using assms(3) m2(2) by (rule warmed_trans)
  show ?thesis
  proof (cases "gap_spec m stream")
    case (Inl e)
    with Inr m2 gap w2 show ?thesis by (intro that [of m2]) (simp_all add: sbind_slift)
  next
    case (Inr g)
    obtain m3 where m3: "generation_prompt_ids m2 =
        (tokenize (mgr_tokenizer m2) (mgr_generation_prompt m2), m3)" "warmed m2 m3"
      using generation_prompt_ids_spec [OF warmed_caches_ok [OF assms(1) w2]] .
    have eq: "tokenize (mgr_tokenizer m2) (mgr_generation_prompt m2) =
        tokenize (mgr_tokenizer m) (mgr_generation_prompt m)"
      using warmed_fields [OF w2] by simp
    have "warmed m m3" using w2 m3(2) by (rule warmed_trans)
    with \<open>strip_continuation_header _ _ _ _ = Inr d\<close> Inr m2 m3 gap eq show ?thesis
      by (intro that [of m3]; cases "tokenize (mgr_tokenizer m) (mgr_generation_prompt m)")
        (simp_all add: sbind_slift)
  qed
qed

text \<open>
  The refinement: with coherent caches, the cached computation returns or raises exactly what the
  specification says, changes nothing but the caches, and leaves them coherent.
\<close>

lemma delta_ids_refines:
  assumes ok: "caches_ok m"
  obtains m' where "delta_ids state normalized m = (delta_spec m state normalized, m')"
    and "warmed m m'"
proof (cases "check_continuation state normalized")
  case (Inl e)
  then show ?thesis by (intro that [of m]) (simp_all add: delta_unfolds)
next
  case c: (Inr msgs)
  show ?thesis
  proof (cases "prepare_new_messages (mgr_prepare_delta m) state msgs
      (normalized ! length (ss_messages state))")
    case (Inl e)
    with c show ?thesis by (intro that [of m]) (simp_all add: delta_unfolds)
  next
    case p: (Inr msgs')
    show ?thesis
    proof (cases "render (mgr_tokenizer m) msgs' PNone None")
      case (Inl e)
      with c p show ?thesis by (intro that [of m]) (simp_all add: delta_unfolds)
    next
      case r: (Inr d)
      let ?S = "measure_implicit_prefix (mgr_tokenizer m)"
      obtain m1 where m1: "get_sys_ids m = (Inr (fst ?S), m1)" "warmed m m1"
        "mgr_sys_ids_measured m1 = snd ?S"
        using get_sys_ids_spec [OF ok] .
      note ok1 = warmed_caches_ok [OF ok m1(2)]
      show ?thesis
      proof (cases "strip_implicit_prefix (fst ?S) (snd ?S) d")
        case (Inl e)
        with c p r m1 show ?thesis by (intro that [of m1]) (simp_all add: delta_unfolds)
      next
        case s: (Inr d')
        obtain m2 where m2: "reject_unstripped_system_prefix msgs' d' m1 =
            (reject_spec (mgr_tokenizer m1) (mgr_sys_ids_measured m1) msgs' d', m2)" "warmed m1 m2"
          using reject_spec [OF ok1] .
        have w2: "warmed m m2" using m1(2) m2(2) by (rule warmed_trans)
        note m2' = m2(1) [unfolded m1(3) warmed_fields [OF m1(2)]]
        show ?thesis
        proof (cases "reject_spec (mgr_tokenizer m) (snd ?S) msgs' d'")
          case (Inl e)
          with c p r m1 s m2' w2 show ?thesis by (intro that [of m2]) (simp_all add: delta_unfolds)
        next
          case (Inr u)
          obtain m3 where
            "sbind (slift (strip_continuation_header (mgr_tokenizer m) (mgr_continuation_headers m)
                 (ss_stream state) d')) (\<lambda>delta.
               sbind (turn_gap_ids (ss_stream state)) (\<lambda>gap.
               sbind generation_prompt_ids (\<lambda>gen. sret (gap @ delta @ gen)))) m2 =
             (rbind (strip_continuation_header (mgr_tokenizer m) (mgr_continuation_headers m)
                 (ss_stream state) d') (\<lambda>delta.
               rbind (gap_spec m (ss_stream state)) (\<lambda>gap.
               rbind (tokenize (mgr_tokenizer m) (mgr_generation_prompt m)) (\<lambda>gen.
                 Inr (gap @ delta @ gen)))), m3)" and "warmed m m3"
            using delta_tail_spec [OF ok warmed_caches_ok [OF ok w2] w2] .
          with c p r m1 s m2' Inr show ?thesis by (intro that [of m3]) (simp_all add: delta_unfolds)
        qed
      qed
    qed
  qed
qed

lemma full_render_refines:
  assumes ok: "caches_ok m"
  obtains m' where "full_render normalized tools effort m =
      (rbind (render (mgr_tokenizer m) normalized tools
                (if effort \<noteq> None \<and> effort \<noteq> mgr_default_effort m then effort else None)) (\<lambda>ids.
       rbind (tokenize (mgr_tokenizer m) (mgr_generation_prompt m)) (\<lambda>gen. Inr (ids @ gen))), m')"
    and "warmed m m'"
proof (cases "render (mgr_tokenizer m) normalized tools
    (if effort \<noteq> None \<and> effort \<noteq> mgr_default_effort m then effort else None)")
  case (Inl e)
  then show ?thesis by (intro that [of m]) (simp_all add: full_render_def sbind_slift del: not_None_eq)
next
  case (Inr ids)
  obtain m1 where m1: "generation_prompt_ids m =
      (tokenize (mgr_tokenizer m) (mgr_generation_prompt m), m1)" "warmed m m1"
    using generation_prompt_ids_spec [OF ok] .
  with Inr show ?thesis
    by (intro that [of m1]; cases "tokenize (mgr_tokenizer m) (mgr_generation_prompt m)")
      (simp_all add: full_render_def sbind_slift del: not_None_eq)
qed

text \<open>The specification of \<open>build_prompt\<close>: its outcome, and the touch of the stream it leaves.\<close>

definition prompt_spec ::
  "manager \<Rightarrow> string option \<Rightarrow> pyval \<Rightarrow> pyval \<Rightarrow> string option \<Rightarrow> ts_error + int list" where
  "prompt_spec m session_id messages tools effort =
     (case session_id of
        None \<Rightarrow> Inl NoSessionId
      | Some sid \<Rightarrow>
          rbind (normalize_messages messages) (\<lambda>normalized.
          rbind (validate_tools tools) (\<lambda>_.
            case first_assistant normalized of
              None \<Rightarrow>
                rbind (case map_of (mgr_sessions m) sid of
                         Some s \<Rightarrow> require (\<not> extends_conversation (ss_messages s) normalized)
                                      (MissingAssistantTurn (length (ss_messages s)))
                       | None \<Rightarrow> Inr ())
                (\<lambda>_. rbind (render (mgr_tokenizer m) normalized tools
                       (if effort \<noteq> None \<and> effort \<noteq> mgr_default_effort m then effort else None)) (\<lambda>ids.
                     rbind (tokenize (mgr_tokenizer m) (mgr_generation_prompt m)) (\<lambda>gen. Inr (ids @ gen))))
            | Some pos \<Rightarrow>
                (case map_of (mgr_sessions m) sid of
                   None \<Rightarrow> Inl (if map_of (mgr_evicted m) sid \<noteq> None then StreamEvicted else NoStream pos)
                 | Some s \<Rightarrow>
                     rbind (require (py_eq (tools_or_empty tools) (ss_tools s)) ToolsChanged) (\<lambda>_.
                     rbind (check_reasoning_effort s effort) (\<lambda>_.
                     rbind (delta_spec m s normalized) (\<lambda>delta. Inr (ss_stream s @ delta))))))))"

text \<open>
  \<open>touched sid m m'\<close>: \<open>m'\<close> is \<open>m\<close>, up to caches, with the recency of stream \<open>sid\<close> possibly
  refreshed. It is all a prompt construction may change.
\<close>

definition touched :: "string option \<Rightarrow> manager \<Rightarrow> manager \<Rightarrow> bool" where
  "touched session_id m m' \<longleftrightarrow> warmed m m' \<or>
     (\<exists>sid. session_id = Some sid \<and> warmed (m\<lparr>mgr_sessions := od_touch sid (mgr_sessions m)\<rparr>) m')"

lemma caches_ok_sessions [simp]:
  "caches_ok (m\<lparr>mgr_sessions := x\<rparr>) = caches_ok m"
  "caches_ok (m\<lparr>mgr_evicted := y\<rparr>) = caches_ok m"
  by (simp_all add: caches_ok_def cong del: option.case_cong_weak)

lemma touched_warmed [intro]: "warmed m m' \<Longrightarrow> touched session_id m m'"
  by (simp add: touched_def)

lemma touched_caches_ok: "touched session_id m m' \<Longrightarrow> caches_ok m \<Longrightarrow> caches_ok m'"
  by (auto simp: touched_def warmed_def)

lemma spec_sessions_update [simp]:
  "delta_spec (m\<lparr>mgr_sessions := x\<rparr>) state ms = delta_spec m state ms"
  by (simp add: delta_spec_def new_message_tokens_def gap_spec_def cong del: option.case_cong_weak if_weak_cong)

lemma build_prompt_refines:
  assumes ok: "caches_ok m"
  obtains m' where "build_prompt session_id messages tools effort m =
      (prompt_spec m session_id messages tools effort, m')"
    and "touched session_id m m'"
proof (cases "session_id")
  case None
  then show ?thesis by (intro that [of m]) (auto simp: build_prompt_def prompt_spec_def)
next
  case sid: (Some sid)
  let ?m = "m\<lparr>mgr_sessions := od_touch sid (mgr_sessions m)\<rparr>"
  have ok': "caches_ok ?m" using ok by simp
  show ?thesis
  proof (cases "rbind (normalize_messages messages) (\<lambda>ms. rbind (validate_tools tools) (\<lambda>_. Inr ms))")
    case (Inl e)
    with sid show ?thesis
      by (intro that [of m])
        (auto simp: build_prompt_def prompt_spec_def sbind_slift result_simps split: sum.splits)
  next
    case (Inr ms)
    then have n: "normalize_messages messages = Inr ms" and v: "validate_tools tools = Inr ()"
      by (auto simp: result_simps)
    have touched: "touched session_id m m'" if "warmed ?m m'" for m'
      using that sid by (auto simp: touched_def)
    note touched_only = touched [OF warmed_refl]
    obtain m1 where m1: "full_render ms tools effort ?m =
        (rbind (render (mgr_tokenizer m) ms tools
                  (if effort \<noteq> None \<and> effort \<noteq> mgr_default_effort m then effort else None)) (\<lambda>ids.
         rbind (tokenize (mgr_tokenizer m) (mgr_generation_prompt m)) (\<lambda>gen. Inr (ids @ gen))), m1)"
      and w1: "warmed ?m m1"
      using full_render_refines [OF ok', of ms tools effort] by (simp del: not_None_eq) blast
    show ?thesis
    proof (cases "first_assistant ms")
      case None
      show ?thesis
      proof (cases "\<exists>s. map_of (mgr_sessions m) sid = Some s \<and> extends_conversation (ss_messages s) ms")
        case True
        with None sid n v show ?thesis
          by (intro that [of ?m] touched_only)
            (auto simp: build_prompt_def prompt_spec_def sbind_slift Let_def)
      next
        case False
        with None sid n v m1 show ?thesis
          by (intro that [of m1] touched w1)
            (auto simp: build_prompt_def prompt_spec_def sbind_slift Let_def split: option.splits)
      qed
    next
      case pos: (Some pos)
      show ?thesis
      proof (cases "map_of (mgr_sessions m) sid")
        case None
        with pos sid n v show ?thesis
          by (intro that [of ?m] touched_only)
            (auto simp: build_prompt_def prompt_spec_def sbind_slift Let_def)
      next
        case s: (Some s)
        obtain m2 where m2: "delta_ids s ms ?m = (delta_spec m s ms, m2)" and w2: "warmed ?m m2"
          using delta_ids_refines [OF ok', of s ms] by auto
        note unf = build_prompt_def prompt_spec_def sbind_slift Let_def
        show ?thesis
        proof (cases "py_eq (tools_or_empty tools) (ss_tools s) \<and> effort = ss_reasoning_effort s")
          case True
          with pos sid n v s m2 show ?thesis
            by (intro that [of m2] touched w2; cases "delta_spec m s ms")
              (simp_all add: unf check_reasoning_effort_def)
        next
          case False
          with pos sid n v s show ?thesis
            by (intro that [of ?m] touched warmed_refl;
                cases "py_eq (tools_or_empty tools) (ss_tools s)")
              (simp_all add: unf check_reasoning_effort_def)
        qed
      qed
    qed
  qed
qed

subsection \<open>The gap closes the assistant turn\<close>

lemma missing_suffix_choice:
  assumes "h \<le> length e"
  shows "\<exists>k\<le>h. missing_suffix h e s = drop k e \<and> (k = 0 \<or> suffix (take k e) s) \<and>
           (\<forall>j. k < j \<and> j \<le> h \<longrightarrow> \<not> suffix (take j e) s)"
  using assms
proof (induction h)
  case 0
  then show ?case by simp
next
  case (Suc h)
  then have ne: "take (Suc h) e \<noteq> []" and len: "length (take (Suc h) e) = Suc h" by auto
  then have iff: "last_n (Suc h) s = take (Suc h) e \<longleftrightarrow> suffix (take (Suc h) e) s"
    using last_n_eq_iff_suffix [OF ne, of s] by simp
  show ?case
  proof (cases "suffix (take (Suc h) e) s")
    case True
    with iff show ?thesis by (intro exI [of _ "Suc h"]) auto
  next
    case False
    from Suc obtain k where "k \<le> h" "missing_suffix h e s = drop k e"
      "k = 0 \<or> suffix (take k e) s" "\<forall>j. k < j \<and> j \<le> h \<longrightarrow> \<not> suffix (take j e) s"
      by auto
    with False iff show ?thesis by (intro exI [of _ k]) (auto simp: le_Suc_eq)
  qed
qed

lemma missing_suffix_closes: "suffix e (s @ missing_suffix (length e) e s)"
proof -
  obtain k where "missing_suffix (length e) e s = drop k e" "k = 0 \<or> suffix (take k e) s"
    using missing_suffix_choice [of "length e" e s] by auto
  then show ?thesis by (auto elim!: suffixE simp: suffix_def)
qed

lemma missing_suffix_least:
  assumes "suffix e (s @ g)"
  shows "length (missing_suffix (length e) e s) \<le> length g"
proof (rule ccontr)
  assume "\<not> ?thesis"
  moreover obtain k where k: "k \<le> length e" "missing_suffix (length e) e s = drop k e"
    and max: "\<forall>j. k < j \<and> j \<le> length e \<longrightarrow> \<not> suffix (take j e) s"
    using missing_suffix_choice [of "length e" e s] by auto
  ultimately have g: "length g < length e - k" by simp
  let ?j = "length e - length g"
  from assms g have "suffix g e"
    using suffix_length_suffix [OF suffixI [OF refl] assms(1)] by simp
  then have e: "e = take ?j e @ g" by (auto elim!: suffixE)
  with assms obtain z where "s @ g = z @ take ?j e @ g" by (metis suffixE)
  then have "suffix (take ?j e) s" by (auto simp: suffix_def)
  moreover have "k < ?j" and "?j \<le> length e" using g by auto
  ultimately show False using max by blast
qed

end
