(* ===== verification/StreamSafety.thy ===== *)
theory StreamSafety
  imports TokenStream
begin

section \<open>Invariant and properties of the token-stream manager\<close>

text \<open>
  The reachable states of a \<^verbatim>\<open>TokenStreamManager\<close>: every method call and every publication of a
  parsed completion is a step of \<open>mgr_step\<close>. \<open>mgr_inv\<close> is the invariant of the class, \<open>caches_ok\<close>
  the coherence of its caches; both hold in every reachable state. The rest are the promises of
  the strict token-in-token-out protocol.
\<close>

subsection \<open>Eviction\<close>

lemma fst_evict_excess: "fst (evict_excess cap d ev) = drop (length d - cap) d"
proof (induction d arbitrary: ev)
  case Nil
  then show ?case by simp
next
  case (Cons e d)
  then show ?case by (cases "length d < cap") (auto simp: Suc_diff_le not_less)
qed

lemma od_keys_update [simp]: "set (od_keys (AList.update k v d)) = insert k (set (od_keys d))"
  by (simp add: od_keys_def dom_update)

lemma distinct_od_keys_update [simp]:
  "distinct (od_keys d) \<Longrightarrow> distinct (od_keys (AList.update k v d))"
  by (simp add: od_keys_def distinct_update)

lemma length_update_le: "length (AList.update k v d) \<le> Suc (length d)"
  by (induction d) auto

lemma set_od_keys_tl: "set (od_keys (tl d)) \<subseteq> set (od_keys d)"
  by (cases d) auto

lemma push_evicted_keys: "set (od_keys (push_evicted cap k ev)) \<subseteq> insert k (set (od_keys ev))"
  using set_od_keys_tl [of "AList.update k () ev"] by (simp add: push_evicted_def Let_def)

lemma push_evicted_distinct: "distinct (od_keys ev) \<Longrightarrow> distinct (od_keys (push_evicted cap k ev))"
  by (auto simp: push_evicted_def Let_def od_keys_def map_tl intro!: distinct_tl distinct_update)

lemma push_evicted_length: "length ev \<le> cap \<Longrightarrow> length (push_evicted cap k ev) \<le> cap"
  using length_update_le [of k "()" ev] by (simp add: push_evicted_def Let_def) linarith

lemma od_keys_drop [simp]: "od_keys (drop n d) = drop n (od_keys d)"
  by (simp add: od_keys_def drop_map)

lemma snd_evict_excess:
  assumes "distinct (od_keys d)" and "distinct (od_keys ev)" and "length ev \<le> cap"
    and "set (od_keys d) \<inter> set (od_keys ev) = {}"
  shows "distinct (od_keys (snd (evict_excess cap d ev))) \<and>
    length (snd (evict_excess cap d ev)) \<le> cap \<and>
    set (od_keys (snd (evict_excess cap d ev))) \<inter> set (od_keys (fst (evict_excess cap d ev))) = {}"
  using assms
proof (induction d arbitrary: ev)
  case Nil
  then show ?case by simp
next
  case (Cons e d)
  show ?case
  proof (cases "length (e # d) > cap")
    case True
    from Cons.prems have "set (od_keys d) \<inter> set (od_keys (push_evicted cap (fst e) ev)) = {}"
      using push_evicted_keys [of cap "fst e" ev] by auto
    with Cons True show ?thesis
      by (simp add: push_evicted_distinct push_evicted_length)
  next
    case False
    with Cons.prems show ?thesis by auto
  qed
qed

subsection \<open>The invariant\<close>

definition stream_ok :: "nat \<Rightarrow> session_state \<Rightarrow> bool" where
  "stream_ok max_replays s \<longleftrightarrow>
     ss_replays s \<le> max_replays \<and> list_all wf_message (ss_messages s) \<and>
     (case ss_last_turn s of
        None \<Rightarrow> True
      | Some t \<Rightarrow> 0 < ct_completion_len t \<and> ct_completion_len t \<le> length (ss_stream s))"

definition mgr_inv :: "manager \<Rightarrow> bool" where
  "mgr_inv m \<longleftrightarrow>
     distinct (od_keys (mgr_sessions m)) \<and> distinct (od_keys (mgr_evicted m)) \<and>
     length (mgr_sessions m) \<le> mgr_max_sessions m \<and> length (mgr_evicted m) \<le> mgr_max_sessions m \<and>
     set (od_keys (mgr_sessions m)) \<inter> set (od_keys (mgr_evicted m)) = {} \<and>
     (\<forall>e\<in>set (mgr_sessions m). stream_ok (mgr_max_turn_replays m) (snd e))"

inductive mgr_step :: "manager \<Rightarrow> manager \<Rightarrow> bool" where
  step_build: "mgr_step m (snd (build_prompt sid messages tools effort m))"
| step_cached: "mgr_step m (snd (cached_turn sid messages effort m))"
| step_commit: "mgr_step m (snd (commit s messages prompt_ids completion_ids log_probs finish_reason
                                  engine_meta tools effort m))"
| step_publish: "mgr_step m (snd (publish_parsed s token_ids result m))"
| step_drop: "mgr_step m (drop_stream s m)"

inductive mgr_reachable :: "manager \<Rightarrow> bool" where
  reachable_init: "mgr_reachable (init_manager tok max_sessions generation_prompt max_turn_replays
     assistant_turn_end continuation_headers assistant_turn_endings prepare_delta default_effort)"
| reachable_step: "mgr_reachable m \<Longrightarrow> mgr_step m m' \<Longrightarrow> mgr_reachable m'"

inductive_cases mgr_stepE: "mgr_step m m'"

lemma mgr_inv_init:
  "mgr_inv (init_manager tok n gp r te ch ae hook eff)"
  by (simp add: mgr_inv_def init_manager_def)

lemma caches_ok_init: "caches_ok (init_manager tok n gp r te ch ae hook eff)"
  by (simp add: caches_ok_def init_manager_def)

lemma mgr_inv_warmed: "warmed m m' \<Longrightarrow> mgr_inv m' = mgr_inv m"
  by (simp add: mgr_inv_def warmed_fields)

lemma set_od_pop: "set (od_pop k d) \<subseteq> set d"
  by (auto simp: od_pop_def)

lemma set_od_put: "set (od_put k v d) \<subseteq> insert (k, v) (set d)"
  using set_od_pop by (fastforce simp: od_put_def)

lemma set_od_touch: "set (od_touch k d) \<subseteq> set d"
  using set_od_put by (fastforce simp: od_touch_def dest: map_of_SomeD split: option.splits)

lemma mgr_inv_touch: "mgr_inv m \<Longrightarrow> mgr_inv (m\<lparr>mgr_sessions := od_touch sid (mgr_sessions m)\<rparr>)"
  using set_od_touch by (fastforce simp: mgr_inv_def)

lemma mgr_inv_touched: "touched sid m m' \<Longrightarrow> mgr_inv m \<Longrightarrow> mgr_inv m'"
  by (auto simp: touched_def mgr_inv_warmed mgr_inv_touch)

lemma mgr_inv_build_prompt:
  assumes "caches_ok m" and "mgr_inv m"
  shows "mgr_inv (snd (build_prompt sid messages tools effort m))"
    and "caches_ok (snd (build_prompt sid messages tools effort m))"
proof -
  obtain m' where "build_prompt sid messages tools effort m = (prompt_spec m sid messages tools effort, m')"
    "touched sid m m'"
    using build_prompt_refines [OF assms(1)] .
  then show "mgr_inv (snd (build_prompt sid messages tools effort m))"
    and "caches_ok (snd (build_prompt sid messages tools effort m))"
    using assms mgr_inv_touched touched_caches_ok by auto
qed

text \<open>A stream that is stored satisfies the invariant, and a good one may replace it.\<close>

lemma mgr_inv_stream: "mgr_inv m \<Longrightarrow> map_of (mgr_sessions m) sid = Some s \<Longrightarrow>
    stream_ok (mgr_max_turn_replays m) s"
  by (fastforce simp: mgr_inv_def dest: map_of_SomeD)

lemma map_of_Some_keys: "map_of d k = Some v \<Longrightarrow> k \<in> set (od_keys d)"
  by (metis map_of_eq_None_keys option.distinct(1))

lemma mgr_inv_put_present:
  assumes "mgr_inv m" and "map_of (mgr_sessions m) sid = Some s" and "stream_ok (mgr_max_turn_replays m) s'"
  shows "mgr_inv (m\<lparr>mgr_sessions := od_put sid s' (mgr_sessions m)\<rparr>)"
proof -
  have k: "sid \<in> set (od_keys (mgr_sessions m))" using assms(2) by (rule map_of_Some_keys)
  with assms(1) have "length (od_put sid s' (mgr_sessions m)) = length (mgr_sessions m)"
    by (simp add: mgr_inv_def length_od_put_present)
  with assms k show ?thesis
    using set_od_put [of sid s' "mgr_sessions m"] by (fastforce simp: mgr_inv_def)
qed

text \<open>A call of \<open>cached_turn\<close> either serves the stored turn and counts it, or changes nothing.\<close>

lemma cached_turn_cases:
  obtains (unchanged) r where "cached_turn sid messages effort m = (r, m)" and "\<forall>x. r \<noteq> Inr (Some x)"
  | (served) k s t where "sid = Some k" and "map_of (mgr_sessions m) k = Some s"
      and "ss_last_turn s = Some t" and "ss_replays s < mgr_max_turn_replays m"
      and "cached_turn sid messages effort m = (Inr (Some (replay_of s t)),
        m\<lparr>mgr_sessions := od_put k (s\<lparr>ss_replays := Suc (ss_replays s)\<rparr>) (mgr_sessions m)\<rparr>)"
proof -
  note defs = cached_turn_def sbind_slift require_def check_reasoning_effort_def
  show thesis
  proof (cases "\<exists>k s t ms. sid = Some k \<and> map_of (mgr_sessions m) k = Some s \<and> ss_last_turn s = Some t \<and>
      normalize_messages messages = Inr ms \<and> dicts_eq ms (ss_messages s) \<and>
      effort = ss_reasoning_effort s \<and> ss_replays s < mgr_max_turn_replays m")
    case True
    then obtain k s t ms where "sid = Some k" "map_of (mgr_sessions m) k = Some s" "ss_last_turn s = Some t"
      "normalize_messages messages = Inr ms" "dicts_eq ms (ss_messages s)"
      "effort = ss_reasoning_effort s" "ss_replays s < mgr_max_turn_replays m"
      by blast
    then show thesis by (intro served [of k s t]) (simp_all add: defs)
  next
    case False
    have "\<exists>r. cached_turn sid messages effort m = (r, m) \<and> (\<forall>x. r \<noteq> Inr (Some x))"
    proof (cases sid)
      case None
      then show ?thesis by (simp add: defs)
    next
      case k: (Some k)
      show ?thesis
      proof (cases "map_of (mgr_sessions m) k")
        case None
        with k show ?thesis by (simp add: defs)
      next
        case s: (Some s)
        with False k show ?thesis
          by (cases "ss_last_turn s"; cases "normalize_messages messages") (simp_all add: defs)
      qed
    qed
    with unchanged show thesis by blast
  qed
qed

lemma mgr_inv_cached_turn:
  assumes "mgr_inv m"
  shows "mgr_inv (snd (cached_turn sid messages effort m))"
proof (cases rule: cached_turn_cases [of sid messages effort m])
  case unchanged
  with assms show ?thesis by simp
next
  case (served k s t)
  from mgr_inv_stream [OF assms served(2)] served(4)
  have "stream_ok (mgr_max_turn_replays m) (s\<lparr>ss_replays := Suc (ss_replays s)\<rparr>)"
    by (simp add: stream_ok_def split: option.splits)
  then show ?thesis unfolding served(5) snd_conv by (rule mgr_inv_put_present [OF assms served(2)])
qed

lemma stream_ok_new_state:
  assumes "\<forall>t. lt = Some t \<longrightarrow> 0 < ct_completion_len t \<and> ct_completion_len t \<le> length stream"
    and "list_all wf_message ms"
  shows "stream_ok r (new_session_state stream ms lt tools effort)"
  using assms by (auto simp: stream_ok_def new_session_state_def split: option.splits)

lemma mgr_inv_install:
  assumes "mgr_inv m" and ok: "stream_ok (mgr_max_turn_replays m) s"
    and ee: "evict_excess (mgr_max_sessions m) (od_put sid s (mgr_sessions m))
               (od_pop sid (mgr_evicted m)) = (ss, ev)"
  shows "mgr_inv (m\<lparr>mgr_sessions := ss, mgr_evicted := ev\<rparr>)"
proof -
  let ?d = "od_put sid s (mgr_sessions m)" and ?e = "od_pop sid (mgr_evicted m)"
  have dd: "distinct (od_keys ?d)" "distinct (od_keys ?e)" "set (od_keys ?d) \<inter> set (od_keys ?e) = {}"
    using assms(1) by (auto simp: mgr_inv_def)
  have "length ?e \<le> mgr_max_sessions m"
    using assms(1) by (auto simp: mgr_inv_def od_pop_def intro: order.trans [OF length_filter_le])
  note ev = snd_evict_excess [OF dd(1,2) this dd(3), unfolded ee fst_conv snd_conv]
  have ss: "ss = drop (length ?d - mgr_max_sessions m) ?d"
    using fst_evict_excess [of "mgr_max_sessions m" ?d ?e] ee by simp
  have "\<forall>e\<in>set ss. stream_ok (mgr_max_turn_replays m) (snd e)"
    using set_od_put [of sid s "mgr_sessions m"] set_drop_subset [of _ ?d] assms(1) ok
    unfolding ss mgr_inv_def by fastforce
  moreover have "distinct (od_keys ss)" and "length ss \<le> mgr_max_sessions m"
    using dd(1) by (simp_all add: ss del: od_keys_put)
  ultimately show ?thesis using ev by (auto simp: mgr_inv_def)
qed

lemma mgr_inv_commit:
  assumes "mgr_inv m"
  shows "mgr_inv (snd (commit sid messages p c lps reason meta tools effort m))"
proof (cases "normalize_messages messages")
  case (Inl e)
  with assms show ?thesis by (simp add: commit_def sbind_slift Let_def)
next
  case (Inr ms)
  then have ms: "list_all wf_message ms"
    using normalize_messages_normalized by (simp add: list_all_iff)
  have "stream_ok (mgr_max_turn_replays m)
      (new_session_state (p @ c) ms (turn_to_cache c lps reason meta tools) tools effort)"
    by (rule stream_ok_new_state)
      (auto simp: turn_to_cache_def ms split: option.splits if_splits)
  then show ?thesis
    using Inr by (auto simp: commit_def sbind_slift Let_def split: prod.splits
        intro!: mgr_inv_install [OF assms])
qed

lemma mgr_inv_publish:
  assumes "mgr_inv m"
  shows "mgr_inv (snd (publish_parsed sid token_ids result m))"
proof (cases "\<exists>r. publish_parsed sid token_ids result m = (r, m)")
  case True
  with assms show ?thesis by auto
next
  case False
  then obtain t where t: "committed_turn m sid token_ids = Some t"
    and eq: "snd (publish_parsed sid token_ids result m) = m\<lparr>mgr_sessions := map (\<lambda>(k, s). (k, if k = sid
        then s\<lparr>ss_last_turn := Some (t\<lparr>ct_parsed_completion := Some result\<rparr>)\<rparr> else s)) (mgr_sessions m)\<rparr>"
    by (auto simp: publish_parsed_def split: option.splits)
  obtain s where s: "map_of (mgr_sessions m) sid = Some s" "ss_last_turn s = Some t"
    using t by (auto simp: committed_turn_def split: option.splits if_splits)
  have same: "s' = s" if "(sid, s') \<in> set (mgr_sessions m)" for s'
    using that s(1) assms by (auto simp: mgr_inv_def od_keys_def)
  have keys: "od_keys (map (\<lambda>(k, s). (k, f k s)) d) = od_keys d" for f :: "string \<Rightarrow> session_state \<Rightarrow> session_state" and d
    by (induction d) auto
  have "stream_ok (mgr_max_turn_replays m) (s\<lparr>ss_last_turn := Some (t\<lparr>ct_parsed_completion := Some result\<rparr>)\<rparr>)"
    using mgr_inv_stream [OF assms s(1)] s(2) by (simp add: stream_ok_def)
  then show ?thesis
    unfolding eq using assms by (auto simp: mgr_inv_def keys dest!: same)
qed

lemma mgr_inv_drop: "mgr_inv m \<Longrightarrow> mgr_inv (drop_stream sid m)"
  using set_od_pop [of sid "mgr_sessions m"]
    length_filter_le [of "\<lambda>e. fst e \<noteq> sid" "mgr_sessions m"]
    length_filter_le [of "\<lambda>e. fst e \<noteq> sid" "mgr_evicted m"]
  by (fastforce simp: mgr_inv_def drop_stream_def od_pop_def [symmetric])

lemma caches_ok_snd:
  "caches_ok m \<Longrightarrow> caches_ok (snd (cached_turn sid messages effort m))"
  "caches_ok m \<Longrightarrow> caches_ok (snd (commit k messages p c lps reason meta tools effort m))"
  "caches_ok m \<Longrightarrow> caches_ok (snd (publish_parsed k token_ids result m))"
  "caches_ok m \<Longrightarrow> caches_ok (drop_stream k m)"
  by (auto simp: cached_turn_def commit_def publish_parsed_def drop_stream_def sbind_slift Let_def
      require_def check_reasoning_effort_def split: option.splits sum.splits prod.splits if_splits)

lemmas mgr_inv_ops [inv_rules] = mgr_inv_build_prompt mgr_inv_cached_turn mgr_inv_commit
  mgr_inv_publish mgr_inv_drop caches_ok_snd

lemma mgr_step_inv: "mgr_step m m' \<Longrightarrow> mgr_inv m \<and> caches_ok m \<Longrightarrow> mgr_inv m' \<and> caches_ok m'"
  by (erule mgr_stepE) (simp_all add: inv_rules)

lemma reachable_inv: "mgr_reachable m \<Longrightarrow> mgr_inv m \<and> caches_ok m"
proof (induction rule: mgr_reachable.induct)
  case reachable_init
  show ?case by (simp add: mgr_inv_init caches_ok_init)
next
  case (reachable_step m m')
  then show ?case using mgr_step_inv by blast
qed

lemmas reachable_caches_ok = reachable_inv [THEN conjunct2]
lemmas reachable_mgr_inv = reachable_inv [THEN conjunct1]

end
