(* ===== verification/StreamProperties.thy ===== *)
theory StreamProperties
  imports StreamSafety
begin

section \<open>The promises of the token-stream manager\<close>

text \<open>
  The properties of \<^verbatim>\<open>TokenStreamManager\<close> in its reachable states: what a follow-up prompt is made
  of, which requests are refused, that an exact retry replays the committed turn a bounded number of
  times, which stream is evicted, and that the lazily filled caches cannot be observed. The first
  subsection holds the concrete manager on which the witnesses evaluate.
\<close>

subsection \<open>A concrete manager\<close>

text \<open>
  A tokenizer that spells text out byte by byte, whose template prefixes every rendering with
  \<^verbatim>\<open>#\<close>, and a manager over it that holds one stream: the instances the witnesses evaluate.
\<close>

definition byte_ids :: "string \<Rightarrow> pyval" where
  "byte_ids s = PList (map (\<lambda>c. PInt (of_char c)) s)"

fun demo_text :: "pydict \<Rightarrow> string" where
  "demo_text d =
     (case (dget d ''role'', dget d ''content'') of
        (PStr r, PStr c) \<Rightarrow> ''<'' @ take 1 r @ ''>'' @ c @ ''|''
      | _ \<Rightarrow> ''?'')"

definition demo_tokenizer :: tokenizer where
  "demo_tokenizer =
     \<lparr>apply_chat_template = \<lambda>ms tools effort. Inr (byte_ids (''#'' @ concat (map demo_text ms))),
      template_text = \<lambda>ms. Inr (''#'' @ concat (map demo_text ms)),
      encode = \<lambda>s. Inr (byte_ids s)\<rparr>"

definition demo_msg :: "string \<Rightarrow> string \<Rightarrow> pydict" where
  "demo_msg r c = [(''role'', PStr r), (''content'', PStr c)]"

definition demo_manager :: manager where
  "demo_manager = init_manager demo_tokenizer 1 ''<a>'' 4 ''|'' [] [''!''] None None"

definition demo_opening :: pyval where
  "demo_opening = PList [PDict (demo_msg ''user'' ''hi'')]"

definition demo_followup :: pyval where
  "demo_followup = PList [PDict (demo_msg ''user'' ''hi''), PDict (demo_msg ''assistant'' ''x''),
     PDict (demo_msg ''user'' ''yo'')]"

definition demo_commit :: "string \<Rightarrow> manager \<Rightarrow> manager" where
  "demo_commit sid m = snd (commit sid demo_opening [1, 2] [3, 4] (Some [Fin 0, Fin 0])
     (Some ''stop'') None PNone None m)"

definition demo_committed :: manager where
  "demo_committed = demo_commit ''s'' demo_manager"

lemma demo_manager_reachable: "mgr_reachable demo_manager"
  unfolding demo_manager_def by (rule reachable_init)

lemma demo_commit_reachable: "mgr_reachable m \<Longrightarrow> mgr_reachable (demo_commit sid m)"
  unfolding demo_commit_def by (erule reachable_step) (rule step_commit)

lemma demo_committed_reachable: "mgr_reachable demo_committed"
  unfolding demo_committed_def by (intro demo_commit_reachable demo_manager_reachable)

definition demo_messages :: "pydict list" where
  "demo_messages = [demo_msg ''user'' ''hi'', demo_msg ''assistant'' ''x'', demo_msg ''user'' ''yo'']"

definition demo_prompt :: "int list" where
  "demo_prompt = [1, 2, 3, 4, 124, 60, 117, 62, 121, 111, 124, 60, 97, 62]"

lemma demo_followup_normal: "normalize_messages demo_followup = Inr demo_messages"
  by code_simp

lemma demo_followup_assistant: "first_assistant demo_messages \<noteq> None"
  by code_simp

lemma demo_followup_prompt:
  "fst (build_prompt (Some ''s'') demo_followup PNone None demo_committed) = Inr demo_prompt"
  by code_simp

subsection \<open>What a continuation is\<close>

lemma list_all2_zip_first_mismatch:
  "first_mismatch xs ys = None \<longleftrightarrow> list_all (\<lambda>(x, y). same_message x y) (zip xs ys)"
proof -
  have "first_mismatch xs ys = None \<longleftrightarrow>
      filter (\<lambda>(i, p, c). \<not> same_message p c) (zip [0..<length xs] (zip xs ys)) = []"
    by (auto simp: first_mismatch_def split: list.splits)
  also have "\<dots> \<longleftrightarrow> (\<forall>e\<in>set (zip [0..<length xs] (zip xs ys)). (\<lambda>(i, p, c). same_message p c) e)"
    by (auto simp: filter_empty_conv)
  also have "\<dots> \<longleftrightarrow> list_all (\<lambda>(x, y). same_message x y) (map snd (zip [0..<length xs] (zip xs ys)))"
    by (auto simp: list_all_iff)
  also have "map snd (zip [0..<length xs] (zip xs ys)) = zip xs ys"
    by (simp add: map_snd_zip_take)
  finally show ?thesis .
qed

lemma zip_take_length: "zip xs (take (length xs) ys) = zip xs ys"
  by (induction xs arbitrary: ys) (auto simp: take_Suc zip_Cons1 split: list.splits)

lemma zip_prefix_length: "length ys = length xs \<Longrightarrow> zip xs (ys @ zs) = zip xs ys"
  by (simp add: zip_append2)

lemma check_continuation_Inr:
  assumes "check_continuation s ms = Inr new"
  shows "\<exists>hist echo. ms = hist @ echo # new \<and> list_all2 same_message (ss_messages s) hist \<and>
    role_is ''assistant'' echo \<and> new \<noteq> [] \<and> list_all (role_in gap_roles) new"
proof -
  let ?n = "length (ss_messages s)"
  from assms have len: "?n + 2 \<le> length ms" and fm: "first_mismatch (ss_messages s) ms = None"
    and "role_is ''assistant'' (ms ! ?n)" "list_all (role_in gap_roles) new" and new: "new = drop (?n + 1) ms"
    by (auto simp: check_continuation_def Let_def result_simps split: option.splits)
  moreover have "ms = take ?n ms @ ms ! ?n # new"
    using len by (simp add: new Cons_nth_drop_Suc)
  moreover have "list_all2 same_message (ss_messages s) (take ?n ms)"
    using fm len by (simp add: list_all2_zip_first_mismatch list_all2_iff list_all_iff zip_take_length)
  moreover have "new \<noteq> []" using len by (simp add: new)
  ultimately show ?thesis by blast
qed

lemma build_prompt_outcome:
  assumes "mgr_reachable m"
  shows "fst (build_prompt sid messages tools effort m) = prompt_spec m sid messages tools effort"
  using build_prompt_refines [OF reachable_caches_ok [OF assms]] by (metis fst_conv)

lemma prompt_spec_continuation:
  assumes "prompt_spec m (Some sid) messages tools effort = Inr p"
    and "normalize_messages messages = Inr ms" and "first_assistant ms \<noteq> None"
  obtains s delta where "map_of (mgr_sessions m) sid = Some s"
    and "py_eq (tools_or_empty tools) (ss_tools s)" and "effort = ss_reasoning_effort s"
    and "delta_spec m s ms = Inr delta" and "p = ss_stream s @ delta"
  using assms by (auto simp: prompt_spec_def result_simps check_reasoning_effort_def split: option.splits)

lemma delta_spec_parts:
  assumes "delta_spec m s ms = Inr d"
  obtains gap delta gen where "d = gap @ delta @ gen" and "gap_spec m (ss_stream s) = Inr gap"
    and "new_message_tokens m s ms = Inr delta"
    and "tokenize (mgr_tokenizer m) (mgr_generation_prompt m) = Inr gen"
  using assms by (auto simp: delta_spec_def result_simps)

text \<open>C5:
  Token-in, token-out: whenever a follow-up prompt is built (the request carries an assistant
  message), it is the stored stream of that session, unchanged and first, then the gap that closes
  the sampled turn, then the tokens of the new messages, then the generation prompt.
\<close>

theorem continuation_extends_stream:
  assumes "mgr_reachable m"
    and "normalize_messages messages = Inr ms" and "first_assistant ms \<noteq> None"
    and "fst (build_prompt (Some sid) messages tools effort m) = Inr p"
  shows "\<exists>s gap delta gen. map_of (mgr_sessions m) sid = Some s \<and> p = ss_stream s @ gap @ delta @ gen \<and>
           gap_spec m (ss_stream s) = Inr gap \<and> new_message_tokens m s ms = Inr delta \<and>
           tokenize (mgr_tokenizer m) (mgr_generation_prompt m) = Inr gen"
proof -
  from assms(1,4) have "prompt_spec m (Some sid) messages tools effort = Inr p"
    by (simp add: build_prompt_outcome)
  then obtain s d where "map_of (mgr_sessions m) sid = Some s" "delta_spec m s ms = Inr d"
    "p = ss_stream s @ d"
    using assms(2,3) by (rule prompt_spec_continuation)
  then show ?thesis by (elim delta_spec_parts) auto
qed

theorem continuation_extends_stream_witness:
  "\<exists>s gap delta gen. map_of (mgr_sessions demo_committed) ''s'' = Some s \<and>
     demo_prompt = ss_stream s @ gap @ delta @ gen"
  using continuation_extends_stream [OF demo_committed_reachable demo_followup_normal
      demo_followup_assistant demo_followup_prompt] by blast

text \<open>C9:
  A follow-up prompt is built only when the request repeats the committed messages (role and
  content of each), has an assistant message where the sampled turn stands, continues it with at
  least one message, all of them user, tool or system messages, and repeats the tools and the
  reasoning effort the stream was opened with.
\<close>

theorem continuation_only_of_the_served_history:
  assumes "mgr_reachable m"
    and "normalize_messages messages = Inr ms" and "first_assistant ms \<noteq> None"
    and "fst (build_prompt (Some sid) messages tools effort m) = Inr p"
  shows "\<exists>s hist echo new. map_of (mgr_sessions m) sid = Some s \<and> ms = hist @ echo # new \<and>
           list_all2 same_message (ss_messages s) hist \<and> role_is ''assistant'' echo \<and>
           new \<noteq> [] \<and> list_all (role_in gap_roles) new \<and>
           py_eq (tools_or_empty tools) (ss_tools s) \<and> effort = ss_reasoning_effort s"
proof -
  from assms(1,4) have "prompt_spec m (Some sid) messages tools effort = Inr p"
    by (simp add: build_prompt_outcome)
  then obtain s d where s: "map_of (mgr_sessions m) sid = Some s" "py_eq (tools_or_empty tools) (ss_tools s)"
    "effort = ss_reasoning_effort s" and d: "delta_spec m s ms = Inr d"
    using assms(2,3) by (rule prompt_spec_continuation)
  from d obtain new where "check_continuation s ms = Inr new"
    by (auto simp: delta_spec_def new_message_tokens_def result_simps)
  with s show ?thesis
    by (intro exI [of _ s]) (use check_continuation_Inr in blast)
qed

theorem continuation_only_of_the_served_history_witness:
  "\<exists>s hist echo new. map_of (mgr_sessions demo_committed) ''s'' = Some s \<and>
     demo_messages = hist @ echo # new \<and> list_all2 same_message (ss_messages s) hist \<and> new \<noteq> []"
  using continuation_only_of_the_served_history [OF demo_committed_reachable demo_followup_normal
      demo_followup_assistant demo_followup_prompt] by blast

text \<open>C17:
  The text an agent echoes back for the sampled turn never reaches the token stream: two requests
  that differ only in that assistant message get the same prompt and leave the same state, unless
  the profile has a hook for new messages and no parsed completion of the turn is cached.
\<close>

theorem assistant_echo_is_ignored:
  assumes "mgr_prepare_delta m = None \<or>
      (\<exists>t p. ss_last_turn s = Some t \<and> ct_parsed_completion t = Some p)"
    and "length hist = length (ss_messages s)"
    and "role_is ''assistant'' echo" and "role_is ''assistant'' echo'"
  shows "delta_ids s (hist @ echo # new) m = delta_ids s (hist @ echo' # new) m"
proof -
  have "first_mismatch (ss_messages s) (hist @ echo # new) = first_mismatch (ss_messages s) (hist @ echo' # new)"
    using assms(2) by (simp add: first_mismatch_def zip_prefix_length)
  then have check: "check_continuation s (hist @ echo # new) = check_continuation s (hist @ echo' # new)"
    using assms(2-4) by (simp add: check_continuation_def Let_def flip: assms(2))
  have hook: "prepare_new_messages (mgr_prepare_delta m) s msgs echo =
      prepare_new_messages (mgr_prepare_delta m) s msgs echo'" for msgs
    using assms(1) by (auto simp: prepare_new_messages_def echo_for_hook_def split: option.splits)
  show ?thesis
    using assms(2) hook by (simp add: delta_ids_def check flip: assms(2))
qed

theorem assistant_echo_is_ignored_witness:
  "delta_ids (the (map_of (mgr_sessions demo_committed) ''s''))
      ([demo_msg ''user'' ''hi''] @ demo_msg ''assistant'' ''x'' # [demo_msg ''user'' ''yo'']) demo_committed =
   delta_ids (the (map_of (mgr_sessions demo_committed) ''s''))
      ([demo_msg ''user'' ''hi''] @ demo_msg ''assistant'' ''forged'' # [demo_msg ''user'' ''yo'']) demo_committed"
proof (rule assistant_echo_is_ignored)
  have "mgr_prepare_delta demo_committed = None"
    by (simp add: demo_committed_def demo_commit_def commit_def sbind_slift Let_def demo_manager_def
        init_manager_def split: sum.splits prod.splits)
  then show "mgr_prepare_delta demo_committed = None \<or>
      (\<exists>t p. ss_last_turn (the (map_of (mgr_sessions demo_committed) ''s'')) = Some t \<and>
        ct_parsed_completion t = Some p)" by blast
  show "length [demo_msg ''user'' ''hi''] =
      length (ss_messages (the (map_of (mgr_sessions demo_committed) ''s'')))"
    "role_is ''assistant'' (demo_msg ''assistant'' ''x'')"
    "role_is ''assistant'' (demo_msg ''assistant'' ''forged'')"
    by code_simp+
qed

text \<open>
  The gap between the sampled turn and the new messages is empty when the stream already ends in
  one of the profile's complete endings. Otherwise it makes the stream end in the turn-end tokens,
  and it is the shortest list of tokens that does.
\<close>

theorem gap_closes_the_turn:
  assumes "gap_spec m stream = Inr gap"
  shows "(\<exists>ending ids. ending \<in> set (mgr_assistant_turn_endings m) \<and>
            tokenize (mgr_tokenizer m) ending = Inr ids \<and> ids \<noteq> [] \<and> suffix ids stream \<and> gap = []) \<or>
         (\<exists>ids. tokenize (mgr_tokenizer m) (mgr_assistant_turn_end m) = Inr ids \<and>
            suffix ids (stream @ gap) \<and> (\<forall>g. suffix ids (stream @ g) \<longrightarrow> length gap \<le> length g))"
proof -
  have complete: "has_complete_ending tok es stream = Inr True \<Longrightarrow>
      \<exists>e ids. e \<in> set es \<and> tokenize tok e = Inr ids \<and> ids \<noteq> [] \<and> suffix ids stream" for tok es
    by (induction es) (auto simp: result_simps last_n_eq_iff_suffix split: if_splits)
  from assms show ?thesis
    unfolding gap_spec_def
    by (auto simp: result_simps missing_suffix_closes missing_suffix_least dest!: complete split: if_splits)
qed

theorem gap_closes_the_turn_witness:
  "(\<exists>ending ids. ending \<in> set (mgr_assistant_turn_endings demo_committed) \<and>
      tokenize (mgr_tokenizer demo_committed) ending = Inr ids \<and> ids \<noteq> [] \<and> suffix ids [7] \<and> [124::int] = []) \<or>
   (\<exists>ids. tokenize (mgr_tokenizer demo_committed) (mgr_assistant_turn_end demo_committed) = Inr ids \<and>
      suffix ids ([7] @ [124]) \<and> (\<forall>g. suffix ids ([7] @ g) \<longrightarrow> length [124::int] \<le> length g))"
  by (rule gap_closes_the_turn) code_simp

text \<open>
  The probes find the template's implicit prefix exactly: the measurement succeeds with prefix
  \<open>p\<close> if and only if the one-message probe renders as \<open>p\<close> followed by a block, and the two-message
  probe as \<open>p\<close> followed by that block twice.
\<close>

theorem measured_prefix_exact:
  "measure_implicit_prefix tok = (p, True) \<longleftrightarrow>
     (\<exists>block. render tok [prefix_probe] PNone None = Inr (p @ block) \<and>
              render tok [prefix_probe, prefix_probe] PNone None = Inr (p @ block @ block))"
    (is "?l \<longleftrightarrow> ?r")
proof
  assume ?l
  then obtain one two where o: "render tok [prefix_probe] PNone None = Inr one"
    and t: "render tok [prefix_probe, prefix_probe] PNone None = Inr two"
    and p: "p = take (nat (2 * int (length one) - int (length two))) one"
    and two: "two = one @ drop (nat (2 * int (length one) - int (length two))) one"
    by (auto simp: measure_implicit_prefix_def Let_def split: sum.splits if_splits)
  let ?b = "drop (nat (2 * int (length one) - int (length two))) one"
  have one: "one = p @ ?b" by (simp add: p)
  then have "two = p @ ?b @ ?b" using two by (metis append.assoc)
  with o t one show ?r by metis
next
  assume ?r
  then obtain b where r: "render tok [prefix_probe] PNone None = Inr (p @ b)"
    "render tok [prefix_probe, prefix_probe] PNone None = Inr (p @ b @ b)" by blast
  have "2 * int (length (p @ b)) - int (length (p @ b @ b)) = int (length p)" by simp
  then show ?l by (simp add: measure_implicit_prefix_def r Let_def del: length_append)
qed

text \<open>C23:
  The caches of the class are unobservable: in every reachable state a prompt request returns or
  raises exactly what it would with every cache forgotten.
\<close>

theorem caches_unobservable:
  assumes "mgr_reachable m"
  shows "fst (build_prompt sid messages tools effort m) =
         fst (build_prompt sid messages tools effort (clear_caches m))"
proof -
  have "caches_ok (clear_caches m)" by (simp add: caches_ok_def clear_caches_def)
  then have "fst (build_prompt sid messages tools effort (clear_caches m)) =
      prompt_spec (clear_caches m) sid messages tools effort"
    using build_prompt_refines by (metis fst_conv)
  also have "\<dots> = prompt_spec m sid messages tools effort"
    by (simp add: prompt_spec_def delta_spec_def new_message_tokens_def gap_spec_def clear_caches_def
        cong del: option.case_cong_weak if_weak_cong)
  finally show ?thesis by (simp add: build_prompt_outcome [OF assms])
qed

theorem caches_unobservable_witness:
  "fst (build_prompt (Some ''s'') demo_followup PNone None demo_committed) =
   fst (build_prompt (Some ''s'') demo_followup PNone None (clear_caches demo_committed))"
  by (rule caches_unobservable [OF demo_committed_reachable])

subsection \<open>Commit, eviction and interleaving\<close>

lemma map_of_drop_snoc:
  assumes "k \<notin> set (od_keys xs)" and "n \<le> length xs"
  shows "map_of (drop n (xs @ [(k, v)])) k = Some v"
proof -
  have "map_of (drop n xs) k = None"
    using assms(1) set_drop_subset [of n "od_keys xs"] by (auto simp: map_of_eq_None_keys)
  with assms(2) show ?thesis by (simp add: map_add_def)
qed

lemma length_od_pop_absent: "k \<notin> set (od_keys d) \<Longrightarrow> od_pop k d = d"
  by (induction d) (auto simp: od_pop_def)

lemma commit_unfold:
  assumes "normalize_messages messages = Inr ms"
  shows "snd (commit sid messages p c lps reason meta tools effort m) =
     (let st = new_session_state (p @ c) ms (turn_to_cache c lps reason meta tools) tools effort;
          r = evict_excess (mgr_max_sessions m) (od_put sid st (mgr_sessions m)) (od_pop sid (mgr_evicted m))
      in m\<lparr>mgr_sessions := fst r, mgr_evicted := snd r\<rparr>)"
  using assms by (simp add: commit_def sbind_slift Let_def split: prod.splits)

lemma od_put_absent: "k \<notin> set (od_keys d) \<Longrightarrow> od_put k v d = d @ [(k, v)]"
  by (simp add: od_put_def length_od_pop_absent)

text \<open>The excess of a commit is at most one entry: the oldest, when the manager is full.\<close>

lemma drop_excess_put:
  assumes "distinct (od_keys d)" and "length d \<le> cap" and "0 < cap"
  shows "map_of (drop (length (od_put sid st d) - cap) (od_put sid st d)) k =
    (if k = sid then Some st
     else if sid \<notin> set (od_keys d) \<and> length d = cap \<and> k = fst (hd d) then None
     else map_of d k)"
proof (cases "sid \<in> set (od_keys d)")
  case True
  with assms show ?thesis by (simp add: length_od_put_present)
next
  case absent: False
  show ?thesis
  proof (cases "length d = cap")
    case True
    with assms(3) obtain e d' where d: "d = e # d'" by (cases d) auto
    with True absent have drop: "drop (length (od_put sid st d) - cap) (od_put sid st d) = d' @ [(sid, st)]"
      by (simp add: od_put_absent)
    from absent d have "sid \<notin> set (od_keys d')" and ne: "fst e \<noteq> sid" by auto
    then have "map_of (d' @ [(sid, st)]) k = (if k = sid then Some st else map_of d' k)"
      using map_of_od_put [of sid st d' k] by (simp add: od_put_absent)
    moreover from assms(1) d have "map_of d' (fst e) = None" by (simp add: map_of_eq_None_keys)
    ultimately show ?thesis unfolding drop using d True absent ne by auto
  next
    case False
    with assms(2) absent show ?thesis
      using map_of_od_put [of sid st d k] by (simp add: od_put_absent)
  qed
qed

lemma commit_sessions:
  assumes "normalize_messages messages = Inr ms"
  shows "mgr_sessions (snd (commit sid messages p c lps reason meta tools effort m)) =
    (let d = od_put sid (new_session_state (p @ c) ms (turn_to_cache c lps reason meta tools) tools effort)
               (mgr_sessions m)
     in drop (length d - mgr_max_sessions m) d)"
  by (simp add: commit_unfold [OF assms] fst_evict_excess Let_def)

lemma commit_evicts:
  assumes "mgr_reachable m" and "0 < mgr_max_sessions m" and "normalize_messages messages = Inr ms"
  shows "map_of (mgr_sessions (snd (commit sid messages p c lps reason meta tools effort m))) k =
    (if k = sid then
       Some (new_session_state (p @ c) ms (turn_to_cache c lps reason meta tools) tools effort)
     else if \<not> has_session sid m \<and> length (mgr_sessions m) = mgr_max_sessions m \<and>
             k = fst (hd (mgr_sessions m)) then None
     else map_of (mgr_sessions m) k)"
proof -
  have inv: "mgr_inv m" using assms(1) by (rule reachable_mgr_inv)
  have "has_session sid m \<longleftrightarrow> sid \<in> set (od_keys (mgr_sessions m))"
    by (simp add: has_session_def map_of_eq_None_keys del: not_None_eq)
  with inv assms(2) show ?thesis
    by (simp add: commit_sessions [OF assms(3)] drop_excess_put mgr_inv_def Let_def)
qed

text \<open>C19:
  Least recently used eviction: after a successful commit the committed stream holds prompt and
  completion with no replay spent, and every other stream is untouched, except that when the
  manager was full and the session is new, the least recently used stream (the first entry) is
  gone.
\<close>

theorem commit_evicts_only_the_oldest:
  assumes "mgr_reachable m" and "0 < mgr_max_sessions m" and "normalize_messages messages = Inr ms"
  shows "map_of (mgr_sessions (snd (commit sid messages p c lps reason meta tools effort m))) k =
    (if k = sid then
       Some (new_session_state (p @ c) ms (turn_to_cache c lps reason meta tools) tools effort)
     else if \<not> has_session sid m \<and> length (mgr_sessions m) = mgr_max_sessions m \<and>
             k = fst (hd (mgr_sessions m)) then None
     else map_of (mgr_sessions m) k)"
  using assms by (rule commit_evicts)

theorem commit_evicts_only_the_oldest_witness:
  "map_of (mgr_sessions (snd (commit ''t'' demo_opening [1] [2] None None None PNone None demo_committed))) ''s''
   = None"
proof -
  have n: "normalize_messages demo_opening = Inr [demo_msg ''user'' ''hi'']" by code_simp
  have h: "0 < mgr_max_sessions demo_committed" "\<not> has_session ''t'' demo_committed"
    "length (mgr_sessions demo_committed) = mgr_max_sessions demo_committed"
    "fst (hd (mgr_sessions demo_committed)) = ''s''"
    by code_simp+
  show ?thesis
    using h by (simp add: commit_evicts_only_the_oldest [OF demo_committed_reachable h(1) n])
qed

text \<open>
  Eviction is reported, never papered over: once a commit to another session has evicted a
  stream, a request that continues it is refused as evicted.
\<close>

theorem evicted_stream_is_refused:
  assumes "mgr_reachable m" and "0 < mgr_max_sessions m" and "has_session k m"
    and "m' = snd (commit sid messages p c lps reason meta tools effort m)" and "\<not> has_session k m'"
    and "normalize_messages request = Inr ms" and "validate_tools tools' = Inr ()"
    and "first_assistant ms \<noteq> None"
  shows "fst (build_prompt (Some k) request tools' effort' m') = Inl StreamEvicted"
proof -
  have inv: "mgr_inv m" and r': "mgr_reachable m'"
    using assms(1,4) reachable_mgr_inv reachable_step step_commit by blast+
  have "m' \<noteq> m" using assms(3,5) by auto
  then obtain cs where n: "normalize_messages messages = Inr cs"
    using assms(4) by (cases "normalize_messages messages") (auto simp: commit_def sbind_slift)
  let ?d = "mgr_sessions m"
  have gone: "map_of (mgr_sessions m') k = None" and k: "map_of ?d k \<noteq> None"
    using assms(3,5) by (simp_all add: has_session_def)
  have old: "k \<noteq> sid \<and> \<not> has_session sid m \<and> length ?d = mgr_max_sessions m \<and> k = fst (hd ?d)"
    using gone k unfolding assms(4) commit_sessions [OF n] Let_def
    using inv assms(2) by (simp add: drop_excess_put mgr_inv_def has_session_def
        map_of_eq_None_keys [symmetric] split: if_splits)
  then obtain e d where d: "?d = e # d" and e: "fst e = k"
    using assms(2) by (cases ?d) auto
  have absent: "sid \<notin> set (od_keys ?d)"
    using old by (simp add: has_session_def map_of_eq_None_keys [symmetric])
  have put: "od_put sid v ?d = e # d @ [(sid, v)]" for v
    using od_put_absent [OF absent, of v] by (simp add: d)
  have len: "length (d @ [(sid, v)]) = mgr_max_sessions m" for v :: session_state
    using old d by simp
  have stop: "evict_excess n xs ev = (xs, ev)" if "length xs = n" for n xs ev
    using that by (cases xs) auto
  have "mgr_evicted m' = push_evicted (mgr_max_sessions m) k (od_pop sid (mgr_evicted m))"
    unfolding assms(4) commit_unfold [OF n] Let_def put using len by (simp add: stop e)
  moreover have "k \<in> set (od_keys (push_evicted (mgr_max_sessions m) k ev))"
    if "k \<notin> set (od_keys ev)" for ev
  proof -
    have "AList.update k () ev = ev @ [(k, ())]"
      using that by (induction ev) auto
    then show ?thesis using assms(2) by (cases ev) (auto simp: push_evicted_def Let_def)
  qed
  moreover have "k \<notin> set (od_keys (od_pop sid (mgr_evicted m)))"
    using inv k by (auto simp: mgr_inv_def map_of_eq_None_keys)
  ultimately have "map_of (mgr_evicted m') k \<noteq> None"
    by (simp add: map_of_eq_None_keys)
  with gone assms(6-8) show ?thesis
    by (auto simp: build_prompt_outcome [OF r'] prompt_spec_def)
qed

theorem evicted_stream_is_refused_witness:
  "fst (build_prompt (Some ''s'') demo_followup PNone None (demo_commit ''t'' demo_committed)) = Inl StreamEvicted"
proof (rule evicted_stream_is_refused [OF demo_committed_reachable _ _ demo_commit_def _ demo_followup_normal
      _ demo_followup_assistant])
  show "0 < mgr_max_sessions demo_committed" "has_session ''s'' demo_committed"
    "\<not> has_session ''s'' (demo_commit ''t'' demo_committed)" "validate_tools PNone = Inr ()"
    by code_simp+
qed

subsection \<open>Retries\<close>

text \<open>The state of one stream after \<open>k\<close> exact retries of its last turn.\<close>

lemma cached_turn_exact:
  assumes "map_of (mgr_sessions m) sid = Some s" and "ss_last_turn s = Some t"
    and "normalize_messages messages = Inr (ss_messages s)" and "effort = ss_reasoning_effort s"
  shows "cached_turn (Some sid) messages effort m =
     (if ss_replays s < mgr_max_turn_replays m then
        (Inr (Some (replay_of s t)),
         m\<lparr>mgr_sessions := od_put sid (s\<lparr>ss_replays := Suc (ss_replays s)\<rparr>) (mgr_sessions m)\<rparr>)
      else (Inl (ReplaysExhausted (ss_replays s)), m))"
  using assms by (simp add: cached_turn_def sbind_slift check_reasoning_effort_def)

lemma retries_state:
  assumes "map_of (mgr_sessions m) sid = Some s" and "ss_last_turn s = Some t" and "ss_replays s = 0"
    and "normalize_messages messages = Inr (ss_messages s)" and "effort = ss_reasoning_effort s"
  shows "let m' = ((\<lambda>m. snd (cached_turn (Some sid) messages effort m)) ^^ k) m in
     map_of (mgr_sessions m') sid = Some (s\<lparr>ss_replays := min k (mgr_max_turn_replays m)\<rparr>) \<and>
     mgr_max_turn_replays m' = mgr_max_turn_replays m"
proof (induction k)
  case 0
  from assms(3) have "s\<lparr>ss_replays := 0\<rparr> = s" by (metis session_state.surjective session_state.update_convs(4))
  with assms(1) show ?case by simp
next
  case (Suc k)
  let ?m = "((\<lambda>m. snd (cached_turn (Some sid) messages effort m)) ^^ k) m"
  let ?s = "s\<lparr>ss_replays := min k (mgr_max_turn_replays m)\<rparr>"
  from Suc have m: "map_of (mgr_sessions ?m) sid = Some ?s" "mgr_max_turn_replays ?m = mgr_max_turn_replays m"
    by (simp_all add: Let_def)
  have "cached_turn (Some sid) messages effort ?m =
     (if ss_replays ?s < mgr_max_turn_replays ?m then
        (Inr (Some (replay_of ?s t)),
         ?m\<lparr>mgr_sessions := od_put sid (?s\<lparr>ss_replays := Suc (ss_replays ?s)\<rparr>) (mgr_sessions ?m)\<rparr>)
      else (Inl (ReplaysExhausted (ss_replays ?s)), ?m))"
    using assms by (intro cached_turn_exact m(1)) simp_all
  with m show ?case
    by (simp add: Let_def min_def not_less)
qed

text \<open>C12:
  Lost-response recovery: after a turn is committed, the exact request may be repeated
  \<open>max_turn_replays\<close> times, each time getting exactly the committed prompt, completion, log
  probabilities, finish reason and engine metadata; every later repetition is refused.
\<close>

theorem exact_retry_replays_the_turn:
  assumes "mgr_reachable m" and "0 < mgr_max_sessions m" and "normalize_messages messages = Inr ms"
    and "c \<noteq> []"
    and "m0 = snd (commit sid messages p c (Some lps) (Some reason) (Some meta) tools effort m)"
    and "mk = ((\<lambda>m. snd (cached_turn (Some sid) messages effort m)) ^^ k) m0"
  shows "fst (cached_turn (Some sid) messages effort mk) =
     (if k < mgr_max_turn_replays m then Inr (Some (p, c, lps, reason, meta))
      else Inl (ReplaysExhausted (mgr_max_turn_replays m)))"
proof -
  obtain t where t: "turn_to_cache c (Some lps) (Some reason) (Some meta) tools = Some t"
    "ct_completion_len t = length c" "ct_log_probs t = lps" "ct_finish_reason t = reason" "ct_engine_meta t = meta"
    using assms(4) by (simp add: turn_to_cache_def)
  let ?s = "new_session_state (p @ c) ms (Some t) tools effort"
  have "map_of (mgr_sessions m0) sid = Some ?s"
    using commit_evicts [OF assms(1-3)] by (simp add: assms(5) t)
  moreover have max: "mgr_max_turn_replays m0 = mgr_max_turn_replays m"
    by (simp add: assms(5) commit_unfold [OF assms(3)] Let_def)
  ultimately have mk: "map_of (mgr_sessions mk) sid = Some (?s\<lparr>ss_replays := min k (mgr_max_turn_replays m)\<rparr>)"
    "mgr_max_turn_replays mk = mgr_max_turn_replays m"
    using retries_state [of m0 sid ?s t messages effort k] assms(3)
    by (simp_all add: assms(6) Let_def new_session_state_def)
  show ?thesis
    using assms(3,4) by (subst cached_turn_exact [OF mk(1), of t])
      (auto simp: new_session_state_def mk(2) replay_of_def t(2-))
qed

theorem exact_retry_replays_the_turn_witness:
  "fst (cached_turn (Some ''s'') demo_opening None
     (((\<lambda>m. snd (cached_turn (Some ''s'') demo_opening None m)) ^^ 4)
        (snd (commit ''s'' demo_opening [1, 2] [3, 4] (Some [Fin 0, Fin 0]) (Some ''stop'') (Some [])
          PNone None demo_manager))))
   = Inl (ReplaysExhausted 4)"
proof -
  have "0 < mgr_max_sessions demo_manager" "normalize_messages demo_opening = Inr [demo_msg ''user'' ''hi'']"
    "mgr_max_turn_replays demo_manager = 4"
    by code_simp+
  then show ?thesis
    using exact_retry_replays_the_turn [OF demo_manager_reachable _ _ _ refl refl,
        where messages = demo_opening and c = "[3, 4]" and sid = "''s''" and p = "[1, 2]" and
        lps = "[Fin 0, Fin 0]" and reason = "''stop''" and meta = "[]" and tools = PNone and
        effort = None and k = 4]
    by simp
qed

subsection \<open>Interleaved sessions\<close>

text \<open>
  \<open>foreign_step sid\<close>: any step that does not commit to or drop the stream \<open>sid\<close>. Prompt
  construction, retries and parsing may be for any session, \<open>sid\<close> included.
\<close>

inductive foreign_step :: "string \<Rightarrow> manager \<Rightarrow> manager \<Rightarrow> bool" for sid :: string where
  foreign_build: "foreign_step sid m (snd (build_prompt k messages tools effort m))"
| foreign_cached: "foreign_step sid m (snd (cached_turn k messages effort m))"
| foreign_commit: "s \<noteq> sid \<Longrightarrow> foreign_step sid m (snd (commit s messages prompt_ids completion_ids
                     log_probs finish_reason engine_meta tools effort m))"
| foreign_publish: "foreign_step sid m (snd (publish_parsed s token_ids result m))"
| foreign_drop: "s \<noteq> sid \<Longrightarrow> foreign_step sid m (drop_stream s m)"

lemma foreign_mgr_step: "foreign_step sid m m' \<Longrightarrow> mgr_step m m'"
  by (induction rule: foreign_step.induct) (rule mgr_step.intros)+

text \<open>What another session's steps leave of a stream: its tokens and messages, or nothing.\<close>

definition stream_kept :: "session_state option \<Rightarrow> session_state option \<Rightarrow> bool" where
  "stream_kept old new \<longleftrightarrow>
     (case new of None \<Rightarrow> True
      | Some s' \<Rightarrow> (case old of None \<Rightarrow> False
          | Some s \<Rightarrow> ss_stream s' = ss_stream s \<and> ss_messages s' = ss_messages s \<and>
                     ss_tools s' = ss_tools s \<and> ss_reasoning_effort s' = ss_reasoning_effort s))"

lemma stream_kept_refl [simp]: "stream_kept x x"
  by (simp add: stream_kept_def split: option.splits)

lemma stream_kept_None [simp]: "stream_kept x None"
  by (simp add: stream_kept_def)

lemma stream_kept_trans: "stream_kept x y \<Longrightarrow> stream_kept y z \<Longrightarrow> stream_kept x z"
  by (auto simp: stream_kept_def split: option.splits)

lemma map_of_map_value: "map_of (map (\<lambda>(k, v). (k, f k v)) d) k = map_option (f k) (map_of d k)"
  by (induction d) auto

lemma map_of_touched:
  "touched sid m m' \<Longrightarrow> map_of (mgr_sessions m') k = map_of (mgr_sessions m) k"
  by (auto simp: touched_def warmed_fields)

lemma map_of_drop_distinct:
  assumes "distinct (od_keys d)"
  shows "map_of (drop n d) k = None \<or> map_of (drop n d) k = map_of d k"
proof (cases "map_of (drop n d) k")
  case (Some v)
  then have "(k, v) \<in> set d" by (meson in_set_dropD map_of_SomeD)
  with assms Some show ?thesis by (simp add: od_keys_def)
qed simp

lemma foreign_step_kept:
  assumes "mgr_reachable m" and "foreign_step sid m m'"
  shows "stream_kept (map_of (mgr_sessions m) sid) (map_of (mgr_sessions m') sid)"
  using assms(2)
proof cases
  case (foreign_build k messages tools effort)
  obtain m'' where "build_prompt k messages tools effort m = (prompt_spec m k messages tools effort, m'')"
    and "touched k m m''"
    using build_prompt_refines [OF reachable_caches_ok [OF assms(1)]] .
  then show ?thesis by (simp add: foreign_build map_of_touched)
next
  case (foreign_cached k messages effort)
  show ?thesis
  proof (cases rule: cached_turn_cases [of k messages effort m])
    case unchanged
    then show ?thesis by (simp add: foreign_cached)
  next
    case (served k' s t)
    then show ?thesis
      by (cases "sid = k'"; cases "map_of (mgr_sessions m) sid") (simp_all add: foreign_cached stream_kept_def)
  qed
next
  case (foreign_commit s messages p c lps reason meta tools effort)
  show ?thesis
  proof (cases "normalize_messages messages")
    case (Inl e)
    then show ?thesis using foreign_commit by (simp add: commit_def sbind_slift)
  next
    case (Inr ms)
    have "distinct (od_keys (od_put s st (mgr_sessions m)))" for st
      using reachable_mgr_inv [OF assms(1)] by (simp add: mgr_inv_def del: od_keys_put)
    then show ?thesis
      using map_of_drop_distinct foreign_commit(2)
      unfolding foreign_commit(1) commit_sessions [OF Inr] Let_def
      by (metis map_of_od_put stream_kept_None stream_kept_refl)
  qed
next
  case (foreign_publish s token_ids result)
  then show ?thesis
    by (auto simp: publish_parsed_def map_of_map_value stream_kept_def
        split: option.splits)
next
  case (foreign_drop s)
  then show ?thesis by (simp add: drop_stream_def)
qed

lemma foreign_steps_kept:
  assumes "(foreign_step sid)\<^sup>*\<^sup>* m m'" and "mgr_reachable m"
  shows "mgr_reachable m' \<and> stream_kept (map_of (mgr_sessions m) sid) (map_of (mgr_sessions m') sid)"
  using assms
proof induction
  case (step m1 m2)
  then have r: "mgr_reachable m1"
    and k: "stream_kept (map_of (mgr_sessions m) sid) (map_of (mgr_sessions m1) sid)" by simp_all
  have "mgr_reachable m2" using r foreign_mgr_step [OF step(2)] by (rule reachable_step)
  moreover from k foreign_step_kept [OF r step(2)]
  have "stream_kept (map_of (mgr_sessions m) sid) (map_of (mgr_sessions m2) sid)"
    by (rule stream_kept_trans)
  ultimately show ?case by simp
qed simp

lemma commit_then_prompt:
  assumes "mgr_reachable m" and "0 < mgr_max_sessions m"
    and "commit sid messages p c lps reason meta tools effort m = (Inr (), m1)"
    and "(foreign_step sid)\<^sup>*\<^sup>* m1 m2"
    and "normalize_messages request = Inr ms" and "first_assistant ms \<noteq> None"
    and "fst (build_prompt (Some sid) request tools' effort' m2) = Inr p'"
  shows "prefix (p @ c) p'"
proof -
  obtain cs where n: "normalize_messages messages = Inr cs"
    using assms(3) by (cases "normalize_messages messages") (auto simp: commit_def sbind_slift)
  have m1: "m1 = snd (commit sid messages p c lps reason meta tools effort m)" by (simp add: assms(3))
  have r1: "mgr_reachable m1" unfolding m1 by (rule reachable_step [OF assms(1) step_commit])
  have "map_of (mgr_sessions m1) sid =
      Some (new_session_state (p @ c) cs (turn_to_cache c lps reason meta tools) tools effort)"
    unfolding m1 using commit_evicts [OF assms(1,2) n] by simp
  moreover note kept = foreign_steps_kept [OF assms(4) r1]
  moreover from kept assms(7) have "prompt_spec m2 (Some sid) request tools' effort' = Inr p'"
    by (simp add: build_prompt_outcome)
  then obtain s d where "map_of (mgr_sessions m2) sid = Some s" "p' = ss_stream s @ d"
    using assms(5,6) by (rule prompt_spec_continuation)
  ultimately show ?thesis by (simp add: stream_kept_def new_session_state_def)
qed

text \<open>C4:
  Strict token-in, token-out across interleaved sessions: once a turn is committed, whatever the
  other sessions do and however often the turn is retried or parsed, the next prompt built for a
  continuation of that session starts with exactly the committed prompt followed by exactly the
  sampled completion.
\<close>

theorem token_in_token_out:
  assumes "mgr_reachable m" and "0 < mgr_max_sessions m"
    and "commit sid messages p c lps reason meta tools effort m = (Inr (), m1)"
    and "(foreign_step sid)\<^sup>*\<^sup>* m1 m2"
    and "normalize_messages request = Inr ms" and "first_assistant ms \<noteq> None"
    and "fst (build_prompt (Some sid) request tools' effort' m2) = Inr p'"
  shows "prefix (p @ c) p'"
  using assms by (rule commit_then_prompt)

theorem token_in_token_out_witness: "prefix ([1, 2] @ [3, 4]) demo_prompt"
proof (rule token_in_token_out [OF demo_manager_reachable])
  show "0 < mgr_max_sessions demo_manager" by code_simp
  have "fst (commit ''s'' demo_opening [1, 2] [3, 4] (Some [Fin 0, Fin 0]) (Some ''stop'') None PNone None
      demo_manager) = Inr ()"
    by code_simp
  then show "commit ''s'' demo_opening [1, 2] [3, 4] (Some [Fin 0, Fin 0]) (Some ''stop'') None PNone None
      demo_manager = (Inr (), demo_committed)"
    by (simp add: demo_committed_def demo_commit_def prod_eq_iff)
  show "(foreign_step ''s'')\<^sup>*\<^sup>* demo_committed demo_committed" by simp
qed (rule demo_followup_normal demo_followup_assistant demo_followup_prompt)+

text \<open>C14:
  The class invariant: in every reachable state the streams and the evicted session ids are
  distinct, disjoint and at most \<open>max_sessions\<close> each; every stored turn's completion is a non-empty
  suffix length of its stream; no stream has been replayed more than \<open>max_turn_replays\<close> times; and
  every cache holds what a fresh computation would.
\<close>

theorem manager_invariant:
  assumes "mgr_reachable m"
  shows "mgr_inv m \<and> caches_ok m"
  using assms by (rule reachable_inv)

theorem manager_invariant_witness: "mgr_inv demo_committed \<and> caches_ok demo_committed"
  by (rule manager_invariant [OF demo_committed_reachable])

end
