(* ===== verification/Sampling.thy ===== *)
theory Sampling
  imports Messages
begin

section \<open>Request validation and the sampling policy\<close>

text \<open>
  \<^verbatim>\<open>model_registry.py\<close> (the override validation, the temperature floor and the bundled
  defaults), \<^verbatim>\<open>request_validation.py\<close>, \<^verbatim>\<open>engines.py\<close>, and the part of
  \<^verbatim>\<open>BaseRolloutProvider.generate\<close> that merges the layers of the sampling policy. Every \<^verbatim>\<open>raise\<close>
  is a constructor of \<open>request_error\<close>; the wording of the messages is not modelled.
\<close>

datatype request_error =
    OverridesNotMapping
  | UnknownOverrides "string list"
  | OverrideNotNumber string
  | OverrideNotFinite string
  | OverrideOutOfRange string
  | BadReasoningEffort
  | UnsupportedReasoningEffort
  | BadTokenBudget string
  | BadSeed
  | BadStopTokenIds
  | BadStop
  | BodyNotObject
  | NoModelNamed
  | NoMessages
  | RequestStream ts_error
  | AudioOrFunctionCall
  | ToolCallsNotList
  | NotFunctionCalls
  | ToolCallUnnamed
  | BadToolCallArguments
  | StreamNotBool
  | UnsupportedField string
  | UnsupportedFields "string list"

subsection \<open>Sampling overrides\<close>

definition SAMPLING_PARAM_KEYS :: "string list" where
  "SAMPLING_PARAM_KEYS = [''temperature'', ''top_p'', ''top_k'', ''min_p'', ''repetition_penalty'',
     ''presence_penalty'', ''frequency_penalty'']"

text \<open>\<^verbatim>\<open>0.01\<close> is the double nearest to one hundredth.\<close>

definition MIN_TEMPERATURE :: rat where
  "MIN_TEMPERATURE = 5764607523034235 / 2 ^ 59"

definition override_in_range :: "string \<Rightarrow> pyval \<Rightarrow> bool" where
  "override_in_range key value =
     (if key = ''top_k'' then (case value of PInt i \<Rightarrow> i = -1 \<or> i \<ge> 1 | _ \<Rightarrow> False)
      else if key = ''top_p'' then 0 < rat_of value \<and> rat_of value \<le> 1
      else if key = ''min_p'' then 0 \<le> rat_of value \<and> rat_of value \<le> 1
      else if key = ''temperature'' then 0 \<le> rat_of value
      else if key = ''repetition_penalty'' then 0 < rat_of value
      else -2 \<le> rat_of value \<and> rat_of value \<le> 2)"

definition check_override :: "string \<times> pyval \<Rightarrow> request_error + unit" where
  "check_override e =
     (let (key, value) = e in
      rbind (require (is_number value) (OverrideNotNumber key)) (\<lambda>_.
      rbind (require (finite_num value) (OverrideNotFinite key)) (\<lambda>_.
        require (override_in_range key value) (OverrideOutOfRange key))))"

definition pick_keys :: "string list \<Rightarrow> (pyval \<Rightarrow> bool) \<Rightarrow> pydict \<Rightarrow> pydict" where
  "pick_keys keys keep d =
     map (\<lambda>k. (k, dget d k)) (filter (\<lambda>k. has_key d k \<and> keep (dget d k)) keys)"

definition validate_sampling_overrides :: "pyval \<Rightarrow> request_error + pydict" where
  "validate_sampling_overrides overrides =
     (case overrides of
        PDict d \<Rightarrow>
          (let bad = filter (\<lambda>k. k \<notin> set SAMPLING_PARAM_KEYS) (map fst d) in
           rbind (require (bad = []) (UnknownOverrides bad)) (\<lambda>_.
           rbind (check_all check_override d) (\<lambda>_.
             Inr (pick_keys SAMPLING_PARAM_KEYS (\<lambda>_. True) d))))
      | _ \<Rightarrow> Inl OverridesNotMapping)"

text \<open>\<^verbatim>\<open>temperature < MIN_TEMPERATURE\<close> on a number.\<close>

definition below_floor :: "pyval \<Rightarrow> bool" where
  "below_floor v =
     (case num_key v of Some (Fin q) \<Rightarrow> q < MIN_TEMPERATURE | Some NegInf \<Rightarrow> True | _ \<Rightarrow> False)"

definition apply_temperature_floor :: "pydict \<Rightarrow> pydict" where
  "apply_temperature_floor params =
     (if dget params ''temperature'' \<noteq> PNone \<and> below_floor (dget params ''temperature'')
      then dset ''temperature'' (PFloat (Fin MIN_TEMPERATURE)) params else params)"

text \<open>
  \<^verbatim>\<open>load_sampling_defaults\<close>: \<open>config\<close> is what the file parses to, \<open>None\<close> when it is missing or
  unreadable.
\<close>

definition load_sampling_defaults :: "pyval option \<Rightarrow> pydict" where
  "load_sampling_defaults config =
     (case config of
        Some (PDict d) \<Rightarrow> pick_keys SAMPLING_PARAM_KEYS (\<lambda>v. v \<noteq> PNone) d
      | _ \<Rightarrow> [])"

subsection \<open>Generation parameters\<close>

definition effort_names :: "string list" where
  "effort_names = [''none'', ''minimal'', ''low'', ''medium'', ''high'', ''xhigh'', ''max'']"

definition validate_reasoning_effort :: "pyval \<Rightarrow> string list \<Rightarrow> request_error + unit" where
  "validate_reasoning_effort value supported =
     (case value of
        PNone \<Rightarrow> Inr ()
      | PStr s \<Rightarrow>
          rbind (require (s \<in> set effort_names) BadReasoningEffort) (\<lambda>_.
            require (supported = [] \<or> s \<in> set supported) UnsupportedReasoningEffort)
      | _ \<Rightarrow> Inl BadReasoningEffort)"

definition check_budget :: "pydict \<Rightarrow> string \<Rightarrow> request_error + unit" where
  "check_budget params key =
     require (case dget params key of PNone \<Rightarrow> True | PInt n \<Rightarrow> n > 0 | _ \<Rightarrow> False) (BadTokenBudget key)"

definition is_stop_string :: "pyval \<Rightarrow> bool" where
  "is_stop_string v = (case v of PStr s \<Rightarrow> s \<noteq> [] | _ \<Rightarrow> False)"

definition valid_stop :: "pyval \<Rightarrow> bool" where
  "valid_stop stop =
     (case stop of
        PNone \<Rightarrow> True
      | PStr s \<Rightarrow> s \<noteq> []
      | PList xs \<Rightarrow> list_all is_stop_string xs
      | _ \<Rightarrow> False)"

definition valid_stop_token_ids :: "pyval \<Rightarrow> bool" where
  "valid_stop_token_ids stops =
     (case stops of PNone \<Rightarrow> True | PList xs \<Rightarrow> list_all is_token xs | _ \<Rightarrow> False)"

definition validate_generation_parameters :: "pydict \<Rightarrow> request_error + unit" where
  "validate_generation_parameters params =
     rbind (validate_sampling_overrides
              (PDict (pick_keys SAMPLING_PARAM_KEYS (\<lambda>v. v \<noteq> PNone) params))) (\<lambda>_.
     rbind (check_all (check_budget params) [''max_tokens'', ''max_completion_tokens'']) (\<lambda>_.
     rbind (require (dget params ''seed'' = PNone \<or> is_int (dget params ''seed'')) BadSeed) (\<lambda>_.
     rbind (require (valid_stop_token_ids (dget params ''stop_token_ids'')) BadStopTokenIds) (\<lambda>_.
       require (valid_stop (dget params ''stop'')) BadStop))))"

subsection \<open>Chat requests\<close>

definition validate_tool_call :: "pyval \<Rightarrow> request_error + unit" where
  "validate_tool_call call =
     (case call of
        PDict c \<Rightarrow>
          rbind (require (dget c ''type'' = PStr ''function'') NotFunctionCalls) (\<lambda>_.
            case dget c ''function'' of
              PDict f \<Rightarrow>
                rbind (require (is_str (dget f ''name'')) ToolCallUnnamed) (\<lambda>_.
                  require (is_str (dget f ''arguments'') \<or> is_dict (dget f ''arguments''))
                    BadToolCallArguments)
            | _ \<Rightarrow> Inl ToolCallUnnamed)
      | _ \<Rightarrow> Inl NotFunctionCalls)"

definition validate_message_fields :: "pyval \<Rightarrow> request_error + unit" where
  "validate_message_fields message =
     (case message of
        PDict m \<Rightarrow>
          rbind (require (dget m ''audio'' = PNone \<and> dget m ''function_call'' = PNone)
                  AudioOrFunctionCall) (\<lambda>_.
            case dget m ''tool_calls'' of
              PNone \<Rightarrow> Inr ()
            | PList calls \<Rightarrow> check_all validate_tool_call calls
            | _ \<Rightarrow> Inl ToolCallsNotList)
      | _ \<Rightarrow> Inr ())"

definition supported_fields :: "string list" where
  "supported_fields =
     [''model'', ''messages'', ''tools'', ''stream'', ''stream_options'', ''n'', ''response_format'',
      ''tool_choice'', ''parallel_tool_calls'', ''logprobs'', ''top_logprobs'', ''logit_bias'',
      ''max_tokens'', ''max_completion_tokens'', ''stop'', ''stop_token_ids'', ''seed'',
      ''reasoning_effort'', ''user'', ''metadata'', ''safety_identifier''] @ SAMPLING_PARAM_KEYS"

text \<open>The fields that are recognized only at their default value.\<close>

definition default_only :: "pydict \<Rightarrow> (string \<times> bool) list" where
  "default_only body =
     [(''n'', dget body ''n'' = PNone \<or> dget body ''n'' = PInt 1),
      (''response_format'', dget body ''response_format'' = PNone \<or>
         py_eq (dget body ''response_format'') (PDict [(''type'', PStr ''text'')])),
      (''tool_choice'', dget body ''tool_choice'' = PNone \<or> dget body ''tool_choice'' = PStr ''auto''),
      (''parallel_tool_calls'', dget body ''parallel_tool_calls'' = PNone \<or>
         dget body ''parallel_tool_calls'' = PBool True),
      (''logprobs'', dget body ''logprobs'' = PNone \<or> dget body ''logprobs'' = PBool False),
      (''top_logprobs'', dget body ''top_logprobs'' = PNone \<or> dget body ''top_logprobs'' = PInt 0),
      (''logit_bias'', dget body ''logit_bias'' = PNone \<or> dget body ''logit_bias'' = PDict []),
      (''stream_options'',
         (case dget body ''stream_options'' of
            PNone \<Rightarrow> True
          | PDict d \<Rightarrow> d = [] \<or> (set (map fst d) = {''include_usage''} \<and>
                                 dget d ''include_usage'' = PBool True)
          | _ \<Rightarrow> False))]"

definition validate_chat_request :: "pyval \<Rightarrow> request_error + unit" where
  "validate_chat_request body =
     (case body of
        PDict b \<Rightarrow>
          rbind (require (case dget b ''model'' of PStr s \<Rightarrow> strip s \<noteq> [] | _ \<Rightarrow> False) NoModelNamed) (\<lambda>_.
          rbind (case dget b ''messages'' of
                   PList (m # ms) \<Rightarrow> Inr (m # ms) | _ \<Rightarrow> Inl NoMessages) (\<lambda>messages.
          rbind (case normalize_messages (PList messages) of
                   Inl e \<Rightarrow> Inl (RequestStream e) | Inr _ \<Rightarrow> Inr ()) (\<lambda>_.
          rbind (check_all validate_message_fields messages) (\<lambda>_.
          rbind (case validate_tools (dget b ''tools'') of
                   Inl e \<Rightarrow> Inl (RequestStream e) | Inr _ \<Rightarrow> Inr ()) (\<lambda>_.
          rbind (validate_generation_parameters b) (\<lambda>_.
          rbind (validate_reasoning_effort (dget b ''reasoning_effort'') []) (\<lambda>_.
          rbind (require (\<not> has_key b ''stream'' \<or> is_bool (dget b ''stream'')) StreamNotBool) (\<lambda>_.
          rbind (check_all (\<lambda>(k, ok). require ok (UnsupportedField k)) (default_only b)) (\<lambda>_.
            let unsupported =
                  map fst (filter (\<lambda>(k, v). k \<notin> set supported_fields \<and> v \<noteq> PNone) b)
            in require (unsupported = []) (UnsupportedFields unsupported))))))))))
      | _ \<Rightarrow> Inl BodyNotObject)"

subsection \<open>The policy sent to the engine\<close>

text \<open>\<^verbatim>\<open>{**d, **e}\<close> and \<^verbatim>\<open>d.update(e)\<close>.\<close>

definition dict_update :: "pydict \<Rightarrow> pydict \<Rightarrow> pydict" where
  "dict_update d e = foldl (\<lambda>d (k, v). dset k v d) d e"

text \<open>\<^verbatim>\<open>list(dict.fromkeys(xs))\<close>: the first occurrence of every element.\<close>

definition dedup :: "'a list \<Rightarrow> 'a list" where
  "dedup xs = rev (remdups (rev xs))"

definition set_optional :: "string \<Rightarrow> pyval option \<Rightarrow> pydict \<Rightarrow> pydict" where
  "set_optional k v d = (case v of None \<Rightarrow> d | Some x \<Rightarrow> dset k x d)"

definition merge_policy :: "pydict \<Rightarrow> pydict \<Rightarrow> pydict \<Rightarrow> pydict \<Rightarrow> pydict" where
  "merge_policy defaults requested config runtime =
     (let params = dict_update [(''temperature'', PFloat (Fin 1))] defaults;
          params = dict_update params (filter (\<lambda>(k, v). v \<noteq> PNone) requested)
      in dict_update params (dict_update config runtime))"

definition build_sampling_params ::
  "pydict \<Rightarrow> pydict \<Rightarrow> pydict \<Rightarrow> pydict \<Rightarrow> pyval \<Rightarrow> pyval option \<Rightarrow> pyval option \<Rightarrow> pyval list option \<Rightarrow>
   int list \<Rightarrow> request_error + pydict" where
  "build_sampling_params defaults requested config runtime max_tokens stop seed stop_token_ids
     profile_stops =
     (let params = merge_policy defaults requested config runtime;
          params = dset ''logprobs'' (PBool True) (dset ''max_tokens'' max_tokens params);
          params = set_optional ''stop'' stop params;
          params = set_optional ''seed'' seed params;
          params = set_optional ''stop_token_ids'' (map_option PList stop_token_ids) params
      in rbind (validate_generation_parameters params) (\<lambda>_.
           let params = apply_temperature_floor params
           in Inr (if profile_stops = [] then params
                   else dset ''stop_token_ids''
                          (PList (dedup (map PInt profile_stops @
                             (case stop_token_ids of None \<Rightarrow> [] | Some xs \<Rightarrow> xs)))) params)))"

text \<open>The snapshot of the policy recorded with the turn.\<close>

definition actual_sampling :: "pydict \<Rightarrow> pydict" where
  "actual_sampling params = pick_keys SAMPLING_PARAM_KEYS (\<lambda>_. True) params"

definition requested_params ::
  "pyval \<Rightarrow> pyval \<Rightarrow> pyval \<Rightarrow> pyval \<Rightarrow> pyval \<Rightarrow> pyval \<Rightarrow> pyval \<Rightarrow> pydict" where
  "requested_params temperature top_p top_k min_p repetition presence frequency =
     [(''temperature'', temperature), (''top_p'', top_p), (''top_k'', top_k), (''min_p'', min_p),
      (''repetition_penalty'', repetition), (''presence_penalty'', presence),
      (''frequency_penalty'', frequency)]"

subsection \<open>Finish reasons\<close>

definition STOP :: string where "STOP = ''stop''"
definition LENGTH :: string where "LENGTH = ''length''"
definition ABORT :: string where "ABORT = ''abort''"

definition normalize_finish_reason :: "string option \<Rightarrow> int \<Rightarrow> int \<Rightarrow> string" where
  "normalize_finish_reason stop_reason num_tokens max_tokens =
     (case stop_reason of
        Some r \<Rightarrow> if r \<in> {STOP, LENGTH, ABORT} then r
                  else if max_tokens \<noteq> 0 \<and> num_tokens \<ge> max_tokens then LENGTH else STOP
      | None \<Rightarrow> if max_tokens \<noteq> 0 \<and> num_tokens \<ge> max_tokens then LENGTH else STOP)"

subsection \<open>Layers of the policy\<close>

text \<open>
  A layer of the policy: a dictionary (distinct keys) of distribution parameters, none \<^verbatim>\<open>None\<close>.
  Bundled defaults and validated overrides are layers.
\<close>

definition policy_layer :: "pydict \<Rightarrow> bool" where
  "policy_layer d \<longleftrightarrow> distinct (map fst d) \<and> set (map fst d) \<subseteq> set SAMPLING_PARAM_KEYS \<and>
     (\<forall>v\<in>snd ` set d. v \<noteq> PNone)"

lemma pick_keys_keys: "map fst (pick_keys keys keep d) = filter (\<lambda>k. has_key d k \<and> keep (dget d k)) keys"
  by (simp add: pick_keys_def comp_def)

lemma map_of_pick_keys:
  "map_of (pick_keys keys keep d) k =
     (if k \<in> set keys \<and> has_key d k \<and> keep (dget d k) then Some (dget d k) else None)"
  by (induction keys) (auto simp: pick_keys_def)

lemma dget_pick_keys:
  "dget (pick_keys keys keep d) k =
     (if k \<in> set keys \<and> has_key d k \<and> keep (dget d k) then dget d k else PNone)"
  unfolding dget_def [of "pick_keys keys keep d"] by (simp add: map_of_pick_keys)

lemma has_key_pick_keys:
  "has_key (pick_keys keys keep d) k \<longleftrightarrow> k \<in> set keys \<and> has_key d k \<and> keep (dget d k)"
  by (simp add: has_key_def [of "pick_keys keys keep d"] map_of_pick_keys)

lemma dget_not_None_has_key: "dget d k \<noteq> PNone \<Longrightarrow> has_key d k"
  by (auto simp: dget_def has_key_def split: option.splits)

lemma distinct_SAMPLING_PARAM_KEYS: "distinct SAMPLING_PARAM_KEYS"
  by (simp add: SAMPLING_PARAM_KEYS_def)

lemma policy_layer_pick:
  assumes "\<not> keep PNone"
  shows "policy_layer (pick_keys SAMPLING_PARAM_KEYS keep d)"
  using assms distinct_SAMPLING_PARAM_KEYS
  unfolding policy_layer_def by (auto simp: pick_keys_keys) (auto simp: pick_keys_def)

lemma policy_layer_defaults: "policy_layer (load_sampling_defaults config)"
  by (auto simp: load_sampling_defaults_def policy_layer_pick split: option.splits pyval.splits)
    (simp_all add: policy_layer_def)

definition valid_setting :: "string \<Rightarrow> pyval \<Rightarrow> bool" where
  "valid_setting k v \<longleftrightarrow> finite_num v \<and> override_in_range k v"

lemma check_override_Inr: "check_override (k, v) = Inr u \<longleftrightarrow> valid_setting k v"
  by (auto simp: check_override_def valid_setting_def result_simps finite_num_is_number)

text \<open>Exactly which override mappings are accepted, and what they become.\<close>

lemma validate_sampling_overrides_Inr:
  "validate_sampling_overrides v = Inr d' \<longleftrightarrow>
     (\<exists>d. v = PDict d \<and> set (map fst d) \<subseteq> set SAMPLING_PARAM_KEYS \<and>
          (\<forall>(k, x)\<in>set d. valid_setting k x) \<and> d' = pick_keys SAMPLING_PARAM_KEYS (\<lambda>_. True) d)"
proof (cases "is_dict v")
  case True
  then obtain d where v: "v = PDict d" by (auto simp: is_dict_iff)
  have "filter (\<lambda>k. k \<notin> set SAMPLING_PARAM_KEYS) (map fst d) = [] \<longleftrightarrow> set (map fst d) \<subseteq> set SAMPLING_PARAM_KEYS"
    by (auto simp: filter_empty_conv)
  moreover have "check_all check_override d = Inr () \<longleftrightarrow> (\<forall>(k, x)\<in>set d. valid_setting k x)"
    by (auto simp: check_all_Inr check_override_Inr)
  ultimately show ?thesis
    unfolding v validate_sampling_overrides_def Let_def
    by (auto simp: result_simps simp del: set_map)
next
  case False
  then show ?thesis by (auto simp: validate_sampling_overrides_def split: pyval.splits)
qed

lemma map_of_set_dict: "map_of d k = Some v \<Longrightarrow> (k, v) \<in> set d"
  by (rule map_of_SomeD)

lemma finite_not_None: "valid_setting k v \<Longrightarrow> v \<noteq> PNone"
  by (auto simp: valid_setting_def)

lemma policy_layer_overrides:
  assumes "validate_sampling_overrides v = Inr d"
  shows "policy_layer d" and "\<forall>(k, x)\<in>set d. valid_setting k x"
proof -
  from assms obtain e where e: "\<forall>(k, x)\<in>set e. valid_setting k x"
    and d: "d = pick_keys SAMPLING_PARAM_KEYS (\<lambda>_. True) e"
    by (auto simp: validate_sampling_overrides_Inr)
  have "valid_setting k x" if "(k, x) \<in> set d" for k x
    using that e by (fastforce simp: d pick_keys_def dget_def has_key_def split: option.splits dest: map_of_SomeD)
  then show "\<forall>(k, x)\<in>set d. valid_setting k x" by blast
  then show "policy_layer d"
    using distinct_SAMPLING_PARAM_KEYS finite_not_None
    unfolding policy_layer_def by (auto simp: d pick_keys_keys)
qed

subsection \<open>Merging\<close>

lemma dict_update_snoc: "dict_update d (e @ [(k, v)]) = dset k v (dict_update d e)"
  by (simp add: dict_update_def)

lemma map_of_dict_update:
  assumes "distinct (map fst e)"
  shows "map_of (dict_update d e) k = (case map_of e k of Some v \<Rightarrow> Some v | None \<Rightarrow> map_of d k)"
  using assms
proof (induction e rule: rev_induct)
  case Nil
  then show ?case by (simp add: dict_update_def)
next
  case (snoc x e)
  obtain j v where x: "x = (j, v)" by (cases x)
  from snoc have "map_of e j = None" by (auto simp: x map_of_eq_None_iff)
  with snoc show ?case
    by (auto simp: x dict_update_snoc update_conv' map_add_def split: option.splits)
qed

lemma dget_dict_update:
  "distinct (map fst e) \<Longrightarrow> dget (dict_update d e) k = (if has_key e k then dget e k else dget d k)"
  by (auto simp: dget_def has_key_def map_of_dict_update split: option.splits)

lemma has_key_dict_update:
  "distinct (map fst e) \<Longrightarrow> has_key (dict_update d e) k \<longleftrightarrow> has_key e k \<or> has_key d k"
  by (auto simp: has_key_def map_of_dict_update split: option.splits)

lemma distinct_dict_update: "distinct (map fst d) \<Longrightarrow> distinct (map fst (dict_update d e))"
  unfolding dict_update_def
  by (induction e arbitrary: d) (auto simp: distinct_update)

lemma distinct_filter_fst: "distinct (map fst d) \<Longrightarrow> distinct (map fst (filter P d))"
  by (rule distinct_map_filter)

lemma map_of_filter_not_None:
  "distinct (map fst d) \<Longrightarrow>
     map_of (filter (\<lambda>(k, v). v \<noteq> PNone) d) k =
       (case map_of d k of None \<Rightarrow> None | Some v \<Rightarrow> if v = PNone then None else Some v)"
proof (induction d)
  case Nil
  then show ?case by simp
next
  case (Cons e d)
  obtain a b where e: "e = (a, b)" by (cases e)
  with Cons.prems have "map_of d a = None" by (simp add: map_of_eq_None_iff)
  with Cons show ?case by (auto simp: e)
qed

lemma distinct_requested: "distinct (map fst (requested_params t p k m r pr f))"
  by (simp add: requested_params_def)

text \<open>
  Sampling precedence: for every distribution parameter the runtime override wins over the
  configured override, which wins over the request's value, which wins over the model's bundled
  default; only the temperature has a last resort, 1.0.
\<close>

theorem sampling_precedence:
  assumes "policy_layer defaults" and "policy_layer config" and "policy_layer runtime"
    and "distinct (map fst requested)"
  shows "dget (merge_policy defaults requested config runtime) k =
    (if has_key runtime k then dget runtime k
     else if has_key config k then dget config k
     else if dget requested k \<noteq> PNone then dget requested k
     else if has_key defaults k then dget defaults k
     else if k = ''temperature'' then PFloat (Fin 1) else PNone)"
proof -
  have d: "distinct (map fst defaults)" "distinct (map fst config)" "distinct (map fst runtime)"
    using assms(1-3) by (simp_all add: policy_layer_def)
  have r: "dget (filter (\<lambda>(k, v). v \<noteq> PNone) requested) k = dget requested k"
    "has_key (filter (\<lambda>(k, v). v \<noteq> PNone) requested) k \<longleftrightarrow> dget requested k \<noteq> PNone"
    using map_of_filter_not_None [OF assms(4), of k]
    by (simp_all add: dget_def has_key_def split: option.splits)
  have base: "dget [(''temperature'', PFloat (Fin 1))] k = (if k = ''temperature'' then PFloat (Fin 1) else PNone)"
    by (simp add: dget_def)
  show ?thesis
    unfolding merge_policy_def Let_def
    using dget_dict_update [OF distinct_dict_update [OF d(2), of runtime]]
      dget_dict_update [OF distinct_filter_fst [OF assms(4)]]
      dget_dict_update [OF d(1)] dget_dict_update [OF d(3)] has_key_dict_update [OF d(3)]
    by (simp only: r base split: if_split) blast
qed

definition demo_defaults :: pydict where
  "demo_defaults = load_sampling_defaults (Some (PDict [(''top_k'', PInt 20), (''top_p'', PFloat (Fin (1/2)))]))"

definition demo_runtime :: pydict where
  "demo_runtime = [(''temperature'', PFloat (Fin 0))]"

lemma demo_layers: "policy_layer demo_defaults" "policy_layer []" "policy_layer demo_runtime"
  by (simp add: demo_defaults_def policy_layer_defaults)
    (simp_all add: policy_layer_def demo_runtime_def SAMPLING_PARAM_KEYS_def)

definition demo_requested :: pydict where
  "demo_requested = requested_params (PInt 1) PNone PNone (PInt 0) PNone PNone PNone"

lemma demo_requested_distinct: "distinct (map fst demo_requested)"
  unfolding demo_requested_def by (rule distinct_requested)

theorem sampling_precedence_witness:
  "dget (merge_policy demo_defaults demo_requested [] demo_runtime) ''temperature'' = PFloat (Fin 0) \<and>
   dget (merge_policy demo_defaults demo_requested [] demo_runtime) ''top_k'' = PInt 20"
proof -
  have "has_key demo_runtime ''temperature''" "dget demo_runtime ''temperature'' = PFloat (Fin 0)"
    "\<not> has_key demo_runtime ''top_k''" "\<not> has_key [] ''top_k''" "dget demo_requested ''top_k'' = PNone"
    "has_key demo_defaults ''top_k''" "dget demo_defaults ''top_k'' = PInt 20"
    by code_simp+
  then show ?thesis
    by (simp add: sampling_precedence [OF demo_layers demo_requested_distinct])
qed

subsection \<open>What the engine receives\<close>

lemma check_all_budget:
  "check_all (check_budget params) ks = Inr u \<Longrightarrow> k \<in> set ks \<Longrightarrow> dget params k = PInt n \<Longrightarrow> n > 0"
  by (fastforce simp: check_all_Inr check_budget_def result_simps)

lemma validate_generation_parameters_Inr:
  assumes "validate_generation_parameters params = Inr u"
  shows "k \<in> set SAMPLING_PARAM_KEYS \<Longrightarrow> dget params k \<noteq> PNone \<Longrightarrow> valid_setting k (dget params k)"
    and "dget params ''max_tokens'' = PInt n \<Longrightarrow> n > 0"
    and "valid_stop (dget params ''stop'')" and "valid_stop_token_ids (dget params ''stop_token_ids'')"
proof -
  let ?d = "pick_keys SAMPLING_PARAM_KEYS (\<lambda>v. v \<noteq> PNone) params"
  from assms obtain d' where "validate_sampling_overrides (PDict ?d) = Inr d'"
    and budget: "check_all (check_budget params) [''max_tokens'', ''max_completion_tokens''] = Inr ()"
    and stop: "valid_stop (dget params ''stop'')" "valid_stop_token_ids (dget params ''stop_token_ids'')"
    by (auto simp: validate_generation_parameters_def result_simps)
  then have v: "\<forall>(k, x)\<in>set ?d. valid_setting k x"
    by (auto simp: validate_sampling_overrides_Inr)
  show "k \<in> set SAMPLING_PARAM_KEYS \<Longrightarrow> dget params k \<noteq> PNone \<Longrightarrow> valid_setting k (dget params k)"
    using v by (auto simp: pick_keys_def dget_not_None_has_key)
  show "dget params ''max_tokens'' = PInt n \<Longrightarrow> n > 0"
    using check_all_budget [OF budget, of "''max_tokens''"] by simp
  show "valid_stop (dget params ''stop'')" "valid_stop_token_ids (dget params ''stop_token_ids'')"
    by (fact stop)+
qed

lemma set_dedup [simp]: "set (dedup xs) = set xs"
  by (simp add: dedup_def)

lemma distinct_dedup [simp]: "distinct (dedup xs)"
  by (simp add: dedup_def)

lemma remdups_split: "remdups (xs @ ys) = remdups (filter (\<lambda>x. x \<notin> set ys) xs) @ remdups ys"
  by (induction xs) auto

lemma dedup_prefix: "distinct xs \<Longrightarrow> prefix xs (dedup (xs @ ys))"
  by (simp add: dedup_def remdups_split distinct_remdups_id)

lemma dget_set_optional:
  "dget (set_optional k v d) k' = (if k' = k \<and> v \<noteq> None then the v else dget d k')"
  by (auto simp: set_optional_def split: option.splits)

lemma floor_value: "valid_setting ''temperature'' v \<Longrightarrow> below_floor v \<or> MIN_TEMPERATURE \<le> rat_of v"
  by (auto simp: valid_setting_def below_floor_def finite_num_num_key not_less)

lemma valid_floor: "valid_setting ''temperature'' (PFloat (Fin MIN_TEMPERATURE))"
  by (simp add: valid_setting_def override_in_range_def MIN_TEMPERATURE_def)

lemma dget_apply_floor:
  "dget (apply_temperature_floor params) k =
     (if k = ''temperature'' \<and> dget params ''temperature'' \<noteq> PNone \<and> below_floor (dget params ''temperature'')
      then PFloat (Fin MIN_TEMPERATURE) else dget params k)"
  by (simp add: apply_temperature_floor_def)

lemma distribution_key_names:
  "''stop_token_ids'' \<notin> set SAMPLING_PARAM_KEYS" "''max_tokens'' \<notin> set SAMPLING_PARAM_KEYS"
  "''logprobs'' \<notin> set SAMPLING_PARAM_KEYS" "''stop'' \<notin> set SAMPLING_PARAM_KEYS"
  "''seed'' \<notin> set SAMPLING_PARAM_KEYS" "''temperature'' \<in> set SAMPLING_PARAM_KEYS"
  by (simp_all add: SAMPLING_PARAM_KEYS_def)

text \<open>C34:
  Whatever the layers hold, a request that reaches the engine carries only finite distribution
  parameters in their documented ranges, a temperature of at least \<open>MIN_TEMPERATURE\<close>, log
  probabilities switched on and the requested token budget. It stops at every one of the profile's
  stop tokens and every stop token of the request, each listed once and the profile's first; for a
  profile without stop tokens the request's list is passed on as it is, and none is made up.
\<close>

theorem engine_params_are_valid:
  assumes "build_sampling_params defaults requested config runtime max_tokens stop seed stop_ids
             profile_stops = Inr params"
  shows "(\<forall>k\<in>set SAMPLING_PARAM_KEYS. dget params k \<noteq> PNone \<longrightarrow> valid_setting k (dget params k)) \<and>
         (dget params ''temperature'' \<noteq> PNone \<longrightarrow> MIN_TEMPERATURE \<le> rat_of (dget params ''temperature'')) \<and>
         dget params ''logprobs'' = PBool True \<and> dget params ''max_tokens'' = max_tokens \<and>
         (profile_stops \<noteq> [] \<longrightarrow>
            (\<exists>ids. dget params ''stop_token_ids'' = PList ids \<and> distinct ids \<and>
                set ids = PInt ` set profile_stops \<union> set (case stop_ids of None \<Rightarrow> [] | Some xs \<Rightarrow> xs) \<and>
                (distinct profile_stops \<longrightarrow> prefix (map PInt profile_stops) ids))) \<and>
         (profile_stops = [] \<longrightarrow>
            dget params ''stop_token_ids'' =
              (case stop_ids of None \<Rightarrow> dget (merge_policy defaults requested config runtime) ''stop_token_ids''
               | Some xs \<Rightarrow> PList xs))"
proof -
  let ?p = "set_optional ''stop_token_ids'' (map_option PList stop_ids) (set_optional ''seed'' seed
      (set_optional ''stop'' stop (dset ''logprobs'' (PBool True) (dset ''max_tokens'' max_tokens
        (merge_policy defaults requested config runtime)))))"
  let ?ids = "dedup (map PInt profile_stops @ (case stop_ids of None \<Rightarrow> [] | Some xs \<Rightarrow> xs))"
  from assms have v: "validate_generation_parameters ?p = Inr ()"
    and p: "params = (if profile_stops = [] then apply_temperature_floor ?p
      else dset ''stop_token_ids'' (PList ?ids) (apply_temperature_floor ?p))"
    by (auto simp: build_sampling_params_def Let_def result_simps)
  have setting: "valid_setting k (dget params k)" if "k \<in> set SAMPLING_PARAM_KEYS" "dget params k \<noteq> PNone" for k
    using that validate_generation_parameters_Inr(1) [OF v that(1)] valid_floor
    by (auto simp: p dget_apply_floor distribution_key_names split: if_splits)
  moreover have "MIN_TEMPERATURE \<le> rat_of (dget params ''temperature'')" if "dget params ''temperature'' \<noteq> PNone"
  proof -
    have "dget ?p ''temperature'' \<noteq> PNone"
      using that by (auto simp: p dget_apply_floor split: if_splits)
    then show ?thesis
      using floor_value [OF validate_generation_parameters_Inr(1) [OF v distribution_key_names(6)]]
      by (auto simp: p dget_apply_floor)
  qed
  moreover have "dget params ''logprobs'' = PBool True" "dget params ''max_tokens'' = max_tokens"
    by (simp_all add: p dget_apply_floor dget_set_optional)
  moreover have "dget params ''stop_token_ids'' = PList ?ids" if "profile_stops \<noteq> []"
    using that by (simp add: p)
  moreover have "dget params ''stop_token_ids'' =
      (case stop_ids of None \<Rightarrow> dget (merge_policy defaults requested config runtime) ''stop_token_ids'' | Some xs \<Rightarrow> PList xs)"
    if "profile_stops = []"
    using that by (cases stop_ids) (simp_all add: p dget_apply_floor dget_set_optional)
  moreover have "prefix (map PInt profile_stops) ?ids" if "distinct profile_stops"
  proof -
    have "distinct (map PInt profile_stops)" using that by (simp add: distinct_map inj_on_def)
    then show ?thesis by (rule dedup_prefix)
  qed
  ultimately show ?thesis by auto
qed

theorem engine_params_are_valid_witness:
  "MIN_TEMPERATURE \<le> rat_of (dget [(''temperature'', PFloat (Fin MIN_TEMPERATURE)), (''top_k'', PInt 20),
     (''top_p'', PFloat (Fin (1/2))), (''min_p'', PInt 0), (''max_tokens'', PInt 9), (''logprobs'', PBool True),
     (''stop_token_ids'', PList [PInt 7, PInt 5])] ''temperature'')"
proof -
  let ?p = "[(''temperature'', PFloat (Fin MIN_TEMPERATURE)), (''top_p'', PFloat (Fin (1/2))),
     (''top_k'', PInt 20), (''min_p'', PInt 0), (''max_tokens'', PInt 9), (''logprobs'', PBool True),
     (''stop_token_ids'', PList [PInt 7, PInt 5])]"
  have "build_sampling_params demo_defaults demo_requested [] demo_runtime (PInt 9) None None
      (Some [PInt 7, PInt 5]) [7] = Inr ?p"
    by code_simp
  from engine_params_are_valid [OF this] show ?thesis by (simp add: dget_def)
qed

lemma reason_names: "STOP \<noteq> LENGTH" "ABORT \<noteq> STOP" "ABORT \<noteq> LENGTH"
  "LENGTH \<noteq> STOP" "STOP \<noteq> ABORT" "LENGTH \<noteq> ABORT"
  by (simp_all add: STOP_def LENGTH_def ABORT_def)

text \<open>A normalized reason is one of three, and is an abort only when the engine said so.\<close>

lemma normalize_finish_reason_cases:
  "normalize_finish_reason r n m \<in> {STOP, LENGTH, ABORT}"
  "normalize_finish_reason r n m = ABORT \<longleftrightarrow> r = Some ABORT"
  by (auto simp: normalize_finish_reason_def reason_names split: option.splits)

end
