(* ===== verification/Base64.thy ===== *)
theory Base64
  imports PyValue
begin

section \<open>Base64 as the standard library implements it\<close>

text \<open>
  \<^verbatim>\<open>base64.b64encode\<close> and \<^verbatim>\<open>base64.b64decode\<close> (CPython 3.12, \<^verbatim>\<open>binascii.a2b_base64\<close>), which the
  recorder, the record validation and the rollout transports use for routed-expert captures. A
  byte string is a list of numbers below 256. The lenient decoder skips characters outside the
  alphabet; \<^verbatim>\<open>validate=True\<close> refuses them, leading padding, and anything after the padding.
\<close>

type_synonym bytes = "nat list"

definition b64_alphabet :: string where
  "b64_alphabet = ''ABCDEFGHIJKLMNOPQRSTUVWXYZabcdefghijklmnopqrstuvwxyz0123456789+/''"

definition b64_char :: "nat \<Rightarrow> char" where
  "b64_char n = b64_alphabet ! n"

definition b64_val :: "char \<Rightarrow> nat option" where
  "b64_val c = map_of (zip b64_alphabet [0..<64]) c"

fun b64encode :: "bytes \<Rightarrow> string" where
  "b64encode [] = []"
| "b64encode [a] = [b64_char (a div 4), b64_char ((a mod 4) * 16), CHR ''='', CHR ''='']"
| "b64encode [a, b] =
     [b64_char (a div 4), b64_char ((a mod 4) * 16 + b div 16), b64_char ((b mod 16) * 4), CHR ''='']"
| "b64encode (a # b # c # rest) =
     b64_char (a div 4) # b64_char ((a mod 4) * 16 + b div 16) #
     b64_char ((b mod 16) * 4 + c div 64) # b64_char (c mod 64) # b64encode rest"

text \<open>
  The scan of \<^verbatim>\<open>a2b_base64\<close>: whether padding was seen, the pads since the last data character, the
  position in the quad and its leftover bits. An output byte is stored in an unsigned char.
\<close>

fun a2b_base64 :: "bool \<Rightarrow> bool \<Rightarrow> nat \<Rightarrow> nat \<Rightarrow> nat \<Rightarrow> string \<Rightarrow> bytes option" where
  "a2b_base64 strict started pads quad left [] = (if quad = 0 then Some [] else None)"
| "a2b_base64 strict started pads quad left (c # cs) =
     (if c = CHR ''='' then
        (if quad \<ge> 2 then
           (if quad + Suc pads \<ge> 4 then (if strict \<and> cs \<noteq> [] then None else Some [])
            else a2b_base64 strict True (Suc pads) quad left cs)
         else a2b_base64 strict True pads quad left cs)
      else
        (case b64_val c of
           None \<Rightarrow> if strict then None else a2b_base64 strict started pads quad left cs
         | Some v \<Rightarrow>
             if strict \<and> started then None
             else if quad = 0 then a2b_base64 strict started 0 1 v cs
             else if quad = 1 then
               map_option ((#) ((left * 4 + v div 16) mod 256)) (a2b_base64 strict started 0 2 (v mod 16) cs)
             else if quad = 2 then
               map_option ((#) ((left * 16 + v div 4) mod 256)) (a2b_base64 strict started 0 3 (v mod 4) cs)
             else map_option ((#) ((left * 64 + v) mod 256)) (a2b_base64 strict started 0 0 0 cs)))"

definition b64decode :: "bool \<Rightarrow> string \<Rightarrow> bytes option" where
  "b64decode validate s =
     (if \<not> list_all (\<lambda>c. (of_char c :: nat) < 128) s then None
      else if validate \<and> s \<noteq> [] \<and> hd s = CHR ''='' then None
      else a2b_base64 validate False 0 0 0 s)"

subsection \<open>Round trip\<close>

lemma b64_alphabet_facts:
  "distinct b64_alphabet" "length b64_alphabet = 64"
  "list_all (\<lambda>c. c \<noteq> CHR ''='' \<and> (of_char c :: nat) < 128) b64_alphabet"
  by (simp_all add: b64_alphabet_def)

lemma b64_char [simp]:
  assumes "n < 64"
  shows "b64_val (b64_char n) = Some n" and "b64_char n \<noteq> CHR ''=''"
    and "(of_char (b64_char n) :: nat) < 128"
  using b64_alphabet_facts assms map_of_zip_nth [of b64_alphabet "[0..<64]" n]
  by (simp_all add: b64_char_def b64_val_def list_all_length)

lemma div16_lt: "b < (256::nat) \<Longrightarrow> b div 16 < 16"
  by simp

lemma sextets:
  assumes "a < (256::nat)" and "b < 256" and "c < 256"
  shows "a div 4 < 64" "(a mod 4) * 16 + b div 16 < 64" "(b mod 16) * 4 + c div 64 < 64" "c mod 64 < 64"
    "(a mod 4) * 16 < 64" "(b mod 16) * 4 < 64"
proof -
  have "a mod 4 \<le> 3" "b mod 16 \<le> 15" "b div 16 \<le> 15" "c div 64 \<le> 3"
    using assms by (simp_all add: less_Suc_eq_le [symmetric])
  then show "a div 4 < 64" "(a mod 4) * 16 + b div 16 < 64" "(b mod 16) * 4 + c div 64 < 64" "c mod 64 < 64"
    "(a mod 4) * 16 < 64" "(b mod 16) * 4 < 64"
    using assms by simp_all
qed

lemma octets:
  assumes "a < (256::nat)" and "b < 256" and "c < 256"
  shows "a div 4 * 4 + (a mod 4 * 16 + b div 16) div 16 = a"
    "(a mod 4 * 16 + b div 16) mod 16 * 16 + (b mod 16 * 4 + c div 64) div 4 = b"
    "(b mod 16 * 4 + c div 64) mod 4 * 64 + c mod 64 = c"
    "a div 4 * 4 + a mod 4 * 16 div 16 = a"
    "(a mod 4 * 16 + b div 16) mod 16 * 16 + b mod 16 * 4 div 4 = b"
proof -
  have b: "b div 16 < 16" and c: "c div 64 < 4" using assms by simp_all
  show "a div 4 * 4 + (a mod 4 * 16 + b div 16) div 16 = a" using b by simp
  show "(a mod 4 * 16 + b div 16) mod 16 * 16 + (b mod 16 * 4 + c div 64) div 4 = b"
    using b c by simp
  show "(b mod 16 * 4 + c div 64) mod 4 * 64 + c mod 64 = c" using c by simp
  show "a div 4 * 4 + a mod 4 * 16 div 16 = a" by simp
  show "(a mod 4 * 16 + b div 16) mod 16 * 16 + b mod 16 * 4 div 4 = b" using b by simp
qed

lemma a2b_b64encode:
  "list_all (\<lambda>b. b < 256) bs \<Longrightarrow> a2b_base64 strict False 0 0 0 (b64encode bs) = Some bs"
proof (induction bs rule: b64encode.induct)
  case (2 a)
  then show ?case using sextets [of a 0 0] octets [of a 0 0] by simp
next
  case (3 a b)
  then show ?case using sextets [of a b 0] octets [of a b 0] by simp
next
  case (4 a b c rest)
  then show ?case using sextets [of a b c] octets [of a b c] by simp
qed simp

lemma b64encode_ascii:
  "list_all (\<lambda>b. b < 256) bs \<Longrightarrow> list_all (\<lambda>c. (of_char c :: nat) < 128) (b64encode bs)"
proof (induction bs rule: b64encode.induct)
  case (2 a)
  then show ?case using sextets [of a 0 0] by simp
next
  case (3 a b)
  then show ?case using sextets [of a b 0] by simp
next
  case (4 a b c rest)
  then show ?case using sextets [of a b c] by simp
qed simp

lemma b64encode_hd:
  "list_all (\<lambda>b. b < 256) bs \<Longrightarrow> b64encode bs \<noteq> [] \<Longrightarrow> hd (b64encode bs) \<noteq> CHR ''=''"
  using sextets(1) by (cases bs rule: b64encode.cases) auto

lemma b64_roundtrip:
  "list_all (\<lambda>b. b < 256) bs \<Longrightarrow> b64decode validate (b64encode bs) = Some bs"
  by (auto simp: b64decode_def b64encode_ascii a2b_b64encode dest: b64encode_hd)

text \<open>Whatever is decoded is a byte string.\<close>

lemma a2b_bytes: "a2b_base64 strict started pads quad left s = Some bs \<Longrightarrow> list_all (\<lambda>b. b < 256) bs"
proof (induction s arbitrary: strict started pads quad left bs)
  case Nil
  then show ?case by (simp split: if_splits)
next
  case (Cons c cs)
  from Cons.prems show ?case
    by (auto split: if_splits option.splits dest: Cons.IH)
qed

lemma b64decode_bytes: "b64decode validate s = Some bs \<Longrightarrow> list_all (\<lambda>b. b < 256) bs"
  by (auto simp: b64decode_def dest: a2b_bytes split: if_splits)

end
