(* ===== verification/Recorder.thy ===== *)
theory Recorder
  imports Messages Base64
begin

section \<open>The session recorder\<close>

text \<open>
  \<^verbatim>\<open>proxyserver/recorder.py\<close> with the data models of \<^verbatim>\<open>rollout_sessions.py\<close>. A session's record
  is the list of its turns in recording order, each holding only what its request added to the
  agent's previous turn. The recorder also keeps tombstones of deleted sessions, the unresolved
  recording failures per agent, and per-session versions that order the disk snapshots.

  The clock is an argument (\<open>now\<close> the monotonic clock, \<open>wall\<close> the wall clock). Two libraries are
  parameters held in the state: pydantic's validation of a routed-experts blob
  (\<open>rec_validate_blob\<close>) and \<^verbatim>\<open>json.dumps\<close> (\<open>rec_dumps\<close>). An operation that also flushes a snapshot
  returns it: the flush happens outside the lock, so it is a separate step on the store.
\<close>

subsection \<open>Records\<close>

record completion_record =
  cr_agent_id :: "string option"
  cr_request_messages :: "pydict list"
  cr_prompt_token_ids :: "int list"
  cr_new_conversation :: bool
  cr_completion_text :: string
  cr_completion_token_ids :: "int list"
  cr_completion_logprobs :: "flt list"
  cr_finish_reason :: "string option"
  cr_weight_version :: "string option"
  cr_sampling_params :: "pydict option"
  cr_content :: "string option"
  cr_reasoning_content :: "string option"
  cr_tool_calls :: "pyval list option"

record routed_experts_blob =
  bl_data :: string
  bl_rows :: int
  bl_start :: int
  bl_cols :: int
  bl_dtype :: string

record session_record =
  sr_session_id :: string
  sr_model_name :: "string option"
  sr_turns :: "completion_record list"
  sr_routed_experts :: "(string, routed_experts_blob) odict"
  sr_created_at :: flt
  sr_completed :: bool

record failed_turn =
  ft_messages :: "pydict list"
  ft_prompt_token_ids :: "int list"
  ft_token_ids :: "int list"
  ft_recorded_turns :: nat

record recorder =
  rec_sessions :: "(string, session_record) odict"
  rec_has_store :: bool
  rec_save_logprobs :: bool
  rec_save_routed_experts :: bool
  rec_versions :: "(string, nat) odict"
  rec_deleted :: "(string, rat) odict"
  rec_failed :: "(string, (string option, failed_turn) odict) odict"
  rec_validate_blob :: "pydict \<Rightarrow> routed_experts_blob option"
  rec_dumps :: "pyval \<Rightarrow> string option"

text \<open>One call of \<^verbatim>\<open>record_completion\<close>: its arguments.\<close>

record delivery =
  dl_session_id :: string
  dl_messages :: "pydict list"
  dl_completion_text :: string
  dl_token_ids :: "int list"
  dl_logprobs :: "flt list"
  dl_finish_reason :: "string option"
  dl_prompt_token_ids :: "int list"
  dl_agent_id :: "string option"
  dl_content :: "string option"
  dl_reasoning_content :: "string option"
  dl_tool_calls :: "pyval list option"
  dl_weight_version :: "string option"
  dl_routed_experts :: "pydict option"
  dl_sampling_params :: "pydict option"

definition TOMBSTONE_TTL :: rat where "TOMBSTONE_TTL = 3600"

definition MAX_TOMBSTONES :: nat where "MAX_TOMBSTONES = 8192"

definition init_recorder ::
  "bool \<Rightarrow> bool \<Rightarrow> bool \<Rightarrow> (pydict \<Rightarrow> routed_experts_blob option) \<Rightarrow> (pyval \<Rightarrow> string option) \<Rightarrow> recorder" where
  "init_recorder store save_logprobs save_experts validate dumps =
     \<lparr>rec_sessions = [], rec_has_store = store, rec_save_logprobs = save_logprobs,
      rec_save_routed_experts = save_experts, rec_versions = [], rec_deleted = [],
      rec_failed = [], rec_validate_blob = validate, rec_dumps = dumps\<rparr>"

definition new_session :: "string \<Rightarrow> string option \<Rightarrow> flt \<Rightarrow> session_record" where
  "new_session sid model wall =
     \<lparr>sr_session_id = sid, sr_model_name = model, sr_turns = [], sr_routed_experts = [],
      sr_created_at = wall, sr_completed = False\<rparr>"

subsection \<open>Serialization\<close>

definition dump_opt :: "('a \<Rightarrow> pyval) \<Rightarrow> 'a option \<Rightarrow> pyval" where
  "dump_opt f x = (case x of None \<Rightarrow> PNone | Some v \<Rightarrow> f v)"

definition dump_turn :: "completion_record \<Rightarrow> pydict" where
  "dump_turn t =
     [(''agent_id'', dump_opt PStr (cr_agent_id t)),
      (''request_messages'', PList (map PDict (cr_request_messages t))),
      (''prompt_token_ids'', PList (map PInt (cr_prompt_token_ids t))),
      (''new_conversation'', PBool (cr_new_conversation t)),
      (''completion_text'', PStr (cr_completion_text t)),
      (''completion_token_ids'', PList (map PInt (cr_completion_token_ids t))),
      (''completion_logprobs'', PList (map PFloat (cr_completion_logprobs t))),
      (''finish_reason'', dump_opt PStr (cr_finish_reason t)),
      (''weight_version'', dump_opt PStr (cr_weight_version t)),
      (''sampling_params'', dump_opt PDict (cr_sampling_params t)),
      (''content'', dump_opt PStr (cr_content t)),
      (''reasoning_content'', dump_opt PStr (cr_reasoning_content t)),
      (''tool_calls'', dump_opt PList (cr_tool_calls t))]"

definition dump_blob :: "routed_experts_blob \<Rightarrow> pydict" where
  "dump_blob b =
     [(''data'', PStr (bl_data b)), (''rows'', PInt (bl_rows b)), (''start'', PInt (bl_start b)),
      (''cols'', PInt (bl_cols b)), (''dtype'', PStr (bl_dtype b))]"

definition model_dump :: "session_record \<Rightarrow> pydict" where
  "model_dump s =
     [(''session_id'', PStr (sr_session_id s)),
      (''model_name'', dump_opt PStr (sr_model_name s)),
      (''turns'', PList (map (\<lambda>t. PDict (dump_turn t)) (sr_turns s))),
      (''routed_experts'', PDict (map (\<lambda>(a, b). (a, PDict (dump_blob b))) (sr_routed_experts s))),
      (''created_at'', PFloat (sr_created_at s)),
      (''completed'', PBool (sr_completed s))]"

text \<open>The trimmed turn of a disk snapshot: null parsed views, and optionally log probabilities, left out.\<close>

definition snapshot_turn :: "bool \<Rightarrow> completion_record \<Rightarrow> pydict" where
  "snapshot_turn save_logprobs t =
     filter (\<lambda>(k, v). \<not> (k \<in> {''content'', ''reasoning_content'', ''tool_calls''} \<and> v = PNone) \<and>
                      \<not> (\<not> save_logprobs \<and> k = ''completion_logprobs'')) (dump_turn t)"

definition snapshot_data :: "recorder \<Rightarrow> session_record \<Rightarrow> pydict" where
  "snapshot_data m s =
     filter (\<lambda>(k, v). \<not> (k = ''routed_experts'' \<and> (\<not> rec_save_routed_experts m \<or> sr_routed_experts s = [])))
       (dset ''turns'' (PList (map (\<lambda>t. PDict (snapshot_turn (rec_save_logprobs m) t)) (sr_turns s)))
         (model_dump s))"

type_synonym flush = "(string \<times> string option \<times> nat) option"

text \<open>\<^verbatim>\<open>_snapshot\<close>: what is to be flushed, and the version counter it advances.\<close>

definition snapshot :: "session_record \<Rightarrow> recorder \<Rightarrow> flush \<times> recorder" where
  "snapshot s m =
     (if \<not> rec_has_store m then (None, m)
      else
        (let sid = sr_session_id s;
             version = (case map_of (rec_versions m) sid of None \<Rightarrow> 0 | Some v \<Rightarrow> v) + 1;
             m = m\<lparr>rec_versions := AList.update sid version (rec_versions m)\<rparr>
         in (Some (sid, rec_dumps m (PDict (snapshot_data m s)), version), m)))"

subsection \<open>The store\<close>

text \<open>
  \<^verbatim>\<open>SessionStore\<close>: the versions written and the contents of the files. \<open>ok\<close> says whether the file
  system lets the write through (an \<^verbatim>\<open>OSError\<close> is logged and swallowed).
\<close>

record store =
  st_latest :: "(string, nat) odict"
  st_files :: "(string, string) odict"

definition store_save :: "string \<Rightarrow> string \<Rightarrow> nat \<Rightarrow> bool \<Rightarrow> store \<Rightarrow> store" where
  "store_save sid payload version ok st =
     (if version < (case map_of (st_latest st) sid of None \<Rightarrow> 0 | Some v \<Rightarrow> v) then st
      else
        (let st = st\<lparr>st_latest := AList.update sid version (st_latest st)\<rparr>
         in if ok then st\<lparr>st_files := AList.update sid payload (st_files st)\<rparr> else st))"

definition save_flush :: "flush \<Rightarrow> bool \<Rightarrow> store \<Rightarrow> store" where
  "save_flush f ok st =
     (case f of Some (sid, Some payload, version) \<Rightarrow> store_save sid payload version ok st | _ \<Rightarrow> st)"

subsection \<open>Conversations\<close>

definition agent_turns :: "string option \<Rightarrow> session_record \<Rightarrow> completion_record list" where
  "agent_turns agent s = filter (\<lambda>t. cr_agent_id t = agent) (sr_turns s)"

definition non_assistant :: "pydict list \<Rightarrow> pydict list" where
  "non_assistant ms = filter (\<lambda>m. \<not> role_is ''assistant'' m) ms"

text \<open>The turns since the last one that opened a conversation.\<close>

fun current_conversation :: "completion_record list \<Rightarrow> completion_record list" where
  "current_conversation [] = []"
| "current_conversation (t # ts) =
     (if list_ex cr_new_conversation ts then current_conversation ts else t # ts)"

definition conversation_extent :: "completion_record list \<Rightarrow> nat \<times> nat" where
  "conversation_extent turns =
     (let cur = current_conversation turns in
      (sum_list (map (\<lambda>t. length (non_assistant (cr_request_messages t))) cur),
       sum_list (map (\<lambda>t. length (cr_prompt_token_ids t) + length (cr_completion_token_ids t)) cur)))"

definition norm_messages :: "pydict list \<Rightarrow> ts_error + pydict list" where
  "norm_messages ms = normalize_messages (PList (map PDict ms))"

subsection \<open>Routed experts\<close>

definition merge_routed_experts ::
  "(pydict \<Rightarrow> routed_experts_blob option) \<Rightarrow> string \<Rightarrow> pydict \<Rightarrow> session_record \<Rightarrow> session_record" where
  "merge_routed_experts validate agent d s =
     (case validate d of
        None \<Rightarrow> s
      | Some b \<Rightarrow>
          (let prev = map_of (sr_routed_experts s) agent;
               put = (\<lambda>b. s\<lparr>sr_routed_experts := AList.update agent b (sr_routed_experts s)\<rparr>)
           in if bl_start b \<noteq> 0 \<and> (case prev of None \<Rightarrow> False
                 | Some p \<Rightarrow> bl_start b = bl_rows p \<and> bl_cols b = bl_cols p)
              then (case (b64decode False (bl_data (the prev)), b64decode False (bl_data b)) of
                      (Some x, Some y) \<Rightarrow>
                        put \<lparr>bl_data = b64encode (x @ y), bl_rows = bl_rows (the prev) + bl_rows b,
                             bl_start = 0, bl_cols = bl_cols (the prev), bl_dtype = bl_dtype (the prev)\<rparr>
                    | _ \<Rightarrow> s)
              else if bl_start b = 0 \<and> (case prev of None \<Rightarrow> True | Some p \<Rightarrow> bl_rows b \<ge> bl_rows p)
              then put b
              else s))"

subsection \<open>Tombstones and failures\<close>

definition tombstoned :: "rat \<Rightarrow> string \<Rightarrow> recorder \<Rightarrow> bool" where
  "tombstoned now sid m =
     (case map_of (rec_deleted m) sid of None \<Rightarrow> False | Some t \<Rightarrow> now - t < TOMBSTONE_TTL)"

fun drop_expired :: "rat \<Rightarrow> (string, rat) odict \<Rightarrow> (string, rat) odict" where
  "drop_expired cutoff [] = []"
| "drop_expired cutoff (e # d) = (if snd e \<ge> cutoff then e # d else drop_expired cutoff d)"

definition prune_tombstones :: "rat \<Rightarrow> (string, rat) odict \<Rightarrow> (string, rat) odict" where
  "prune_tombstones now d =
     (let d = drop_expired (now - TOMBSTONE_TTL) d in drop (length d - MAX_TOMBSTONES) d)"

definition failed_of :: "string \<Rightarrow> string option \<Rightarrow> recorder \<Rightarrow> failed_turn option" where
  "failed_of sid agent m =
     (case map_of (rec_failed m) sid of None \<Rightarrow> None | Some fs \<Rightarrow> map_of fs agent)"

definition clear_recording_failure :: "string \<Rightarrow> string option \<Rightarrow> recorder \<Rightarrow> recorder" where
  "clear_recording_failure sid agent m =
     (case map_of (rec_failed m) sid of
        None \<Rightarrow> m
      | Some fs \<Rightarrow>
          (let fs = od_pop agent fs
           in m\<lparr>rec_failed := (if fs = [] then od_pop sid (rec_failed m)
                              else AList.update sid fs (rec_failed m))\<rparr>))"

subsection \<open>Operations\<close>

definition session_or_new :: "string \<Rightarrow> flt \<Rightarrow> recorder \<Rightarrow> session_record" where
  "session_or_new sid wall m =
     (case map_of (rec_sessions m) sid of None \<Rightarrow> new_session sid None wall | Some s \<Rightarrow> s)"

definition put_session :: "string \<Rightarrow> session_record \<Rightarrow> recorder \<Rightarrow> recorder" where
  "put_session sid s m = m\<lparr>rec_sessions := AList.update sid s (rec_sessions m)\<rparr>"

definition ensure_session :: "rat \<Rightarrow> flt \<Rightarrow> string \<Rightarrow> string option \<Rightarrow> recorder \<Rightarrow> recorder" where
  "ensure_session now wall sid model m =
     (if tombstoned now sid m then m
      else
        (case map_of (rec_sessions m) sid of
           None \<Rightarrow> put_session sid (new_session sid model wall) m
         | Some s \<Rightarrow>
             if sr_model_name s = None \<and> model \<noteq> None \<and> model \<noteq> Some []
             then put_session sid (s\<lparr>sr_model_name := model\<rparr>) m
             else m))"

definition repairs_failure ::
  "delivery \<Rightarrow> completion_record list \<Rightarrow> failed_turn option \<Rightarrow> ts_error + bool" where
  "repairs_failure d turns failed =
     (case failed of
        None \<Rightarrow> Inr False
      | Some f \<Rightarrow>
          if length turns = ft_recorded_turns f \<and> dl_prompt_token_ids d = ft_prompt_token_ids f
             \<and> dl_token_ids d = ft_token_ids f
          then rbind (norm_messages (dl_messages d)) (\<lambda>ms. Inr (dicts_eq ms (ft_messages f)))
          else Inr False)"

text \<open>What is stored of a delivery: nothing, or the new-conversation flag, messages and prompt tokens.\<close>

datatype stored = Duplicate | Store bool "pydict list" "int list"

definition opening_duplicate :: "delivery \<Rightarrow> completion_record \<Rightarrow> ts_error + bool" where
  "opening_duplicate d prev =
     (if cr_new_conversation prev then
        rbind (norm_messages (dl_messages d)) (\<lambda>a.
        rbind (norm_messages (cr_request_messages prev)) (\<lambda>b.
          Inr (dicts_eq a b \<and> dl_token_ids d = cr_completion_token_ids prev
               \<and> dl_prompt_token_ids d = cr_prompt_token_ids prev)))
      else Inr False)"

definition stored_delta :: "delivery \<Rightarrow> completion_record list \<Rightarrow> ts_error + stored" where
  "stored_delta d turns =
     (if \<not> list_ex (role_is ''assistant'') (dl_messages d) \<or> turns = [] then
        (if turns = [] then Inr (Store True (dl_messages d) (dl_prompt_token_ids d))
         else rbind (opening_duplicate d (last turns)) (\<lambda>dup.
           Inr (if dup then Duplicate else Store True (dl_messages d) (dl_prompt_token_ids d))))
      else
        (let (n_prev, stream_len) = conversation_extent turns;
             new = non_assistant (dl_messages d);
             prompt = dl_prompt_token_ids d;
             prev = last turns
         in Inr (if length new = n_prev \<and> dl_token_ids d = cr_completion_token_ids prev
                    \<and> int (length prompt) = int stream_len - int (length (cr_completion_token_ids prev))
                 then Duplicate
                 else if length new < n_prev \<or> length prompt < stream_len
                 then Store True (dl_messages d) prompt
                 else Store False (drop n_prev new) (drop stream_len prompt))))"

definition record_of :: "delivery \<Rightarrow> bool \<Rightarrow> pydict list \<Rightarrow> int list \<Rightarrow> completion_record" where
  "record_of d new messages prompt =
     \<lparr>cr_agent_id = dl_agent_id d, cr_request_messages = messages, cr_prompt_token_ids = prompt,
      cr_new_conversation = new, cr_completion_text = dl_completion_text d,
      cr_completion_token_ids = dl_token_ids d, cr_completion_logprobs = dl_logprobs d,
      cr_finish_reason = dl_finish_reason d, cr_weight_version = dl_weight_version d,
      cr_sampling_params = dl_sampling_params d, cr_content = dl_content d,
      cr_reasoning_content = dl_reasoning_content d, cr_tool_calls = dl_tool_calls d\<rparr>"

definition store_turn ::
  "(pydict \<Rightarrow> routed_experts_blob option) \<Rightarrow> delivery \<Rightarrow> bool \<Rightarrow> pydict list \<Rightarrow> int list \<Rightarrow>
   session_record \<Rightarrow> session_record" where
  "store_turn validate d new messages prompt s =
     (let s = (case dl_agent_id d of
                 Some agent \<Rightarrow> if new then s\<lparr>sr_routed_experts := od_pop agent (sr_routed_experts s)\<rparr> else s
               | None \<Rightarrow> s);
          s = (case (dl_routed_experts d, dl_agent_id d) of
                 (Some e, Some agent) \<Rightarrow> merge_routed_experts validate agent e s
               | _ \<Rightarrow> s)
      in s\<lparr>sr_turns := sr_turns s @ [record_of d new messages prompt]\<rparr>)"

definition record_completion :: "rat \<Rightarrow> flt \<Rightarrow> delivery \<Rightarrow> (recorder, ts_error, flush) action" where
  "record_completion now wall d m =
     (let sid = dl_session_id d in
      if tombstoned now sid m then (Inr None, m)
      else
        (let s = session_or_new sid wall m;
             m = put_session sid s m;
             turns = agent_turns (dl_agent_id d) s
         in sbind (slift (repairs_failure d turns (failed_of sid (dl_agent_id d) m))) (\<lambda>repairs.
            sbind (slift (stored_delta d turns)) (\<lambda>stored m.
              let resolve = (\<lambda>m. if repairs then clear_recording_failure sid (dl_agent_id d) m else m)
              in case stored of
                   Duplicate \<Rightarrow> (Inr None, resolve m)
                 | Store new messages prompt \<Rightarrow>
                     (let s = store_turn (rec_validate_blob m) d new messages prompt s;
                          (f, m) = snapshot s (resolve (put_session sid s m))
                      in (Inr f, m)))) m))"

datatype recorder_error = UnresolvedFailure | SessionDisappeared

definition get_session :: "string \<Rightarrow> recorder \<Rightarrow> session_record option" where
  "get_session sid m = map_of (rec_sessions m) sid"

definition dump_session :: "string \<Rightarrow> recorder \<Rightarrow> recorder_error + pydict option" where
  "dump_session sid m =
     (case map_of (rec_sessions m) sid of
        None \<Rightarrow> Inr None
      | Some s \<Rightarrow> rbind (require (map_of (rec_failed m) sid = None) UnresolvedFailure)
                    (\<lambda>_. Inr (Some (model_dump s))))"

definition finalize_session :: "string \<Rightarrow> (recorder, recorder_error, flush) action" where
  "finalize_session sid m =
     (case map_of (rec_sessions m) sid of
        None \<Rightarrow> (Inl SessionDisappeared, m)
      | Some s \<Rightarrow>
          if map_of (rec_failed m) sid \<noteq> None then (Inl UnresolvedFailure, m)
          else
            (let s = s\<lparr>sr_completed := True\<rparr>;
                 (f, m) = snapshot s (put_session sid s m)
             in (Inr f, m)))"

definition mark_recording_failed ::
  "rat \<Rightarrow> string \<Rightarrow> string option \<Rightarrow> pydict list \<Rightarrow> int list \<Rightarrow> int list \<Rightarrow> (recorder, ts_error, unit) action" where
  "mark_recording_failed now sid agent messages prompt_ids token_ids m =
     (if tombstoned now sid m then (Inr (), m)
      else
        (let failures = (case map_of (rec_failed m) sid of None \<Rightarrow> [] | Some fs \<Rightarrow> fs);
             m = m\<lparr>rec_failed := AList.update sid failures (rec_failed m)\<rparr>
         in if map_of failures agent \<noteq> None then (Inr (), m)
            else sbind (slift (norm_messages messages)) (\<lambda>ms m.
              let n = (case map_of (rec_sessions m) sid of
                         None \<Rightarrow> 0 | Some s \<Rightarrow> length (agent_turns agent s));
                  f = \<lparr>ft_messages = ms, ft_prompt_token_ids = prompt_ids, ft_token_ids = token_ids,
                       ft_recorded_turns = n\<rparr>
              in (Inr (), m\<lparr>rec_failed := AList.update sid (AList.update agent f failures) (rec_failed m)\<rparr>)) m))"

definition delete_session :: "rat \<Rightarrow> string \<Rightarrow> recorder \<Rightarrow> recorder" where
  "delete_session now sid m =
     m\<lparr>rec_sessions := od_pop sid (rec_sessions m), rec_failed := od_pop sid (rec_failed m),
       rec_deleted := prune_tombstones now (od_put sid now (rec_deleted m))\<rparr>"

definition is_deleted :: "rat \<Rightarrow> string \<Rightarrow> recorder \<Rightarrow> bool" where
  "is_deleted now sid m = tombstoned now sid m"

end
