(* ===== verification/RecorderProperties.thy ===== *)
theory RecorderProperties
  imports Recorder
begin

section \<open>What a recording guarantees\<close>

text \<open>
  The record is a lossless delta encoding (\<open>rebuild\<close> restores every turn's full prompt), repeated
  deliveries change nothing, a turn whose recording failed blocks collection until exactly that turn
  is recorded, deleted sessions stay deleted, captures of routed experts concatenate, and a slow
  flush never overwrites a newer one.
\<close>

subsection \<open>Rebuilding prompts\<close>

text \<open>
  The reconstruction the data model documents, over the turns of one agent:
  \<open>full_prompt_N = full_prompt_{N-1} + completion_{N-1} + prompt_N\<close>, from empty at a new conversation.
\<close>

fun rebuild :: "int list \<Rightarrow> completion_record list \<Rightarrow> int list list" where
  "rebuild s [] = []"
| "rebuild s (t # ts) =
     (let p = (if cr_new_conversation t then [] else s) @ cr_prompt_token_ids t
      in p # rebuild (p @ cr_completion_token_ids t) ts)"

fun stream_after :: "int list \<Rightarrow> completion_record list \<Rightarrow> int list" where
  "stream_after s [] = s"
| "stream_after s (t # ts) =
     stream_after ((if cr_new_conversation t then [] else s) @ cr_prompt_token_ids t
       @ cr_completion_token_ids t) ts"

lemma rebuild_append: "rebuild s (ts @ us) = rebuild s ts @ rebuild (stream_after s ts) us"
  by (induction ts arbitrary: s) (simp_all add: Let_def)

lemma stream_after_append: "stream_after s (ts @ us) = stream_after (stream_after s ts) us"
  by (induction ts arbitrary: s) simp_all

lemma length_stream_after_plain:
  "\<not> list_ex cr_new_conversation ts \<Longrightarrow> length (stream_after s ts) =
     length s + sum_list (map (\<lambda>t. length (cr_prompt_token_ids t) + length (cr_completion_token_ids t)) ts)"
  by (induction ts arbitrary: s) auto

lemma stream_after_current:
  "list_ex cr_new_conversation ts \<or> s = [] \<Longrightarrow>
     length (stream_after s ts) =
       sum_list (map (\<lambda>t. length (cr_prompt_token_ids t) + length (cr_completion_token_ids t))
         (current_conversation ts))"
proof (induction ts arbitrary: s)
  case Nil
  then show ?case by simp
next
  case (Cons t ts)
  show ?case
  proof (cases "list_ex cr_new_conversation ts")
    case True
    with Cons.IH show ?thesis by simp
  next
    case False
    with Cons.prems show ?thesis by (auto simp: length_stream_after_plain)
  qed
qed

lemma extent_stream: "snd (conversation_extent ts) = length (stream_after [] ts)"
  by (simp add: conversation_extent_def Let_def stream_after_current)

text \<open>The turns a recording operation leaves for an agent.\<close>

definition turns_of :: "string \<Rightarrow> string option \<Rightarrow> recorder \<Rightarrow> completion_record list" where
  "turns_of sid agent m =
     (case map_of (rec_sessions m) sid of None \<Rightarrow> [] | Some s \<Rightarrow> agent_turns agent s)"

lemma clear_failure_sessions [simp]: "rec_sessions (clear_recording_failure sid a m) = rec_sessions m"
  by (simp add: clear_recording_failure_def Let_def split: option.splits)

lemma clear_failure_fields [simp]:
  "rec_deleted (clear_recording_failure sid a m) = rec_deleted m"
  "rec_versions (clear_recording_failure sid a m) = rec_versions m"
  "rec_has_store (clear_recording_failure sid a m) = rec_has_store m"
  by (simp_all add: clear_recording_failure_def Let_def split: option.splits)

lemma snapshot_sessions [simp]:
  "rec_sessions (snd (snapshot s m)) = rec_sessions m"
  "rec_failed (snd (snapshot s m)) = rec_failed m"
  "rec_deleted (snd (snapshot s m)) = rec_deleted m"
  by (simp_all add: snapshot_def Let_def)

lemma merge_turns [simp]: "sr_turns (merge_routed_experts v a d s) = sr_turns s"
  by (simp add: merge_routed_experts_def Let_def split: option.splits)

lemma store_turn_turns [simp]:
  "sr_turns (store_turn v d new ms p s) = sr_turns s @ [record_of d new ms p]"
  by (simp add: store_turn_def Let_def split: option.splits)

lemma agent_turns_store:
  "agent_turns a (store_turn v d new ms p s) =
     agent_turns a s @ (if dl_agent_id d = a then [record_of d new ms p] else [])"
  by (simp add: agent_turns_def record_of_def)

lemma agent_turns_new [simp]: "agent_turns a (new_session sid model wall) = []"
  by (simp add: agent_turns_def new_session_def)

lemma put_session_fields [simp]:
  "rec_failed (put_session sid s m) = rec_failed m" "rec_deleted (put_session sid s m) = rec_deleted m"
  "rec_versions (put_session sid s m) = rec_versions m"
  "rec_has_store (put_session sid s m) = rec_has_store m"
  "map_of (rec_sessions (put_session sid s m)) k = (if k = sid then Some s else map_of (rec_sessions m) k)"
  "rec_validate_blob (put_session sid s m) = rec_validate_blob m"
  by (simp_all add: put_session_def update_conv')

lemma turns_of_put_session [simp]:
  "turns_of k a (put_session sid s m) = (if k = sid then agent_turns a s else turns_of k a m)"
  by (simp add: turns_of_def)

lemma turns_of_new [simp]: "agent_turns a (session_or_new sid wall m) = turns_of sid a m"
  by (simp add: turns_of_def session_or_new_def split: option.splits)

lemma turns_of_sessions:
  "rec_sessions m' = rec_sessions m \<Longrightarrow> turns_of sid a m' = turns_of sid a m"
  by (simp add: turns_of_def)

text \<open>The four ways a recording can end.\<close>

lemma record_completion_cases:
  fixes now :: rat and wall :: flt and d :: delivery and m :: recorder
  assumes "\<not> tombstoned now (dl_session_id d) m"
  defines "sid \<equiv> dl_session_id d" and "a \<equiv> dl_agent_id d"
  defines "s \<equiv> session_or_new sid wall m"
  defines "m1 \<equiv> put_session sid s m" and "turns \<equiv> turns_of sid a m"
  obtains (raised) e where "record_completion now wall d m = (Inl e, m1)"
      and "(\<exists>e'. repairs_failure d turns (failed_of sid a m) = Inl e') \<or> stored_delta d turns = Inl e"
  | (duplicate) b where "repairs_failure d turns (failed_of sid a m) = Inr b"
      and "stored_delta d turns = Inr Duplicate"
      and "record_completion now wall d m = (Inr None, if b then clear_recording_failure sid a m1 else m1)"
  | (recorded) b new ms p s' m2 where "repairs_failure d turns (failed_of sid a m) = Inr b"
      and "stored_delta d turns = Inr (Store new ms p)"
      and "s' = store_turn (rec_validate_blob m) d new ms p s"
      and "m2 = (if b then clear_recording_failure sid a (put_session sid s' m1) else put_session sid s' m1)"
      and "record_completion now wall d m = (Inr (fst (snapshot s' m2)), snd (snapshot s' m2))"
proof -
  have t: "agent_turns a s = turns" by (simp add: s_def turns_def turns_of_new)
  have f: "failed_of sid a m1 = failed_of sid a m" by (simp add: m1_def failed_of_def)
  have v: "rec_validate_blob m1 = rec_validate_blob m" by (simp add: m1_def)
  note r = record_completion_def [of now wall d m, unfolded Let_def, folded sid_def a_def,
      folded s_def, folded m1_def, unfolded t f]
  note nt = assms(1) [folded sid_def]
  show thesis
  proof (cases "repairs_failure d turns (failed_of sid a m)")
    case (Inl e)
    then show thesis by (intro raised [of e]) (simp_all add: r nt sbind_slift)
  next
    case b: (Inr b)
    show thesis
    proof (cases "stored_delta d turns")
      case (Inl e)
      with b show thesis by (intro raised [of e]) (simp_all add: r nt sbind_slift)
    next
      case st: (Inr st)
      show thesis
      proof (cases st)
        case Duplicate
        with b st show thesis by (intro duplicate [of b]) (simp_all add: r nt sbind_slift)
      next
        case (Store new ms p)
        with b st show thesis
          by (intro recorded [OF b _ refl refl, of new ms p])
            (simp_all add: r nt sbind_slift v split: prod.splits)
      qed
    qed
  qed
qed

lemma turns_of_clear [simp]: "turns_of k a (clear_recording_failure sid b m) = turns_of k a m"
  by (simp add: turns_of_def)

lemma turns_of_snapshot [simp]: "turns_of k a (snd (snapshot s m)) = turns_of k a m"
  by (simp add: turns_of_def)

text \<open>A recording appends at most one turn, to its own session and agent.\<close>

definition recorded_turn :: "delivery \<Rightarrow> completion_record list \<Rightarrow> completion_record list" where
  "recorded_turn d turns =
     (case stored_delta d turns of Inr (Store new ms p) \<Rightarrow> [record_of d new ms p] | _ \<Rightarrow> [])"

lemma record_completion_turns:
  assumes "\<not> tombstoned now (dl_session_id d) m" and "record_completion now wall d m = (r, m')"
  shows "turns_of k a m' = turns_of k a m @
     (if k = dl_session_id d \<and> a = dl_agent_id d \<and> \<not> isl r
      then recorded_turn d (turns_of (dl_session_id d) (dl_agent_id d) m) else [])"
  using assms(1)
proof (cases now d m rule: record_completion_cases [where wall = wall])
  case (raised e)
  with assms(2) show ?thesis by auto
next
  case (duplicate b)
  with assms(2) show ?thesis by (auto simp: recorded_turn_def)
next
  case (recorded b new ms p s' m2)
  with assms(2) show ?thesis
    by (auto simp: recorded_turn_def agent_turns_store turns_of_new)
qed

lemma recorded_turn_prompt:
  assumes "recorded_turn d turns = [t]"
    and "\<not> cr_new_conversation t \<longrightarrow> prefix (stream_after [] turns) (dl_prompt_token_ids d)"
  shows "(if cr_new_conversation t then [] else stream_after [] turns) @ cr_prompt_token_ids t =
      dl_prompt_token_ids d"
    and "cr_completion_token_ids t = dl_token_ids d"
proof -
  from assms(1) obtain new ms p where st: "stored_delta d turns = Inr (Store new ms p)"
    and t: "t = record_of d new ms p"
    by (auto simp: recorded_turn_def split: sum.splits stored.splits)
  show "cr_completion_token_ids t = dl_token_ids d" by (simp add: t record_of_def)
  have "p = (if new then dl_prompt_token_ids d else drop (length (stream_after [] turns)) (dl_prompt_token_ids d))"
    using st by (auto simp: stored_delta_def Let_def result_simps extent_stream [symmetric]
        split: if_splits prod.splits)
  with assms(2) show "(if cr_new_conversation t then [] else stream_after [] turns) @ cr_prompt_token_ids t =
      dl_prompt_token_ids d"
    by (auto simp: t record_of_def prefix_def)
qed

text \<open>C7:
  The record is lossless: when a turn is recorded, rebuilding the prompts of its agent from the
  stored deltas gives the prompts it gave before, followed by exactly the prompt the engine saw,
  and the rebuilt stream is that prompt and the sampled completion; no other agent or session
  changes. The only condition is that a turn stored as a continuation extends the agent's stream,
  which the token-stream manager guarantees.
\<close>

theorem recorded_prompt_is_lossless:
  assumes "\<not> tombstoned now (dl_session_id d) m" and "record_completion now wall d m = (Inr f, m')"
    and "recorded_turn d (turns_of (dl_session_id d) (dl_agent_id d) m) = [t]"
    and "\<not> cr_new_conversation t \<longrightarrow>
      prefix (stream_after [] (turns_of (dl_session_id d) (dl_agent_id d) m)) (dl_prompt_token_ids d)"
  shows "rebuild [] (turns_of (dl_session_id d) (dl_agent_id d) m') =
           rebuild [] (turns_of (dl_session_id d) (dl_agent_id d) m) @ [dl_prompt_token_ids d] \<and>
         stream_after [] (turns_of (dl_session_id d) (dl_agent_id d) m') =
           dl_prompt_token_ids d @ dl_token_ids d \<and>
         (k \<noteq> dl_session_id d \<or> a \<noteq> dl_agent_id d \<longrightarrow> turns_of k a m' = turns_of k a m)"
proof -
  note turns = record_completion_turns [OF assms(1,2)]
  have "turns_of (dl_session_id d) (dl_agent_id d) m' =
      turns_of (dl_session_id d) (dl_agent_id d) m @ [t]"
    using turns [of "dl_session_id d" "dl_agent_id d"] assms(3) by simp
  with recorded_turn_prompt [OF assms(3,4)] turns [of k a] show ?thesis
    by (auto simp: rebuild_append stream_after_append Let_def)
qed

definition demo_delivery :: "pydict list \<Rightarrow> int list \<Rightarrow> int list \<Rightarrow> delivery" where
  "demo_delivery ms prompt ids =
     \<lparr>dl_session_id = ''s'', dl_messages = ms, dl_completion_text = ''t'', dl_token_ids = ids,
      dl_logprobs = map (\<lambda>_. Fin 0) ids, dl_finish_reason = Some ''stop'',
      dl_prompt_token_ids = prompt, dl_agent_id = Some ''a'', dl_content = Some ''t'',
      dl_reasoning_content = None, dl_tool_calls = None, dl_weight_version = None,
      dl_routed_experts = None, dl_sampling_params = None\<rparr>"

definition user_msg :: pydict where
  "user_msg = [(''role'', PStr ''user''), (''content'', PStr ''hi'')]"

definition assistant_msg :: pydict where
  "assistant_msg = [(''role'', PStr ''assistant''), (''content'', PStr ''x'')]"

definition demo_first :: delivery where
  "demo_first = demo_delivery [user_msg] [1, 2] [3]"

definition demo_second :: delivery where
  "demo_second = demo_delivery [user_msg, assistant_msg, user_msg] [1, 2, 3, 4] [5]"

definition demo_recorder :: recorder where
  "demo_recorder = init_recorder False True True (\<lambda>_. None) (\<lambda>_. None)"

definition demo_recorded :: recorder where
  "demo_recorded = snd (record_completion 0 (Fin 0) demo_first demo_recorder)"

theorem recorded_prompt_is_lossless_witness:
  "rebuild [] (turns_of ''s'' (Some ''a'')
      (snd (record_completion 1 (Fin 0) demo_second demo_recorded))) = [[1, 2], [1, 2, 3, 4]]"
proof -
  let ?turns = "turns_of (dl_session_id demo_second) (dl_agent_id demo_second) demo_recorded"
  obtain f m' where m': "record_completion 1 (Fin 0) demo_second demo_recorded = (f, m')" by fastforce
  have "fst (record_completion 1 (Fin 0) demo_second demo_recorded) = Inr None" by code_simp
  with m' have f: "f = Inr None" by simp
  have nt: "\<not> tombstoned 1 (dl_session_id demo_second) demo_recorded" by code_simp
  have t: "recorded_turn demo_second ?turns = [record_of demo_second False [user_msg] [4]]" by code_simp
  have p: "prefix (stream_after [] ?turns) (dl_prompt_token_ids demo_second)" by code_simp
  have "rebuild [] ?turns = [[1, 2]]" by code_simp
  moreover have "dl_session_id demo_second = ''s''" "dl_agent_id demo_second = Some ''a''"
    "dl_prompt_token_ids demo_second = [1, 2, 3, 4]"
    by (simp_all add: demo_second_def demo_delivery_def)
  ultimately show ?thesis
    using recorded_prompt_is_lossless [OF nt m' [unfolded f] t] p by (simp add: m')
qed

subsection \<open>Repeated deliveries\<close>

lemma current_conversation_snoc:
  "current_conversation (ts @ [t]) =
     (if cr_new_conversation t then [t] else current_conversation ts @ [t])"
  by (induction ts) auto

lemma non_assistant_idem [simp]: "non_assistant (non_assistant ms) = non_assistant ms"
  by (simp add: non_assistant_def)

lemma non_assistant_drop: "non_assistant (drop n (non_assistant ms)) = drop n (non_assistant ms)"
  by (auto simp: non_assistant_def filter_id_conv dest: in_set_dropD)

lemma extent_snoc:
  "conversation_extent (ts @ [t]) =
     (let (n, l) = (if cr_new_conversation t then (0, 0) else conversation_extent ts)
      in (n + length (non_assistant (cr_request_messages t)),
          l + length (cr_prompt_token_ids t) + length (cr_completion_token_ids t)))"
  by (simp add: conversation_extent_def current_conversation_snoc Let_def)

lemma stored_delta_again:
  assumes "stored_delta d turns = Inr (Store new ms p)" and "norm_messages (dl_messages d) = Inr nm"
  shows "stored_delta d (turns @ [record_of d new ms p]) = Inr Duplicate"
proof (cases "list_ex (role_is ''assistant'') (dl_messages d)")
  case False
  with assms(1) have "new" "ms = dl_messages d" "p = dl_prompt_token_ids d"
    by (auto simp: stored_delta_def result_simps split: if_splits)
  with False assms(2) show ?thesis
    by (simp add: stored_delta_def opening_duplicate_def record_of_def)
next
  case True
  let ?n = "fst (conversation_extent turns)" and ?l = "snd (conversation_extent turns)"
  let ?new = "non_assistant (dl_messages d)"
  have "new \<and> ms = dl_messages d \<and> p = dl_prompt_token_ids d \<or>
      \<not> new \<and> ms = drop ?n ?new \<and> p = drop ?l (dl_prompt_token_ids d) \<and>
      ?n \<le> length ?new \<and> ?l \<le> length (dl_prompt_token_ids d)"
    using assms(1) True
    by (auto simp: stored_delta_def result_simps Let_def case_prod_unfold split: if_splits)
  then have "conversation_extent (turns @ [record_of d new ms p]) =
      (length ?new, length (dl_prompt_token_ids d) + length (dl_token_ids d))"
    by (auto simp: extent_snoc record_of_def non_assistant_drop case_prod_unfold Let_def)
  with True show ?thesis
    by (simp add: stored_delta_def Let_def record_of_def)
qed

lemma repairs_failure_total:
  "norm_messages (dl_messages d) = Inr nm \<Longrightarrow> \<exists>b. repairs_failure d turns f = Inr b"
  by (auto simp: repairs_failure_def split: option.splits)

lemma session_or_new_recorded:
  "map_of (rec_sessions m) sid \<noteq> None \<Longrightarrow> map_of (rec_sessions m) sid = Some (session_or_new sid wall m)"
  by (auto simp: session_or_new_def)

text \<open>
  Recording is idempotent: when the delivery that was just recorded arrives again, a lost-response
  retry, it is recognized and every session's record stays exactly as it was.
\<close>

theorem repeated_delivery_is_dropped:
  assumes "\<not> tombstoned now (dl_session_id d) m" and "record_completion now wall d m = (Inr f, m1)"
    and "recorded_turn d (turns_of (dl_session_id d) (dl_agent_id d) m) \<noteq> []"
    and "norm_messages (dl_messages d) = Inr nm" and "\<not> tombstoned now' (dl_session_id d) m1"
  shows "fst (record_completion now' wall' d m1) = Inr None \<and>
         map_of (rec_sessions (snd (record_completion now' wall' d m1))) k = map_of (rec_sessions m1) k"
proof -
  let ?sid = "dl_session_id d" and ?a = "dl_agent_id d"
  from assms(3) obtain new ms p where st: "stored_delta d (turns_of ?sid ?a m) = Inr (Store new ms p)"
    by (auto simp: recorded_turn_def split: sum.splits stored.splits)
  have t1: "turns_of ?sid ?a m1 = turns_of ?sid ?a m @ [record_of d new ms p]"
    using record_completion_turns [OF assms(1,2), of ?sid ?a] st by (simp add: recorded_turn_def)
  then have ex: "map_of (rec_sessions m1) ?sid \<noteq> None"
    by (cases "map_of (rec_sessions m1) ?sid") (simp_all add: turns_of_def [of _ _ m1])
  have dup: "stored_delta d (turns_of ?sid ?a m1) = Inr Duplicate"
    using stored_delta_again [OF st assms(4)] t1 by simp
  show ?thesis
    using assms(5)
  proof (cases now' d m1 rule: record_completion_cases [where wall = wall'])
    case (raised e)
    with dup repairs_failure_total [OF assms(4)] show ?thesis by (metis sum.distinct(1))
  next
    case (duplicate b)
    with session_or_new_recorded [OF ex] show ?thesis by simp
  next
    case (recorded b new ms p s' m2)
    with dup show ?thesis by simp
  qed
qed

theorem repeated_delivery_is_dropped_witness:
  "fst (record_completion 1 (Fin 0) demo_first demo_recorded) = Inr None"
proof -
  obtain f m1 where m1: "record_completion 0 (Fin 0) demo_first demo_recorder = (f, m1)" by fastforce
  have "fst (record_completion 0 (Fin 0) demo_first demo_recorder) = Inr None" by code_simp
  with m1 have f: "f = Inr None" and eq: "demo_recorded = m1" by (simp_all add: demo_recorded_def)
  have nt: "\<not> tombstoned 0 (dl_session_id demo_first) demo_recorder"
    "\<not> tombstoned 1 (dl_session_id demo_first) demo_recorded" by code_simp+
  have t: "recorded_turn demo_first (turns_of (dl_session_id demo_first) (dl_agent_id demo_first) demo_recorder)
      = [record_of demo_first True [user_msg] [1, 2]]" by code_simp
  have n: "norm_messages (dl_messages demo_first) = Inr [user_msg]" by code_simp
  show ?thesis
    using repeated_delivery_is_dropped [OF nt(1) m1 [unfolded f] _ n nt(2) [unfolded eq]] t
    by (simp add: eq)
qed

subsection \<open>Recording failures\<close>

lemma failed_of_put_session [simp]: "failed_of sid a (put_session k s m) = failed_of sid a m"
  by (simp add: failed_of_def)

lemma failed_of_snapshot [simp]: "failed_of sid a (snd (snapshot s m)) = failed_of sid a m"
  by (simp add: failed_of_def)

lemma failed_of_clear:
  "failed_of sid a (clear_recording_failure k b m) =
     (if sid = k \<and> a = b then None else failed_of sid a m)"
  by (auto simp: failed_of_def clear_recording_failure_def Let_def update_conv' split: option.splits if_splits)
    (metis map_of_od_pop map_of.simps(1) option.distinct(1))+

lemma repairs_failure_True:
  assumes "repairs_failure d turns failed = Inr True"
  obtains f ms where "failed = Some f" and "length turns = ft_recorded_turns f"
    and "dl_prompt_token_ids d = ft_prompt_token_ids f" and "dl_token_ids d = ft_token_ids f"
    and "norm_messages (dl_messages d) = Inr ms" and "dicts_eq ms (ft_messages f)"
  using assms by (auto simp: repairs_failure_def result_simps split: option.splits if_splits)

lemma stored_delta_Duplicate:
  assumes "stored_delta d turns = Inr Duplicate"
  shows "turns \<noteq> [] \<and> cr_completion_token_ids (last turns) = dl_token_ids d"
  using assms
  by (auto simp: stored_delta_def opening_duplicate_def Let_def result_simps split: if_splits prod.splits)

text \<open>C21:
  A recording failure is repaired only by the turn that failed: if a delivery makes the failure of
  an agent disappear, it is for that session and agent, repeats exactly its prompt, completion and
  messages, arrives before the agent recorded any other turn, and afterwards that turn is the
  agent's last recorded one. Until then the session cannot be collected or finalized.
\<close>

theorem only_an_exact_retry_repairs:
  assumes "failed_of sid a m = Some ft" and "\<not> tombstoned now (dl_session_id d) m"
    and "record_completion now wall d m = (r, m')" and "failed_of sid a m' = None"
  shows "dl_session_id d = sid \<and> dl_agent_id d = a \<and>
         dl_prompt_token_ids d = ft_prompt_token_ids ft \<and> dl_token_ids d = ft_token_ids ft \<and>
         (\<exists>ms. norm_messages (dl_messages d) = Inr ms \<and> dicts_eq ms (ft_messages ft)) \<and>
         length (turns_of sid a m) = ft_recorded_turns ft \<and>
         turns_of sid a m' \<noteq> [] \<and> cr_completion_token_ids (last (turns_of sid a m')) = ft_token_ids ft"
  using assms(2)
proof (cases now d m rule: record_completion_cases [where wall = wall])
  case (raised e)
  with assms have False by auto
  then show ?thesis ..
next
  case (duplicate b)
  with assms(1,3,4) have b: "b" and same: "sid = dl_session_id d" "a = dl_agent_id d"
    by (auto simp: failed_of_clear split: if_splits)
  from duplicate(1) b have "repairs_failure d (turns_of sid a m) (failed_of sid a m) = Inr True"
    by (simp add: same)
  then obtain f ms where "failed_of sid a m = Some f"
    "length (turns_of sid a m) = ft_recorded_turns f" "dl_prompt_token_ids d = ft_prompt_token_ids f"
    "dl_token_ids d = ft_token_ids f" "norm_messages (dl_messages d) = Inr ms" "dicts_eq ms (ft_messages f)"
    by (rule repairs_failure_True)
  moreover have "turns_of sid a m' = turns_of sid a m"
    using duplicate(3) assms(3) b by (auto simp: same)
  ultimately show ?thesis
    using assms(1) stored_delta_Duplicate [OF duplicate(2)] same by auto
next
  case (recorded b new ms p s' m2)
  with assms(1,3,4) have b: "b" and same: "sid = dl_session_id d" "a = dl_agent_id d"
    by (auto simp: failed_of_clear split: if_splits)
  from recorded(1) b have "repairs_failure d (turns_of sid a m) (failed_of sid a m) = Inr True"
    by (simp add: same)
  then obtain f ns where "failed_of sid a m = Some f"
    "length (turns_of sid a m) = ft_recorded_turns f" "dl_prompt_token_ids d = ft_prompt_token_ids f"
    "dl_token_ids d = ft_token_ids f" "norm_messages (dl_messages d) = Inr ns" "dicts_eq ns (ft_messages f)"
    by (rule repairs_failure_True)
  moreover have "turns_of sid a m' = turns_of sid a m @ [record_of d new ms p]"
    using recorded assms(3) by (auto simp: same agent_turns_store)
  ultimately show ?thesis using assms(1) same by (auto simp: record_of_def)
qed

definition demo_failed :: recorder where
  "demo_failed = snd (mark_recording_failed 0 ''s'' (Some ''a'') [user_msg] [1, 2] [3] demo_recorder)"

theorem only_an_exact_retry_repairs_witness:
  "turns_of ''s'' (Some ''a'') (snd (record_completion 1 (Fin 0) demo_first demo_failed)) \<noteq> []"
proof -
  obtain r m' where m': "record_completion 1 (Fin 0) demo_first demo_failed = (r, m')" by fastforce
  have h: "failed_of ''s'' (Some ''a'') demo_failed =
      Some \<lparr>ft_messages = [user_msg], ft_prompt_token_ids = [1, 2], ft_token_ids = [3], ft_recorded_turns = 0\<rparr>"
    "\<not> tombstoned 1 (dl_session_id demo_first) demo_failed" by code_simp+
  have "failed_of ''s'' (Some ''a'') (snd (record_completion 1 (Fin 0) demo_first demo_failed)) = None"
    by code_simp
  then have "failed_of ''s'' (Some ''a'') m' = None" by (simp add: m')
  from only_an_exact_retry_repairs [OF h m' this] show ?thesis by (simp add: m')
qed

text \<open>C36:
  A committed turn whose recording failed blocks collection: once it is marked, whatever the
  recorder held before, the failure is pending for that agent, collecting the session raises, and
  finalizing it raises and changes nothing.
\<close>

theorem failed_recording_blocks_collection:
  assumes "\<not> tombstoned now sid m" and "get_session sid m \<noteq> None" and "norm_messages messages = Inr ms"
    and "m' = snd (mark_recording_failed now sid a messages prompt_ids token_ids m)"
  shows "failed_of sid a m' \<noteq> None \<and> dump_session sid m' = Inl UnresolvedFailure \<and>
         finalize_session sid m' = (Inl UnresolvedFailure, m')"
proof -
  have s: "rec_sessions m' = rec_sessions m"
    using assms by (auto simp: mark_recording_failed_def sbind_slift Let_def)
  have f: "failed_of sid a m' \<noteq> None"
    using assms by (auto simp: mark_recording_failed_def sbind_slift Let_def failed_of_def update_conv'
        split: option.splits if_splits)
  then have "map_of (rec_failed m') sid \<noteq> None" by (auto simp: failed_of_def split: option.splits)
  with s f assms(2) show ?thesis
    by (auto simp: get_session_def dump_session_def finalize_session_def split: option.splits)
qed

theorem failed_recording_blocks_collection_witness:
  "dump_session ''s'' (snd (mark_recording_failed 1 ''s'' (Some ''a'') [user_msg] [1] [2] demo_recorded))
     = Inl UnresolvedFailure"
proof -
  have "\<not> tombstoned 1 ''s'' demo_recorded" "get_session ''s'' demo_recorded \<noteq> None"
    "norm_messages [user_msg] = Inr [user_msg]"
    by code_simp+
  then show ?thesis using failed_recording_blocks_collection [OF _ _ _ refl] by blast
qed

subsection \<open>Deletion\<close>

lemma drop_expired_suffix: "\<exists>n. drop_expired c d = drop n d"
proof (induction d)
  case (Cons e d)
  then obtain n where "drop_expired c d = drop n d" by blast
  then have "drop_expired c (e # d) = drop (if snd e \<ge> c then 0 else Suc n) (e # d)" by simp
  then show ?case by blast
qed simp

lemma drop_expired_snoc: "v \<ge> c \<Longrightarrow> \<exists>n\<le>length d. drop_expired c (d @ [(k, v)]) = drop n d @ [(k, v)]"
proof (induction d)
  case (Cons e d)
  then obtain n where "n \<le> length d" "drop_expired c (d @ [(k, v)]) = drop n d @ [(k, v)]" by blast
  then show ?case by (intro exI [of _ "if snd e \<ge> c then 0 else Suc n"]) auto
qed simp

lemma prune_keeps_newest:
  "map_of (prune_tombstones now (od_put k now d)) k = Some now"
proof -
  obtain n where n: "drop_expired (now - TOMBSTONE_TTL) (od_put k now d) = drop n (od_pop k d) @ [(k, now)]"
    using drop_expired_snoc [of "now - TOMBSTONE_TTL" now "od_pop k d" k]
    by (auto simp: od_put_def TOMBSTONE_TTL_def)
  let ?e = "drop n (od_pop k d)"
  have absent: "map_of (drop j ?e) k = None" for j
    using set_drop_subset by (fastforce simp: map_of_eq_None_iff od_pop_def dest: in_set_dropD)
  have "Suc (length ?e) - MAX_TOMBSTONES \<le> length ?e" by (simp add: MAX_TOMBSTONES_def)
  with absent show ?thesis
    unfolding prune_tombstones_def n Let_def by (simp add: map_add_def)
qed

lemma length_prune: "length (prune_tombstones now d) \<le> MAX_TOMBSTONES"
  by (simp add: prune_tombstones_def Let_def)

text \<open>
  A deleted session stays deleted: until the tombstone expires it has no record, creating it or
  delivering a turn to it changes nothing, and the table of tombstones never exceeds its bound.
\<close>

theorem deleted_session_stays_deleted:
  assumes "t - now < TOMBSTONE_TTL" and "dl_session_id d = sid"
  shows "let m' = delete_session now sid m in
           is_deleted t sid m' \<and> get_session sid m' = None \<and> dump_session sid m' = Inr None \<and>
           ensure_session t wall sid model m' = m' \<and> record_completion t wall d m' = (Inr None, m') \<and>
           length (rec_deleted m') \<le> MAX_TOMBSTONES"
proof -
  have "tombstoned t sid (delete_session now sid m)"
    using assms(1) by (simp add: tombstoned_def delete_session_def prune_keeps_newest)
  then show ?thesis
    using assms(2)
    by (auto simp: Let_def is_deleted_def get_session_def dump_session_def ensure_session_def
        record_completion_def delete_session_def length_prune)
qed

theorem deleted_session_stays_deleted_witness:
  "let m' = delete_session 5 ''s'' demo_recorded in
     record_completion 3000 (Fin 0) demo_second m' = (Inr None, m')"
  using deleted_session_stays_deleted [of 3000 5 demo_second "''s''" demo_recorded]
  by (simp add: Let_def TOMBSTONE_TTL_def demo_second_def demo_delivery_def)

subsection \<open>Routed experts\<close>

text \<open>A capture is sound: it starts at row 0 and its data decodes to one byte per row and column.\<close>

definition coverage_ok :: "routed_experts_blob \<Rightarrow> bool" where
  "coverage_ok b \<longleftrightarrow> bl_start b = 0 \<and>
     (case b64decode False (bl_data b) of None \<Rightarrow> False | Some x \<Rightarrow> int (length x) = bl_rows b * bl_cols b)"

text \<open>A whole-stream capture or a delta whose bytes fill its rows.\<close>

definition blob_filled :: "routed_experts_blob \<Rightarrow> bool" where
  "blob_filled b \<longleftrightarrow>
     (case b64decode False (bl_data b) of None \<Rightarrow> True | Some x \<Rightarrow> int (length x) = bl_rows b * bl_cols b) \<and>
     (bl_start b = 0 \<longrightarrow> b64decode False (bl_data b) \<noteq> None)"

text \<open>
  Captures of routed experts concatenate: a delta that starts at the stored row count with the
  same number of columns is appended, and the stored data then decodes, also under strict
  validation, to the old bytes followed by the new ones, with the row counts added and the start
  still 0.
\<close>

theorem routed_experts_concatenate:
  assumes "map_of (sr_routed_experts s) agent = Some p" and "validate d = Some b"
    and "bl_start b \<noteq> 0" and "bl_start b = bl_rows p" and "bl_cols b = bl_cols p"
    and "b64decode False (bl_data p) = Some x" and "b64decode False (bl_data b) = Some y"
  shows "\<exists>q. map_of (sr_routed_experts (merge_routed_experts validate agent d s)) agent = Some q \<and>
           b64decode strict (bl_data q) = Some (x @ y) \<and> bl_rows q = bl_rows p + bl_rows b \<and>
           bl_cols q = bl_cols p \<and> bl_start q = 0"
proof -
  have "list_all (\<lambda>n. n < 256) (x @ y)"
    using b64decode_bytes [OF assms(6)] b64decode_bytes [OF assms(7)] by simp
  then show ?thesis
    using assms by (simp add: merge_routed_experts_def Let_def update_conv' b64_roundtrip)
qed

definition demo_blob :: "string \<Rightarrow> int \<Rightarrow> int \<Rightarrow> routed_experts_blob" where
  "demo_blob data rows start =
     \<lparr>bl_data = data, bl_rows = rows, bl_start = start, bl_cols = 2, bl_dtype = ''uint8''\<rparr>"

definition demo_capture :: session_record where
  "demo_capture = (new_session ''s'' None (Fin 0))
     \<lparr>sr_routed_experts := [(''a'', demo_blob ''AQI='' 1 0)]\<rparr>"

theorem routed_experts_concatenate_witness:
  "\<exists>q. map_of (sr_routed_experts
         (merge_routed_experts (\<lambda>_. Some (demo_blob ''AwQ='' 1 1)) ''a'' [] demo_capture)) ''a'' = Some q \<and>
       b64decode True (bl_data q) = Some ([1, 2] @ [3, 4])"
proof -
  have "map_of (sr_routed_experts demo_capture) ''a'' = Some (demo_blob ''AQI='' 1 0)"
    by (simp add: demo_capture_def)
  moreover have "b64decode False (bl_data (demo_blob ''AQI='' 1 0)) = Some [1, 2]"
    "b64decode False (bl_data (demo_blob ''AwQ='' 1 1)) = Some [3, 4]" by code_simp+
  moreover have "bl_start (demo_blob ''AwQ='' 1 1) \<noteq> 0"
    "bl_start (demo_blob ''AwQ='' 1 1) = bl_rows (demo_blob ''AQI='' 1 0)"
    "bl_cols (demo_blob ''AwQ='' 1 1) = bl_cols (demo_blob ''AQI='' 1 0)"
    by (simp_all add: demo_blob_def)
  ultimately show ?thesis
    using routed_experts_concatenate [of demo_capture "''a''" _ "\<lambda>_. Some (demo_blob ''AwQ='' 1 1)" "[]"]
    by blast
qed

lemma set_update_subset: "set (AList.update k v d) \<subseteq> insert (k, v) (set d)"
  by (induction d) auto

lemma coverage_ok_append:
  assumes "coverage_ok p" and "blob_filled b" and "bl_cols b = bl_cols p"
    and x: "b64decode False (bl_data p) = Some x" and y: "b64decode False (bl_data b) = Some y"
  shows "coverage_ok \<lparr>bl_data = b64encode (x @ y), bl_rows = bl_rows p + bl_rows b, bl_start = 0,
    bl_cols = bl_cols p, bl_dtype = t\<rparr>"
proof -
  have "list_all (\<lambda>n. n < 256) (x @ y)"
    using b64decode_bytes [OF x] b64decode_bytes [OF y] by simp
  with assms show ?thesis
    by (simp add: coverage_ok_def blob_filled_def b64_roundtrip distrib_right)
qed

text \<open>
  Stored captures stay sound: if every capture of a session starts at row 0 and has one byte per
  row and column, and the engine's blob fills its own rows, they still do after the merge, whether
  the blob was appended, superseded the stored one, or was dropped.
\<close>

theorem captures_stay_sound:
  assumes "\<forall>e\<in>set (sr_routed_experts s). coverage_ok (snd e)"
    and "\<forall>b. validate d = Some b \<longrightarrow> blob_filled b"
  shows "\<forall>e\<in>set (sr_routed_experts (merge_routed_experts validate agent d s)). coverage_ok (snd e)"
proof -
  have put: "\<forall>e\<in>set (AList.update agent q (sr_routed_experts s)). coverage_ok (snd e)" if "coverage_ok q" for q
    using that assms(1) set_update_subset [of agent q "sr_routed_experts s"] by auto
  show ?thesis
  proof (cases "validate d")
    case None
    with assms(1) show ?thesis by (simp add: merge_routed_experts_def)
  next
    case (Some b)
    with assms(2) have filled: "blob_filled b" by simp
    have whole: "coverage_ok b" if "bl_start b = 0"
      using filled that by (auto simp: blob_filled_def coverage_ok_def)
    have prev: "coverage_ok p" if "map_of (sr_routed_experts s) agent = Some p" for p
      using that assms(1) by (force dest: map_of_SomeD)
    show ?thesis
    proof (cases "map_of (sr_routed_experts s) agent")
      case None
      with Some assms(1) put [OF whole] show ?thesis by (simp add: merge_routed_experts_def)
    next
      case p: (Some p)
      show ?thesis
      proof (cases "bl_start b \<noteq> 0 \<and> bl_start b = bl_rows p \<and> bl_cols b = bl_cols p")
        case True
        with put [OF coverage_ok_append [OF prev [OF p] filled]] Some p assms(1) show ?thesis
          by (simp add: merge_routed_experts_def Let_def split: option.splits)
      next
        case False
        with Some p assms(1) put [OF whole] show ?thesis
          by (auto simp: merge_routed_experts_def Let_def)
      qed
    qed
  qed
qed

theorem captures_stay_sound_witness:
  "list_all (\<lambda>e. coverage_ok (snd e)) (sr_routed_experts
     (merge_routed_experts (\<lambda>_. Some (demo_blob ''AwQ='' 1 1)) ''a'' [] demo_capture))"
proof -
  have "\<forall>e\<in>set (sr_routed_experts demo_capture). coverage_ok (snd e)" by code_simp
  moreover have "blob_filled (demo_blob ''AwQ='' 1 1)" by code_simp
  ultimately show ?thesis
    using captures_stay_sound [of demo_capture "\<lambda>_. Some (demo_blob ''AwQ='' 1 1)"]
    by (simp add: list_all_iff)
qed

subsection \<open>Flushing snapshots\<close>

lemma store_save_latest:
  "version \<ge> (case map_of (st_latest st) sid of None \<Rightarrow> 0 | Some v \<Rightarrow> v) \<Longrightarrow>
     map_of (st_latest (store_save sid payload version ok st)) sid = Some version"
  by (simp add: store_save_def Let_def update_conv')

text \<open>
  A slow flush never overwrites a newer one: in whatever order the snapshots of a session reach the
  store, once all were written the file holds the snapshot with the highest version.
\<close>

theorem newest_snapshot_wins:
  assumes "(payload, version) \<in> set writes" and "distinct (map snd writes)"
    and "\<forall>w\<in>set writes. 0 < snd w \<and> snd w \<le> version"
    and "map_of (st_latest st) sid = None"
  shows "map_of (st_files (foldl (\<lambda>st (p, v). store_save sid p v True st) st writes)) sid = Some payload"
proof -
  let ?run = "foldl (\<lambda>st (p, v). store_save sid p v True st) st"
  have "writes \<noteq> [] \<longrightarrow> (\<exists>p v. (p, v) \<in> set writes \<and> (\<forall>w\<in>set writes. snd w \<le> v) \<and>
      map_of (st_latest (?run writes)) sid = Some v \<and> map_of (st_files (?run writes)) sid = Some p)"
    using assms(2)
  proof (induction writes rule: rev_induct)
    case (snoc w ws)
    obtain q u where w: "w = (q, u)" by (cases w)
    show ?case
    proof (cases "ws = []")
      case True
      then show ?thesis using assms(4) by (auto simp: w store_save_def Let_def update_conv')
    next
      case False
      with snoc obtain p v where pv: "(p, v) \<in> set ws" "\<forall>w\<in>set ws. snd w \<le> v"
        "map_of (st_latest (?run ws)) sid = Some v" "map_of (st_files (?run ws)) sid = Some p"
        by auto
      show ?thesis
      proof (cases "u < v")
        case True
        with pv show ?thesis by (intro impI exI [of _ p] exI [of _ v]) (auto simp: w store_save_def)
      next
        case False
        with pv show ?thesis
          by (intro impI exI [of _ q] exI [of _ u])
            (auto simp: w store_save_def Let_def update_conv' intro: order.trans)
      qed
    qed
  qed simp
  then obtain p v where pv: "(p, v) \<in> set writes" "\<forall>w\<in>set writes. snd w \<le> v"
    "map_of (st_files (?run writes)) sid = Some p"
    using assms(1) by (metis empty_iff empty_set)
  with assms have "v = version" by force
  with pv(1) assms(1,2) have "p = payload" by (metis eq_key_imp_eq_value distinct_map inj_onD prod.inject snd_conv)
  with pv(3) show ?thesis by simp
qed

theorem newest_snapshot_wins_witness:
  "map_of (st_files (foldl (\<lambda>st (p, v). store_save ''s'' p v True st) \<lparr>st_latest = [], st_files = []\<rparr>
     [(''b'', 2), (''c'', 3), (''a'', 1)])) ''s'' = Some ''c''"
  by (rule newest_snapshot_wins [where version = 3]) simp_all

end
