(* ===== verification/RecordValidation.thy ===== *)
theory RecordValidation
  imports Recorder
begin

section \<open>Structural validation of recorded sessions\<close>

text \<open>
  \<^verbatim>\<open>validate_record_structure\<close> of \<^verbatim>\<open>record_validation.py\<close>: the integrity checks on the raw
  dictionary of a session, before anything is converted to training data. Agents are the strings of
  the record or \<open>None\<close>; \<open>validate_turns\<close> is the check on the list of turns and the routed-experts
  mapping, which \<^verbatim>\<open>TrainingStream.validate\<close> also calls, with an agent that may be \<open>None\<close>.
\<close>

datatype record_error =
    NoTurnsList
  | TurnNotObject nat
  | BadAgentId nat
  | BadTokenIds string
  | ResetNotBool
  | NoLeadingPrompt
  | BadLogprobs
  | MisalignedLogprobs
  | BadSamplingParams
  | ExpertsNotMapping
  | BadExpertsAgent
  | BadExpertsDimensions
  | BadExpertsData
  | ExpertsByteCount
  | RoutingAcrossResets
  | MissingExperts

type_synonym agent = "string option"
type_synonym extents = "(agent, nat) odict \<times> (agent, nat) odict"

definition token_ids :: "string \<Rightarrow> pyval \<Rightarrow> record_error + pyval list" where
  "token_ids name value =
     (case value of
        PList xs \<Rightarrow> rbind (require (list_all is_token xs) (BadTokenIds name)) (\<lambda>_. Inr xs)
      | _ \<Rightarrow> Inl (BadTokenIds name))"

fun agent_of :: "pyval \<Rightarrow> agent option" where
  "agent_of PNone = Some None"
| "agent_of (PStr s) = Some (Some s)"
| "agent_of _ = None"

definition finite_values :: "pyval \<Rightarrow> bool" where
  "finite_values v = (case v of PDict d \<Rightarrow> list_all (\<lambda>(k, x). finite_num x) d | _ \<Rightarrow> False)"

definition count_of :: "agent \<Rightarrow> (agent, nat) odict \<Rightarrow> nat" where
  "count_of a d = (case map_of d a of None \<Rightarrow> 0 | Some n \<Rightarrow> n)"

definition is_selected :: "agent list option \<Rightarrow> agent \<Rightarrow> bool" where
  "is_selected selected a = (case selected of None \<Rightarrow> True | Some as \<Rightarrow> a \<in> set as)"

text \<open>One turn: the checks, and the stream length and number of conversations of each agent so far.\<close>

definition validate_turn ::
  "agent list option \<Rightarrow> bool \<Rightarrow> nat \<Rightarrow> pyval \<Rightarrow> extents \<Rightarrow> record_error + extents" where
  "validate_turn selected require_logprobs index turn ext =
     (case turn of
        PDict t \<Rightarrow>
          (case agent_of (dget t ''agent_id'') of
             None \<Rightarrow> Inl (BadAgentId index)
           | Some agent \<Rightarrow>
               (let needed = is_selected selected agent in
                rbind (token_ids ''prompt_token_ids'' (dget_or t ''prompt_token_ids'' (PList []))) (\<lambda>prompt.
                rbind (token_ids ''completion_token_ids'' (dget t ''completion_token_ids'')) (\<lambda>completion.
                case dget_or t ''new_conversation'' (PBool False) of
                  PBool reset \<Rightarrow>
                    (let (lengths, conversations) = ext;
                         fresh = (map_of lengths agent = None \<or> reset);
                         len = (if fresh then 0 else count_of agent lengths);
                         conversations = (if fresh
                           then AList.update agent (Suc (count_of agent conversations)) conversations
                           else conversations)
                     in rbind (require (\<not> (needed \<and> require_logprobs \<and> completion \<noteq> [] \<and> prompt = [] \<and> len = 0))
                                NoLeadingPrompt) (\<lambda>_.
                        let lengths = AList.update agent (len + (length prompt + length completion)) lengths in
                        (case dget_or t ''completion_logprobs'' (PList []) of
                           PList probs \<Rightarrow>
                             rbind (require (list_all finite_num probs) BadLogprobs) (\<lambda>_.
                             rbind (require (\<not> ((has_key t ''completion_logprobs'' \<or> needed \<and> require_logprobs)
                                               \<and> length probs \<noteq> length completion)) MisalignedLogprobs) (\<lambda>_.
                             rbind (require (dget t ''sampling_params'' = PNone
                                             \<or> finite_values (dget t ''sampling_params'')) BadSamplingParams) (\<lambda>_.
                               Inr (lengths, conversations))))
                         | _ \<Rightarrow> Inl BadLogprobs)))
                | _ \<Rightarrow> Inl ResetNotBool))))
      | _ \<Rightarrow> Inl (TurnNotObject index))"

fun validate_turn_list ::
  "agent list option \<Rightarrow> bool \<Rightarrow> nat \<Rightarrow> pyval list \<Rightarrow> extents \<Rightarrow> record_error + extents" where
  "validate_turn_list selected lp i [] ext = Inr ext"
| "validate_turn_list selected lp i (t # ts) ext =
     rbind (validate_turn selected lp i t ext) (validate_turn_list selected lp (Suc i) ts)"

definition validate_blob :: "(agent, nat) odict \<Rightarrow> agent \<times> pyval \<Rightarrow> record_error + unit" where
  "validate_blob lengths e =
     (case (map_of lengths (fst e), snd e) of
        (Some len, PDict b) \<Rightarrow>
          (case (dget b ''rows'', dget b ''cols'', dget_or b ''start'' (PInt 0)) of
             (PInt rows, PInt cols, PInt start) \<Rightarrow>
               rbind (require (rows \<ge> 0 \<and> cols > 0 \<and> start = 0
                               \<and> dget_or b ''dtype'' (PStr ''uint8'') = PStr ''uint8''
                               \<and> rows \<le> max 0 (int len - 1)) BadExpertsDimensions) (\<lambda>_.
               (case dget b ''data'' of
                  PStr data \<Rightarrow>
                    (case b64decode True data of
                       None \<Rightarrow> Inl BadExpertsData
                     | Some bytes \<Rightarrow> require (int (length bytes) = rows * cols) ExpertsByteCount)
                | _ \<Rightarrow> Inl BadExpertsData))
           | _ \<Rightarrow> Inl BadExpertsDimensions)
      | _ \<Rightarrow> Inl BadExpertsAgent)"

definition check_coverage ::
  "agent list option \<Rightarrow> (agent, nat) odict \<Rightarrow> (agent \<times> pyval) list \<Rightarrow> agent \<times> nat \<Rightarrow> record_error + unit" where
  "check_coverage selected conversations blobs e =
     (let (agent, len) = e in
      if \<not> is_selected selected agent \<or> len = 0 then Inr ()
      else
        rbind (require (count_of agent conversations \<le> 1) RoutingAcrossResets) (\<lambda>_.
          require (case map_of blobs agent of
                     Some (PDict b) \<Rightarrow> dget b ''rows'' = PInt (int len - 1)
                   | _ \<Rightarrow> False) MissingExperts))"

definition validate_turns ::
  "pyval list \<Rightarrow> (agent \<times> pyval) list \<Rightarrow> agent list option \<Rightarrow> bool \<Rightarrow> bool \<Rightarrow> record_error + unit" where
  "validate_turns turns blobs selected require_logprobs require_experts =
     rbind (validate_turn_list selected require_logprobs 0 turns ([], [])) (\<lambda>(lengths, conversations).
     rbind (check_all (validate_blob lengths) blobs) (\<lambda>_.
       if require_experts then check_all (check_coverage selected conversations blobs) lengths
       else Inr ()))"

definition validate_record_structure ::
  "pyval \<Rightarrow> agent list option \<Rightarrow> bool \<Rightarrow> bool \<Rightarrow> record_error + unit" where
  "validate_record_structure record selected require_logprobs require_experts =
     (case record of
        PDict r \<Rightarrow>
          (case dget r ''turns'' of
             PList turns \<Rightarrow>
               (case dget_or r ''routed_experts'' (PDict []) of
                  PDict blobs \<Rightarrow>
                    validate_turns turns (map (\<lambda>(a, b). (Some a, b)) blobs) selected
                      require_logprobs require_experts
                | _ \<Rightarrow>
                    rbind (validate_turns turns [] selected require_logprobs False) (\<lambda>_.
                      Inl ExpertsNotMapping))
           | _ \<Rightarrow> Inl NoTurnsList)
      | _ \<Rightarrow> Inl NoTurnsList)"

end
