(* ===== verification/Training.thy ===== *)
theory Training
  imports RecordValidation
begin

section \<open>Conversion to training streams and validation of results\<close>

text \<open>
  \<^verbatim>\<open>training.py\<close>: \<^verbatim>\<open>record_to_streams\<close> turns the raw dictionary of a session into one stream per
  agent conversation (exact tokens, loss mask and log probabilities), \<^verbatim>\<open>TrainingStream.validate\<close>
  checks a stream, and \<^verbatim>\<open>validate_training_results\<close> checks a batch of trial results against the
  allocated task slots, session ids and policy. The fields of the dataclasses have their declared
  types; the elements of tokens, masks and log probabilities are raw values, because the code
  checks them.
\<close>

datatype training_error =
    BlankName string
  | RecordError record_error
  | UnregisteredAgent
  | ResetNeedsSegments
  | NegativeSegment
  | UnalignedLists
  | BadLossMask
  | BadStreamLogprobs
  | BadBoundaries
  | MaskDisagrees
  | UncoveredStream
  | BadTrainedRoles
  | BadExpectedSampling
  | NoSlots
  | NoAttempts
  | DuplicateSession
  | BadAttempt
  | UnallocatedOrDuplicateSlot
  | UnallocatedAttempt
  | BadScores
  | WrongSessionOrDuplicateStream
  | MismatchedRole
  | StaleWeightVersion
  | SamplingMismatch
  | MissingSegment
  | MissingResults

record training_completion =
  tc_start :: int
  tc_end :: int
  tc_weight_version :: pyval
  tc_sampling_params :: pyval
  tc_finish_reason :: pyval

record training_stream =
  ts_session_id :: string
  ts_agent_id :: agent
  ts_role :: string
  ts_segment_index :: int
  ts_tokens :: "pyval list"
  ts_loss_mask :: "pyval list"
  ts_logprobs :: "pyval list"
  ts_completions :: "training_completion list"
  ts_routed_experts :: pyval

type_synonym roles = "(agent \<times> string) list"

definition name_ok :: "string \<Rightarrow> string \<Rightarrow> training_error + unit" where
  "name_ok label value = require (strip value \<noteq> []) (BlankName label)"

text \<open>\<^verbatim>\<open>_name\<close> on an optional raw value.\<close>

definition optional_name_ok :: "string \<Rightarrow> pyval \<Rightarrow> training_error + unit" where
  "optional_name_ok label value =
     (case value of
        PNone \<Rightarrow> Inr ()
      | PStr s \<Rightarrow> name_ok label s
      | _ \<Rightarrow> Inl (BlankName label))"

definition agent_name_ok :: "agent \<Rightarrow> training_error + unit" where
  "agent_name_ok a = (case a of None \<Rightarrow> Inr () | Some s \<Rightarrow> name_ok ''agent_id'' s)"

definition check_roles :: "roles \<Rightarrow> training_error + unit" where
  "check_roles roles =
     check_all (\<lambda>(a, r). rbind (agent_name_ok a) (\<lambda>_. name_ok ''role'' r)) roles"

definition lift_record :: "record_error + 'a \<Rightarrow> training_error + 'a" where
  "lift_record r = (case r of Inl e \<Rightarrow> Inl (RecordError e) | Inr x \<Rightarrow> Inr x)"

definition completion_ends :: "training_stream \<Rightarrow> int list" where
  "completion_ends s = map tc_end (filter (\<lambda>c. tc_end c > tc_start c) (ts_completions s))"

subsection \<open>Validating a stream\<close>

definition is_zero :: "pyval \<Rightarrow> bool" where
  "is_zero v = (num_key v = Some (Fin 0))"

text \<open>\<^verbatim>\<open>xs[i:j]\<close> for \<open>0 \<le> i \<le> j\<close>.\<close>

definition slice :: "'a list \<Rightarrow> int \<Rightarrow> int \<Rightarrow> 'a list" where
  "slice xs i j = drop (nat i) (take (nat j) xs)"

definition completion_turn :: "training_stream \<Rightarrow> int \<Rightarrow> training_completion \<Rightarrow> pydict" where
  "completion_turn s cursor c =
     [(''agent_id'', dump_opt PStr (ts_agent_id s)),
      (''prompt_token_ids'', PList (slice (ts_tokens s) cursor (tc_start c))),
      (''completion_token_ids'', PList (slice (ts_tokens s) (tc_start c) (tc_end c))),
      (''completion_logprobs'', PList (slice (ts_logprobs s) (tc_start c) (tc_end c))),
      (''sampling_params'', tc_sampling_params c)]"

fun check_completions ::
  "training_stream \<Rightarrow> int \<Rightarrow> training_completion list \<Rightarrow> training_error + (int \<times> pyval list)" where
  "check_completions s cursor [] = Inr (cursor, [])"
| "check_completions s cursor (c # cs) =
     rbind (require (cursor \<le> tc_start c \<and> tc_start c \<le> tc_end c \<and> tc_end c \<le> int (length (ts_tokens s)))
             BadBoundaries) (\<lambda>_.
     rbind (require (list_all is_zero (slice (ts_loss_mask s) cursor (tc_start c)) \<and>
                     list_all (\<lambda>m. m = PInt 1) (slice (ts_loss_mask s) (tc_start c) (tc_end c)) \<and>
                     list_all is_zero (slice (ts_logprobs s) cursor (tc_start c))) MaskDisagrees) (\<lambda>_.
     rbind (optional_name_ok ''weight_version'' (tc_weight_version c)) (\<lambda>_.
     rbind (optional_name_ok ''finish_reason'' (tc_finish_reason c)) (\<lambda>_.
     rbind (check_completions s (tc_end c) cs) (\<lambda>(cursor', turns).
       Inr (cursor', PDict (completion_turn s cursor c) # turns))))))"

definition validate_stream :: "training_stream \<Rightarrow> bool \<Rightarrow> training_error + unit" where
  "validate_stream s require_experts =
     rbind (name_ok ''session_id'' (ts_session_id s)) (\<lambda>_.
     rbind (agent_name_ok (ts_agent_id s)) (\<lambda>_.
     rbind (name_ok ''role'' (ts_role s)) (\<lambda>_.
     rbind (require (ts_segment_index s \<ge> 0) NegativeSegment) (\<lambda>_.
     rbind (require (length (ts_tokens s) = length (ts_loss_mask s) \<and>
                     length (ts_loss_mask s) = length (ts_logprobs s)) UnalignedLists) (\<lambda>_.
     rbind (require (list_all (\<lambda>m. m = PInt 0 \<or> m = PInt 1) (ts_loss_mask s)) BadLossMask) (\<lambda>_.
     rbind (require (list_all finite_num (ts_logprobs s)) BadStreamLogprobs) (\<lambda>_.
     rbind (check_completions s 0 (ts_completions s)) (\<lambda>(cursor, turns).
     rbind (require (cursor = int (length (ts_tokens s))) UncoveredStream) (\<lambda>_.
       lift_record (validate_turns turns
         (if ts_routed_experts s = PNone then [] else [(ts_agent_id s, ts_routed_experts s)])
         None True (require_experts \<or> ts_routed_experts s \<noteq> PNone)))))))))))"

subsection \<open>From a record to streams\<close>

definition as_list :: "pyval \<Rightarrow> pyval list" where
  "as_list v = (case v of PList xs \<Rightarrow> xs | _ \<Rightarrow> [])"

text \<open>The fields of a recorded turn, read the way the loop reads them.\<close>

definition turn_agent :: "pydict \<Rightarrow> agent" where
  "turn_agent t = (case dget t ''agent_id'' of PStr a \<Rightarrow> Some a | _ \<Rightarrow> None)"

definition turn_resets :: "pydict \<Rightarrow> bool" where
  "turn_resets t = truthy (dget_or t ''new_conversation'' (PBool False))"

definition turn_prompt :: "pydict \<Rightarrow> pyval list" where
  "turn_prompt t = as_list (dget_or t ''prompt_token_ids'' (PList []))"

definition turn_completion :: "pydict \<Rightarrow> pyval list" where
  "turn_completion t = as_list (dget t ''completion_token_ids'')"

definition turn_logprobs :: "pydict \<Rightarrow> pyval list" where
  "turn_logprobs t = as_list (dget_or t ''completion_logprobs'' (PList []))"

text \<open>One turn appended to its stream.\<close>

definition extend_stream :: "pydict \<Rightarrow> training_stream \<Rightarrow> training_stream" where
  "extend_stream turn s =
     (let prompt = turn_prompt turn;
          completion = turn_completion turn;
          start = int (length (ts_tokens s) + length prompt);
          tokens = ts_tokens s @ prompt @ completion
      in s\<lparr>ts_tokens := tokens,
           ts_loss_mask := ts_loss_mask s @ replicate (length prompt) (PInt 0)
             @ replicate (length completion) (PInt 1),
           ts_logprobs := ts_logprobs s @ replicate (length prompt) (PFloat (Fin 0)) @ turn_logprobs turn,
           ts_completions := ts_completions s @
             [\<lparr>tc_start = start, tc_end = int (length tokens),
               tc_weight_version = dget turn ''weight_version'',
               tc_sampling_params = dget turn ''sampling_params'',
               tc_finish_reason = dget turn ''finish_reason''\<rparr>]\<rparr>)"

definition new_stream :: "string \<Rightarrow> agent \<Rightarrow> string \<Rightarrow> int \<Rightarrow> training_stream" where
  "new_stream sid agent role index =
     \<lparr>ts_session_id = sid, ts_agent_id = agent, ts_role = role, ts_segment_index = index,
      ts_tokens = [], ts_loss_mask = [], ts_logprobs = [], ts_completions = [],
      ts_routed_experts = PNone\<rparr>"

text \<open>The loop's state: the streams in order, and the index of each agent's current one.\<close>

type_synonym stream_state = "training_stream list \<times> (agent, nat) odict"

definition add_turn ::
  "string \<Rightarrow> roles \<Rightarrow> bool \<Rightarrow> pydict \<Rightarrow> pydict \<Rightarrow> stream_state \<Rightarrow> training_error + stream_state" where
  "add_turn sid roles allow_segments blobs turn st =
     (let (streams, current) = st;
          agent = turn_agent turn in
      (case map_of roles agent of
         None \<Rightarrow> Inl UnregisteredAgent
       | Some role \<Rightarrow>
           (let stream = map_of current agent;
                reset = (stream \<noteq> None \<and> turn_resets turn)
            in rbind (require (\<not> (reset \<and> (\<not> allow_segments \<or>
                        (case agent of None \<Rightarrow> False | Some a \<Rightarrow> has_key blobs a)))) ResetNeedsSegments) (\<lambda>_.
               if stream = None \<or> reset
               then Inr (streams @ [extend_stream turn (new_stream sid agent role
                          (case stream of None \<Rightarrow> 0 | Some i \<Rightarrow> ts_segment_index (streams ! i) + 1))],
                         AList.update agent (length streams) current)
               else (let i = the stream in
                     Inr (streams[i := extend_stream turn (streams ! i)], current))))))"

fun add_turns ::
  "string \<Rightarrow> roles \<Rightarrow> bool \<Rightarrow> pydict \<Rightarrow> pyval list \<Rightarrow> stream_state \<Rightarrow> training_error + stream_state" where
  "add_turns sid roles seg blobs [] st = Inr st"
| "add_turns sid roles seg blobs (t # ts) st =
     rbind (add_turn sid roles seg blobs (case t of PDict d \<Rightarrow> d | _ \<Rightarrow> []) st)
       (add_turns sid roles seg blobs ts)"

definition attach_experts :: "pydict \<Rightarrow> training_stream \<Rightarrow> training_stream" where
  "attach_experts blobs s =
     s\<lparr>ts_routed_experts := (case ts_agent_id s of None \<Rightarrow> PNone | Some a \<Rightarrow> dget blobs a)\<rparr>"

definition record_to_streams ::
  "pyval \<Rightarrow> roles \<Rightarrow> bool \<Rightarrow> bool \<Rightarrow> training_error + training_stream list" where
  "record_to_streams record roles allow_segments require_experts =
     rbind (check_roles roles) (\<lambda>_.
     rbind (lift_record (validate_record_structure record None True require_experts)) (\<lambda>_.
       let r = (case record of PDict d \<Rightarrow> d | _ \<Rightarrow> []);
           blobs = (case dget_or r ''routed_experts'' (PDict []) of PDict d \<Rightarrow> d | _ \<Rightarrow> [])
       in (case dget r ''session_id'' of
             PStr sid \<Rightarrow>
               rbind (name_ok ''session_id'' sid) (\<lambda>_.
               rbind (add_turns sid roles allow_segments blobs (as_list (dget r ''turns'')) ([], [])) (\<lambda>(streams, _).
                 let streams = map (attach_experts blobs) streams
                 in rbind (check_all (\<lambda>s. validate_stream s require_experts) streams) (\<lambda>_. Inr streams)))
           | _ \<Rightarrow> Inl (BlankName ''session_id''))))"

subsection \<open>Trial results\<close>

record trial_result =
  tr_task_id :: string
  tr_slot :: int
  tr_attempt :: int
  tr_session_id :: string
  tr_streams :: "training_stream list"
  tr_scores :: pydict
  tr_error :: "string option"
  tr_cleanup_error :: "string option"

type_synonym allocations = "(string \<times> string list list) list"
type_synonym slot_table = "((string \<times> int) \<times> string list) list"

definition selected_roles :: "roles \<Rightarrow> string list option \<Rightarrow> training_error + string list" where
  "selected_roles roles trained =
     (case trained of
        None \<Rightarrow> Inr (map snd roles)
      | Some rs \<Rightarrow> rbind (require (list_all (\<lambda>r. r \<in> set (map snd roles)) rs) BadTrainedRoles) (\<lambda>_. Inr rs))"

definition check_expected_sampling :: "pydict option \<Rightarrow> training_error + unit" where
  "check_expected_sampling expected =
     (case expected of
        None \<Rightarrow> Inr ()
      | Some d \<Rightarrow> require (d \<noteq> [] \<and> list_all (\<lambda>(k, v). k \<noteq> [] \<and> finite_num v) d) BadExpectedSampling)"

text \<open>The session ids of one slot, checked against those seen before.\<close>

fun check_attempts :: "string list \<Rightarrow> string list \<Rightarrow> training_error + string list" where
  "check_attempts seen [] = Inr seen"
| "check_attempts seen (sid # sids) =
     rbind (name_ok ''allocated session_id'' sid) (\<lambda>_.
     rbind (require (sid \<notin> set seen) DuplicateSession) (\<lambda>_. check_attempts (seen @ [sid]) sids))"

fun check_slots ::
  "string \<Rightarrow> int \<Rightarrow> string list list \<Rightarrow> string list \<times> slot_table \<Rightarrow> training_error + (string list \<times> slot_table)" where
  "check_slots task slot [] st = Inr st"
| "check_slots task slot (attempts # rest) (seen, expected) =
     rbind (require (attempts \<noteq> []) NoAttempts) (\<lambda>_.
     rbind (check_attempts seen attempts) (\<lambda>seen.
       check_slots task (slot + 1) rest (seen, expected @ [((task, slot), attempts)])))"

fun check_allocations ::
  "allocations \<Rightarrow> string list \<times> slot_table \<Rightarrow> training_error + (string list \<times> slot_table)" where
  "check_allocations [] st = Inr st"
| "check_allocations ((task, slots) # rest) st =
     rbind (name_ok ''task_id'' task) (\<lambda>_.
     rbind (require (slots \<noteq> []) NoSlots) (\<lambda>_.
     rbind (check_slots task 0 slots st) (check_allocations rest)))"

definition completion_policy_ok ::
  "pydict option \<Rightarrow> string option \<Rightarrow> training_completion \<Rightarrow> training_error + unit" where
  "completion_policy_ok expected_sampling expected_version c =
     (if tc_start c = tc_end c then Inr ()
      else
        rbind (require (case expected_version of None \<Rightarrow> True | Some v \<Rightarrow> tc_weight_version c = PStr v)
                StaleWeightVersion) (\<lambda>_.
          require (case expected_sampling of
                     None \<Rightarrow> True
                   | Some d \<Rightarrow> (case tc_sampling_params c of
                       PDict actual \<Rightarrow> list_all (\<lambda>(k, v). py_eq (dget actual k) v) d
                     | _ \<Rightarrow> False)) SamplingMismatch))"

type_synonym policy = "pydict option \<times> string option"

definition check_stream ::
  "string \<Rightarrow> roles \<Rightarrow> string list \<Rightarrow> policy \<Rightarrow> bool \<Rightarrow> training_stream \<Rightarrow> (agent \<times> int) list \<Rightarrow>
   training_error + (agent \<times> int) list" where
  "check_stream sid roles selected policy require_experts s identities =
     (let trained = (ts_role s \<in> set selected);
          identity = (ts_agent_id s, ts_segment_index s) in
      rbind (validate_stream s (require_experts \<and> trained)) (\<lambda>_.
      rbind (require (ts_session_id s = sid \<and> identity \<notin> set identities) WrongSessionOrDuplicateStream) (\<lambda>_.
      rbind (require (map_of roles (ts_agent_id s) = Some (ts_role s)) MismatchedRole) (\<lambda>_.
      rbind (if trained then check_all (completion_policy_ok (fst policy) (snd policy)) (ts_completions s)
             else Inr ()) (\<lambda>_.
        Inr (identities @ [identity]))))))"

fun check_streams ::
  "string \<Rightarrow> roles \<Rightarrow> string list \<Rightarrow> policy \<Rightarrow> bool \<Rightarrow> training_stream list \<Rightarrow> (agent \<times> int) list \<Rightarrow>
   training_error + (agent \<times> int) list" where
  "check_streams sid roles selected policy re [] ids = Inr ids"
| "check_streams sid roles selected policy re (s # ss) ids =
     rbind (check_stream sid roles selected policy re s ids) (check_streams sid roles selected policy re ss)"

text \<open>\<^verbatim>\<open>sorted(indices) == list(range(len(indices)))\<close>.\<close>

definition complete_segments :: "(agent \<times> int) list \<Rightarrow> agent \<Rightarrow> bool" where
  "complete_segments ids a =
     (let is = map snd (filter (\<lambda>(b, i). b = a) ids) in sort is = map int [0..<length is])"

definition check_result ::
  "roles \<Rightarrow> string list \<Rightarrow> policy \<Rightarrow> bool \<Rightarrow> slot_table \<Rightarrow> trial_result \<Rightarrow> (string \<times> int) list \<Rightarrow>
   training_error + (string \<times> int) list" where
  "check_result roles selected policy require_experts expected r seen =
     (let key = (tr_task_id r, tr_slot r) in
      rbind (name_ok ''task_id'' (tr_task_id r)) (\<lambda>_.
      rbind (name_ok ''session_id'' (tr_session_id r)) (\<lambda>_.
      rbind (require (tr_attempt r \<ge> 0) BadAttempt) (\<lambda>_.
      rbind (require (map_of expected key \<noteq> None \<and> key \<notin> set seen) UnallocatedOrDuplicateSlot) (\<lambda>_.
      rbind (let attempts = the (map_of expected key) in
             require (tr_attempt r < int (length attempts) \<and>
                      attempts ! nat (tr_attempt r) = tr_session_id r) UnallocatedAttempt) (\<lambda>_.
      rbind (require (list_all (\<lambda>(k, v). finite_num v) (tr_scores r)) BadScores) (\<lambda>_.
      rbind (check_streams (tr_session_id r) roles selected policy require_experts (tr_streams r) []) (\<lambda>ids.
      rbind (require (list_all (complete_segments ids) (map fst ids)) MissingSegment) (\<lambda>_.
        Inr (seen @ [key]))))))))))"

fun check_results ::
  "roles \<Rightarrow> string list \<Rightarrow> policy \<Rightarrow> bool \<Rightarrow> slot_table \<Rightarrow> trial_result list \<Rightarrow> (string \<times> int) list \<Rightarrow>
   training_error + (string \<times> int) list" where
  "check_results roles selected policy re expected [] seen = Inr seen"
| "check_results roles selected policy re expected (r # rs) seen =
     rbind (check_result roles selected policy re expected r seen)
       (check_results roles selected policy re expected rs)"

definition validate_training_results ::
  "trial_result list \<Rightarrow> allocations \<Rightarrow> roles \<Rightarrow> string list option \<Rightarrow> pydict option \<Rightarrow> string option \<Rightarrow> bool \<Rightarrow>
   training_error + unit" where
  "validate_training_results results allocations roles trained expected_sampling expected_version
     require_experts =
     rbind (check_roles roles) (\<lambda>_.
     rbind (selected_roles roles trained) (\<lambda>selected.
     rbind (check_expected_sampling expected_sampling) (\<lambda>_.
     rbind (case expected_version of None \<Rightarrow> Inr () | Some v \<Rightarrow> name_ok ''expected_weight_version'' v) (\<lambda>_.
     rbind (check_allocations allocations ([], [])) (\<lambda>(_, expected).
     rbind (check_results roles selected (expected_sampling, expected_version) require_experts
              expected results []) (\<lambda>seen.
       require (set (map fst expected) \<subseteq> set seen) MissingResults))))))"

end
