(* ===== verification/TrainingProperties.thy ===== *)
theory TrainingProperties
  imports Training RecorderProperties
begin

section \<open>What conversion and result validation guarantee\<close>

text \<open>
  \<open>record_to_streams\<close> against its specification: the streams of an agent are its turns split at
  conversation resets, token for token, with the mask set on exactly the sampled tokens. On a record
  the recorder produced, the last stream of an agent is the token stream the engine saw.
  \<open>validate_training_results\<close> accepts a batch only if it holds exactly one result per allocated slot
  and every trained sample obeys the expected policy.
\<close>

subsection \<open>The specification: segments of an agent's turns\<close>

definition add_segment :: "pydict list list \<Rightarrow> pydict \<Rightarrow> pydict list list" where
  "add_segment segs t =
     (if segs = [] \<or> turn_resets t then segs @ [[t]] else butlast segs @ [last segs @ [t]])"

definition segments :: "agent \<Rightarrow> pydict list \<Rightarrow> pydict list list" where
  "segments a turns = foldl add_segment [] (filter (\<lambda>t. turn_agent t = a) turns)"

definition stream_of :: "string \<Rightarrow> agent \<Rightarrow> string \<Rightarrow> nat \<Rightarrow> pydict list \<Rightarrow> training_stream" where
  "stream_of sid a role i seg = foldl (\<lambda>s t. extend_stream t s) (new_stream sid a role (int i)) seg"

lemma stream_of_snoc: "stream_of sid a role i (seg @ [t]) = extend_stream t (stream_of sid a role i seg)"
  by (simp add: stream_of_def)

lemma stream_of_Nil: "stream_of sid a role i [] = new_stream sid a role (int i)"
  by (simp add: stream_of_def)

lemma stream_of_fields:
  "ts_agent_id (stream_of sid a role i seg) = a"
  "ts_segment_index (stream_of sid a role i seg) = int i"
  "ts_role (stream_of sid a role i seg) = role"
  "ts_session_id (stream_of sid a role i seg) = sid"
  "ts_tokens (stream_of sid a role i seg) = concat (map (\<lambda>t. turn_prompt t @ turn_completion t) seg)"
  "ts_loss_mask (stream_of sid a role i seg) =
     concat (map (\<lambda>t. replicate (length (turn_prompt t)) (PInt 0)
                      @ replicate (length (turn_completion t)) (PInt 1)) seg)"
  "ts_logprobs (stream_of sid a role i seg) =
     concat (map (\<lambda>t. replicate (length (turn_prompt t)) (PFloat (Fin 0)) @ turn_logprobs t) seg)"
  by (induction seg rule: rev_induct)
    (simp_all add: stream_of_Nil stream_of_snoc new_stream_def extend_stream_def Let_def)

subsection \<open>The loop implements the specification\<close>

abbreviation view :: "agent \<Rightarrow> training_stream list \<Rightarrow> training_stream list" where
  "view a ss \<equiv> filter (\<lambda>s. ts_agent_id s = a) ss"

text \<open>The index of each agent's last stream.\<close>

definition indexes_last :: "(agent, nat) odict \<Rightarrow> agent list \<Rightarrow> bool" where
  "indexes_last current agents \<longleftrightarrow> (\<forall>a. case map_of current a of
       None \<Rightarrow> a \<notin> set agents
     | Some i \<Rightarrow> i < length agents \<and> agents ! i = a \<and> a \<notin> set (drop (Suc i) agents))"

definition current_ok :: "stream_state \<Rightarrow> bool" where
  "current_ok st \<longleftrightarrow> indexes_last (snd st) (map ts_agent_id (fst st))"

lemma indexes_lastD:
  assumes "indexes_last current agents"
  shows "map_of current a = None \<Longrightarrow> a \<notin> set agents"
    and "map_of current a = Some i \<Longrightarrow> i < length agents \<and> agents ! i = a \<and> a \<notin> set (drop (Suc i) agents)"
  using assms [unfolded indexes_last_def, THEN spec [of _ a]] by simp_all

lemma indexes_last_snoc:
  assumes "indexes_last current agents"
  shows "indexes_last (AList.update a (length agents) current) (agents @ [a])"
  unfolding indexes_last_def
proof
  fix b
  from assms have "case map_of current b of None \<Rightarrow> b \<notin> set agents
     | Some i \<Rightarrow> i < length agents \<and> agents ! i = b \<and> b \<notin> set (drop (Suc i) agents)"
    by (simp add: indexes_last_def)
  then show "case map_of (AList.update a (length agents) current) b of None \<Rightarrow> b \<notin> set (agents @ [a])
     | Some i \<Rightarrow> i < length (agents @ [a]) \<and> (agents @ [a]) ! i = b \<and> b \<notin> set (drop (Suc i) (agents @ [a]))"
    by (cases "b = a"; cases "map_of current b") (auto simp: update_conv' nth_append)
qed

lemma view_empty: "view a ss = [] \<longleftrightarrow> a \<notin> set (map ts_agent_id ss)"
  by (auto simp: filter_empty_conv)

lemma view_last:
  assumes "i < length ss" and "ts_agent_id (ss ! i) = a" and "view a (drop (Suc i) ss) = []"
  shows "view a ss = view a (take i ss) @ [ss ! i]"
proof -
  have "view a ss = view a (take i ss @ ss ! i # drop (Suc i) ss)"
    using id_take_nth_drop [OF assms(1)] by simp
  with assms(2,3) show ?thesis by simp
qed

lemma view_update:
  assumes "i < length ss" and "ts_agent_id (ss ! i) = a" and "ts_agent_id s = a"
    and "view a (drop (Suc i) ss) = []"
  shows "view b (ss[i := s]) = (if b = a then butlast (view a ss) @ [s] else view b ss)"
proof -
  have ss: "ss = take i ss @ ss ! i # drop (Suc i) ss" by (rule id_take_nth_drop [OF assms(1)])
  have up: "ss[i := s] = take i ss @ s # drop (Suc i) ss" by (rule upd_conv_take_nth_drop [OF assms(1)])
  show ?thesis
  proof (cases "b = a")
    case True
    then show ?thesis using view_last [OF assms(1,2,4)] assms(3,4) by (simp add: up)
  next
    case False
    have "view b ss = view b (take i ss) @ view b (drop (Suc i) ss)"
      by (subst ss) (use assms(2) False in simp)
    with False assms(3) show ?thesis by (simp add: up)
  qed
qed

lemma extend_stream_agent [simp]:
  "ts_agent_id (extend_stream t s) = ts_agent_id s" "ts_segment_index (extend_stream t s) = ts_segment_index s"
  by (simp_all add: extend_stream_def Let_def)

lemma add_turn_view:
  assumes "add_turn sid roles seg blobs t st = Inr st'" and "current_ok st"
  defines "a \<equiv> turn_agent t" and "v \<equiv> view (turn_agent t) (fst st)"
  shows "current_ok st' \<and> (\<forall>b. b \<noteq> a \<longrightarrow> view b (fst st') = view b (fst st)) \<and>
    (\<exists>role. map_of roles a = Some role \<and>
       view a (fst st') = (if v = [] \<or> turn_resets t
         then v @ [extend_stream t (new_stream sid a role (if v = [] then 0 else ts_segment_index (last v) + 1))]
         else butlast v @ [extend_stream t (last v)]))"
proof -
  obtain streams current where st: "st = (streams, current)" by (cases st)
  note step = assms(1) [unfolded add_turn_def st Let_def prod.case, folded a_def]
  from step obtain role where role: "map_of roles a = Some role"
    by (auto split: option.splits)
  let ?opened = "\<lambda>i. streams @ [extend_stream t (new_stream sid a role i)]"
  have fresh_ok: "current_ok (?opened i, AList.update a (length streams) current)" for i
    using indexes_last_snoc [of current "map ts_agent_id streams" a] assms(2)
    by (simp add: current_ok_def st new_stream_def)
  have fresh_view: "view b (?opened i) = view b streams @ (if b = a then [extend_stream t (new_stream sid a role i)] else [])" for b i
    by (simp add: new_stream_def)
  show ?thesis
  proof (cases "map_of current a")
    case None
    with assms(2) have v: "v = []"
      using indexes_lastD(1) [of current "map ts_agent_id streams" a]
      by (simp add: current_ok_def st v_def a_def view_empty)
    from step role None have "st' = (?opened 0, AList.update a (length streams) current)"
      by (auto simp: result_simps)
    with v role fresh_ok fresh_view show ?thesis by (simp add: st v_def a_def)
  next
    case (Some i)
    with assms(2) have i: "i < length streams" "ts_agent_id (streams ! i) = a"
      "view a (drop (Suc i) streams) = []"
      using indexes_lastD(2) [of current "map ts_agent_id streams" a i]
      by (auto simp: current_ok_def st view_empty drop_map)
    have v: "v \<noteq> []" "last v = streams ! i"
      using view_last [OF i] by (simp_all add: v_def st a_def)
    show ?thesis
    proof (cases "turn_resets t")
      case True
      with step role Some have "st' = (?opened (ts_segment_index (streams ! i) + 1),
          AList.update a (length streams) current)"
        by (auto simp: result_simps)
      with v role True fresh_ok fresh_view show ?thesis by (simp add: st v_def a_def)
    next
      case False
      with step role Some have st': "st' = (streams[i := extend_stream t (streams ! i)], current)"
        by (auto simp: result_simps)
      have "map ts_agent_id (streams[i := extend_stream t (streams ! i)]) = map ts_agent_id streams"
        by (metis extend_stream_agent(1) list_update_id map_update)
      then have "current_ok st'" using assms(2) by (simp add: current_ok_def st st')
      moreover note view_update [OF i(1,2) _ i(3), of "extend_stream t (streams ! i)"]
      ultimately show ?thesis using v role False i(2) by (simp add: st st' v_def a_def)
    qed
  qed
qed

text \<open>The streams of one agent are its segments, numbered from 0.\<close>

definition streams_of :: "string \<Rightarrow> roles \<Rightarrow> agent \<Rightarrow> pydict list list \<Rightarrow> training_stream list" where
  "streams_of sid roles a segs =
     map (\<lambda>(i, seg). stream_of sid a (the (map_of roles a)) i seg) (enumerate 0 segs)"

lemma streams_of_snoc:
  "streams_of sid roles a (segs @ [seg]) =
     streams_of sid roles a segs @ [stream_of sid a (the (map_of roles a)) (length segs) seg]"
  by (simp add: streams_of_def enumerate_append_eq)

lemma streams_of_Nil [simp]: "streams_of sid roles a [] = []"
  by (simp add: streams_of_def)

lemma streams_of_eq_Nil [simp]: "streams_of sid roles a segs = [] \<longleftrightarrow> segs = []"
  by (cases segs) (simp_all add: streams_of_def)

lemma streams_of_add_segment:
  assumes "map_of roles a = Some role"
  shows "streams_of sid roles a (add_segment segs t) =
    (let v = streams_of sid roles a segs in
     if v = [] \<or> turn_resets t
     then v @ [extend_stream t (new_stream sid a role (if v = [] then 0 else ts_segment_index (last v) + 1))]
     else butlast v @ [extend_stream t (last v)])"
proof (cases segs rule: rev_cases)
  case Nil
  with assms show ?thesis by (simp add: add_segment_def streams_of_def stream_of_def)
next
  case (snoc segs' seg)
  then have last: "last (streams_of sid roles a segs) = stream_of sid a role (length segs') seg"
    and butlast: "butlast (streams_of sid roles a segs) = streams_of sid roles a segs'"
    using assms by (simp_all add: streams_of_snoc)
  show ?thesis
  proof (cases "turn_resets t")
    case True
    have idx: "ts_segment_index (last (streams_of sid roles a (segs' @ [seg]))) = int (length segs')"
      using last [unfolded snoc] by (simp add: stream_of_fields)
    have "stream_of sid a role (length segs) [t] =
        extend_stream t (new_stream sid a role (ts_segment_index (last (streams_of sid roles a segs)) + 1))"
      by (simp add: snoc idx stream_of_def add.commute)
    moreover have "segs \<noteq> []" by (simp add: snoc)
    ultimately show ?thesis
      using True assms by (simp add: add_segment_def streams_of_snoc Let_def)
  next
    case False
    with snoc assms last [unfolded snoc] butlast [unfolded snoc] show ?thesis
      by (simp add: add_segment_def streams_of_snoc stream_of_snoc Let_def)
  qed
qed

lemma add_turns_segments:
  assumes "add_turns sid roles seg blobs ts st = Inr st'" and "current_ok st"
    and "\<And>a. view a (fst st) = streams_of sid roles a (segs a)"
  shows "view a (fst st') = streams_of sid roles a
           (foldl add_segment (segs a) (filter (\<lambda>t. turn_agent t = a)
             (map (\<lambda>t. case t of PDict d \<Rightarrow> d | _ \<Rightarrow> []) ts)))"
  using assms
proof (induction ts arbitrary: st segs)
  case Nil
  then show ?case by simp
next
  case (Cons t ts)
  let ?t = "case t of PDict d \<Rightarrow> d | _ \<Rightarrow> []"
  let ?segs = "\<lambda>b. if b = turn_agent ?t then add_segment (segs b) ?t else segs b"
  from Cons.prems(1) obtain st1 where st1: "add_turn sid roles seg blobs ?t st = Inr st1"
    and rest: "add_turns sid roles seg blobs ts st1 = Inr st'"
    by (auto simp: result_simps)
  note av = add_turn_view [OF st1 Cons.prems(2)]
  from av obtain role where "map_of roles (turn_agent ?t) = Some role" by blast
  note sa = streams_of_add_segment [OF this]
  have "view b (fst st1) = streams_of sid roles b (?segs b)" for b
    using av sa Cons.prems(3) \<open>map_of roles (turn_agent ?t) = Some role\<close> by (auto simp: Let_def)
  from Cons.IH [OF rest _ this] av show ?case by simp
qed

lemma view_attach: "view a (map (attach_experts blobs) ss) = map (attach_experts blobs) (view a ss)"
  by (induction ss) (simp_all add: attach_experts_def)

lemma record_to_streams_segments:
  assumes "record_to_streams record roles allow re = Inr streams" and "record = PDict r"
  obtains sid blobs where "dget r ''session_id'' = PStr sid"
    and "\<And>a. view a streams = map (attach_experts blobs) (streams_of sid roles a
           (segments a (map (\<lambda>t. case t of PDict d \<Rightarrow> d | _ \<Rightarrow> []) (as_list (dget r ''turns'')))))"
proof -
  from assms obtain sid blobs ss c where sid: "dget r ''session_id'' = PStr sid"
    and ss: "add_turns sid roles allow blobs (as_list (dget r ''turns'')) ([], []) = Inr (ss, c)"
    and streams: "streams = map (attach_experts blobs) ss"
    by (auto simp: record_to_streams_def Let_def result_simps split: pyval.splits)
  have "view a ss = streams_of sid roles a (segments a
      (map (\<lambda>t. case t of PDict d \<Rightarrow> d | _ \<Rightarrow> []) (as_list (dget r ''turns''))))" for a
    using add_turns_segments [OF ss, of "\<lambda>_. []" a]
    by (simp add: current_ok_def indexes_last_def segments_def)
  then show thesis using sid streams by (intro that [of sid blobs]) (simp_all add: view_attach)
qed

lemma attach_fields [simp]:
  "ts_tokens (attach_experts b s) = ts_tokens s" "ts_loss_mask (attach_experts b s) = ts_loss_mask s"
  "ts_logprobs (attach_experts b s) = ts_logprobs s" "ts_agent_id (attach_experts b s) = ts_agent_id s"
  "ts_segment_index (attach_experts b s) = ts_segment_index s" "ts_role (attach_experts b s) = ts_role s"
  by (simp_all add: attach_experts_def)

text \<open>
  Conversion is exact: an agent's streams are its turns split at conversation resets, in order and
  numbered from 0; the tokens of a stream are the prompt delta and completion of each of its turns,
  the loss mask is 1 on exactly the completion tokens, and the log probabilities are the recorded
  ones there and 0 on prompt tokens.
\<close>

theorem streams_are_the_recorded_turns:
  assumes "record_to_streams (PDict r) roles allow re = Inr streams"
    and "dget r ''turns'' = PList (map PDict turns)"
  shows "map (\<lambda>s. (ts_segment_index s, ts_tokens s, ts_loss_mask s, ts_logprobs s))
           (filter (\<lambda>s. ts_agent_id s = a) streams) =
         map (\<lambda>(i, seg). (int i,
             concat (map (\<lambda>t. turn_prompt t @ turn_completion t) seg),
             concat (map (\<lambda>t. replicate (length (turn_prompt t)) (PInt 0)
                              @ replicate (length (turn_completion t)) (PInt 1)) seg),
             concat (map (\<lambda>t. replicate (length (turn_prompt t)) (PFloat (Fin 0)) @ turn_logprobs t) seg)))
           (enumerate 0 (segments a turns))"
proof -
  have turns: "map (\<lambda>t. case t of PDict d \<Rightarrow> d | _ \<Rightarrow> []) (as_list (dget r ''turns'')) = turns"
    by (simp add: assms(2) as_list_def comp_def)
  obtain sid blobs where "\<And>a. view a streams = map (attach_experts blobs) (streams_of sid roles a (segments a turns))"
    using record_to_streams_segments [OF assms(1) refl, unfolded turns] by blast
  then show ?thesis by (simp add: streams_of_def stream_of_fields comp_def case_prod_unfold)
qed

definition demo_turns :: "pydict list" where
  "demo_turns =
     [[(''prompt_token_ids'', PList [PInt 1, PInt 2]), (''completion_token_ids'', PList [PInt 3]),
       (''completion_logprobs'', PList [PFloat (Fin (-1))])],
      [(''prompt_token_ids'', PList [PInt 4]), (''completion_token_ids'', PList [PInt 5]),
       (''completion_logprobs'', PList [PFloat (Fin (-2))])]]"

definition demo_record :: pydict where
  "demo_record = [(''session_id'', PStr ''s''), (''turns'', PList (map PDict demo_turns))]"

lemma demo_record_streams:
  "\<not> isl (record_to_streams (PDict demo_record) [(None, ''solver'')] False False)"
  by code_simp

theorem streams_are_the_recorded_turns_witness:
  "\<exists>streams. record_to_streams (PDict demo_record) [(None, ''solver'')] False False = Inr streams \<and>
     map (\<lambda>s. (ts_segment_index s, ts_tokens s, ts_loss_mask s, ts_logprobs s))
       (filter (\<lambda>s. ts_agent_id s = None) streams) =
     [(0, [PInt 1, PInt 2, PInt 3, PInt 4, PInt 5], [PInt 0, PInt 0, PInt 1, PInt 0, PInt 1],
       [PFloat (Fin 0), PFloat (Fin 0), PFloat (Fin (-1)), PFloat (Fin 0), PFloat (Fin (-2))])]"
proof -
  obtain streams where s: "record_to_streams (PDict demo_record) [(None, ''solver'')] False False = Inr streams"
    using demo_record_streams by (metis sum.collapse(2))
  have t: "dget demo_record ''turns'' = PList (map PDict demo_turns)"
    by (simp add: demo_record_def dget_def)
  have "map (\<lambda>(i, seg). (int i,
             concat (map (\<lambda>t. turn_prompt t @ turn_completion t) seg),
             concat (map (\<lambda>t. replicate (length (turn_prompt t)) (PInt 0)
                              @ replicate (length (turn_completion t)) (PInt 1)) seg),
             concat (map (\<lambda>t. replicate (length (turn_prompt t)) (PFloat (Fin 0)) @ turn_logprobs t) seg)))
           (enumerate 0 (segments None demo_turns)) =
     [(0, [PInt 1, PInt 2, PInt 3, PInt 4, PInt 5], [PInt 0, PInt 0, PInt 1, PInt 0, PInt 1],
       [PFloat (Fin 0), PFloat (Fin 0), PFloat (Fin (-1)), PFloat (Fin 0), PFloat (Fin (-2))])]"
    by code_simp
  with streams_are_the_recorded_turns [OF s t, of None] s show ?thesis by simp
qed

subsection \<open>From the recorder to the trainer\<close>

lemma dump_turn_fields:
  "turn_agent (dump_turn t) = cr_agent_id t"
  "turn_resets (dump_turn t) = cr_new_conversation t"
  "turn_prompt (dump_turn t) = map PInt (cr_prompt_token_ids t)"
  "turn_completion (dump_turn t) = map PInt (cr_completion_token_ids t)"
  "turn_logprobs (dump_turn t) = map PFloat (cr_completion_logprobs t)"
  by (simp_all add: turn_agent_def turn_resets_def turn_prompt_def turn_completion_def turn_logprobs_def
      dump_turn_def dget_def dget_or_def as_list_def dump_opt_def split: option.splits)

definition segment_tokens :: "pydict list \<Rightarrow> pyval list" where
  "segment_tokens seg = concat (map (\<lambda>t. turn_prompt t @ turn_completion t) seg)"

lemma last_segment_stream:
  assumes "segs = [] \<longrightarrow> st = []" and "segs \<noteq> [] \<longrightarrow> segment_tokens (last segs) = map PInt st" and "ts \<noteq> []"
  shows "segment_tokens (last (foldl add_segment segs (map dump_turn ts))) = map PInt (stream_after st ts) \<and>
    foldl add_segment segs (map dump_turn ts) \<noteq> []"
  using assms
proof (induction ts arbitrary: segs st)
  case Nil
  then show ?case by simp
next
  case (Cons t ts)
  let ?segs = "add_segment segs (dump_turn t)"
  let ?st = "(if cr_new_conversation t then [] else st) @ cr_prompt_token_ids t @ cr_completion_token_ids t"
  have ne: "?segs \<noteq> []" by (simp add: add_segment_def)
  have tok: "segment_tokens (last ?segs) = map PInt ?st"
    using Cons.prems(1,2) by (auto simp: add_segment_def segment_tokens_def dump_turn_fields)
  show ?case
  proof (cases "ts = []")
    case True
    with ne tok show ?thesis by simp
  next
    case False
    with ne tok Cons.IH [of ?segs ?st] show ?thesis by simp
  qed
qed

lemma last_view_tokens:
  assumes "record_to_streams (PDict (model_dump s)) roles allow re = Inr streams"
    and "agent_turns a s \<noteq> []"
  shows "view a streams \<noteq> []"
    and "ts_tokens (last (view a streams)) = map PInt (stream_after [] (agent_turns a s))"
proof -
  have turns: "map (\<lambda>t. case t of PDict d \<Rightarrow> d | _ \<Rightarrow> []) (as_list (dget (model_dump s) ''turns'')) =
      map dump_turn (sr_turns s)"
    by (simp add: model_dump_def dget_def as_list_def comp_def)
  obtain sid blobs where v: "\<And>a. view a streams = map (attach_experts blobs)
      (streams_of sid roles a (segments a (map dump_turn (sr_turns s))))"
    using record_to_streams_segments [OF assms(1) refl, unfolded turns] by blast
  have f: "filter (\<lambda>t. turn_agent t = a) (map dump_turn ts) = map dump_turn (filter (\<lambda>t. cr_agent_id t = a) ts)" for ts
    by (induction ts) (simp_all add: dump_turn_fields)
  have seg: "segments a (map dump_turn (sr_turns s)) \<noteq> []"
    "segment_tokens (last (segments a (map dump_turn (sr_turns s)))) = map PInt (stream_after [] (agent_turns a s))"
    using last_segment_stream [of "[]" "[]" "agent_turns a s"] assms(2)
    by (simp_all add: segments_def f agent_turns_def)
  obtain segs seg where split: "segments a (map dump_turn (sr_turns s)) = segs @ [seg]"
    using seg(1) by (cases "segments a (map dump_turn (sr_turns s))" rule: rev_cases) auto
  with seg(2) show "view a streams \<noteq> []"
    "ts_tokens (last (view a streams)) = map PInt (stream_after [] (agent_turns a s))"
    unfolding v split by (simp_all add: streams_of_snoc stream_of_fields segment_tokens_def)
qed

text \<open>
  End to end, what is trained is what was sampled: when the dump of a session the recorder holds is
  converted, the last stream of every agent has exactly the tokens of the agent's rebuilt token
  stream, the prompt of its last turn followed by that turn's completion.
\<close>

theorem trained_stream_is_the_recorded_stream:
  assumes "record_to_streams (PDict (model_dump s)) roles allow re = Inr streams"
    and "agent_turns a s \<noteq> []"
  shows "view a streams \<noteq> [] \<and>
         ts_tokens (last (view a streams)) = map PInt (stream_after [] (agent_turns a s)) \<and>
         stream_after [] (agent_turns a s) =
           last (rebuild [] (agent_turns a s)) @ cr_completion_token_ids (last (agent_turns a s))"
  using last_view_tokens [OF assms] assms(2)
  by (cases "agent_turns a s" rule: rev_cases) (simp_all add: rebuild_append stream_after_append Let_def)

definition demo_session :: session_record where
  "demo_session = session_or_new ''s'' (Fin 0)
     (snd (record_completion 1 (Fin 0) demo_second demo_recorded))"

lemma demo_session_streams:
  "\<not> isl (record_to_streams (PDict (model_dump demo_session)) [(Some ''a'', ''solver'')] False False)"
  "agent_turns (Some ''a'') demo_session \<noteq> []"
  "stream_after [] (agent_turns (Some ''a'') demo_session) = [1, 2, 3, 4, 5]"
  by code_simp+

theorem trained_stream_is_the_recorded_stream_witness:
  "\<exists>streams. record_to_streams (PDict (model_dump demo_session)) [(Some ''a'', ''solver'')] False False = Inr streams \<and>
     ts_tokens (last (view (Some ''a'') streams)) = map PInt [1, 2, 3, 4, 5]"
proof -
  obtain streams where s: "record_to_streams (PDict (model_dump demo_session)) [(Some ''a'', ''solver'')] False False
      = Inr streams"
    using demo_session_streams(1) by (metis sum.collapse(2))
  from trained_stream_is_the_recorded_stream [OF s demo_session_streams(2)]
  have "ts_tokens (last (view (Some ''a'') streams)) = map PInt (stream_after [] (agent_turns (Some ''a'') demo_session))"
    by blast
  with s show ?thesis unfolding demo_session_streams(3) by blast
qed

subsection \<open>Trial results\<close>

definition slot_entries :: "string \<Rightarrow> int \<Rightarrow> string list list \<Rightarrow> slot_table" where
  "slot_entries task n slots = map (\<lambda>(i, attempts). ((task, n + int i), attempts)) (enumerate 0 slots)"

definition allocated :: "allocations \<Rightarrow> slot_table" where
  "allocated allocations = concat (map (\<lambda>(task, slots). slot_entries task 0 slots) allocations)"

lemma slot_entries_Cons:
  "slot_entries task n (x # xs) = ((task, n), x) # slot_entries task (n + 1) xs"
  by (simp add: slot_entries_def enumerate_Suc_eq comp_def case_prod_unfold)

lemma check_attempts_Inr:
  "check_attempts seen sids = Inr seen' \<Longrightarrow>
     seen' = seen @ sids \<and> (distinct seen \<longrightarrow> distinct seen') \<and> (\<forall>s\<in>set sids. strip s \<noteq> [])"
proof (induction sids arbitrary: seen)
  case (Cons sid sids)
  then have "strip sid \<noteq> []" "sid \<notin> set seen" and rest: "check_attempts (seen @ [sid]) sids = Inr seen'"
    by (auto simp: result_simps name_ok_def)
  then have "distinct seen \<longrightarrow> distinct (seen @ [sid])" by simp
  then have "distinct seen \<longrightarrow> distinct seen'" using Cons.IH [OF rest] by blast
  moreover have "seen' = seen @ sid # sids" using Cons.IH [OF rest] by simp
  moreover have "\<forall>s\<in>set (sid # sids). strip s \<noteq> []"
    using Cons.IH [OF rest] \<open>strip sid \<noteq> []\<close> by simp
  ultimately show ?case by blast
qed simp

lemma check_slots_Inr:
  "check_slots task n slots (seen, ex) = Inr (seen', ex') \<Longrightarrow>
     ex' = ex @ slot_entries task n slots \<and> seen' = seen @ concat slots \<and> (distinct seen \<longrightarrow> distinct seen')"
proof (induction slots arbitrary: n seen ex)
  case Nil
  then show ?case by (simp add: slot_entries_def)
next
  case (Cons attempts rest)
  then show ?case
    by (fastforce simp: result_simps slot_entries_Cons dest!: check_attempts_Inr)
qed

lemma check_allocations_Inr:
  "check_allocations allocs (seen, ex) = Inr (seen', ex') \<Longrightarrow>
     ex' = ex @ allocated allocs \<and> seen' = seen @ concat (map snd (allocated allocs)) \<and>
     (distinct seen \<longrightarrow> distinct seen')"
proof (induction allocs arbitrary: seen ex)
  case Nil
  then show ?case by (simp add: allocated_def)
next
  case (Cons e rest)
  obtain task slots where e: "e = (task, slots)" by (cases e)
  from Cons.prems e obtain st where st: "check_slots task 0 slots (seen, ex) = Inr st"
    and rest: "check_allocations rest st = Inr (seen', ex')"
    by (auto simp: result_simps)
  obtain seen1 ex1 where st1: "st = (seen1, ex1)" by (cases st)
  have "concat (map snd (slot_entries task 0 slots)) = concat slots"
    by (simp add: slot_entries_def comp_def case_prod_unfold map_snd_enumerate)
  note parts = check_slots_Inr [OF st [unfolded st1]] Cons.IH [OF rest [unfolded st1]]
  then have "distinct seen \<longrightarrow> distinct seen'" by blast
  moreover have "ex' = ex @ allocated (e # rest) \<and> seen' = seen @ concat (map snd (allocated (e # rest)))"
    using parts \<open>concat (map snd (slot_entries task 0 slots)) = concat slots\<close>
    by (simp add: e allocated_def)
  ultimately show ?case by blast
qed

lemma distinct_concat_disjoint:
  "distinct (concat (map snd xs)) \<Longrightarrow> (k, a) \<in> set xs \<Longrightarrow> (l, b) \<in> set xs \<Longrightarrow> k \<noteq> l \<Longrightarrow>
     x \<in> set a \<Longrightarrow> x \<notin> set b"
  by (induction xs) force+

definition result_key :: "trial_result \<Rightarrow> string \<times> int" where
  "result_key r = (tr_task_id r, tr_slot r)"

lemma check_result_Inr:
  assumes "check_result roles sel policy re expected r seen = Inr seen'"
  shows "seen' = seen @ [result_key r] \<and> result_key r \<notin> set seen \<and>
    (\<exists>attempts. map_of expected (result_key r) = Some attempts \<and> 0 \<le> tr_attempt r \<and>
       tr_attempt r < int (length attempts) \<and> attempts ! nat (tr_attempt r) = tr_session_id r) \<and>
    (\<exists>ids. check_streams (tr_session_id r) roles sel policy re (tr_streams r) [] = Inr ids)"
  using assms by (auto simp: check_result_def result_key_def result_simps Let_def)

lemma check_results_Inr:
  "check_results roles sel policy re expected rs seen = Inr seen' \<Longrightarrow>
     seen' = seen @ map result_key rs \<and> (distinct seen \<longrightarrow> distinct seen') \<and>
     (\<forall>r\<in>set rs.
       (\<exists>attempts. map_of expected (result_key r) = Some attempts \<and> 0 \<le> tr_attempt r \<and>
          tr_attempt r < int (length attempts) \<and> attempts ! nat (tr_attempt r) = tr_session_id r) \<and>
       (\<exists>ids. check_streams (tr_session_id r) roles sel policy re (tr_streams r) [] = Inr ids))"
proof (induction rs arbitrary: seen)
  case (Cons r rs)
  from Cons.prems obtain s1 where s1: "check_result roles sel policy re expected r seen = Inr s1"
    and rest: "check_results roles sel policy re expected rs s1 = Inr seen'"
    by (auto simp: result_simps)
  note head = check_result_Inr [OF s1] and tail = Cons.IH [OF rest]
  have "distinct seen \<longrightarrow> distinct s1" using head by simp
  with tail have "distinct seen \<longrightarrow> distinct seen'" by blast
  moreover have "seen' = seen @ map result_key (r # rs)" using head tail by simp
  ultimately show ?case using head tail by (intro conjI ballI) (assumption | auto)+
qed simp

lemma validate_training_results_Inr:
  assumes "validate_training_results results allocations roles trained sampling version re = Inr u"
  obtains sel where "selected_roles roles trained = Inr sel"
    and "check_results roles sel (sampling, version) re (allocated allocations) results [] =
           Inr (map result_key results)"
    and "set (map fst (allocated allocations)) \<subseteq> set (map result_key results)"
    and "distinct (concat (map snd (allocated allocations)))"
proof -
  from assms obtain sel seen0 expected seen where sel: "selected_roles roles trained = Inr sel"
    and al: "check_allocations allocations ([], []) = Inr (seen0, expected)"
    and cr: "check_results roles sel (sampling, version) re expected results [] = Inr seen"
    and sub: "set (map fst expected) \<subseteq> set seen"
    by (auto simp: validate_training_results_def result_simps)
  from check_allocations_Inr [OF al] have "expected = allocated allocations"
    and "distinct (concat (map snd (allocated allocations)))" by auto
  with sel cr sub check_results_Inr [OF cr] show thesis by (intro that [of sel]) auto
qed

text \<open>C29:
  A batch is accepted only if it accounts for every allocated slot exactly once: no two results
  share a task and slot, the slots with a result are exactly the allocated ones, every result names
  the session id allocated to its attempt, and no two results report the same session.
\<close>

theorem one_result_per_allocated_slot:
  assumes "validate_training_results results allocations roles trained sampling version re = Inr ()"
  shows "distinct (map result_key results) \<and>
         set (map result_key results) = set (map fst (allocated allocations)) \<and>
         distinct (map tr_session_id results) \<and>
         (\<forall>r\<in>set results. \<exists>attempts. (result_key r, attempts) \<in> set (allocated allocations) \<and>
            0 \<le> tr_attempt r \<and> tr_attempt r < int (length attempts) \<and>
            attempts ! nat (tr_attempt r) = tr_session_id r)"
proof -
  from assms obtain sel where
    cr: "check_results roles sel (sampling, version) re (allocated allocations) results [] =
           Inr (map result_key results)"
    and sub: "set (map fst (allocated allocations)) \<subseteq> set (map result_key results)"
    and dist: "distinct (concat (map snd (allocated allocations)))"
    by (rule validate_training_results_Inr)
  from check_results_Inr [OF cr] have keys: "distinct (map result_key results)"
    and at: "\<forall>r\<in>set results. \<exists>attempts. map_of (allocated allocations) (result_key r) = Some attempts \<and>
      0 \<le> tr_attempt r \<and> tr_attempt r < int (length attempts) \<and> attempts ! nat (tr_attempt r) = tr_session_id r"
    by auto
  then have at': "\<forall>r\<in>set results. \<exists>attempts. (result_key r, attempts) \<in> set (allocated allocations) \<and>
      0 \<le> tr_attempt r \<and> tr_attempt r < int (length attempts) \<and> attempts ! nat (tr_attempt r) = tr_session_id r"
    by (meson map_of_SomeD)
  then have mem: "\<exists>attempts. (result_key r, attempts) \<in> set (allocated allocations) \<and> tr_session_id r \<in> set attempts"
    if "r \<in> set results" for r
    using that by (metis nat_less_iff nth_mem)
  have "inj_on tr_session_id (set results)"
  proof
    fix r q assume r: "r \<in> set results" and q: "q \<in> set results" and eq: "tr_session_id r = tr_session_id q"
    have "result_key r = result_key q"
      using mem [OF r] mem [OF q] distinct_concat_disjoint [OF dist] eq by metis
    with keys r q show "r = q" by (auto simp: distinct_map dest: inj_onD)
  qed
  moreover have "distinct results" using keys by (simp add: distinct_map)
  ultimately have "distinct (map tr_session_id results)" by (simp add: distinct_map)
  moreover have "set (map result_key results) \<subseteq> set (map fst (allocated allocations))"
    using at' by force
  ultimately show ?thesis using keys sub at' by blast
qed

lemma check_streams_Inr:
  "check_streams sid roles sel policy re ss ids = Inr ids' \<Longrightarrow> s \<in> set ss \<Longrightarrow>
     (\<exists>i j. check_stream sid roles sel policy re s i = Inr j)"
  by (induction ss arbitrary: ids) (auto simp: result_simps)

lemma check_stream_Inr:
  assumes "check_stream sid roles sel policy re s i = Inr j"
  shows "ts_session_id s = sid \<and> map_of roles (ts_agent_id s) = Some (ts_role s) \<and>
    validate_stream s (re \<and> ts_role s \<in> set sel) = Inr () \<and>
    (ts_role s \<in> set sel \<longrightarrow> (\<forall>c\<in>set (ts_completions s). completion_policy_ok (fst policy) (snd policy) c = Inr ()))"
  using assms by (auto simp: check_stream_def Let_def result_simps split: if_splits)

lemma completion_policy_Inr:
  assumes "completion_policy_ok (Some sampling) (Some version) c = Inr u" and "tc_start c \<noteq> tc_end c"
  shows "tc_weight_version c = PStr version \<and> (\<exists>actual. tc_sampling_params c = PDict actual \<and>
    (\<forall>(k, v)\<in>set sampling. py_eq (dget actual k) v))"
  using assms
  by (cases "tc_sampling_params c") (simp_all add: completion_policy_ok_def result_simps list_all_iff)

text \<open>C32:
  On-policy data only: in an accepted batch every stream belongs to its result's session and has
  its agent's registered role, and every nonempty completion of a trained role carries exactly the
  expected weight version and, for every expected distribution parameter, the expected value.
\<close>

theorem accepted_samples_are_on_policy:
  assumes "validate_training_results results allocations roles trained (Some sampling) (Some version) re = Inr ()"
    and "r \<in> set results" and "s \<in> set (tr_streams r)"
  shows "ts_session_id s = tr_session_id r \<and> map_of roles (ts_agent_id s) = Some (ts_role s) \<and>
         (\<forall>c\<in>set (ts_completions s).
            (case trained of None \<Rightarrow> True | Some rs \<Rightarrow> ts_role s \<in> set rs) \<and> tc_start c \<noteq> tc_end c \<longrightarrow>
            tc_weight_version c = PStr version \<and>
            (\<exists>actual. tc_sampling_params c = PDict actual \<and>
               (\<forall>(k, v)\<in>set sampling. py_eq (dget actual k) v)))"
proof -
  from assms(1) obtain sel where sel: "selected_roles roles trained = Inr sel"
    and cr: "check_results roles sel (Some sampling, Some version) re (allocated allocations) results [] =
           Inr (map result_key results)"
    by (rule validate_training_results_Inr)
  from check_results_Inr [OF cr] assms(2) obtain ids
    where "check_streams (tr_session_id r) roles sel (Some sampling, Some version) re (tr_streams r) [] = Inr ids"
    by blast
  from check_streams_Inr [OF this assms(3)]
  obtain i j where "check_stream (tr_session_id r) roles sel (Some sampling, Some version) re s i = Inr j"
    by blast
  note st = check_stream_Inr [OF this]
  then have "(ts_agent_id s, ts_role s) \<in> set roles" by (blast dest: map_of_SomeD)
  then have "ts_role s \<in> set (map snd roles)" by force
  then have "ts_role s \<in> set sel" if "case trained of None \<Rightarrow> True | Some rs \<Rightarrow> ts_role s \<in> set rs"
    using that sel by (cases trained) (auto simp: selected_roles_def result_simps simp del: set_map)
  with st show ?thesis by (auto dest: completion_policy_Inr)
qed

definition demo_stream :: training_stream where
  "demo_stream =
     \<lparr>ts_session_id = ''s1'', ts_agent_id = None, ts_role = ''solver'', ts_segment_index = 0,
      ts_tokens = [PInt 1, PInt 2], ts_loss_mask = [PInt 0, PInt 1],
      ts_logprobs = [PFloat (Fin 0), PFloat (Fin (-1))],
      ts_completions = [\<lparr>tc_start = 1, tc_end = 2, tc_weight_version = PStr ''v7'',
        tc_sampling_params = PDict [(''temperature'', PInt 1)], tc_finish_reason = PStr ''stop''\<rparr>],
      ts_routed_experts = PNone\<rparr>"

definition demo_result :: trial_result where
  "demo_result =
     \<lparr>tr_task_id = ''t'', tr_slot = 0, tr_attempt = 1, tr_session_id = ''s1'', tr_streams = [demo_stream],
      tr_scores = [(''reward'', PFloat (Fin 1))], tr_error = None, tr_cleanup_error = None\<rparr>"

definition demo_allocations :: allocations where
  "demo_allocations = [(''t'', [[''s0'', ''s1'']])]"

lemma demo_batch_accepted:
  "validate_training_results [demo_result] demo_allocations [(None, ''solver'')] None
     (Some [(''temperature'', PFloat (Fin 1))]) (Some ''v7'') False = Inr ()"
  by code_simp

theorem one_result_per_allocated_slot_witness:
  "set (map result_key [demo_result]) = set (map fst (allocated demo_allocations))"
  using one_result_per_allocated_slot [OF demo_batch_accepted] by blast

theorem accepted_samples_are_on_policy_witness:
  "map tc_weight_version (ts_completions demo_stream) = [PStr ''v7'']"
  using accepted_samples_are_on_policy [OF demo_batch_accepted, of demo_result demo_stream]
  by (simp add: demo_result_def) (simp add: demo_stream_def)

end
