(* ===== verification/Engines.thy ===== *)
theory Engines
  imports Sampling Base64
begin

section \<open>What the rollout transports share\<close>

text \<open>
  The transport helpers of \<^verbatim>\<open>rollout_base.py\<close> (\<^verbatim>\<open>_finite_logprob\<close>, \<^verbatim>\<open>_engine_meta\<close>,
  \<^verbatim>\<open>_clamp_to_context_window\<close>, \<^verbatim>\<open>_RouterTransport\<close>), the engine names of \<^verbatim>\<open>engines.py\<close>, and
  decimal numerals as Python prints and parses them. An HTTP exchange is its outcome: no reply, or a
  status and the JSON value of the body (\<open>None\<close> when the body is not JSON). A response is untyped,
  so code that reads a field of something that is not an object raises one of Python's own
  exceptions: \<open>Crash\<close>.
\<close>

datatype engine_error =
    BadLogprob
  | NonFiniteLogprob
  | WindowFull int int
  | BadOutputIds
  | BadLogprobList
  | BadLogprobEntry nat
  | NoRoutedExperts
  | ExpertsMisaligned
  | ExpertsNotUint8
  | ExpertsNotNpy
  | ExpertsNotArray
  | NotOneChoice
  | UnknownFinishReason
  | BadTokens
  | BadVersionSpans
  | MixedVersions
  | ConflictingVersions
  | LogprobsMisaligned
  | BadTokenPair nat
  | BadUsage
  | NoServedModel
  | UnpinnedModel
  | UnrecognizedModel string
  | WrongModel
  | ListsExpected
  | Aborted
  | NoTokens
  | Misaligned nat nat
  | InvalidTokens
  | NoReplyFrom
  | HttpStatus int
  | Crash

datatype http_reply = NoReply | Reply int "pyval option"

text \<open>\<^verbatim>\<open>resp.raise_for_status()\<close> and \<^verbatim>\<open>resp.json()\<close>.\<close>

definition read_json :: "http_reply \<Rightarrow> engine_error + pyval" where
  "read_json reply =
     (case reply of
        NoReply \<Rightarrow> Inl NoReplyFrom
      | Reply status body \<Rightarrow>
          rbind (require (200 \<le> status \<and> status < 300) (HttpStatus status)) (\<lambda>_.
            case body of None \<Rightarrow> Inl Crash | Some v \<Rightarrow> Inr v))"

text \<open>\<^verbatim>\<open>v.get(...)\<close> needs a dictionary.\<close>

definition as_dict :: "pyval \<Rightarrow> engine_error + pydict" where
  "as_dict v = (case v of PDict d \<Rightarrow> Inr d | _ \<Rightarrow> Inl Crash)"

text \<open>What a transport returns: token ids, log probabilities, the stop reason and the metadata.\<close>

type_synonym engine_result = "int list \<times> flt list \<times> pyval \<times> pydict"

subsection \<open>Decimal numerals\<close>

definition digit_char :: "nat \<Rightarrow> char" where
  "digit_char n = char_of (48 + n)"

fun dec_nat :: "nat \<Rightarrow> string" where
  "dec_nat n = (if n < 10 then [digit_char n] else dec_nat (n div 10) @ [digit_char (n mod 10)])"

declare dec_nat.simps [simp del]

definition dec_int :: "int \<Rightarrow> string" where
  "dec_int i = (if i < 0 then CHR ''-'' # dec_nat (nat (- i)) else dec_nat (nat i))"

definition is_digit :: "char \<Rightarrow> bool" where
  "is_digit c = (let n = of_char c :: nat in 48 \<le> n \<and> n \<le> 57)"

definition digit_val :: "char \<Rightarrow> nat" where
  "digit_val c = (of_char c :: nat) - 48"

definition dec_value :: "string \<Rightarrow> nat" where
  "dec_value s = foldl (\<lambda>n c. 10 * n + digit_val c) 0 s"

text \<open>
  \<^verbatim>\<open>int(text)\<close> of a run of digits: \<^verbatim>\<open>ValueError\<close> beyond 4300 digits. \<open>int_of_text\<close> is \<^verbatim>\<open>int(text)\<close> of
  any text: blanks around it, a sign, and single underscores between digits are allowed.
\<close>

definition MAX_INT_DIGITS :: nat where "MAX_INT_DIGITS = 4300"

definition int_of_digits :: "string \<Rightarrow> int option" where
  "int_of_digits s =
     (if s \<noteq> [] \<and> list_all is_digit s \<and> length s \<le> MAX_INT_DIGITS then Some (int (dec_value s)) else None)"

fun drop_underscores :: "string \<Rightarrow> string option" where
  "drop_underscores [] = Some []"
| "drop_underscores [c] = Some [c]"
| "drop_underscores (c # d # cs) =
     (if d = CHR ''_'' then
        (if is_digit c \<and> cs \<noteq> [] \<and> is_digit (hd cs) then map_option ((#) c) (drop_underscores cs) else None)
      else map_option ((#) c) (drop_underscores (d # cs)))"

definition int_blank :: "string \<Rightarrow> char \<Rightarrow> bool" where
  "int_blank s c =
     (let n = of_char c :: nat in
      if list_all (\<lambda>c. (of_char c :: nat) < 128) s then (9 \<le> n \<and> n \<le> 13) \<or> n = 32 else is_space c)"

definition int_of_text :: "string \<Rightarrow> int option" where
  "int_of_text s =
     (let t = rev (dropWhile (int_blank s) (rev (dropWhile (int_blank s) s)))
      in case t of
           [] \<Rightarrow> None
         | c # cs \<Rightarrow>
             if c = CHR ''-'' then map_option uminus (Option.bind (drop_underscores cs) int_of_digits)
             else if c = CHR ''+'' then Option.bind (drop_underscores cs) int_of_digits
             else Option.bind (drop_underscores t) int_of_digits)"

lemma digit_char [simp]:
  assumes "n < 10"
  shows "is_digit (digit_char n)" and "digit_val (digit_char n) = n"
    and "(of_char (digit_char n) :: nat) < 128" and "digit_char n \<noteq> CHR ''_''"
proof -
  have v: "(of_char (digit_char n) :: nat) = 48 + n"
    using assms by (simp add: digit_char_def)
  then show "is_digit (digit_char n)" "digit_val (digit_char n) = n"
    "(of_char (digit_char n) :: nat) < 128"
    using assms by (simp_all add: is_digit_def digit_val_def)
  have "(of_char (CHR ''_'') :: nat) = 95" by simp
  with v assms show "digit_char n \<noteq> CHR ''_''" by auto
qed

lemma dec_nat_digits: "list_all is_digit (dec_nat n)" "dec_nat n \<noteq> []"
proof -
  show "dec_nat n \<noteq> []" by (subst dec_nat.simps) simp
  show "list_all is_digit (dec_nat n)"
  proof (induction n rule: dec_nat.induct)
    case (1 n)
    then show ?case by (cases "n < 10"; subst dec_nat.simps) simp_all
  qed
qed

lemma dec_value_snoc: "dec_value (s @ [c]) = 10 * dec_value s + digit_val c"
  by (simp add: dec_value_def)

lemma dec_value_dec_nat [simp]: "dec_value (dec_nat n) = n"
proof (induction n rule: dec_nat.induct)
  case (1 n)
  show ?case
  proof (cases "n < 10")
    case True
    then show ?thesis by (subst dec_nat.simps) (simp add: dec_value_def)
  next
    case False
    with 1 show ?thesis by (subst dec_nat.simps) (simp add: dec_value_snoc)
  qed
qed

lemma int_of_digits_dec:
  "length (dec_nat n) \<le> MAX_INT_DIGITS \<Longrightarrow> int_of_digits (dec_nat n) = Some (int n)"
  using dec_nat_digits [of n] by (simp add: int_of_digits_def)

subsection \<open>Log probabilities and metadata\<close>

text \<open>
  \<^verbatim>\<open>float(i)\<close>: the nearest double, ties to the even significand. \<open>bit_len\<close> is \<^verbatim>\<open>i.bit_length()\<close>.
\<close>

fun bit_len :: "nat \<Rightarrow> nat" where
  "bit_len n = (if n = 0 then 0 else Suc (bit_len (n div 2)))"

declare bit_len.simps [simp del]

definition round_double :: "int \<Rightarrow> rat" where
  "round_double i =
     (let n = nat \<bar>i\<bar>; e = bit_len n - 53; q = n div 2 ^ e; r = 2 * (n mod 2 ^ e);
          q = (if r > 2 ^ e \<or> r = 2 ^ e \<and> odd q then q + 1 else q)
      in if e = 0 then of_int i else of_int (sgn i) * of_nat (q * 2 ^ e))"

definition finite_logprob :: "pyval \<Rightarrow> engine_error + flt" where
  "finite_logprob value =
     (case value of
        PInt i \<Rightarrow> if \<bar>i\<bar> < double_overflow then Inr (Fin (round_double i)) else Inl NonFiniteLogprob
      | PFloat (Fin q) \<Rightarrow> Inr (Fin q)
      | PFloat _ \<Rightarrow> Inl NonFiniteLogprob
      | _ \<Rightarrow> Inl BadLogprob)"

definition is_fin :: "flt \<Rightarrow> bool" where
  "is_fin f = (case f of Fin q \<Rightarrow> True | _ \<Rightarrow> False)"

lemma finite_logprob_fin: "finite_logprob v = Inr f \<Longrightarrow> is_fin f"
  by (auto simp: finite_logprob_def is_fin_def split: pyval.splits flt.splits if_splits)

lemma finite_logprob_float [simp]: "is_fin f \<Longrightarrow> finite_logprob (PFloat f) = Inr f"
  by (auto simp: finite_logprob_def is_fin_def split: flt.splits)

text \<open>
  \<^verbatim>\<open>str(v)\<close>. \<open>repr\<close> prints floats and containers: it is a parameter, because the representation of
  a double as text is the interpreter's.
\<close>

definition py_str :: "(pyval \<Rightarrow> string) \<Rightarrow> pyval \<Rightarrow> string" where
  "py_str repr v =
     (case v of
        PStr s \<Rightarrow> s
      | PInt i \<Rightarrow> dec_int i
      | PBool b \<Rightarrow> (if b then ''True'' else ''False'')
      | PNone \<Rightarrow> ''None''
      | _ \<Rightarrow> repr v)"

definition engine_meta :: "(pyval \<Rightarrow> string) \<Rightarrow> pydict \<Rightarrow> pydict" where
  "engine_meta repr meta_info =
     (if dget meta_info ''weight_version'' = PNone then []
      else [(''weight_version'', PStr (py_str repr (dget meta_info ''weight_version'')))])"

subsection \<open>The context window\<close>

definition DEFAULT_MAX_TOKENS :: int where "DEFAULT_MAX_TOKENS = 65536"

text \<open>\<^verbatim>\<open>v > n\<close> on a number; comparing anything else raises.\<close>

definition exceeds :: "pyval \<Rightarrow> int \<Rightarrow> engine_error + bool" where
  "exceeds v n =
     (case num_key v of
        Some (Fin q) \<Rightarrow> Inr (q > of_int n)
      | Some PosInf \<Rightarrow> Inr True
      | Some _ \<Rightarrow> Inr False
      | None \<Rightarrow> Inl Crash)"

definition clamp_to_context_window :: "pydict \<Rightarrow> nat \<Rightarrow> int option \<Rightarrow> engine_error + pydict" where
  "clamp_to_context_window params prompt_len context_length =
     (case context_length of
        None \<Rightarrow> Inr params
      | Some window \<Rightarrow>
          (let budget = window - int prompt_len in
           rbind (require (budget > 0) (WindowFull (int prompt_len) window)) (\<lambda>_.
             let max_tokens = (if dget params ''max_tokens'' = PNone then PInt DEFAULT_MAX_TOKENS
                               else dget params ''max_tokens'')
             in rbind (exceeds max_tokens budget) (\<lambda>over.
                  Inr (if over then dset ''max_tokens'' (PInt budget) params else params)))))"

subsection \<open>Routed-expert captures: layers, prior rows and slices\<close>

record capture_layers =
  cl_config :: bool
  cl_runtime :: "bool option"

definition effective_capture :: "capture_layers \<Rightarrow> bool" where
  "effective_capture l = (case cl_runtime l of None \<Rightarrow> cl_config l | Some b \<Rightarrow> b)"

definition set_runtime_routed_experts :: "pyval \<Rightarrow> (capture_layers, engine_error, capture_layers) action" where
  "set_runtime_routed_experts enabled l =
     (case enabled of
        PNone \<Rightarrow> (Inr (l\<lparr>cl_runtime := None\<rparr>), l\<lparr>cl_runtime := None\<rparr>)
      | PBool b \<Rightarrow> (Inr (l\<lparr>cl_runtime := Some b\<rparr>), l\<lparr>cl_runtime := Some b\<rparr>)
      | _ \<Rightarrow> (Inl Crash, l))"

type_synonym prior = "(int \<times> int) option"

definition prior_start :: "prior \<Rightarrow> int" where
  "prior_start p = (case p of None \<Rightarrow> 0 | Some (rows, _) \<Rightarrow> rows)"

definition prior_cols :: "prior \<Rightarrow> int option" where
  "prior_cols p = (case p of None \<Rightarrow> None | Some (_, cols) \<Rightarrow> if cols = 0 then None else Some cols)"

text \<open>\<^verbatim>\<open>xs[k:]\<close> with Python's reading of a negative index.\<close>

definition slice_from :: "int \<Rightarrow> 'a list \<Rightarrow> 'a list" where
  "slice_from k xs = (if k \<ge> 0 then drop (nat k) xs else drop (nat (max 0 (int (length xs) + k))) xs)"

definition experts_blob :: "int list \<Rightarrow> int \<Rightarrow> int \<Rightarrow> int \<Rightarrow> pydict" where
  "experts_blob values rows cols start =
     [(''data'', PStr (b64encode (map nat values))), (''rows'', PInt rows), (''cols'', PInt cols),
      (''dtype'', PStr ''uint8''), (''start'', PInt start)]"

definition uint8_values :: "int list \<Rightarrow> bool" where
  "uint8_values values = list_all (\<lambda>v. 0 \<le> v \<and> v \<le> 255) values"

subsection \<open>Engine names\<close>

definition ENGINES :: "string list" where "ENGINES = [''vllm'', ''sglang'']"

text \<open>\<^verbatim>\<open>str.lower\<close> on the characters the engine names need: ASCII and Latin-1 capitals.\<close>

definition lower_char :: "char \<Rightarrow> char" where
  "lower_char c = (let n = of_char c :: nat in
     if (65 \<le> n \<and> n \<le> 90) \<or> (192 \<le> n \<and> n \<le> 222 \<and> n \<noteq> 215) then char_of (n + 32) else c)"

definition resolve_engine :: "string option \<Rightarrow> string option \<Rightarrow> string option" where
  "resolve_engine inference_engine env =
     (let pick = (\<lambda>x d. case x of None \<Rightarrow> d | Some s \<Rightarrow> if s = [] then d else s);
          name = map lower_char (strip (pick inference_engine (pick env ''vllm'')))
      in if name \<in> set ENGINES then Some name else None)"

subsection \<open>The clamp\<close>

lemma clamp_max_tokens:
  assumes "clamp_to_context_window params n window = Inr params'"
  shows "k \<noteq> ''max_tokens'' \<Longrightarrow> dget params' k = dget params k"
    and "window = Some w \<Longrightarrow> int n < w"
    and "window = Some w \<Longrightarrow> dget params' ''max_tokens'' = PInt m \<Longrightarrow> int n + m \<le> w"
  using assms
  by (auto simp: clamp_to_context_window_def result_simps Let_def exceeds_def
      split: option.splits flt.splits if_splits)

end
