(* ===== verification/SglangTransport.thy ===== *)
theory SglangTransport
  imports Engines
begin

section \<open>The SGLang transport\<close>

text \<open>
  \<^verbatim>\<open>rollout_sglang.py\<close>: the translation of the sampling parameters to SGLang's dialect, the request
  body of \<^verbatim>\<open>/generate\<close>, the reading of its response, the repacking of routed-expert captures, and
  the discovery of the context window. \<open>post\<close> is the HTTP exchange as a function of the body.
  numpy's \<^verbatim>\<open>frombuffer(..., "<i4")\<close> is the parameter \<open>i4\<close> (\<open>None\<close> when it raises).
\<close>

subsection \<open>The request\<close>

definition sglang_params :: "pydict \<Rightarrow> pydict \<times> bool" where
  "sglang_params sampling =
     (let p = dset ''max_new_tokens'' (dget sampling ''max_tokens'') (od_pop ''max_tokens'' sampling);
          p = (if has_key p ''seed'' then dset ''sampling_seed'' (dget p ''seed'') (od_pop ''seed'' p) else p)
      in (filter (\<lambda>(k, v). v \<noteq> PNone) (od_pop ''logprobs'' p), truthy (dget p ''logprobs'')))"

definition sglang_body :: "int list \<Rightarrow> pydict \<Rightarrow> bool \<Rightarrow> prior \<Rightarrow> pydict" where
  "sglang_body prompt_ids sampling capture prior =
     (let (params, return_logprob) = sglang_params sampling
      in [(''input_ids'', PList (map PInt prompt_ids)), (''sampling_params'', PDict params),
          (''return_logprob'', PBool return_logprob)]
         @ (if capture then
              (''return_routed_experts'', PBool True) #
              (if prior_start prior > 0 then [(''routed_experts_start_len'', PInt (prior_start prior))] else [])
            else []))"

definition routing_headers :: "string option \<Rightarrow> pydict option" where
  "routing_headers session_id =
     (case session_id of
        None \<Rightarrow> None
      | Some s \<Rightarrow> if s = [] then None else Some [(''X-SMG-Routing-Key'', PStr s)])"

subsection \<open>Routed experts\<close>

text \<open>A full-range answer to a request for the rows from \<open>start\<close> on is cut down to its last rows.\<close>

definition trim_rows :: "prior \<Rightarrow> int \<Rightarrow> int list \<Rightarrow> int list" where
  "trim_rows prior full_rows xs =
     (case prior_cols prior of
        None \<Rightarrow> xs
      | Some cols \<Rightarrow>
          if prior_start prior \<noteq> 0 \<and> int (length xs) = full_rows * cols
          then slice_from (- (full_rows - prior_start prior) * cols) xs else xs)"

definition pack_rows :: "int list \<Rightarrow> int \<Rightarrow> prior \<Rightarrow> engine_error + pydict" where
  "pack_rows xs rows prior =
     rbind (require (rows > 0 \<and> xs \<noteq> [] \<and> int (length xs) mod rows = 0 \<and>
                     (case prior_cols prior of None \<Rightarrow> True | Some cols \<Rightarrow> int (length xs) div rows = cols))
             ExpertsMisaligned) (\<lambda>_.
     rbind (require (uint8_values xs) ExpertsNotUint8) (\<lambda>_.
       Inr (experts_blob xs rows (int (length xs) div rows) (prior_start prior))))"

definition pack_routed_experts ::
  "(bytes \<Rightarrow> int list option) \<Rightarrow> pydict \<Rightarrow> nat \<Rightarrow> nat \<Rightarrow> prior \<Rightarrow> engine_error + pydict" where
  "pack_routed_experts i4 meta_info prompt_len completion_len prior =
     (let encoded = dget meta_info ''routed_experts'';
          full_rows = int prompt_len + int completion_len - 1 in
      rbind (require (truthy encoded) NoRoutedExperts) (\<lambda>_.
      rbind (case encoded of
               PStr s \<Rightarrow> (case Option.bind (b64decode False s) i4 of None \<Rightarrow> Inl Crash | Some vs \<Rightarrow> Inr vs)
             | _ \<Rightarrow> Inl Crash) (\<lambda>xs.
        pack_rows (trim_rows prior full_rows xs) (full_rows - prior_start prior) prior)))"

subsection \<open>The response\<close>

definition stop_reason_of :: "pydict \<Rightarrow> engine_error + pyval" where
  "stop_reason_of meta_info =
     (let f = dget meta_info ''finish_reason'' in
      if truthy f then
        (case f of PDict d \<Rightarrow> if has_key d ''type'' then Inr (dget d ''type'') else Inl Crash | _ \<Rightarrow> Inl Crash)
      else Inr PNone)"

text \<open>One entry of \<^verbatim>\<open>output_token_logprobs\<close>: the sampled id, and its log probability when requested.\<close>

definition logprob_entry :: "bool \<Rightarrow> nat \<Rightarrow> pyval \<Rightarrow> engine_error + int \<times> flt option" where
  "logprob_entry return_logprob index entry =
     (case seq_items entry of
        Some (lp # PInt tok # _) \<Rightarrow>
          if tok < 0 \<or> return_logprob \<and> \<not> is_number lp then Inl (BadLogprobEntry index)
          else if return_logprob then rbind (finite_logprob lp) (\<lambda>f. Inr (tok, Some f))
          else Inr (tok, None)
      | _ \<Rightarrow> Inl (BadLogprobEntry index))"

definition output_ids_of :: "pyval \<Rightarrow> engine_error + int list" where
  "output_ids_of v =
     (case v of
        PNone \<Rightarrow> Inr []
      | PList xs \<Rightarrow>
          if list_all is_token xs then Inr (map int_of_val xs)
          else Inl BadOutputIds
      | _ \<Rightarrow> Inl BadOutputIds)"

definition sglang_entries :: "bool \<Rightarrow> int list \<Rightarrow> pyval \<Rightarrow> engine_error + (int \<times> flt option) list" where
  "sglang_entries return_logprob token_ids entries =
     (if return_logprob \<or> token_ids = [] \<and> truthy entries then
        (case entries of
           PList es \<Rightarrow> traverse_from 0 (logprob_entry return_logprob) es
         | _ \<Rightarrow> Inl BadLogprobList)
      else Inr [])"

text \<open>The end of \<^verbatim>\<open>_sglang_generate\<close>: absent output ids come from the triples, and the two must agree.\<close>

definition sglang_turn ::
  "(bytes \<Rightarrow> int list option) \<Rightarrow> bool \<Rightarrow> bool \<Rightarrow> nat \<Rightarrow> prior \<Rightarrow> pydict \<Rightarrow> pyval \<Rightarrow> pydict \<Rightarrow> int list \<Rightarrow>
   (int \<times> flt option) list \<Rightarrow> bool \<Rightarrow> engine_error + engine_result" where
  "sglang_turn i4 return_logprob capture prompt_len prior meta_info stop meta token_ids pairs have_entries =
     (let ids = map fst pairs;
          token_ids = (if token_ids = [] \<and> have_entries then ids else token_ids)
      in if return_logprob \<and> ids \<noteq> token_ids then Inr ([], [], stop, meta)
         else if capture then
           rbind (pack_routed_experts i4 meta_info prompt_len (length token_ids) prior) (\<lambda>blob.
             Inr (token_ids, List.map_filter snd pairs, stop, dset ''routed_experts'' (PDict blob) meta))
         else Inr (token_ids, List.map_filter snd pairs, stop, meta))"

definition or_empty :: "pyval \<Rightarrow> pyval" where
  "or_empty v = (if truthy v then v else PList [])"

definition sglang_response ::
  "(pyval \<Rightarrow> string) \<Rightarrow> (bytes \<Rightarrow> int list option) \<Rightarrow> bool \<Rightarrow> bool \<Rightarrow> nat \<Rightarrow> prior \<Rightarrow> pyval \<Rightarrow>
   engine_error + engine_result" where
  "sglang_response repr i4 return_logprob capture prompt_len prior response =
     rbind (as_dict response) (\<lambda>output.
     rbind (as_dict (dget_or output ''meta_info'' (PDict []))) (\<lambda>meta_info.
     rbind (stop_reason_of meta_info) (\<lambda>stop.
     rbind (output_ids_of (dget output ''output_ids'')) (\<lambda>token_ids.
       let entries = or_empty (dget meta_info ''output_token_logprobs'') in
       rbind (sglang_entries return_logprob token_ids entries) (\<lambda>pairs.
         sglang_turn i4 return_logprob capture prompt_len prior meta_info stop (engine_meta repr meta_info)
           token_ids pairs (truthy entries))))))"

definition sglang_generate ::
  "(pyval \<Rightarrow> string) \<Rightarrow> (bytes \<Rightarrow> int list option) \<Rightarrow> (pydict \<Rightarrow> http_reply) \<Rightarrow> int list \<Rightarrow> pydict \<Rightarrow> bool \<Rightarrow>
   prior \<Rightarrow> engine_error + engine_result" where
  "sglang_generate repr i4 post prompt_ids sampling capture prior =
     rbind (read_json (post (sglang_body prompt_ids sampling capture prior)))
       (sglang_response repr i4 (snd (sglang_params sampling)) capture (length prompt_ids) prior)"

subsection \<open>The context window\<close>

text \<open>
  \<^verbatim>\<open>int(v)\<close> as \<^verbatim>\<open>_served_context_length\<close> uses it: \<open>Inr None\<close> for the exceptions it catches, a crash
  for \<^verbatim>\<open>OverflowError\<close>, which it does not.
\<close>

definition caught_int :: "pyval \<Rightarrow> engine_error + int option" where
  "caught_int v =
     (case v of
        PInt i \<Rightarrow> Inr (Some i)
      | PBool b \<Rightarrow> Inr (Some (if b then 1 else 0))
      | PStr s \<Rightarrow> Inr (int_of_text s)
      | PFloat (Fin q) \<Rightarrow> Inr (Some (if q \<ge> 0 then \<lfloor>q\<rfloor> else \<lceil>q\<rceil>))
      | PFloat NaN \<Rightarrow> Inr None
      | PFloat _ \<Rightarrow> Inl Crash
      | _ \<Rightarrow> Inr None)"

fun first_positive :: "pydict \<Rightarrow> string list \<Rightarrow> engine_error + int option" where
  "first_positive info [] = Inr None"
| "first_positive info (k # ks) =
     rbind (caught_int (dget info k)) (\<lambda>v.
       case v of
         Some n \<Rightarrow> if n > 0 then Inr (Some n) else first_positive info ks
       | None \<Rightarrow> first_positive info ks)"

definition served_context_length :: "pyval \<Rightarrow> engine_error + int option" where
  "served_context_length info =
     (let info = (case info of
                    PList xs \<Rightarrow> (case filter is_dict xs of [] \<Rightarrow> PNone | e # _ \<Rightarrow> e)
                  | v \<Rightarrow> v)
      in case info of
           PDict d \<Rightarrow> first_positive d [''context_length'', ''max_req_input_len'']
         | _ \<Rightarrow> Inr None)"

record context_window =
  cw_length :: "int option"
  cw_known :: bool
  cw_fetch_warned :: bool

definition init_window :: "int option \<Rightarrow> context_window" where
  "init_window context_length =
     \<lparr>cw_length = context_length, cw_known = (context_length \<noteq> None), cw_fetch_warned = False\<rparr>"

text \<open>\<open>reply\<close> is what \<^verbatim>\<open>GET /get_server_info\<close> answers when it is asked.\<close>

definition window_get :: "http_reply \<Rightarrow> (context_window, engine_error, int option) action" where
  "window_get reply w =
     (if cw_known w then (Inr (cw_length w), w)
      else
        (case read_json reply of
           Inl _ \<Rightarrow> (Inr None, w\<lparr>cw_fetch_warned := True\<rparr>)
         | Inr info \<Rightarrow>
             (case served_context_length info of
                Inl e \<Rightarrow> (Inl e, w)
              | Inr len \<Rightarrow> (Inr len, w\<lparr>cw_length := len, cw_known := True\<rparr>))))"

subsection \<open>The provider's engine call\<close>

text \<open>
  \<^verbatim>\<open>SGLangRolloutProvider._call_engine\<close>: clamp to the window, then generate. The clamp writes the
  caller's parameters, which the result returns too.
\<close>

definition sglang_call_engine ::
  "(pyval \<Rightarrow> string) \<Rightarrow> (bytes \<Rightarrow> int list option) \<Rightarrow> http_reply \<Rightarrow> (pydict \<Rightarrow> http_reply) \<Rightarrow> bool \<Rightarrow>
   int list \<Rightarrow> pydict \<Rightarrow> prior \<Rightarrow> (context_window, engine_error, pydict \<times> engine_result) action" where
  "sglang_call_engine repr i4 info post capture prompt_ids sampling prior =
     sbind (window_get info) (\<lambda>window.
     sbind (slift (clamp_to_context_window sampling (length prompt_ids) window)) (\<lambda>sampling.
     sbind (slift (sglang_generate repr i4 post prompt_ids sampling capture prior)) (\<lambda>r.
       sret (sampling, r))))"

subsection \<open>What a turn looks like\<close>

lemma output_ids_tokens: "output_ids_of v = Inr ids \<Longrightarrow> list_all (\<lambda>t. 0 \<le> t) ids"
  using tokens_nonneg by (auto simp: output_ids_of_def split: pyval.splits if_splits)

lemma logprob_entry_Inr:
  assumes "logprob_entry lp i e = Inr (t, f)"
  shows "0 \<le> t" and "lp \<Longrightarrow> \<exists>x. f = Some x \<and> is_fin x" and "\<not> lp \<Longrightarrow> f = None"
  using assms finite_logprob_fin
  by (auto simp: logprob_entry_def result_simps split: option.splits list.splits pyval.splits if_splits)

lemma logprob_entries:
  assumes "traverse_from i (logprob_entry True) es = Inr ps"
  shows "list_all (\<lambda>t. 0 \<le> t) (map fst ps) \<and> length (List.map_filter snd ps) = length ps \<and>
         list_all is_fin (List.map_filter snd ps)"
  using assms
proof (induction es arbitrary: i ps)
  case Nil
  then show ?case by (simp add: List.map_filter_def)
next
  case (Cons e es)
  then obtain t f qs where "logprob_entry True i e = Inr (t, f)" "ps = (t, f) # qs"
    and "traverse_from (Suc i) (logprob_entry True) es = Inr qs"
    by (auto simp: result_simps)
  with Cons.IH [of "Suc i" qs] logprob_entry_Inr [of True i e t f] show ?case
    by (auto simp: List.map_filter_simps)
qed

lemma sglang_turn_ids:
  assumes "sglang_turn i4 True capture n prior mi stop meta out ps h = Inr (ids, lps, stop', meta')"
  shows "(ids = [] \<and> lps = []) \<or> (ids = map fst ps \<and> lps = List.map_filter snd ps)"
proof -
  define ids0 where "ids0 = (if out = [] \<and> h then map fst ps else out)"
  from assms have "(if True \<and> map fst ps \<noteq> ids0 then Inr ([], [], stop, meta)
     else if capture then
       rbind (pack_routed_experts i4 mi n (length ids0) prior) (\<lambda>blob.
         Inr (ids0, List.map_filter snd ps, stop, dset ''routed_experts'' (PDict blob) meta))
     else Inr (ids0, List.map_filter snd ps, stop, meta)) = Inr (ids, lps, stop', meta')"
    unfolding sglang_turn_def Let_def ids0_def .
  then show ?thesis by (cases "map fst ps = ids0"; cases capture) (auto simp: result_simps)
qed

text \<open>
  Every turn the SGLang transport returns with log probabilities on is aligned: there is one finite
  log probability per token, every token id is a nonnegative integer, and a response whose log
  probabilities list other ids than \<^verbatim>\<open>output_ids\<close> yields no tokens at all instead of a misaligned turn.
\<close>

theorem sglang_turn_aligned:
  assumes "sglang_generate repr i4 post prompt_ids sampling capture prior = Inr (ids, lps, stop, meta)"
    and "truthy (dget sampling ''logprobs'')"
  shows "length lps = length ids \<and> list_all (\<lambda>t. 0 \<le> t) ids \<and> list_all is_fin lps"
proof -
  have on: "snd (sglang_params sampling)"
    using assms(2) by (simp add: sglang_params_def Let_def)
  from assms(1) obtain v where v: "sglang_response repr i4 True capture (length prompt_ids) prior v =
      Inr (ids, lps, stop, meta)"
    using on by (auto simp: sglang_generate_def result_simps)
  then obtain es ps out0 mi st h where es: "sglang_entries True out0 es = Inr ps"
    and "sglang_turn i4 True capture (length prompt_ids) prior mi st (engine_meta repr mi) out0 ps h =
      Inr (ids, lps, stop, meta)"
    unfolding sglang_response_def rbind_eq_Inr Let_def by blast
  then have r: "(ids = [] \<and> lps = []) \<or> (ids = map fst ps \<and> lps = List.map_filter snd ps)"
    by (auto dest: sglang_turn_ids)
  from es obtain xs where "traverse_from 0 (logprob_entry True) xs = Inr ps"
    by (auto simp: sglang_entries_def split: pyval.splits)
  from logprob_entries [OF this] r show ?thesis by auto
qed

text \<open>The reading of little-endian 32-bit integers, as numpy documents it, and a demonstration response.\<close>

fun i4_values :: "bytes \<Rightarrow> int list option" where
  "i4_values [] = Some []"
| "i4_values (a # b # c # d # rest) =
     map_option ((#) (let n = int a + 256 * int b + 65536 * int c + 16777216 * int d
                      in if n < 2147483648 then n else n - 4294967296)) (i4_values rest)"
| "i4_values _ = None"

definition demo_repr :: "pyval \<Rightarrow> string" where "demo_repr v = ''?''"

definition demo_sampling :: pydict where
  "demo_sampling = [(''temperature'', PInt 1), (''max_tokens'', PInt 9), (''logprobs'', PBool True)]"

definition demo_response :: "pydict \<Rightarrow> pyval" where
  "demo_response meta_info =
     PDict [(''output_ids'', PList [PInt 7, PInt 8]), (''meta_info'', PDict
       ([(''finish_reason'', PDict [(''type'', PStr ''stop'')]),
         (''output_token_logprobs'', PList [PList [PInt (-1), PInt 7, PNone], PList [PFloat (Fin (-1/2)), PInt 8, PNone]])]
        @ meta_info))]"

lemma demo_sglang_turn:
  "sglang_generate demo_repr i4_values (\<lambda>_. Reply 200 (Some (demo_response []))) [5, 6] demo_sampling False None =
     Inr ([7, 8], [Fin (-1), Fin (-1/2)], PStr ''stop'', [])"
  by code_simp

theorem sglang_turn_aligned_witness:
  "length [Fin (-1), Fin (-1/2)] = length [7, 8 :: int] \<and> list_all is_fin [Fin (-1), Fin (-1/2)]"
proof -
  have "truthy (dget demo_sampling ''logprobs'')" by (simp add: demo_sampling_def)
  from sglang_turn_aligned [OF demo_sglang_turn this] show ?thesis by simp
qed

subsection \<open>What a capture looks like\<close>

lemma slice_from_neg: "n \<le> int (length xs) \<Longrightarrow> 0 < n \<Longrightarrow> slice_from (- n) xs = drop (length xs - nat n) xs"
  by (simp add: slice_from_def nat_diff_distrib)

lemma uint8_bytes: "uint8_values vs \<Longrightarrow> list_all (\<lambda>b. b < 256) (map nat vs)"
  by (induction vs) (auto simp: uint8_values_def)

lemma uint8_ints: "uint8_values vs \<Longrightarrow> map int (map nat vs) = vs"
  by (induction vs) (auto simp: uint8_values_def)

text \<open>
  What a packed capture promises the recorder: it starts where the stored rows end, covers every
  position of the stream but the last, and its data decodes to one byte per row and column.
\<close>

definition decodes_to :: "bool \<Rightarrow> pyval \<Rightarrow> int list \<Rightarrow> bool" where
  "decodes_to strict v values =
     (case v of PStr data \<Rightarrow> map_option (map int) (b64decode strict data) = Some values | _ \<Rightarrow> False)"

definition capture_exact :: "pydict \<Rightarrow> nat \<Rightarrow> nat \<Rightarrow> prior \<Rightarrow> int list \<Rightarrow> bool" where
  "capture_exact blob prompt_len completion_len prior values =
     (let start = prior_start prior; rows = int prompt_len + int completion_len - 1 - start;
          cols = int (length values) div rows
      in 0 < rows \<and> 0 < cols \<and> int (length values) = rows * cols \<and>
         (case prior_cols prior of None \<Rightarrow> True | Some c \<Rightarrow> cols = c) \<and>
         dget blob ''rows'' = PInt rows \<and> dget blob ''cols'' = PInt cols \<and>
         dget blob ''start'' = PInt start \<and> dget blob ''dtype'' = PStr ''uint8'' \<and>
         list_all (\<lambda>strict. decodes_to strict (dget blob ''data'') values) [True, False])"

lemma pack_rows_exact:
  assumes "pack_rows xs (int p + int c - 1 - prior_start prior) prior = Inr blob"
  shows "capture_exact blob p c prior xs"
proof -
  let ?rows = "int p + int c - 1 - prior_start prior" and ?cols = "int (length xs) div (int p + int c - 1 - prior_start prior)"
  have rows: "0 < ?rows" and sz: "xs \<noteq> []" "int (length xs) mod ?rows = 0" and u: "uint8_values xs"
    and hint: "case prior_cols prior of None \<Rightarrow> True | Some c \<Rightarrow> ?cols = c"
    and b: "blob = experts_blob xs ?rows ?cols (prior_start prior)"
    using assms unfolding pack_rows_def rbind_eq_Inr require_eq by blast+
  have len: "int (length xs) = ?rows * ?cols"
    using sz(2) by (metis mult_div_mod_eq add.right_neutral)
  then have "0 < ?cols"
    using rows sz(1) by (metis length_greater_0_conv of_nat_0_less_iff zero_less_mult_pos)
  moreover have "decodes_to strict (PStr (b64encode (map nat xs))) xs" for strict
    using b64_roundtrip [OF uint8_bytes [OF u]] uint8_ints [OF u] by (simp add: decodes_to_def)
  ultimately show ?thesis
    unfolding capture_exact_def Let_def b using len rows hint by (simp add: experts_blob_def)
qed

lemma suffix_trim_rows: "suffix (trim_rows prior n xs) xs"
  by (auto simp: trim_rows_def slice_from_def suffix_drop split: option.splits)

text \<open>C38:
  A routed-expert capture is repacked exactly or refused: the blob starts at the row count of the
  recorder, covers every position up to the next to last, has the recorded number of columns, and
  its data decodes under both base64 modes to the values the engine sent, or to their last rows
  when the engine ignored the requested start and sent the whole stream.
\<close>

theorem packed_capture_is_exact:
  assumes "pack_routed_experts i4 meta_info prompt_len completion_len prior = Inr blob"
  shows "\<exists>s all vals. dget meta_info ''routed_experts'' = PStr s \<and>
           Option.bind (b64decode False s) i4 = Some all \<and> suffix vals all \<and>
           (prior_start prior = 0 \<longrightarrow> vals = all) \<and>
           capture_exact blob prompt_len completion_len prior vals"
proof -
  let ?full = "int prompt_len + int completion_len - 1"
  obtain s all where s: "dget meta_info ''routed_experts'' = PStr s"
    and all: "Option.bind (b64decode False s) i4 = Some all"
    and p: "pack_rows (trim_rows prior ?full all) (?full - prior_start prior) prior = Inr blob"
    using assms unfolding pack_routed_experts_def Let_def rbind_eq_Inr
    by (cases "dget meta_info ''routed_experts''") (auto split: option.splits)
  moreover have "prior_start prior = 0 \<longrightarrow> trim_rows prior ?full all = all"
    by (simp add: trim_rows_def split: option.splits)
  ultimately show ?thesis using pack_rows_exact suffix_trim_rows by blast
qed

definition demo_experts :: pydict where
  "demo_experts = [(''routed_experts'', PStr (b64encode [1, 0, 0, 0, 2, 0, 0, 0, 3, 0, 0, 0]))]"

theorem packed_capture_is_exact_witness:
  "\<exists>vals. suffix vals [1, 2, 3] \<and>
     capture_exact (experts_blob [2, 3] 2 1 1) 2 2 (Some (1, 1)) vals"
proof -
  have "pack_routed_experts i4_values demo_experts 2 2 (Some (1, 1)) = Inr (experts_blob [2, 3] 2 1 1)"
    by code_simp
  note r = packed_capture_is_exact [OF this]
  have "Option.bind (b64decode False (b64encode [1, 0, 0, 0, 2, 0, 0, 0, 3, 0, 0, 0])) i4_values = Some [1, 2, 3]"
    by code_simp
  with r show ?thesis by (auto simp: demo_experts_def simp del: b64encode.simps)
qed

subsection \<open>Requests fit the context window\<close>

text \<open>A request body whose prompt and token budget fit a window.\<close>

definition body_fits :: "int \<Rightarrow> pydict \<Rightarrow> bool" where
  "body_fits window body =
     (case (dget body ''input_ids'', dget body ''sampling_params'') of
        (PList ids, PDict p) \<Rightarrow>
          (case dget p ''max_new_tokens'' of PInt n \<Rightarrow> int (length ids) + n \<le> window | _ \<Rightarrow> int (length ids) < window)
      | _ \<Rightarrow> False)"

lemma dget_filter_not_None:
  "dget (filter (\<lambda>(k, v). v \<noteq> PNone) d) k = v \<Longrightarrow> v \<noteq> PNone \<Longrightarrow> distinct (map fst d) \<Longrightarrow> dget d k = v"
  using map_of_filter_not_None [of d k]
  by (cases "map_of d k") (auto simp only: dget_def option.case split: if_splits)

lemma sglang_params_budget:
  assumes "distinct (map fst sampling)" and "dget (fst (sglang_params sampling)) ''max_new_tokens'' = PInt n"
  shows "dget sampling ''max_tokens'' = PInt n"
proof -
  define p where "p = dset ''max_new_tokens'' (dget sampling ''max_tokens'') (od_pop ''max_tokens'' sampling)"
  define q where "q = (if has_key p ''seed'' then dset ''sampling_seed'' (dget p ''seed'') (od_pop ''seed'' p) else p)"
  have pop: "distinct (map fst (od_pop k d))" if "distinct (map fst d)" for k and d :: pydict
    using that distinct_od_pop [of d k] by (simp add: od_keys_def)
  have "distinct (map fst (od_pop ''logprobs'' q))"
    by (intro pop) (simp add: q_def p_def distinct_update pop assms(1))
  moreover have f: "fst (sglang_params sampling) = filter (\<lambda>(k, v). v \<noteq> PNone) (od_pop ''logprobs'' q)"
    by (simp add: sglang_params_def Let_def q_def p_def)
  ultimately have "dget (od_pop ''logprobs'' q) ''max_new_tokens'' = PInt n"
    using dget_filter_not_None [OF assms(2) [unfolded f]] by simp
  then show ?thesis by (simp add: q_def p_def split: if_splits)
qed

lemma clamped_body_fits:
  assumes "distinct (map fst sampling)"
    and "clamp_to_context_window sampling (length prompt_ids) (Some w) = Inr sampling'"
  shows "body_fits w (sglang_body prompt_ids sampling' capture prior)"
proof -
  have d: "distinct (map fst sampling')"
    using assms by (auto simp: clamp_to_context_window_def result_simps Let_def distinct_update split: if_splits)
  have b: "dget (sglang_body prompt_ids sampling' capture prior) ''input_ids'' = PList (map PInt prompt_ids)"
    "dget (sglang_body prompt_ids sampling' capture prior) ''sampling_params'' = PDict (fst (sglang_params sampling'))"
    by (simp_all add: sglang_body_def split: prod.split)
  show ?thesis
    unfolding body_fits_def b
    using clamp_max_tokens(2,3) [OF assms(2) refl] sglang_params_budget [OF d]
    by (simp split: pyval.split)
qed

text \<open>C37:
  With a known context window, nothing the SGLang provider sends asks for more than the window
  holds: whatever the server would answer to a request whose prompt and token budget overrun it,
  the outcome of the call is the same, because no such request is made; a prompt that already
  fills the window is refused before any request. The window itself never changes once known.
\<close>

theorem sglang_requests_fit_the_window:
  assumes "cw_known w" and "cw_length w = Some window" and "distinct (map fst sampling)"
    and same: "\<forall>body. body_fits window body \<longrightarrow> post body = post' body"
  shows "sglang_call_engine repr i4 info post capture prompt_ids sampling prior w =
           sglang_call_engine repr i4 info' post' capture prompt_ids sampling prior w \<and>
         snd (sglang_call_engine repr i4 info post capture prompt_ids sampling prior w) = w \<and>
         (window \<le> int (length prompt_ids) \<longrightarrow>
            fst (sglang_call_engine repr i4 info post capture prompt_ids sampling prior w) =
              Inl (WindowFull (int (length prompt_ids)) window))"
proof -
  have w: "window_get reply w = (Inr (Some window), w)" for reply
    using assms(1,2) by (simp add: window_get_def)
  let ?c = "clamp_to_context_window sampling (length prompt_ids) (Some window)"
  have "post (sglang_body prompt_ids s capture prior) = post' (sglang_body prompt_ids s capture prior)"
    if "?c = Inr s" for s
    using same clamped_body_fits [OF assms(3) that] by blast
  moreover have "?c = Inl (WindowFull (int (length prompt_ids)) window)" if "window \<le> int (length prompt_ids)"
    using that by (simp add: clamp_to_context_window_def)
  ultimately show ?thesis
    by (cases ?c) (auto simp: sglang_call_engine_def sbind_def w sglang_generate_def split: sum.splits)
qed

theorem sglang_requests_fit_the_window_witness:
  "fst (sglang_call_engine demo_repr i4_values NoReply
          (\<lambda>b. if body_fits 10 b then Reply 200 (Some (demo_response [])) else Reply 400 None)
          False [5, 6] demo_sampling None (init_window (Some 10))) =
   fst (sglang_call_engine demo_repr i4_values NoReply (\<lambda>_. Reply 200 (Some (demo_response [])))
          False [5, 6] demo_sampling None (init_window (Some 10))) \<and>
   fst (sglang_call_engine demo_repr i4_values NoReply (\<lambda>_. NoReply)
          False [5, 6] demo_sampling None (init_window (Some 2))) = Inl (WindowFull 2 2)"
proof -
  have d: "distinct (map fst demo_sampling)" by (simp add: demo_sampling_def)
  have k: "cw_known (init_window (Some n))" "cw_length (init_window (Some n)) = Some n" for n
    by (simp_all add: init_window_def)
  show ?thesis
    using sglang_requests_fit_the_window [OF k d, of 10
        "\<lambda>b. if body_fits 10 b then Reply 200 (Some (demo_response [])) else Reply 400 None"
        "\<lambda>_. Reply 200 (Some (demo_response []))" demo_repr i4_values NoReply False "[5, 6]" None NoReply]
      sglang_requests_fit_the_window [OF k d, of 2 "\<lambda>_. NoReply" "\<lambda>_. NoReply" demo_repr i4_values NoReply
        False "[5, 6]" None NoReply]
    by simp
qed

end
