(* ===== verification/VllmTransport.thy ===== *)
theory VllmTransport
  imports SglangTransport
begin

section \<open>The vLLM transport\<close>

text \<open>
  \<^verbatim>\<open>rollout_vllm.py\<close>: the native token protocol of \<^verbatim>\<open>/inference/v1/generate\<close>. The response is
  checked before anything is returned: one choice, integer token ids, log probabilities aligned with
  them, weight-version spans that cover the whole completion with one version, and a usage count
  that agrees. numpy's \<^verbatim>\<open>load\<close> is the parameter \<open>np_load\<close>: \<open>None\<close> when it raises, an archive, or an
  array given by its shape, the kind of its dtype and its items in row-major order.
\<close>

datatype np_value = NpArchive | NpArray "nat list" string "int list"

subsection \<open>Weight versions\<close>

text \<open>The scan over the spans: the end of the covered prefix and the versions seen.\<close>

fun version_spans :: "nat \<Rightarrow> int \<Rightarrow> string list \<Rightarrow> pyval list \<Rightarrow> engine_error + int \<times> string list" where
  "version_spans count end versions [] = Inr (end, versions)"
| "version_spans count end versions (sp # sps) =
     (case sp of
        PDict d \<Rightarrow>
          (case (dget d ''start'', dget d ''end'', dget d ''version'') of
             (PInt s, PInt e, PStr v) \<Rightarrow>
               if s = end \<and> end < e \<and> e \<le> int count \<and> v \<noteq> []
               then version_spans count e (List.insert v versions) sps
               else Inl BadVersionSpans
           | _ \<Rightarrow> Inl BadVersionSpans)
      | _ \<Rightarrow> Inl BadVersionSpans)"

definition weight_version :: "(pyval \<Rightarrow> string) \<Rightarrow> pydict \<Rightarrow> pydict \<Rightarrow> nat \<Rightarrow> engine_error + pydict" where
  "weight_version repr output choice count =
     (let meta = engine_meta repr output in
      case dget choice ''weight_versions'' of
        PNone \<Rightarrow> Inr meta
      | PList spans \<Rightarrow>
          rbind (version_spans count 0 [] spans) (\<lambda>(end, versions).
          rbind (require (end = int count \<and> length versions \<le> 1) MixedVersions) (\<lambda>_.
            case versions of
              [] \<Rightarrow> Inr meta
            | v # _ \<Rightarrow>
                rbind (require (dget_or meta ''weight_version'' (PStr v) = PStr v) ConflictingVersions) (\<lambda>_.
                  Inr (dset ''weight_version'' (PStr v) meta))))
      | _ \<Rightarrow> Inl BadVersionSpans)"

subsection \<open>Routed experts\<close>

definition vllm_array :: "np_value \<Rightarrow> engine_error + nat \<times> int list" where
  "vllm_array v =
     (case v of
        NpArchive \<Rightarrow> Inl ExpertsNotArray
      | NpArray shape kind items \<Rightarrow>
          rbind (require (length shape \<in> {2, 3} \<and> kind \<in> {''i'', ''u''} \<and> items \<noteq> []) ExpertsNotArray)
            (\<lambda>_. Inr (hd shape, items)))"

text \<open>The rows from \<open>start\<close> on, when the array covers the whole stream; the columns stay.\<close>

definition trim_array :: "prior \<Rightarrow> int \<Rightarrow> nat \<Rightarrow> nat \<Rightarrow> int list \<Rightarrow> nat \<times> int list" where
  "trim_array prior full_rows cols n items =
     (if prior_start prior \<noteq> 0 \<and> int n = full_rows
      then (length (slice_from (prior_start prior) [0..<n]), slice_from (prior_start prior * int cols) items)
      else (n, items))"

definition pack_array :: "prior \<Rightarrow> int \<Rightarrow> nat \<Rightarrow> nat \<times> int list \<Rightarrow> engine_error + pydict" where
  "pack_array prior rows cols a =
     rbind (require (rows > 0 \<and> int (fst a) = rows \<and>
                     (case prior_cols prior of None \<Rightarrow> True | Some c \<Rightarrow> int cols = c)) ExpertsMisaligned) (\<lambda>_.
     rbind (require (uint8_values (snd a)) ExpertsNotUint8) (\<lambda>_.
       Inr (experts_blob (snd a) rows (int cols) (prior_start prior))))"

definition pack_vllm_routed_experts ::
  "(bytes \<Rightarrow> np_value option) \<Rightarrow> pydict \<Rightarrow> nat \<Rightarrow> nat \<Rightarrow> prior \<Rightarrow> engine_error + pydict" where
  "pack_vllm_routed_experts np_load choice prompt_len completion_len prior =
     (let full_rows = int prompt_len + int completion_len - 1
      in rbind (case dget choice ''routed_experts'' of
                  PStr s \<Rightarrow> rbind (require (s \<noteq> []) NoRoutedExperts) (\<lambda>_. Inr s)
                | _ \<Rightarrow> Inl NoRoutedExperts) (\<lambda>encoded.
         rbind (case Option.bind (b64decode True encoded) np_load of
                  None \<Rightarrow> Inl ExpertsNotNpy | Some v \<Rightarrow> Inr v) (\<lambda>v.
         rbind (vllm_array v) (\<lambda>(n, items).
           let cols = length items div n in
           pack_array prior (full_rows - prior_start prior) cols (trim_array prior full_rows cols n items)))))"

subsection \<open>The request and the response\<close>

definition vllm_params :: "pydict \<Rightarrow> bool \<Rightarrow> prior \<Rightarrow> pydict" where
  "vllm_params sampling capture prior =
     (let p = dset ''logprobs'' (PInt 1) (filter (\<lambda>(k, v). v \<noteq> PNone) sampling);
          p = (if truthy (dget p ''stop'') then dset ''include_stop_str_in_output'' (PBool True) p else p)
      in if capture then dset ''routed_experts_prompt_start'' (PInt (prior_start prior)) p else p)"

definition vllm_body :: "int list \<Rightarrow> pydict \<Rightarrow> bool \<Rightarrow> prior \<Rightarrow> pydict" where
  "vllm_body prompt_ids sampling capture prior =
     [(''token_ids'', PList (map PInt prompt_ids)), (''sampling_params'', PDict (vllm_params sampling capture prior))]"

definition one_choice :: "pyval \<Rightarrow> engine_error + pydict \<times> pydict" where
  "one_choice response =
     (case response of
        PDict output \<Rightarrow>
          (case dget output ''choices'' of
             PList [PDict choice] \<Rightarrow> Inr (output, choice)
           | _ \<Rightarrow> Inl NotOneChoice)
      | _ \<Rightarrow> Inl NotOneChoice)"

definition vllm_stop_reason :: "pydict \<Rightarrow> pyval" where
  "vllm_stop_reason choice =
     (let r = (case dget choice ''finish_reason'' of PDict d \<Rightarrow> dget d ''type'' | v \<Rightarrow> v)
      in if r = PStr ''cancelled'' then PStr ABORT else r)"

text \<open>One entry of \<^verbatim>\<open>logprobs.content\<close> against its token, in either representation of the id.\<close>

definition names_token :: "pydict \<Rightarrow> int \<Rightarrow> bool" where
  "names_token d token =
     (if has_key d ''token_id'' then dget d ''token_id'' = PInt token
      else dget d ''token'' = PStr (''token_id:'' @ dec_int token))"

definition token_logprob :: "nat \<Rightarrow> int \<times> pyval \<Rightarrow> engine_error + flt" where
  "token_logprob i e =
     (case e of
        (token, PDict d) \<Rightarrow>
          if is_number (dget d ''logprob'') \<and> names_token d token then finite_logprob (dget d ''logprob'')
          else Inl (BadTokenPair i)
      | _ \<Rightarrow> Inl (BadTokenPair i))"

definition logprob_content :: "pydict \<Rightarrow> nat \<Rightarrow> engine_error + pyval list" where
  "logprob_content choice count =
     (case dget choice ''logprobs'' of
        PDict d \<Rightarrow>
          (case dget d ''content'' of
             PList xs \<Rightarrow> rbind (require (length xs = count) LogprobsMisaligned) (\<lambda>_. Inr xs)
           | _ \<Rightarrow> Inl LogprobsMisaligned)
      | _ \<Rightarrow> Inl LogprobsMisaligned)"

definition check_usage :: "pydict \<Rightarrow> nat \<Rightarrow> engine_error + unit" where
  "check_usage output count =
     (case dget output ''usage'' of
        PNone \<Rightarrow> Inr ()
      | PDict u \<Rightarrow> require (dget u ''completion_tokens'' = PNone \<or> dget u ''completion_tokens'' = PInt (int count)) BadUsage
      | _ \<Rightarrow> Inl BadUsage)"

definition vllm_tokens :: "pydict \<Rightarrow> engine_error + int list" where
  "vllm_tokens choice =
     (case dget choice ''token_ids'' of
        PList xs \<Rightarrow> rbind (require (list_all is_token xs) BadTokens) (\<lambda>_. Inr (map int_of_val xs))
      | _ \<Rightarrow> Inl BadTokens)"

definition vllm_turn ::
  "(pyval \<Rightarrow> string) \<Rightarrow> (bytes \<Rightarrow> np_value option) \<Rightarrow> bool \<Rightarrow> nat \<Rightarrow> prior \<Rightarrow> pydict \<Rightarrow> pydict \<Rightarrow> pyval \<Rightarrow>
   engine_error + engine_result" where
  "vllm_turn repr np_load capture prompt_len prior output choice stop =
     rbind (vllm_tokens choice) (\<lambda>token_ids.
     rbind (weight_version repr output choice (length token_ids)) (\<lambda>meta.
     rbind (logprob_content choice (length token_ids)) (\<lambda>content.
     rbind (traverse_from 0 token_logprob (zip token_ids content)) (\<lambda>log_probs.
     rbind (check_usage output (length token_ids)) (\<lambda>_.
     rbind (if capture then
              rbind (pack_vllm_routed_experts np_load choice prompt_len (length token_ids) prior)
                (\<lambda>blob. Inr (dset ''routed_experts'' (PDict blob) meta))
            else Inr meta) (\<lambda>meta.
       Inr (token_ids, log_probs, stop, meta)))))))"

definition vllm_response ::
  "(pyval \<Rightarrow> string) \<Rightarrow> (bytes \<Rightarrow> np_value option) \<Rightarrow> bool \<Rightarrow> nat \<Rightarrow> prior \<Rightarrow> pyval \<Rightarrow>
   engine_error + engine_result" where
  "vllm_response repr np_load capture prompt_len prior response =
     rbind (one_choice response) (\<lambda>(output, choice).
       let stop = vllm_stop_reason choice in
       if stop = PStr ABORT then Inr ([], [], stop, engine_meta repr output)
       else if stop \<notin> {PNone, PStr STOP, PStr LENGTH} then Inl UnknownFinishReason
       else vllm_turn repr np_load capture prompt_len prior output choice stop)"

definition vllm_generate ::
  "(pyval \<Rightarrow> string) \<Rightarrow> (bytes \<Rightarrow> np_value option) \<Rightarrow> (pydict \<Rightarrow> http_reply) \<Rightarrow> int list \<Rightarrow> pydict \<Rightarrow> bool \<Rightarrow>
   prior \<Rightarrow> engine_error + engine_result" where
  "vllm_generate repr np_load post prompt_ids sampling capture prior =
     rbind (read_json (post (vllm_body prompt_ids sampling capture prior)))
       (vllm_response repr np_load capture (length prompt_ids) prior)"

definition vllm_call_engine ::
  "(pyval \<Rightarrow> string) \<Rightarrow> (bytes \<Rightarrow> np_value option) \<Rightarrow> int option \<Rightarrow> (pydict \<Rightarrow> http_reply) \<Rightarrow> bool \<Rightarrow> int list \<Rightarrow>
   pydict \<Rightarrow> prior \<Rightarrow> engine_error + pydict \<times> engine_result" where
  "vllm_call_engine repr np_load window post capture prompt_ids sampling prior =
     rbind (clamp_to_context_window sampling (length prompt_ids) window) (\<lambda>sampling.
     rbind (vllm_generate repr np_load post prompt_ids sampling capture prior) (\<lambda>r. Inr (sampling, r)))"

subsection \<open>What a turn looks like\<close>

lemma token_logprobs:
  assumes "traverse_from i token_logprob es = Inr lps"
  shows "length lps = length es \<and> list_all is_fin lps \<and>
         list_all (\<lambda>(t, e). \<exists>d. e = PDict d \<and> names_token d t) es"
  using assms
proof (induction es arbitrary: i lps)
  case (Cons e es)
  obtain t v where e: "e = (t, v)" by (cases e)
  from Cons.prems obtain f fs where f: "token_logprob i (t, v) = Inr f" and lps: "lps = f # fs"
    and fs: "traverse_from (Suc i) token_logprob es = Inr fs"
    by (auto simp: result_simps e)
  from f obtain d where "v = PDict d" "names_token d t" "is_fin f"
    using finite_logprob_fin by (cases v) (auto simp: token_logprob_def split: if_splits)
  with Cons.IH [OF fs] show ?case by (simp add: e lps)
qed simp

lemma vllm_tokens_nonneg: "vllm_tokens choice = Inr ids \<Longrightarrow> list_all (\<lambda>t. 0 \<le> t) ids"
  using tokens_nonneg by (auto simp: vllm_tokens_def result_simps split: pyval.splits)

lemma logprob_content_length: "logprob_content choice n = Inr xs \<Longrightarrow> length xs = n"
  by (auto simp: logprob_content_def result_simps split: pyval.splits)

text \<open>
  Every turn the vLLM transport returns is aligned: one finite log probability per token,
  nonnegative token ids, and a stop reason that is missing, \<^verbatim>\<open>stop\<close>, \<^verbatim>\<open>length\<close> or an abort; an aborted
  request carries no tokens at all.
\<close>

theorem vllm_turn_aligned:
  assumes "vllm_generate repr np_load post prompt_ids sampling capture prior = Inr (ids, lps, stop, meta)"
  shows "length lps = length ids \<and> list_all (\<lambda>t. 0 \<le> t) ids \<and> list_all is_fin lps \<and>
         stop \<in> {PNone, PStr STOP, PStr LENGTH, PStr ABORT} \<and> (stop = PStr ABORT \<longrightarrow> ids = [])"
proof -
  from assms obtain v where v: "vllm_response repr np_load capture (length prompt_ids) prior v =
      Inr (ids, lps, stop, meta)"
    unfolding vllm_generate_def rbind_eq_Inr by blast
  then obtain out choice where c: "one_choice v = Inr (out, choice)"
    by (cases "one_choice v") (auto simp: vllm_response_def)
  define s where "s = vllm_stop_reason choice"
  note r = v [unfolded vllm_response_def c rbind_simps prod.case Let_def, folded s_def]
  show ?thesis
  proof (cases "s = PStr ABORT")
    case True
    with r show ?thesis by simp
  next
    case False
    with r have s: "s \<in> {PNone, PStr STOP, PStr LENGTH}"
      and t: "vllm_turn repr np_load capture (length prompt_ids) prior out choice s = Inr (ids, lps, stop, meta)"
      by (auto split: if_splits)
    from t obtain content where "vllm_tokens choice = Inr ids" "logprob_content choice (length ids) = Inr content"
      "traverse_from 0 token_logprob (zip ids content) = Inr lps" "stop = s"
      unfolding vllm_turn_def rbind_eq_Inr by blast
    with s False token_logprobs [of 0 "zip ids content" lps] vllm_tokens_nonneg logprob_content_length
    show ?thesis by fastforce
  qed
qed

definition demo_choice :: "pydict \<Rightarrow> pyval" where
  "demo_choice extra =
     PDict [(''choices'', PList [PDict (
        [(''finish_reason'', PStr ''length''), (''token_ids'', PList [PInt 7, PInt 12]),
         (''logprobs'', PDict [(''content'', PList
            [PDict [(''token_id'', PInt 7), (''logprob'', PFloat (Fin (-1/2)))],
             PDict [(''token'', PStr ''token_id:12''), (''logprob'', PInt (-2))]])])] @ extra)])]"

theorem vllm_turn_aligned_witness:
  "length [Fin (-1/2), Fin (-2)] = length [7, 12 :: int] \<and> list_all is_fin [Fin (-1/2), Fin (-2)] \<and>
   PStr ''length'' \<in> {PNone, PStr STOP, PStr LENGTH, PStr ABORT}"
proof -
  have "vllm_generate demo_repr (\<lambda>_. None) (\<lambda>_. Reply 200 (Some (demo_choice []))) [5, 6] demo_sampling False None =
     Inr ([7, 12], [Fin (-1/2), Fin (-2)], PStr ''length'', [])"
    by code_simp
  from vllm_turn_aligned [OF this] show ?thesis by blast
qed

subsection \<open>One policy version per turn\<close>

definition span_covers :: "pyval \<Rightarrow> int \<Rightarrow> bool" where
  "span_covers s i =
     (case s of
        PDict d \<Rightarrow> (case (dget d ''start'', dget d ''end'') of (PInt a, PInt b) \<Rightarrow> a \<le> i \<and> i < b | _ \<Rightarrow> False)
      | _ \<Rightarrow> False)"

definition span_version :: "pyval \<Rightarrow> pyval" where
  "span_version s = (case s of PDict d \<Rightarrow> dget d ''version'' | _ \<Rightarrow> PNone)"

lemma version_spans_step:
  assumes "version_spans count end versions (s # ss) = Inr r"
  obtains e v where "end < e" "e \<le> int count" "span_version s = PStr v"
    "\<And>i. span_covers s i \<longleftrightarrow> end \<le> i \<and> i < e" "version_spans count e (List.insert v versions) ss = Inr r"
proof -
  from assms obtain d where s: "s = PDict d" by (cases s) auto
  from assms obtain a e v where d: "dget d ''start'' = PInt a" "dget d ''end'' = PInt e" "dget d ''version'' = PStr v"
    by (cases "dget d ''start''"; cases "dget d ''end''"; cases "dget d ''version''") (simp_all add: s)
  with assms have "a = end" "end < e" "e \<le> int count" "version_spans count e (List.insert v versions) ss = Inr r"
    by (auto simp: s split: if_splits)
  with d show thesis by (intro that [of e v]) (auto simp: s span_version_def span_covers_def)
qed

lemma version_spans_covers:
  assumes "version_spans count end versions ss = Inr (e, vs)"
  shows "end \<le> e \<and> (\<forall>i. end \<le> i \<and> i < e \<longrightarrow> list_ex (\<lambda>s. span_covers s i) ss) \<and>
         set vs = set versions \<union> {v. PStr v \<in> set (map span_version ss)} \<and>
         list_all (\<lambda>s. is_str (span_version s)) ss"
  using assms
proof (induction ss arbitrary: "end" versions)
  case (Cons s ss)
  from version_spans_step [OF Cons.prems] obtain m v where m: "end < m" "span_version s = PStr v"
    and c: "\<And>i. span_covers s i \<longleftrightarrow> end \<le> i \<and> i < m"
    and r: "version_spans count m (List.insert v versions) ss = Inr (e, vs)" by metis
  from Cons.IH [OF r] m(1) have "end \<le> e" "\<And>i. m \<le> i \<Longrightarrow> i < e \<Longrightarrow> list_ex (\<lambda>s. span_covers s i) ss"
    and "set vs = insert v (set versions) \<union> {v. PStr v \<in> set (map span_version ss)}"
    and "list_all (\<lambda>s. is_str (span_version s)) ss"
    by auto
  with m c show ?case by auto (metis not_less)
qed simp

lemma version_spans_distinct:
  "version_spans count end versions ss = Inr (e, vs) \<Longrightarrow> distinct versions \<Longrightarrow> distinct vs"
proof (induction ss arbitrary: "end" versions)
  case (Cons s ss)
  from version_spans_step [OF Cons.prems(1)] obtain m v
    where "version_spans count m (List.insert v versions) ss = Inr (e, vs)" by metis
  from Cons.IH [OF this] Cons.prems(2) show ?case by simp
qed simp

text \<open>
  A recorded turn comes from one policy version: when the engine reports version spans, they cover
  every token of the completion, all of them name the same version, and that is the version recorded
  with the turn; it also equals the version the response itself names, if any.
\<close>

theorem one_policy_version_per_turn:
  assumes "weight_version repr output choice count = Inr meta"
    and "dget choice ''weight_versions'' = PList spans" and "0 < count"
  shows "\<exists>v. dget meta ''weight_version'' = PStr v \<and>
           (\<forall>i. 0 \<le> i \<and> i < int count \<longrightarrow> list_ex (\<lambda>s. span_covers s i) spans) \<and>
           list_all (\<lambda>s. span_version s = PStr v) spans \<and>
           (dget output ''weight_version'' \<noteq> PNone \<longrightarrow> py_str repr (dget output ''weight_version'') = v)"
proof -
  let ?meta = "engine_meta repr output"
  from assms(1) obtain e vs where sp: "version_spans count 0 [] spans = Inr (e, vs)"
    and one: "e = int count" "length vs \<le> 1"
    and r: "(case vs of [] \<Rightarrow> Inr ?meta
       | v # _ \<Rightarrow> rbind (require (dget_or ?meta ''weight_version'' (PStr v) = PStr v) ConflictingVersions)
           (\<lambda>_. Inr (dset ''weight_version'' (PStr v) ?meta))) = Inr meta"
    by (auto simp: weight_version_def assms(2) rbind_eq_Inr require_eq Let_def)
  note cover = version_spans_covers [OF sp]
  have "vs \<noteq> []"
  proof
    assume vs: "vs = []"
    from cover assms(3) one(1) have "list_ex (\<lambda>s. span_covers s 0) spans" by auto
    then obtain s where s: "s \<in> set spans" by (auto simp: list_ex_iff)
    then obtain v where "span_version s = PStr v" using cover by (auto simp: list_all_iff is_str_iff)
    then have "PStr v \<in> set (map span_version spans)" using s by (metis image_eqI set_map)
    with cover vs show False by auto
  qed
  with one(2) obtain v where v: "vs = [v]" by (cases vs) auto
  with cover have "list_all (\<lambda>s. span_version s = PStr v) spans"
    by (auto simp: list_all_iff is_str_iff) (metis (mono_tags) image_eqI insertI1 insert_absorb mem_Collect_eq singletonD)
  moreover from r have "dget meta ''weight_version'' = PStr v" "dget_or ?meta ''weight_version'' (PStr v) = PStr v"
    by (auto simp: v rbind_eq_Inr require_eq)
  ultimately show ?thesis
    using cover one(1) by (auto simp: engine_meta_def dget_or_def split: if_splits)
qed

definition demo_spans :: "pyval list" where
  "demo_spans = [PDict [(''start'', PInt 0), (''end'', PInt 1), (''version'', PStr ''v3'')],
                 PDict [(''start'', PInt 1), (''end'', PInt 2), (''version'', PStr ''v3'')]]"

theorem one_policy_version_per_turn_witness:
  "\<exists>v. dget [(''weight_version'', PStr ''v3'')] ''weight_version'' = PStr v \<and>
       list_all (\<lambda>s. span_version s = PStr v) demo_spans"
proof -
  have "weight_version demo_repr [] [(''weight_versions'', PList demo_spans)] 2 = Inr [(''weight_version'', PStr ''v3'')]"
    by code_simp
  from one_policy_version_per_turn [OF this, of demo_spans] show ?thesis by auto
qed

subsection \<open>Captures\<close>

text \<open>numpy's promise: an array has as many items as its shape says.\<close>

definition np_shaped :: "(bytes \<Rightarrow> np_value option) \<Rightarrow> bool" where
  "np_shaped np_load \<longleftrightarrow>
     (\<forall>b shape kind items. np_load b = Some (NpArray shape kind items) \<longrightarrow> length items = prod_list shape)"

lemma length_slice_from: "0 \<le> k \<Longrightarrow> int (length (slice_from k xs)) = max 0 (int (length xs) - k)"
  by (simp add: slice_from_def)

lemma slice_rows_length:
  assumes "length items = n * cols" and "0 \<le> start" and "start \<le> int n"
  shows "int (length (slice_from (start * int cols) items)) = (int n - start) * int cols"
proof -
  have "start * int cols \<le> int n * int cols" using assms(3) by (simp add: mult_right_mono)
  with assms show ?thesis by (simp add: length_slice_from left_diff_distrib)
qed

text \<open>
  The vLLM capture is repacked exactly or refused, like SGLang's: whatever array the engine sends,
  a blob is only produced when it covers every position from the recorder's row count to the next
  to last one, in the recorded number of columns, with every expert id in a byte; the items are those
  of the array, or its last rows when it covers the whole stream.
\<close>

theorem packed_vllm_capture_is_exact:
  assumes "np_shaped np_load" and "0 \<le> prior_start prior"
    and "pack_vllm_routed_experts np_load choice prompt_len completion_len prior = Inr blob"
  shows "\<exists>encoded shape kind items kept.
           dget choice ''routed_experts'' = PStr encoded \<and>
           Option.bind (b64decode True encoded) np_load = Some (NpArray shape kind items) \<and>
           suffix kept items \<and> (prior_start prior = 0 \<longrightarrow> kept = items) \<and>
           capture_exact blob prompt_len completion_len prior kept"
proof -
  let ?full = "int prompt_len + int completion_len - 1" and ?start = "prior_start prior"
  from assms(3) obtain encoded v n items where e: "dget choice ''routed_experts'' = PStr encoded"
    and v: "Option.bind (b64decode True encoded) np_load = Some v" and a: "vllm_array v = Inr (n, items)"
    and b: "pack_array prior (?full - ?start) (length items div n)
              (trim_array prior ?full (length items div n) n items) = Inr blob"
    unfolding pack_vllm_routed_experts_def Let_def rbind_eq_Inr
    by (cases "dget choice ''routed_experts''") (auto simp: rbind_eq_Inr split: option.splits)
  from a obtain shape kind where sh: "v = NpArray shape kind items" "hd shape = n" "items \<noteq> []"
    and "length shape \<in> {2, 3}"
    by (cases v) (auto simp: vllm_array_def rbind_eq_Inr require_eq)
  then have "shape \<noteq> []" by auto
  from v assms(1) have "length items = prod_list shape"
    by (auto simp: np_shaped_def sh(1) bind_eq_Some_conv)
  with sh(2) \<open>shape \<noteq> []\<close> obtain k where "length items = n * k" by (cases shape) auto
  moreover from this sh(3) have "0 < n" by (cases n) auto
  ultimately have len: "length items = n * (length items div n)" by simp
  obtain n' kept where t: "trim_array prior ?full (length items div n) n items = (n', kept)" by fastforce
  from b have rows: "0 < ?full - ?start" "int n' = ?full - ?start"
    and hint: "case prior_cols prior of None \<Rightarrow> True | Some c \<Rightarrow> int (length items div n) = c"
    and u: "uint8_values kept"
    and blob: "blob = experts_blob kept (?full - ?start) (int (length items div n)) ?start"
    unfolding t pack_array_def fst_conv snd_conv rbind_eq_Inr require_eq by blast+
  have kept: "int (length kept) = (?full - ?start) * int (length items div n)"
  proof (cases "?start \<noteq> 0 \<and> int n = ?full")
    case True
    then have "kept = slice_from (?start * int (length items div n)) items"
      using t by (simp add: trim_array_def)
    with slice_rows_length [OF len assms(2)] True rows(1) show ?thesis by simp
  next
    case False
    with t rows(2) show ?thesis
      using len by (auto simp: trim_array_def) (metis of_nat_mult)
  qed
  have "0 < length items div n"
    using sh(3) len by (metis gr0I length_0_conv mult_is_0)
  with kept rows(1) have ne: "kept \<noteq> []" and div: "int (length kept) div (?full - ?start) = int (length items div n)"
    and "int (length kept) mod (?full - ?start) = 0"
    by auto
  with rows(1) hint u have "pack_rows kept (?full - ?start) prior = Inr blob"
    unfolding pack_rows_def blob div require_def by simp
  moreover have "suffix kept items" and "?start = 0 \<longrightarrow> kept = items"
    using t by (auto simp: trim_array_def slice_from_def suffix_drop split: if_splits)
  ultimately show ?thesis
    using e v sh(1) pack_rows_exact by blast
qed

definition demo_np_load :: "bytes \<Rightarrow> np_value option" where
  "demo_np_load b = Some (NpArray [2, 1, length b] ''u'' (map int (b @ b)))"

theorem packed_vllm_capture_is_exact_witness:
  "\<exists>kept. suffix kept [5, 6, 5, 6] \<and> capture_exact (experts_blob [5, 6] 1 2 1) 1 2 (Some (1, 2)) kept"
proof -
  have shaped: "np_shaped demo_np_load"
    by (simp add: np_shaped_def demo_np_load_def)
  have d: "Option.bind (b64decode True (b64encode [5, 6])) demo_np_load = Some (NpArray [2, 1, 2] ''u'' [5, 6, 5, 6])"
    and "pack_vllm_routed_experts demo_np_load [(''routed_experts'', PStr (b64encode [5, 6]))] 1 2 (Some (1, 2)) =
      Inr (experts_blob [5, 6] 1 2 1)"
    by code_simp+
  from packed_vllm_capture_is_exact [OF shaped _ this(2)] d show ?thesis
    by (auto simp: prior_start_def simp del: b64encode.simps)
qed

end
