(* ===== verification/Profiles.thy ===== *)
theory Profiles
  imports StreamSafety Sampling
begin

section \<open>Model profiles and their resolution\<close>

text \<open>
  The profiles of \<^verbatim>\<open>tokenization/*.py\<close>, the mapping of \<^verbatim>\<open>model_registry.py\<close> from model names to
  profiles, and the continuation hook of the gpt-oss profile, which names the speaker of every tool
  result. The contents of \<^verbatim>\<open>mapping.json\<close>, whether a tokenizer directory exists, and the tokenizers
  themselves are arguments.
\<close>

record model_profile =
  mp_name :: string
  mp_tokenizer_dir :: string
  mp_generation_prompt :: string
  mp_assistant_turn_end :: string
  mp_continuation_headers :: "string list"
  mp_assistant_turn_endings :: "string list"
  mp_prepare_delta :: "delta_hook option"
  mp_stop_token_ids :: "int list"
  mp_reasoning_efforts :: "string list"
  mp_default_effort :: "string option"
  mp_tool_parser :: "string option"

subsection \<open>Tool-result speakers of gpt-oss\<close>

text \<open>Exceptions Python itself raises on a malformed echo.\<close>

abbreviation hook_crash :: "ts_error + 'a" where
  "hook_crash \<equiv> Inl (HookRaised (OtherError ''AttributeError''))"

fun hashable :: "pyval \<Rightarrow> bool" where
  "hashable (PList _) = False"
| "hashable (PDict _) = False"
| "hashable (PTuple xs) = list_all hashable xs"
| "hashable _ = True"

fun as_calls :: "pyval list \<Rightarrow> ts_error + pydict list" where
  "as_calls [] = Inr []"
| "as_calls (PDict d # cs) =
     (if truthy (dget d ''id'') \<and> \<not> hashable (dget d ''id'') then Inl (HookRaised TypeError)
      else rbind (as_calls cs) (\<lambda>ds. Inr (d # ds)))"
| "as_calls (_ # cs) = hook_crash"

definition assistant_calls :: "pydict \<Rightarrow> ts_error + pydict list" where
  "assistant_calls assistant =
     (let calls = dget assistant ''tool_calls'' in
      if \<not> truthy calls then Inr []
      else (case seq_items calls of Some cs \<Rightarrow> as_calls cs | None \<Rightarrow> hook_crash))"

text \<open>\<^verbatim>\<open>by_id.get(call_id)\<close>: the last call with that id.\<close>

definition call_by_id :: "pydict list \<Rightarrow> pyval \<Rightarrow> pydict option" where
  "call_by_id calls call_id =
     List.find (\<lambda>c. truthy (dget c ''id'') \<and> py_eq (dget c ''id'') call_id) (rev calls)"

definition call_name :: "pydict \<Rightarrow> ts_error + pyval" where
  "call_name call =
     (if call = [] then Inr PNone
      else if truthy (dget call ''function'') then
        (case dget call ''function'' of PDict f \<Rightarrow> Inr (dget f ''name'') | _ \<Rightarrow> hook_crash)
      else Inr (dget call ''name''))"

definition speaker_of :: "pydict list \<Rightarrow> pydict \<Rightarrow> ts_error + string" where
  "speaker_of calls message =
     (let call_id = dget message ''tool_call_id'' in
      rbind (if truthy call_id then
               (if hashable call_id then Inr (call_by_id calls call_id) else Inl (HookRaised TypeError))
             else Inr (case calls of [c] \<Rightarrow> Some c | _ \<Rightarrow> None)) (\<lambda>call.
      rbind (case call of None \<Rightarrow> Inr PNone | Some c \<Rightarrow> call_name c) (\<lambda>name.
        case name of
          PStr n \<Rightarrow>
            rbind (require (n \<noteq> []) UnknownToolCall) (\<lambda>_.
            rbind (require (\<not> truthy (dget message ''name'') \<or> dget message ''name'' = PStr n) ToolNameMismatch)
              (\<lambda>_. Inr n))
        | _ \<Rightarrow> Inl UnknownToolCall)))"

definition name_result :: "pydict list \<Rightarrow> pydict \<Rightarrow> ts_error + pydict" where
  "name_result calls message =
     (if \<not> role_in [''user'', ''tool''] message then Inl SystemInDelta
      else if role_is ''tool'' message then
        rbind (speaker_of calls message) (\<lambda>n. Inr (dset ''name'' (PStr n) message))
      else Inr message)"

definition prepare_delta_messages :: delta_hook where
  "prepare_delta_messages messages assistant =
     rbind (assistant_calls assistant) (\<lambda>calls. traverse_from 0 (\<lambda>_. name_result calls) messages)"

subsection \<open>The profiles\<close>

definition no_profile :: model_profile where
  "no_profile =
     \<lparr>mp_name = [], mp_tokenizer_dir = [], mp_generation_prompt = [], mp_assistant_turn_end = [],
      mp_continuation_headers = [], mp_assistant_turn_endings = [], mp_prepare_delta = None,
      mp_stop_token_ids = [], mp_reasoning_efforts = [], mp_default_effort = None, mp_tool_parser = None\<rparr>"

definition newline :: string where "newline = [CHR 10]"

definition qwen3_5 :: model_profile where
  "qwen3_5 = no_profile
     \<lparr>mp_name := ''qwen3_5'', mp_tokenizer_dir := ''Qwen3.5'',
      mp_generation_prompt := ''<|im_start|>assistant'' @ newline,
      mp_assistant_turn_end := ''<|im_end|>'' @ newline, mp_tool_parser := Some ''qwen3_coder''\<rparr>"

definition qwen3_6 :: model_profile where
  "qwen3_6 = no_profile
     \<lparr>mp_name := ''qwen3_6'', mp_tokenizer_dir := ''Qwen3.6'',
      mp_generation_prompt := ''<|im_start|>assistant'' @ newline,
      mp_assistant_turn_end := ''<|im_end|>'' @ newline, mp_tool_parser := Some ''qwen3_coder''\<rparr>"

definition qwen3_8 :: model_profile where
  "qwen3_8 = no_profile
     \<lparr>mp_name := ''qwen3_8'', mp_tokenizer_dir := ''Qwen3.8'',
      mp_reasoning_efforts := [''low'', ''medium'', ''xhigh''], mp_default_effort := Some ''xhigh'',
      mp_generation_prompt := ''<|im_start|>assistant'' @ newline,
      mp_assistant_turn_end := ''<|im_end|>'' @ newline, mp_tool_parser := Some ''qwen3_coder''\<rparr>"

definition llama3_1 :: model_profile where
  "llama3_1 = no_profile
     \<lparr>mp_name := ''llama3_1'', mp_tokenizer_dir := ''Llama-3.1'',
      mp_generation_prompt := ''<|start_header_id|>assistant<|end_header_id|>'' @ newline @ newline,
      mp_assistant_turn_end := ''<|eot_id|>'', mp_tool_parser := Some ''llama3_json''\<rparr>"

definition gpt_oss :: model_profile where
  "gpt_oss = no_profile
     \<lparr>mp_name := ''gpt_oss'', mp_tokenizer_dir := ''GPT-OSS'',
      mp_reasoning_efforts := [''low'', ''medium'', ''high''], mp_default_effort := Some ''medium'',
      mp_generation_prompt := ''<|start|>assistant'', mp_assistant_turn_end := ''<|end|>'',
      mp_assistant_turn_endings := [''<|return|>'', ''<|call|>'', ''<|endoftext|>''],
      mp_prepare_delta := Some prepare_delta_messages,
      mp_stop_token_ids := [200002, 199999, 200012], mp_tool_parser := Some ''gpt_oss''\<rparr>"

definition glm5_3 :: model_profile where
  "glm5_3 = no_profile
     \<lparr>mp_name := ''glm5_3'', mp_tokenizer_dir := ''GLM-5.3-Flash'',
      mp_reasoning_efforts := [''low'', ''high'', ''max''], mp_default_effort := Some ''max'',
      mp_generation_prompt := ''<|assistant|>'', mp_assistant_turn_end := [],
      mp_continuation_headers := [''<|user|>'', ''<|observation|>''], mp_tool_parser := Some ''glm47''\<rparr>"

definition profile_modules :: "(string \<times> model_profile) list" where
  "profile_modules =
     [(''qwen3_5'', qwen3_5), (''qwen3_6'', qwen3_6), (''qwen3_8'', qwen3_8), (''llama3_1'', llama3_1),
      (''gpt_oss'', gpt_oss), (''glm5_3'', glm5_3)]"

subsection \<open>Resolution\<close>

datatype model_error =
    BadMapping
  | BadMappingEntry string
  | EmptyModelName
  | UnknownModel string
  | NoProfileModule string
  | NoTokenizerDirectory string

text \<open>\<open>mapping\<close> is the parsed \<^verbatim>\<open>mapping.json\<close>.\<close>

fun mapping_entries :: "pydict \<Rightarrow> model_error + (string \<times> string) list" where
  "mapping_entries [] = Inr []"
| "mapping_entries ((model, v) # d) =
     (case v of
        PStr s \<Rightarrow>
          if strip s = [] then Inl (BadMappingEntry model)
          else rbind (mapping_entries d) (\<lambda>es. Inr ((model, strip s) # es))
      | _ \<Rightarrow> Inl (BadMappingEntry model))"

definition load_model_mapping :: "pyval \<Rightarrow> model_error + (string \<times> string) list" where
  "load_model_mapping mapping = (case mapping of PDict d \<Rightarrow> mapping_entries d | _ \<Rightarrow> Inl BadMapping)"

definition get_profile :: "string \<Rightarrow> model_error + model_profile" where
  "get_profile name =
     (case map_of profile_modules name of None \<Rightarrow> Inl (NoProfileModule name) | Some p \<Rightarrow> Inr p)"

definition resolve_profile :: "pyval \<Rightarrow> (string \<Rightarrow> bool) \<Rightarrow> string \<Rightarrow> model_error + model_profile" where
  "resolve_profile mapping is_dir model_name =
     (let name = strip model_name in
      rbind (require (name \<noteq> []) EmptyModelName) (\<lambda>_.
      rbind (load_model_mapping mapping) (\<lambda>profiles.
        case map_of profiles name of
          None \<Rightarrow> Inl (UnknownModel name)
        | Some p \<Rightarrow>
            rbind (get_profile p) (\<lambda>profile.
            rbind (require (is_dir (mp_tokenizer_dir profile)) (NoTokenizerDirectory name)) (\<lambda>_.
              Inr profile)))))"

definition MAX_SESSIONS :: nat where "MAX_SESSIONS = 4096"

definition profile_manager :: "tokenizer \<Rightarrow> model_profile \<Rightarrow> manager" where
  "profile_manager tok p =
     init_manager tok MAX_SESSIONS (mp_generation_prompt p) MAX_TURN_REPLAYS (mp_assistant_turn_end p)
       (mp_continuation_headers p) (mp_assistant_turn_endings p) (mp_prepare_delta p) (mp_default_effort p)"

subsection \<open>What the hook changes\<close>

lemma speaker_of_Inr:
  assumes "speaker_of calls m = Inr n"
  shows "\<exists>c\<in>set calls. call_name c = Inr (PStr n) \<and> n \<noteq> [] \<and>
           (truthy (dget m ''tool_call_id'') \<longrightarrow> py_eq (dget c ''id'') (dget m ''tool_call_id''))"
proof -
  let ?id = "dget m ''tool_call_id''"
  from assms obtain call name where call: "(if truthy ?id then
       (if hashable ?id then Inr (call_by_id calls ?id) else Inl (HookRaised TypeError))
     else Inr (case calls of [c] \<Rightarrow> Some c | _ \<Rightarrow> None)) = Inr call"
    and "(case call of None \<Rightarrow> Inr PNone | Some c \<Rightarrow> call_name c) = Inr name"
    and "(case name of
          PStr n \<Rightarrow>
            rbind (require (n \<noteq> []) UnknownToolCall) (\<lambda>_.
            rbind (require (\<not> truthy (dget m ''name'') \<or> dget m ''name'' = PStr n) ToolNameMismatch)
              (\<lambda>_. Inr n))
        | _ \<Rightarrow> Inl UnknownToolCall) = Inr n"
    unfolding speaker_of_def Let_def rbind_eq_Inr by blast
  then have name: "(case call of None \<Rightarrow> Inr PNone | Some c \<Rightarrow> call_name c) = Inr (PStr n)" and "n \<noteq> []"
    by (cases name; auto simp: rbind_eq_Inr require_eq)+
  from name obtain c where c: "call = Some c" "call_name c = Inr (PStr n)"
    by (cases call) auto
  show ?thesis
  proof (cases "truthy ?id")
    case True
    with call c(1) have "List.find (\<lambda>c. truthy (dget c ''id'') \<and> py_eq (dget c ''id'') ?id) (rev calls) = Some c"
      by (simp add: call_by_id_def split: if_splits)
    then have "c \<in> set (rev calls)" "py_eq (dget c ''id'') ?id"
      unfolding find_Some_iff by (metis nth_mem)+
    then show ?thesis using c(2) \<open>n \<noteq> []\<close> by auto
  next
    case False
    with call c(1) have "c \<in> set calls" by (auto split: list.splits)
    with c(2) False \<open>n \<noteq> []\<close> show ?thesis by blast
  qed
qed

text \<open>
  The gpt-oss continuation hook annotates and never rewrites: it keeps the number, the roles and the
  contents of the new messages, leaves user messages as they are, and gives every tool result the
  function name of one of the preceding assistant's calls, the one with the result's call id when it
  names one. Anything it cannot attribute, and any system message, is refused.
\<close>

theorem tool_results_name_their_call:
  assumes "prepare_delta_messages messages assistant = Inr prepared" and "i < length messages"
    and "assistant_calls assistant = Inr calls"
  shows "length prepared = length messages \<and> same_message (messages ! i) (prepared ! i) \<and>
         (if role_is ''tool'' (messages ! i)
          then (\<exists>c\<in>set calls. \<exists>n. call_name c = Inr (PStr n) \<and> n \<noteq> [] \<and> dget (prepared ! i) ''name'' = PStr n \<and>
                  (truthy (dget (messages ! i) ''tool_call_id'') \<longrightarrow>
                     py_eq (dget c ''id'') (dget (messages ! i) ''tool_call_id'')))
          else prepared ! i = messages ! i \<and> role_is ''user'' (messages ! i))"
proof -
  have t: "traverse_from 0 (\<lambda>_. name_result calls) messages = Inr prepared"
    using assms(1,3) by (simp add: prepare_delta_messages_def)
  have r: "name_result calls (messages ! i) = Inr (prepared ! i)"
    using traverse_from_nth [OF t assms(2)] .
  show ?thesis
  proof (cases "role_is ''tool'' (messages ! i)")
    case True
    with r obtain n where n: "speaker_of calls (messages ! i) = Inr n"
      and p: "prepared ! i = dset ''name'' (PStr n) (messages ! i)"
      by (auto simp: name_result_def rbind_eq_Inr split: if_splits)
    from p have "dget (prepared ! i) ''name'' = PStr n" "same_message (messages ! i) (prepared ! i)"
      by (simp_all add: same_message_def)
    with True show ?thesis
      using traverse_from_length [OF t] speaker_of_Inr [OF n] by auto
  next
    case False
    with r show ?thesis
      using traverse_from_length [OF t]
      by (auto simp: name_result_def role_is_def role_in_def split: if_splits pyval.splits)
  qed
qed

definition demo_call :: pydict where
  "demo_call = [(''id'', PStr ''call_1''), (''type'', PStr ''function''),
                (''function'', PDict [(''name'', PStr ''ls''), (''arguments'', PStr ''{}'')])]"

definition demo_result :: pydict where
  "demo_result = [(''role'', PStr ''tool''), (''content'', PStr ''a b''), (''tool_call_id'', PStr ''call_1'')]"

theorem tool_results_name_their_call_witness:
  "same_message demo_result (dset ''name'' (PStr ''ls'') demo_result) \<and>
   (\<exists>c n. c = demo_call \<and> call_name c = Inr (PStr n) \<and> n = ''ls'')"
proof -
  have "prepare_delta_messages [demo_result] [(''tool_calls'', PList [PDict demo_call])] =
      Inr [dset ''name'' (PStr ''ls'') demo_result]"
    "assistant_calls [(''tool_calls'', PList [PDict demo_call])] = Inr [demo_call]"
    by code_simp+
  from tool_results_name_their_call [OF this(1) _ this(2), of 0] show ?thesis
    by (simp add: role_is_def demo_result_def demo_call_def) 
qed

end
