(* ===== verification/DirectTransport.thy ===== *)
theory DirectTransport
  imports VllmTransport Profiles
begin

section \<open>The direct transport\<close>

text \<open>
  \<^verbatim>\<open>rollout_provider.py\<close>: endpoint wiring, sticky round-robin placement of streams, discovery of each
  endpoint's model and context window, the check that the served model uses the tokenizer profile of
  the request, and vLLM's \<^verbatim>\<open>/v1/completions\<close> with token ids in and out. What the endpoints answer are
  arguments: \<open>identity\<close> to the model query, \<open>info\<close> to \<^verbatim>\<open>/get_server_info\<close>, \<open>post\<close> to a generation.
  Session pins live in the provider; the caller passes the pinned model.
\<close>

subsection \<open>Wiring\<close>

definition rstrip_slash :: "string \<Rightarrow> string" where
  "rstrip_slash s = rev (dropWhile (\<lambda>c. c = CHR ''/'') (rev s))"

definition remove_suffix :: "string \<Rightarrow> string \<Rightarrow> string" where
  "remove_suffix suf s = (if suf \<noteq> [] \<and> suffix suf s then take (length s - length suf) s else s)"

definition remove_prefix :: "string \<Rightarrow> string \<Rightarrow> string" where
  "remove_prefix pre s = (if prefix pre s then drop (length pre) s else s)"

datatype key_spec = NoKeys | SharedKey string | KeyList "string option list"

datatype wiring_error = NoBaseUrl | BlankBaseUrls "nat list" | KeyCount nat nat

definition server_root :: "string \<Rightarrow> string" where
  "server_root url = remove_suffix ''/v1'' (rstrip_slash (strip url))"

definition normalize_engine_endpoints ::
  "string list \<Rightarrow> key_spec \<Rightarrow> wiring_error + string list \<times> string option list" where
  "normalize_engine_endpoints base_urls api_keys =
     (let roots = map server_root base_urls;
          blank = map fst (filter (\<lambda>(i, r). r = []) (zip [0..<length roots] roots))
      in rbind (require (roots \<noteq> []) NoBaseUrl) (\<lambda>_.
         rbind (require (blank = []) (BlankBaseUrls blank)) (\<lambda>_.
           case api_keys of
             NoKeys \<Rightarrow> Inr (roots, replicate (length roots) None)
           | SharedKey k \<Rightarrow> Inr (roots, replicate (length roots) (Some k))
           | KeyList ks \<Rightarrow>
               if length ks = 1 \<and> length roots > 1 then Inr (roots, concat (replicate (length roots) ks))
               else if length ks \<noteq> length roots then Inl (KeyCount (length ks) (length roots))
               else Inr (roots, ks))))"

record direct =
  dr_endpoints :: nat
  dr_sessions :: "(string, nat) odict"
  dr_rr_index :: nat
  dr_model_ids :: "pyval list"
  dr_model_lens :: "int option list"
  dr_windows :: "context_window list"

definition init_direct :: "nat \<Rightarrow> direct" where
  "init_direct n =
     \<lparr>dr_endpoints = n, dr_sessions = [], dr_rr_index = 0, dr_model_ids = replicate n PNone,
      dr_model_lens = replicate n None, dr_windows = replicate n (init_window None)\<rparr>"

subsection \<open>Placement\<close>

definition acquire_endpoint :: "string option \<Rightarrow> direct \<Rightarrow> nat \<times> direct" where
  "acquire_endpoint session_id d =
     (case Option.bind session_id (map_of (dr_sessions d)) of
        Some i \<Rightarrow> (i, d)
      | None \<Rightarrow>
          (let index = dr_rr_index d mod dr_endpoints d;
               d = d\<lparr>dr_rr_index := index + 1\<rparr>
           in (index, case session_id of
                 None \<Rightarrow> d
               | Some s \<Rightarrow> d\<lparr>dr_sessions := AList.update s index (dr_sessions d)\<rparr>)))"

definition release_endpoint :: "string \<Rightarrow> direct \<Rightarrow> direct" where
  "release_endpoint s d = d\<lparr>dr_sessions := od_pop s (dr_sessions d)\<rparr>"

subsection \<open>Discovery\<close>

text \<open>\<^verbatim>\<open>int(max_len) if max_len else None\<close>.\<close>

definition model_length :: "pyval \<Rightarrow> engine_error + int option" where
  "model_length v =
     (if \<not> truthy v then Inr None
      else rbind (caught_int v) (\<lambda>n. case n of None \<Rightarrow> Inl Crash | Some i \<Rightarrow> Inr (Some i)))"

definition vllm_model_id :: "http_reply \<Rightarrow> nat \<Rightarrow> (direct, engine_error, pyval) action" where
  "vllm_model_id identity index d =
     (if dr_model_ids d ! index \<noteq> PNone then (Inr (dr_model_ids d ! index), d)
      else
        sbind (slift (rbind (read_json identity) as_dict)) (\<lambda>body.
        let models = or_empty (dget body ''data'') in
        sbind (slift (require (truthy models) NoServedModel)) (\<lambda>_.
        sbind (slift (case models of PList (m # _) \<Rightarrow> as_dict m | _ \<Rightarrow> Inl Crash)) (\<lambda>m.
        sbind (slift (model_length (dget m ''max_model_len''))) (\<lambda>len d.
          let d = d\<lparr>dr_model_lens := (dr_model_lens d)[index := len]\<rparr> in
          if has_key m ''id''
          then (Inr (dget m ''id''), d\<lparr>dr_model_ids := (dr_model_ids d)[index := dget m ''id'']\<rparr>)
          else (Inl Crash, d))))) d)"

definition sglang_model_id :: "http_reply \<Rightarrow> nat \<Rightarrow> (direct, engine_error, pyval) action" where
  "sglang_model_id identity index d =
     (if dr_model_ids d ! index \<noteq> PNone then (Inr (dr_model_ids d ! index), d)
      else
        sbind (slift (read_json identity)) (\<lambda>info.
          let model = (case info of
                         PDict m \<Rightarrow> if truthy (dget m ''served_model_name'') then dget m ''served_model_name''
                                    else dget m ''model_path''
                       | _ \<Rightarrow> PNone)
          in case model of
               PStr s \<Rightarrow>
                 if strip s = [] then slift (Inl NoServedModel)
                 else (\<lambda>d. (Inr (PStr (strip s)), d\<lparr>dr_model_ids := (dr_model_ids d)[index := PStr (strip s)]\<rparr>))
             | _ \<Rightarrow> slift (Inl NoServedModel)) d)"

definition sglang_context_length :: "http_reply \<Rightarrow> nat \<Rightarrow> (direct, engine_error, int option) action" where
  "sglang_context_length info index d =
     (let (r, w) = window_get info (dr_windows d ! index)
      in (r, d\<lparr>dr_windows := (dr_windows d)[index := w]\<rparr>))"

subsection \<open>The served model\<close>

type_synonym resolver = "string \<Rightarrow> model_error + model_profile"

definition basename :: "string \<Rightarrow> string" where
  "basename s =
     (let s = rstrip_slash s in case rpartition_at ''/'' s of None \<Rightarrow> s | Some (_, b) \<Rightarrow> b)"

fun first_known :: "resolver \<Rightarrow> string \<Rightarrow> string list \<Rightarrow> engine_error + model_profile" where
  "first_known resolve served [] = Inl (UnrecognizedModel served)"
| "first_known resolve served (n # ns) =
     (case resolve n of
        Inr p \<Rightarrow> Inr p
      | Inl (UnknownModel _) \<Rightarrow> first_known resolve served ns
      | Inl _ \<Rightarrow> Inl Crash)"

definition validate_served_model :: "resolver \<Rightarrow> string option \<Rightarrow> pyval \<Rightarrow> engine_error + unit" where
  "validate_served_model resolve claimed served =
     (case claimed of
        None \<Rightarrow> Inl UnpinnedModel
      | Some c \<Rightarrow>
          (case served of
             PStr s \<Rightarrow>
               rbind (first_known resolve s [s, basename s]) (\<lambda>p.
               rbind (case resolve c of Inl _ \<Rightarrow> Inl Crash | Inr q \<Rightarrow> Inr q) (\<lambda>q.
                 require (mp_name p = mp_name q) WrongModel))
           | _ \<Rightarrow> Inl Crash))"

subsection \<open>vLLM completions\<close>

definition completions_payload :: "pyval \<Rightarrow> int list \<Rightarrow> pydict \<Rightarrow> pydict" where
  "completions_payload served prompt_ids sampling =
     dict_update
       [(''model'', served), (''prompt'', PList (map PInt prompt_ids)),
        (''max_tokens'', dget_or sampling ''max_tokens'' (PInt DEFAULT_MAX_TOKENS)),
        (''logprobs'', if truthy (dget sampling ''logprobs'') then PInt 0 else PNone),
        (''return_tokens_as_token_ids'', PBool True)]
       (pick_keys (SAMPLING_PARAM_KEYS @ [''stop'', ''seed'', ''stop_token_ids'']) (\<lambda>v. v \<noteq> PNone) sampling)"

definition completion_pair :: "nat \<Rightarrow> pyval \<times> pyval \<Rightarrow> engine_error + int \<times> flt" where
  "completion_pair i e =
     (case e of
        (PStr t, lp) \<Rightarrow>
          (let digits = remove_prefix ''token_id:'' t in
           if prefix ''token_id:'' t \<and> digits \<noteq> [] \<and> list_all is_digit digits \<and> is_number lp then
             (case int_of_digits digits of
                None \<Rightarrow> Inl Crash
              | Some n \<Rightarrow> rbind (finite_logprob lp) (\<lambda>f. Inr (n, f)))
           else Inl (BadTokenPair i))
      | _ \<Rightarrow> Inl (BadTokenPair i))"

definition first_choice :: "pyval \<Rightarrow> engine_error + pydict" where
  "first_choice v =
     rbind (as_dict v) (\<lambda>d. case dget d ''choices'' of PList (c # _) \<Rightarrow> as_dict c | _ \<Rightarrow> Inl Crash)"

definition completions_response :: "pyval \<Rightarrow> engine_error + engine_result" where
  "completions_response response =
     rbind (first_choice response) (\<lambda>choice.
     rbind (as_dict (if truthy (dget choice ''logprobs'') then dget choice ''logprobs'' else PDict [])) (\<lambda>blob.
       case (or_empty (dget blob ''tokens''), or_empty (dget blob ''token_logprobs'')) of
         (PList tokens, PList lps) \<Rightarrow>
           rbind (require (length tokens = length lps) LogprobsMisaligned) (\<lambda>_.
           rbind (traverse_from 0 completion_pair (zip tokens lps)) (\<lambda>pairs.
             Inr (map fst pairs, map snd pairs, dget choice ''finish_reason'', [])))
       | _ \<Rightarrow> Inl LogprobsMisaligned))"

subsection \<open>The engine call\<close>

record direct_world =
  dw_identity :: http_reply
  dw_info :: http_reply
  dw_post :: "pydict \<Rightarrow> http_reply"

definition direct_sglang ::
  "(pyval \<Rightarrow> string) \<Rightarrow> (bytes \<Rightarrow> int list option) \<Rightarrow> resolver \<Rightarrow> direct_world \<Rightarrow> string option \<Rightarrow> nat \<Rightarrow>
   int list \<Rightarrow> pydict \<Rightarrow> (direct, engine_error, pydict \<times> engine_result) action" where
  "direct_sglang repr i4 resolve world claimed index prompt_ids sampling =
     sbind (sglang_model_id (dw_identity world) index) (\<lambda>served.
     sbind (slift (validate_served_model resolve claimed served)) (\<lambda>_.
     sbind (sglang_context_length (dw_info world) index) (\<lambda>window.
     sbind (slift (clamp_to_context_window sampling (length prompt_ids) window)) (\<lambda>sampling.
     sbind (slift (sglang_generate repr i4 (dw_post world) prompt_ids sampling False None)) (\<lambda>r.
       sret (sampling, r))))))"

definition direct_vllm ::
  "resolver \<Rightarrow> direct_world \<Rightarrow> string option \<Rightarrow> nat \<Rightarrow> int list \<Rightarrow> pydict \<Rightarrow>
   (direct, engine_error, pydict \<times> engine_result) action" where
  "direct_vllm resolve world claimed index prompt_ids sampling =
     sbind (vllm_model_id (dw_identity world) index) (\<lambda>served.
     sbind (slift (validate_served_model resolve claimed served)) (\<lambda>_.
     sbind (\<lambda>d. slift (clamp_to_context_window sampling (length prompt_ids) (dr_model_lens d ! index)) d) (\<lambda>sampling.
     sbind (slift (rbind (read_json (dw_post world (completions_payload served prompt_ids sampling)))
                         completions_response)) (\<lambda>r.
       sret (sampling, r)))))"

definition direct_call_engine ::
  "(pyval \<Rightarrow> string) \<Rightarrow> (bytes \<Rightarrow> int list option) \<Rightarrow> resolver \<Rightarrow> string \<Rightarrow> direct_world \<Rightarrow> string option \<Rightarrow>
   string option \<Rightarrow> int list \<Rightarrow> pydict \<Rightarrow> (direct, engine_error, pydict \<times> engine_result) action" where
  "direct_call_engine repr i4 resolve engine world session_id claimed prompt_ids sampling d =
     (let (index, d) = acquire_endpoint session_id d
      in if engine = ''sglang''
         then direct_sglang repr i4 resolve world claimed index prompt_ids sampling d
         else direct_vllm resolve world claimed index prompt_ids sampling d)"

subsection \<open>Placement is sticky and fair\<close>

fun acquire_all :: "string list \<Rightarrow> direct \<Rightarrow> nat list \<times> direct" where
  "acquire_all [] d = ([], d)"
| "acquire_all (s # ss) d =
     (let (i, d) = acquire_endpoint (Some s) d; (is, d) = acquire_all ss d in (i # is, d))"

lemma acquire_bound: "map_of (dr_sessions d) s = Some i \<Longrightarrow> acquire_endpoint (Some s) d = (i, d)"
  by (simp add: acquire_endpoint_def)

lemma acquire_new:
  "map_of (dr_sessions d) s = None \<Longrightarrow>
   acquire_endpoint (Some s) d =
     (dr_rr_index d mod dr_endpoints d,
      d\<lparr>dr_rr_index := dr_rr_index d mod dr_endpoints d + 1,
        dr_sessions := AList.update s (dr_rr_index d mod dr_endpoints d) (dr_sessions d)\<rparr>)"
  by (simp add: acquire_endpoint_def Let_def)

lemma acquire_binds: "acquire_endpoint (Some s) d = (i, d') \<Longrightarrow> map_of (dr_sessions d') s = Some i"
  by (cases "map_of (dr_sessions d) s") (auto simp: acquire_bound acquire_new update_conv')

lemma acquire_keeps:
  "acquire_endpoint t d = (i, d') \<Longrightarrow> map_of (dr_sessions d) s = Some j \<Longrightarrow> map_of (dr_sessions d') s = Some j"
  by (auto simp: acquire_endpoint_def Let_def update_conv' split: option.splits)

lemma acquire_all_keeps:
  "acquire_all ss d = (is, d') \<Longrightarrow> map_of (dr_sessions d) s = Some j \<Longrightarrow> map_of (dr_sessions d') s = Some j"
proof (induction ss arbitrary: d "is")
  case (Cons t ss)
  obtain i d1 js d2 where "acquire_endpoint (Some t) d = (i, d1)" "acquire_all ss d1 = (js, d2)"
    by (metis surj_pair)
  with Cons acquire_keeps show ?case by fastforce
qed simp

lemma mod_shift: "Suc (r mod n + x) mod n = Suc (r + x) mod (n :: nat)"
  by (metis add_Suc_right mod_add_left_eq)

lemma mod_add_left_inj:
  assumes "(r + x) mod n = (r + y) mod (n :: nat)" and "x < n" and "y < n"
  shows "x = y"
proof -
  have "int (r + x) mod int n = int (r + y) mod int n"
    using assms(1) by (metis zmod_int)
  then have "int n dvd int x - int y"
    by (simp add: mod_eq_dvd_iff)
  moreover have "\<bar>int x - int y\<bar> < int n" using assms(2,3) by linarith
  ultimately show ?thesis using zdvd_not_zless [of "\<bar>int x - int y\<bar>" "int n"] by auto
qed

lemma acquire_all_round_robin:
  assumes "distinct ss" and "\<forall>s\<in>set ss. map_of (dr_sessions d) s = None"
  shows "fst (acquire_all ss d) = map (\<lambda>k. (dr_rr_index d + k) mod dr_endpoints d) [0..<length ss]"
  using assms
proof (induction ss arbitrary: d)
  case (Cons s ss)
  let ?i = "dr_rr_index d mod dr_endpoints d"
  let ?d = "d\<lparr>dr_rr_index := ?i + 1, dr_sessions := AList.update s ?i (dr_sessions d)\<rparr>"
  have "\<forall>t\<in>set ss. map_of (dr_sessions ?d) t = None"
    using Cons.prems by (auto simp: update_conv')
  with Cons have "fst (acquire_all ss ?d) = map (\<lambda>k. (?i + 1 + k) mod dr_endpoints d) [0..<length ss]"
    by simp
  then show ?case
    using Cons.prems(2) acquire_new [of d s]
    by (simp add: Let_def split_beta map_upt_Suc mod_shift del: upt_Suc)
qed simp

text \<open>C39:
  Placement: a stream keeps the endpoint it was first bound to however many other streams arrive in
  between, and consecutive new streams take the endpoints in turn, so any window of as many new
  streams as there are endpoints loads every endpoint exactly once.
\<close>

theorem placement_is_sticky_and_fair:
  assumes "acquire_endpoint (Some s) d = (i, d1)" and "acquire_all others d1 = (is, d2)"
    and "distinct new" and "list_all (\<lambda>t. map_of (dr_sessions d) t = None) new"
    and "length new = dr_endpoints d"
  shows "fst (acquire_endpoint (Some s) d2) = i \<and>
         distinct (fst (acquire_all new d)) \<and> set (fst (acquire_all new d)) = {..<dr_endpoints d}"
proof -
  have "map_of (dr_sessions d2) s = Some i"
    using acquire_all_keeps [OF assms(2) acquire_binds [OF assms(1)]] .
  then have sticky: "fst (acquire_endpoint (Some s) d2) = i" by (simp add: acquire_bound)
  let ?n = "dr_endpoints d" and ?r = "dr_rr_index d"
  have r: "fst (acquire_all new d) = map (\<lambda>k. (?r + k) mod ?n) [0..<?n]"
    using acquire_all_round_robin [OF assms(3)] assms(4,5) by (simp add: list_all_iff)
  have inj: "inj_on (\<lambda>k. (?r + k) mod ?n) {0..<?n}"
  proof (rule inj_onI)
    fix x y assume "x \<in> {0..<?n}" "y \<in> {0..<?n}" "(?r + x) mod ?n = (?r + y) mod ?n"
    then show "x = y" using mod_add_left_inj [of ?r x ?n y] by simp
  qed
  then have d: "distinct (fst (acquire_all new d))"
    by (simp add: r distinct_map)
  have "set (fst (acquire_all new d)) \<subseteq> {..<?n}"
    by (auto simp: r)
  moreover have "card (set (fst (acquire_all new d))) = card {..<?n}"
    using distinct_card [OF d] by (simp add: r)
  ultimately have "set (fst (acquire_all new d)) = {..<?n}"
    by (intro card_subset_eq) simp_all
  with sticky d show ?thesis by blast
qed

theorem placement_is_sticky_and_fair_witness:
  "fst (acquire_endpoint (Some ''a'') (snd (acquire_all [''b'', ''c''] (snd (acquire_endpoint (Some ''a'') (init_direct 3)))))) = 0 \<and>
   set (fst (acquire_all [''x'', ''y'', ''z''] (init_direct 3))) = {..<3}"
proof -
  let ?d = "init_direct 3"
  have a: "acquire_endpoint (Some ''a'') ?d = (0, snd (acquire_endpoint (Some ''a'') ?d))"
    by (simp add: acquire_endpoint_def init_direct_def)
  have b: "acquire_all [''b'', ''c''] e = (fst (acquire_all [''b'', ''c''] e), snd (acquire_all [''b'', ''c''] e))" for e
    by simp
  show ?thesis
    using placement_is_sticky_and_fair [OF a b, of "[''x'', ''y'', ''z'']"]
    by (simp add: init_direct_def)
qed

subsection \<open>Only endpoints of the right tokenizer\<close>

lemma first_known_Inr: "first_known resolve s ns = Inr p \<Longrightarrow> \<exists>n\<in>set ns. resolve n = Inr p"
  by (induction ns) (auto split: sum.splits model_error.splits)

lemma validate_served_model_Inr:
  assumes "validate_served_model resolve claimed served = Inr u"
  shows "\<exists>c s p q. claimed = Some c \<and> served = PStr s \<and> resolve c = Inr q \<and>
           (resolve s = Inr p \<or> resolve (basename s) = Inr p) \<and> mp_name p = mp_name q"
proof -
  from assms obtain c s where c: "claimed = Some c" "served = PStr s"
    by (auto simp: validate_served_model_def split: option.splits pyval.splits)
  with assms obtain p q where p: "first_known resolve s [s, basename s] = Inr p"
    and q: "(case resolve c of Inl _ \<Rightarrow> Inl Crash | Inr q \<Rightarrow> Inr q) = Inr q" "mp_name p = mp_name q"
    unfolding validate_served_model_def c option.case pyval.case rbind_eq_Inr require_eq by blast
  from q(1) have "resolve c = Inr q" by (simp split: sum.splits)
  with c q(2) first_known_Inr [OF p] show ?thesis by auto
qed

text \<open>C22:
  Token ids only ever reach an engine that serves the request's tokenizer profile: if the direct
  transport's outcome can depend at all on what the generation endpoint would answer, then the
  session is pinned to a model, the endpoint names its served model, and both resolve to the same
  profile. In every other case the turn fails before a generation request is made.
\<close>

theorem tokens_only_to_the_same_profile:
  assumes "fst (direct_call_engine repr i4 resolve engine world session_id claimed prompt_ids sampling d) \<noteq>
           fst (direct_call_engine repr i4 resolve engine (world\<lparr>dw_post := post'\<rparr>) session_id claimed
                  prompt_ids sampling d)"
  shows "\<exists>c s p q. claimed = Some c \<and> resolve c = Inr q \<and> (resolve s = Inr p \<or> resolve (basename s) = Inr p) \<and>
           mp_name p = mp_name q \<and>
           PStr s = (let (i, d) = acquire_endpoint session_id d in
              projr (fst ((if engine = ''sglang'' then sglang_model_id else vllm_model_id) (dw_identity world) i d)))"
proof -
  obtain i d1 where a: "acquire_endpoint session_id d = (i, d1)" by fastforce
  define ask where "ask = (if engine = ''sglang'' then sglang_model_id else vllm_model_id)"
  obtain r d2 where m: "ask (dw_identity world) i d1 = (r, d2)" by fastforce
  note unf = direct_call_engine_def a Let_def prod.case direct_sglang_def direct_vllm_def sbind_slift
  show ?thesis
  proof (cases r)
    case (Inl e)
    with assms m show ?thesis
      by (auto simp: unf ask_def sbind_def split: if_splits)
  next
    case (Inr served)
    show ?thesis
    proof (cases "validate_served_model resolve claimed served")
      case (Inl e)
      with Inr assms m show ?thesis
        by (auto simp: unf ask_def sbind_def split: if_splits)
    next
      case v: (Inr u)
      from validate_served_model_Inr [OF v] Inr m show ?thesis
        by (fastforce simp: a ask_def)
    qed
  qed
qed

definition demo_resolver :: resolver where
  "demo_resolver =
     resolve_profile (PDict [(''Qwen3.8-27B'', PStr ''qwen3_8''), (''gpt-oss-20b'', PStr ''gpt_oss'')]) (\<lambda>_. True)"

definition demo_world :: direct_world where
  "demo_world =
     \<lparr>dw_identity = Reply 200 (Some (PDict [(''model_path'', PStr ''/models/Qwen3.8-27B'')])), dw_info = NoReply,
      dw_post = (\<lambda>_. Reply 200 (Some (demo_response [])))\<rparr>"

theorem tokens_only_to_the_same_profile_witness:
  "\<exists>p q. demo_resolver ''Qwen3.8-27B'' = Inr q \<and>
         (demo_resolver ''/models/Qwen3.8-27B'' = Inr p \<or> demo_resolver (basename ''/models/Qwen3.8-27B'') = Inr p) \<and>
         mp_name p = mp_name q"
proof -
  let ?call = "\<lambda>w. fst (direct_call_engine demo_repr i4_values demo_resolver ''sglang'' w (Some ''s'')
      (Some ''Qwen3.8-27B'') [5, 6] demo_sampling (init_direct 2))"
  have up: "?call demo_world \<noteq> ?call (demo_world\<lparr>dw_post := (\<lambda>_. NoReply)\<rparr>)" by code_simp
  have served: "(let (i, d) = acquire_endpoint (Some ''s'') (init_direct 2) in
      projr (fst ((if ''sglang'' = ''sglang'' then sglang_model_id else vllm_model_id)
        (dw_identity demo_world) i d))) = PStr ''/models/Qwen3.8-27B''"
    by code_simp
  obtain c s p q where r: "Some ''Qwen3.8-27B'' = Some c" "demo_resolver c = Inr q"
    "demo_resolver s = Inr p \<or> demo_resolver (basename s) = Inr p" "mp_name p = mp_name q"
    and "PStr s = PStr ''/models/Qwen3.8-27B''"
    using tokens_only_to_the_same_profile [OF up, unfolded served] by blast
  then have "s = ''/models/Qwen3.8-27B''" "c = ''Qwen3.8-27B''" by simp_all
  with r show ?thesis by metis
qed

end
