(* ===== verification/Provider.thy ===== *)
theory Provider
  imports Profiles Engines
begin

section \<open>The rollout provider\<close>

text \<open>
  \<^verbatim>\<open>BaseRolloutProvider\<close> of \<^verbatim>\<open>rollout_base.py\<close> with the bundle cache of \<^verbatim>\<open>ModelRegistry\<close>. The engine
  call is awaited between two pieces of straight-line code, and anything else may run meanwhile, so
  \<^verbatim>\<open>generate\<close> is two operations: \<open>generate_start\<close> up to the engine call, which returns a served turn
  or the pending call, and \<open>generate_finish\<close>, which takes the engine's outcome. The turn lock of a
  stream is an object: releasing a session forgets it, and a later request makes a new one.

  The environment (\<open>env\<close>) holds what is not in the repository: the tokenizers, the files read, and
  the tool parser of each profile as a function. Log calls are left out.
\<close>

subsection \<open>State\<close>

record decoded_completion =
  dc_content :: "string option"
  dc_reasoning :: "string option"
  dc_calls :: "(string \<times> string) list"

record env =
  ev_mapping :: pyval
  ev_is_dir :: "string \<Rightarrow> bool"
  ev_load_tokenizer :: "string \<Rightarrow> tokenizer option"
  ev_decode :: "string \<Rightarrow> int list \<Rightarrow> string option"
  ev_generation_config :: "string \<Rightarrow> pyval option"
  ev_extract :: "string \<Rightarrow> int list \<Rightarrow> pyval \<Rightarrow> string \<Rightarrow> decoded_completion option"

record model_bundle =
  bn_manager :: manager
  bn_sampling_defaults :: pydict
  bn_stop_token_ids :: "int list"
  bn_efforts :: "string list"
  bn_default_effort :: "string option"

record rejected_turn =
  rj_messages :: "pydict list"
  rj_error :: engine_error
  rj_attempts :: nat
  rj_effort :: "string option"

record provider =
  pv_bundles :: "(string, model_bundle) odict"
  pv_config :: pydict
  pv_runtime :: pydict
  pv_models :: "(string, string) odict"
  pv_locks :: "(string, nat) odict"
  pv_next_lock :: nat
  pv_held :: "nat list"
  pv_rejected :: "(string, rejected_turn) odict"

datatype provider_error =
    StreamError ts_error
  | BadRequest request_error
  | BadModel model_error
  | UnnamedModel
  | ModelSwitched string string
  | LoadFailed
  | DecodeFailed
  | ParseFailed
  | EngineFailed engine_error

type_synonym 'a provider_action = "(provider, provider_error, 'a) action"

definition MAX_REJECTED_GENERATIONS :: nat where "MAX_REJECTED_GENERATIONS = 2"

definition TRANSIENT_4XX :: "int list" where "TRANSIENT_4XX = [408, 425, 429]"

definition init_provider :: "pyval \<Rightarrow> request_error + provider" where
  "init_provider sampling_overrides =
     rbind (validate_sampling_overrides (if truthy sampling_overrides then sampling_overrides else PDict []))
       (\<lambda>config. Inr
         \<lparr>pv_bundles = [], pv_config = config, pv_runtime = [], pv_models = [], pv_locks = [],
          pv_next_lock = 0, pv_held = [], pv_rejected = []\<rparr>)"

text \<open>Errors of another component, raised on.\<close>

definition via :: "('e \<Rightarrow> provider_error) \<Rightarrow> 'e + 'a \<Rightarrow> provider_error + 'a" where
  "via f r = (case r of Inl e \<Rightarrow> Inl (f e) | Inr x \<Rightarrow> Inr x)"

lemma via_Inr [simp]: "via f r = Inr x \<longleftrightarrow> r = Inr x"
  by (simp add: via_def split: sum.splits)

subsection \<open>Bundles\<close>

definition build_bundle :: "env \<Rightarrow> model_profile \<Rightarrow> provider_error + model_bundle" where
  "build_bundle env p =
     (case ev_load_tokenizer env (mp_tokenizer_dir p) of
        None \<Rightarrow> Inl LoadFailed
      | Some tok \<Rightarrow> Inr
          \<lparr>bn_manager = profile_manager tok p,
           bn_sampling_defaults = load_sampling_defaults (ev_generation_config env (mp_tokenizer_dir p)),
           bn_stop_token_ids = mp_stop_token_ids p, bn_efforts = mp_reasoning_efforts p,
           bn_default_effort = mp_default_effort p\<rparr>)"

definition put_bundle :: "string \<Rightarrow> model_bundle \<Rightarrow> provider \<Rightarrow> provider" where
  "put_bundle k b p = p\<lparr>pv_bundles := AList.update k b (pv_bundles p)\<rparr>"

text \<open>\<^verbatim>\<open>ModelRegistry.resolve\<close>: the cached bundle of the model's profile, built on first use.\<close>

definition resolve_bundle :: "env \<Rightarrow> string \<Rightarrow> (string \<times> model_bundle) provider_action" where
  "resolve_bundle env model p =
     sbind (slift (via BadModel (resolve_profile (ev_mapping env) (ev_is_dir env) model))) (\<lambda>profile p.
       case map_of (pv_bundles p) (mp_name profile) of
         Some b \<Rightarrow> (Inr (mp_name profile, b), p)
       | None \<Rightarrow>
           (case build_bundle env profile of
              Inl e \<Rightarrow> (Inl e, p)
            | Inr b \<Rightarrow> (Inr (mp_name profile, b), put_bundle (mp_name profile) b p))) p"

definition resolve_for_session :: "env \<Rightarrow> string \<Rightarrow> string option \<Rightarrow> (string \<times> model_bundle) provider_action" where
  "resolve_for_session env sid model p =
     (case map_of (pv_models p) sid of
        None \<Rightarrow>
          (case model of
             Some (c # cs) \<Rightarrow>
               sbind (resolve_bundle env (c # cs)) (\<lambda>r p.
                 (Inr r, p\<lparr>pv_models := AList.update sid (c # cs) (pv_models p)\<rparr>)) p
           | _ \<Rightarrow> (Inl UnnamedModel, p))
      | Some pinned \<Rightarrow>
          if model \<noteq> None \<and> model \<noteq> Some [] \<and> model \<noteq> Some pinned
          then (Inl (ModelSwitched pinned (the model)), p)
          else resolve_bundle env pinned p)"

text \<open>A method of the bundle's manager: it changes that manager only.\<close>

definition on_manager :: "string \<Rightarrow> 'a mgr_action \<Rightarrow> 'a provider_action" where
  "on_manager k act p =
     (case map_of (pv_bundles p) k of
        None \<Rightarrow> (Inl LoadFailed, p)
      | Some b \<Rightarrow>
          (let (r, m) = act (bn_manager b)
           in (via StreamError r, put_bundle k (b\<lparr>bn_manager := m\<rparr>) p)))"

subsection \<open>Locks, overrides and release\<close>

definition session_lock :: "string \<Rightarrow> provider \<Rightarrow> nat \<times> provider" where
  "session_lock sid p =
     (case map_of (pv_locks p) sid of
        Some l \<Rightarrow> (l, p)
      | None \<Rightarrow>
          (pv_next_lock p,
           p\<lparr>pv_locks := AList.update sid (pv_next_lock p) (pv_locks p), pv_next_lock := Suc (pv_next_lock p)\<rparr>))"

definition lock_free :: "string \<Rightarrow> provider \<Rightarrow> bool" where
  "lock_free sid p = (case map_of (pv_locks p) sid of None \<Rightarrow> True | Some l \<Rightarrow> l \<notin> set (pv_held p))"

definition release_session :: "string \<Rightarrow> provider \<Rightarrow> provider" where
  "release_session sid p =
     p\<lparr>pv_models := od_pop sid (pv_models p), pv_locks := od_pop sid (pv_locks p),
       pv_rejected := od_pop sid (pv_rejected p),
       pv_bundles := map (\<lambda>(k, b). (k, b\<lparr>bn_manager := drop_stream sid (bn_manager b)\<rparr>)) (pv_bundles p)\<rparr>"

definition sampling_layers :: "provider \<Rightarrow> pydict \<times> pydict \<times> pydict" where
  "sampling_layers p =
     (pv_config p, pv_runtime p, apply_temperature_floor (dict_update (pv_config p) (pv_runtime p)))"

definition set_runtime_sampling_overrides :: "pyval \<Rightarrow> (pydict \<times> pydict \<times> pydict) provider_action" where
  "set_runtime_sampling_overrides overrides p =
     (case validate_sampling_overrides overrides of
        Inl e \<Rightarrow> (Inl (BadRequest e), p)
      | Inr d \<Rightarrow> (let p = p\<lparr>pv_runtime := d\<rparr> in (Inr (sampling_layers p), p)))"

subsection \<open>Engine rejections\<close>

definition rejected_repeat :: "string \<Rightarrow> pyval \<Rightarrow> string option \<Rightarrow> provider \<Rightarrow> provider_error + engine_error option" where
  "rejected_repeat sid messages effort p =
     (case map_of (pv_rejected p) sid of
        None \<Rightarrow> Inr None
      | Some r \<Rightarrow>
          if rj_attempts r < MAX_REJECTED_GENERATIONS then Inr None
          else rbind (via StreamError (normalize_messages messages)) (\<lambda>ms.
                 Inr (if \<not> dicts_eq ms (rj_messages r) \<or> effort \<noteq> rj_effort r then None
                      else Some (rj_error r))))"

definition rejection_status :: "engine_error \<Rightarrow> int option" where
  "rejection_status e =
     (case e of HttpStatus s \<Rightarrow> if 400 \<le> s \<and> s < 500 \<and> s \<notin> set TRANSIENT_4XX then Some s else None | _ \<Rightarrow> None)"

definition note_engine_rejection :: "string \<Rightarrow> pyval \<Rightarrow> engine_error \<Rightarrow> string option \<Rightarrow> unit provider_action" where
  "note_engine_rejection sid messages e effort p =
     (if rejection_status e = None then (Inr (), p)
      else
        sbind (slift (via StreamError (normalize_messages messages))) (\<lambda>ms p.
          let fresh = \<lparr>rj_messages = ms, rj_error = e, rj_attempts = 1, rj_effort = effort\<rparr>;
              entry = (case map_of (pv_rejected p) sid of
                         Some r \<Rightarrow> if dicts_eq (rj_messages r) ms \<and> rj_effort r = effort
                                   then r\<lparr>rj_attempts := Suc (rj_attempts r), rj_error := e\<rparr> else fresh
                       | None \<Rightarrow> fresh)
          in (Inr (), p\<lparr>pv_rejected := AList.update sid entry (pv_rejected p)\<rparr>)) p)"

subsection \<open>Generation, up to the engine call\<close>

record request =
  rq_messages :: pyval
  rq_model :: "string option"
  rq_requested :: pydict
  rq_max_tokens :: pyval
  rq_stop :: "pyval option"
  rq_tools :: pyval
  rq_seed :: "pyval option"
  rq_stop_token_ids :: "pyval list option"
  rq_effort :: pyval
  rq_prior :: "(int \<times> int) option"

record pending =
  pn_session :: string
  pn_bundle :: string
  pn_lock :: nat
  pn_messages :: pyval
  pn_tools :: pyval
  pn_effort :: "string option"
  pn_prompt :: "int list"
  pn_params :: pydict
  pn_prior :: "(int \<times> int) option"

type_synonym turn_reply = "int list \<times> int list \<times> flt list \<times> string \<times> string \<times> pydict"

datatype started = Served turn_reply | Calling pending

definition effective_effort :: "model_bundle \<Rightarrow> pyval \<Rightarrow> string option" where
  "effective_effort b effort =
     (if bn_efforts b = [] then None
      else (case effort of PStr (c # cs) \<Rightarrow> Some (c # cs) | _ \<Rightarrow> bn_default_effort b))"

definition decode_completion :: "env \<Rightarrow> string \<Rightarrow> int list \<Rightarrow> provider_error + string" where
  "decode_completion env k ids = (case ev_decode env k ids of None \<Rightarrow> Inl DecodeFailed | Some t \<Rightarrow> Inr t)"

definition serve_replay :: "env \<Rightarrow> string \<Rightarrow> turn_result \<Rightarrow> provider_error + started" where
  "serve_replay env k turn =
     (case turn of (prompt, ids, lps, reason, meta) \<Rightarrow>
        rbind (decode_completion env k ids) (\<lambda>text. Inr (Served (prompt, ids, lps, reason, text, meta))))"

definition pending_call :: "provider \<Rightarrow> model_bundle \<Rightarrow> request \<Rightarrow> request_error + pydict" where
  "pending_call p b rq =
     build_sampling_params (bn_sampling_defaults b) (rq_requested rq) (pv_config p) (pv_runtime p)
       (rq_max_tokens rq) (rq_stop rq) (rq_seed rq) (rq_stop_token_ids rq) (bn_stop_token_ids b)"

definition generate_fresh ::
  "env \<Rightarrow> string \<Rightarrow> nat \<Rightarrow> string \<Rightarrow> model_bundle \<Rightarrow> string option \<Rightarrow> request \<Rightarrow> started provider_action" where
  "generate_fresh env sid lock k b effort rq =
     sbind (\<lambda>p. slift (rejected_repeat sid (rq_messages rq) effort p) p) (\<lambda>rejected.
     sbind (slift (case rejected of None \<Rightarrow> Inr () | Some e \<Rightarrow> Inl (EngineFailed e))) (\<lambda>_.
     sbind (on_manager k (build_prompt (Some sid) (rq_messages rq) (rq_tools rq) effort)) (\<lambda>prompt.
     sbind (\<lambda>p. slift (via BadRequest (pending_call p b rq)) p) (\<lambda>params p.
       (Inr (Calling
          \<lparr>pn_session = sid, pn_bundle = k, pn_lock = lock, pn_messages = rq_messages rq,
           pn_tools = rq_tools rq, pn_effort = effort, pn_prompt = prompt, pn_params = params,
           pn_prior = rq_prior rq\<rparr>),
        p\<lparr>pv_held := lock # pv_held p\<rparr>)))))"

definition generate_locked :: "env \<Rightarrow> string \<Rightarrow> nat \<Rightarrow> request \<Rightarrow> started provider_action" where
  "generate_locked env sid lock rq =
     sbind (resolve_for_session env sid (rq_model rq)) (\<lambda>(k, b).
     sbind (slift (via BadRequest (validate_reasoning_effort (rq_effort rq) (bn_efforts b)))) (\<lambda>_.
       let effort = effective_effort b (rq_effort rq) in
       sbind (on_manager k (cached_turn (Some sid) (rq_messages rq) effort)) (\<lambda>cached.
         case cached of
           Some turn \<Rightarrow> slift (serve_replay env k turn)
         | None \<Rightarrow> generate_fresh env sid lock k b effort rq)))"

definition generate_start :: "env \<Rightarrow> string option \<Rightarrow> request \<Rightarrow> started provider_action" where
  "generate_start env session_id rq p =
     (case session_id of
        None \<Rightarrow> (Inl (StreamError NoSessionId), p)
      | Some sid \<Rightarrow>
          sbind (slift (via StreamError (validate_tools (rq_tools rq)))) (\<lambda>_.
          sbind (slift (via BadRequest (validate_reasoning_effort (rq_effort rq) []))) (\<lambda>_ p.
            let (lock, p) = session_lock sid p in generate_locked env sid lock rq p)) p)"

subsection \<open>Generation, after the engine call\<close>

text \<open>
  What came back: an exception, or the four values of \<^verbatim>\<open>_call_engine\<close> with the parameters as the
  transport left them. A transport is only trusted as far as \<open>check_completion\<close> checks it.
\<close>

datatype outcome = Raised engine_error | Returned pydict pyval pyval pyval pydict

definition stop_text :: "pyval \<Rightarrow> engine_error + string option" where
  "stop_text v =
     (case v of
        PStr s \<Rightarrow> Inr (Some s)
      | _ \<Rightarrow> if hashable v then Inr None else Inl Crash)"

definition budget_of :: "pydict \<Rightarrow> int" where
  "budget_of params = int_of_val (dget params ''max_tokens'')"

definition check_completion ::
  "pydict \<Rightarrow> pyval \<Rightarrow> pyval \<Rightarrow> pyval \<Rightarrow> engine_error + int list \<times> flt list \<times> string" where
  "check_completion params ids lps stop =
     (case (ids, lps) of
        (PList ts, PList ls) \<Rightarrow>
          rbind (stop_text stop) (\<lambda>stop.
            let reason = normalize_finish_reason stop (int (length ts)) (budget_of params) in
            rbind (require (reason \<noteq> ABORT) Aborted) (\<lambda>_.
            rbind (require (ts \<noteq> []) NoTokens) (\<lambda>_.
            rbind (require (length ls = length ts) (Misaligned (length ls) (length ts))) (\<lambda>_.
            rbind (require (list_all is_token ts) InvalidTokens) (\<lambda>_.
            rbind (traverse_from 0 (\<lambda>_. finite_logprob) ls) (\<lambda>fs.
              Inr (map int_of_val ts, fs, reason)))))))
      | _ \<Rightarrow> Inl ListsExpected)"

definition release_lock :: "nat \<Rightarrow> provider \<Rightarrow> provider" where
  "release_lock l p = p\<lparr>pv_held := removeAll l (pv_held p)\<rparr>"

definition commit_turn ::
  "pending \<Rightarrow> int list \<Rightarrow> flt list \<Rightarrow> string \<Rightarrow> pydict \<Rightarrow> unit provider_action" where
  "commit_turn pn ids lps reason meta p =
     (if map_of (pv_models p) (pn_session pn) = None then (Inr (), p)
      else on_manager (pn_bundle pn)
             (commit (pn_session pn) (pn_messages pn) (pn_prompt pn) ids (Some lps) (Some reason) (Some meta)
                (pn_tools pn) (pn_effort pn)) p)"

definition finish_outcome :: "env \<Rightarrow> pending \<Rightarrow> outcome \<Rightarrow> turn_reply provider_action" where
  "finish_outcome env pn oc p =
     (case oc of
        Raised e \<Rightarrow>
          sbind (note_engine_rejection (pn_session pn) (pn_messages pn) e (pn_effort pn)) (\<lambda>_.
            slift (Inl (EngineFailed e))) p
      | Returned params ids lps stop meta \<Rightarrow>
          (let p = p\<lparr>pv_rejected := od_pop (pn_session pn) (pv_rejected p)\<rparr>;
               meta = dset ''sampling_params'' (PDict (actual_sampling (pn_params pn))) meta
           in sbind (slift (via EngineFailed (check_completion params ids lps stop))) (\<lambda>(ids, lps, reason).
              sbind (slift (decode_completion env (pn_bundle pn) ids)) (\<lambda>text.
              sbind (commit_turn pn ids lps reason meta) (\<lambda>_.
                sret (pn_prompt pn, ids, lps, reason, text, meta)))) p))"

definition generate_finish :: "env \<Rightarrow> pending \<Rightarrow> outcome \<Rightarrow> turn_reply provider_action" where
  "generate_finish env pn oc p =
     (let (r, p) = finish_outcome env pn oc p in (r, release_lock (pn_lock pn) p))"

subsection \<open>Parsing the completion\<close>

definition openai_call :: "string \<Rightarrow> string \<times> string \<Rightarrow> pyval" where
  "openai_call ident call =
     PDict [(''id'', PStr (''call_'' @ ident)), (''type'', PStr ''function''),
            (''function'', PDict [(''name'', PStr (fst call)), (''arguments'', PStr (snd call))])]"

text \<open>\<open>fresh\<close> supplies the random part of each call id.\<close>

definition parsed_of :: "(nat \<Rightarrow> string) \<Rightarrow> decoded_completion \<Rightarrow> string \<Rightarrow> parsed_completion" where
  "parsed_of fresh d reason =
     \<lparr>pc_content = dc_content d,
      pc_tool_calls = (if dc_calls d = [] then None
                       else Some (map (\<lambda>(i, c). openai_call (fresh i) c)
                                   (zip [0..<length (dc_calls d)] (dc_calls d)))),
      pc_finish_reason = (if dc_calls d \<noteq> [] \<and> reason \<noteq> LENGTH then ''tool_calls'' else reason),
      pc_reasoning_content = dc_reasoning d\<rparr>"

definition parse_completion ::
  "env \<Rightarrow> (nat \<Rightarrow> string) \<Rightarrow> string option \<Rightarrow> int list \<Rightarrow> string \<Rightarrow> string \<Rightarrow> pyval \<Rightarrow>
   parsed_completion provider_action" where
  "parse_completion env fresh session_id ids text reason tools p =
     (case Option.bind session_id (map_of (pv_models p)) of
        None \<Rightarrow> (Inr \<lparr>pc_content = Some text, pc_tool_calls = None, pc_finish_reason = reason,
                      pc_reasoning_content = None\<rparr>, p)
      | Some pinned \<Rightarrow>
          sbind (resolve_bundle env pinned) (\<lambda>(k, b).
            let turn = committed_turn (bn_manager b) (the session_id) ids in
            case Option.bind turn ct_parsed_completion of
              Some parsed \<Rightarrow> sret parsed
            | None \<Rightarrow>
                (case ev_extract env k ids (case turn of None \<Rightarrow> tools | Some t \<Rightarrow> ct_tools t) text of
                   None \<Rightarrow> slift (Inl ParseFailed)
                 | Some d \<Rightarrow>
                     (\<lambda>p. on_manager k (\<lambda>m. apfst Inr (publish_parsed (the session_id) ids (parsed_of fresh d reason) m)) p))) p)"

end
