(* ===== verification/Completion.thy ===== *)
theory Completion
  imports Provider Recorder
begin

section \<open>The completion handler\<close>

text \<open>
  \<^verbatim>\<open>make_completion_handler\<close> of \<^verbatim>\<open>service.py\<close>: one turn from the request to the HTTP response, around
  a provider and a recorder. The handler awaits the engine, the parser and two recorder calls, and
  other turns run in between, so it is the sequence of its parts: \<open>handler_start\<close> up to the engine
  call, \<open>handler_generated\<close> with the engine's outcome, \<open>handler_parsed\<close>, \<open>handler_recorded\<close>, and
  \<open>handler_failed\<close> when parsing or recording raised. \<open>progress\<close> says which part is next. Response ids
  and times are arguments, texts of error messages are left out.
\<close>

record proxy =
  px_provider :: provider
  px_recorder :: recorder

datatype http_response = ErrorResponse int | JsonResponse pydict | SseResponse "pydict list"

datatype progress =
    AwaitingEngine pending
  | Generated turn_reply
  | Parsed turn_reply parsed_completion
  | Unrecorded turn_reply
  | Answered http_response

subsection \<open>Requests\<close>

definition opt_value :: "pyval \<Rightarrow> pyval option" where
  "opt_value v = (if v = PNone then None else Some v)"

definition max_tokens_param :: "pydict \<Rightarrow> pyval" where
  "max_tokens_param body =
     (let value = dget body ''max_completion_tokens'';
          value = (if value = PNone then dget body ''max_tokens'' else value)
      in if value = PNone then PInt DEFAULT_MAX_TOKENS else value)"

definition request_of :: "string \<Rightarrow> pydict \<Rightarrow> (int \<times> int) option \<Rightarrow> request" where
  "request_of model body prior =
     \<lparr>rq_messages = dget body ''messages'', rq_model = Some model,
      rq_requested = requested_params (dget body ''temperature'') (dget body ''top_p'') (dget body ''top_k'')
        (dget body ''min_p'') (dget body ''repetition_penalty'') (dget body ''presence_penalty'')
        (dget body ''frequency_penalty''),
      rq_max_tokens = max_tokens_param body, rq_stop = opt_value (dget body ''stop''),
      rq_tools = dget body ''tools'', rq_seed = opt_value (dget body ''seed''),
      rq_stop_token_ids = (case dget body ''stop_token_ids'' of PList xs \<Rightarrow> Some xs | _ \<Rightarrow> None),
      rq_effort = dget body ''reasoning_effort'', rq_prior = prior\<rparr>"

text \<open>The messages that are objects; a validated request has no other ones.\<close>

fun message_dicts :: "pyval \<Rightarrow> pydict list" where
  "message_dicts (PList ms) = concat (map (\<lambda>m. case m of PDict d \<Rightarrow> [d] | _ \<Rightarrow> []) ms)"
| "message_dicts _ = []"

text \<open>The rows the recorder already has, when the request continues a conversation.\<close>

definition experts_prior :: "string \<Rightarrow> string \<Rightarrow> pydict \<Rightarrow> recorder \<Rightarrow> (int \<times> int) option" where
  "experts_prior sid aid body rec =
     (if list_ex (role_is ''assistant'') (message_dicts (dget body ''messages'')) then
        (case get_session sid rec of
           None \<Rightarrow> None
         | Some s \<Rightarrow> map_option (\<lambda>b. (bl_rows b, bl_cols b)) (map_of (sr_routed_experts s) aid))
      else None)"

subsection \<open>Responses\<close>

text \<open>Which exception becomes which status; only \<^verbatim>\<open>TokenStreamError\<close> is the client's fault.\<close>

fun error_status :: "provider_error \<Rightarrow> int" where
  "error_status (StreamError (HookRaised _)) = 500"
| "error_status (StreamError (TokenizerRaised _)) = 500"
| "error_status (StreamError _) = 400"
| "error_status (BadRequest _) = 400"
| "error_status UnnamedModel = 400"
| "error_status (ModelSwitched _ _) = 400"
| "error_status (BadModel (UnknownModel _)) = 404"
| "error_status (EngineFailed (HttpStatus s)) = (if s < 500 then s else 502)"
| "error_status _ = 500"

definition opt_str :: "string option \<Rightarrow> pyval" where
  "opt_str s = (case s of None \<Rightarrow> PNone | Some t \<Rightarrow> PStr t)"

definition response_message :: "parsed_completion \<Rightarrow> pydict" where
  "response_message parsed =
     [(''role'', PStr ''assistant''), (''content'', opt_str (message_content parsed))]
     @ (case pc_tool_calls parsed of Some (c # cs) \<Rightarrow> [(''tool_calls'', PList (c # cs))] | _ \<Rightarrow> [])
     @ (case pc_reasoning_content parsed of None \<Rightarrow> [] | Some r \<Rightarrow> [(''reasoning_content'', PStr r)])"

definition build_openai_response ::
  "string \<Rightarrow> int \<Rightarrow> int list \<Rightarrow> parsed_completion \<Rightarrow> string \<Rightarrow> int \<Rightarrow> pydict" where
  "build_openai_response ident created token_ids parsed model prompt_tokens =
     [(''id'', PStr (''chatcmpl-'' @ ident)), (''object'', PStr ''chat.completion''),
      (''created'', PInt created), (''model'', PStr model),
      (''choices'', PList [PDict
         [(''index'', PInt 0), (''message'', PDict (response_message parsed)),
          (''finish_reason'', PStr (pc_finish_reason parsed))]]),
      (''usage'', PDict
         [(''prompt_tokens'', PInt prompt_tokens), (''completion_tokens'', PInt (int (length token_ids))),
          (''total_tokens'', PInt (prompt_tokens + int (length token_ids)))])]"

fun indexed_calls :: "nat \<Rightarrow> pyval list \<Rightarrow> pyval list" where
  "indexed_calls i [] = []"
| "indexed_calls i (c # cs) =
     (case c of PDict d \<Rightarrow> PDict (dict_update [(''index'', PInt (int i))] d) | _ \<Rightarrow> c) # indexed_calls (Suc i) cs"

definition first_choice_of :: "pydict \<Rightarrow> pydict" where
  "first_choice_of response = (case dget response ''choices'' of PList (PDict c # _) \<Rightarrow> c | _ \<Rightarrow> [])"

definition choice_message :: "pydict \<Rightarrow> pydict" where
  "choice_message choice = (case dget choice ''message'' of PDict m \<Rightarrow> m | _ \<Rightarrow> [])"

definition stream_delta :: "pydict \<Rightarrow> pydict" where
  "stream_delta message =
     [(''role'', PStr ''assistant''), (''content'', dget message ''content'')]
     @ (if dget message ''reasoning_content'' \<noteq> PNone
        then [(''reasoning_content'', dget message ''reasoning_content'')] else [])
     @ (case dget message ''tool_calls'' of
          PList (c # cs) \<Rightarrow> [(''tool_calls'', PList (indexed_calls 0 (c # cs)))] | _ \<Rightarrow> [])"

definition build_openai_stream_response :: "pydict \<Rightarrow> pydict list" where
  "build_openai_stream_response response =
     (let choice = first_choice_of response;
          base = [(''id'', dget response ''id''), (''object'', PStr ''chat.completion.chunk''),
                  (''created'', dget response ''created''), (''model'', dget response ''model'')];
          chunk = (\<lambda>delta reason. PList [PDict
            [(''index'', PInt 0), (''delta'', PDict delta), (''finish_reason'', reason)]])
      in [base @ [(''choices'', chunk (stream_delta (choice_message choice)) PNone)],
          base @ [(''choices'', chunk [] (dget choice ''finish_reason'')), (''usage'', dget response ''usage'')]])"

subsection \<open>The parts of a turn\<close>

definition answer :: "(provider_error + 'a) \<Rightarrow> ('a \<Rightarrow> progress) \<Rightarrow> progress" where
  "answer r next = (case r of Inl e \<Rightarrow> Answered (ErrorResponse (error_status e)) | Inr x \<Rightarrow> next x)"

definition handler_start ::
  "env \<Rightarrow> string \<Rightarrow> string \<Rightarrow> string \<Rightarrow> string \<Rightarrow> pydict \<Rightarrow> proxy \<Rightarrow> progress \<times> proxy" where
  "handler_start env sid aid stream model body px =
     (let rq = request_of model body (experts_prior sid aid body (px_recorder px));
          (r, p) = generate_start env (Some stream) rq (px_provider px)
      in (answer r (\<lambda>s. case s of Served reply \<Rightarrow> Generated reply | Calling pn \<Rightarrow> AwaitingEngine pn),
          px\<lparr>px_provider := p\<rparr>))"

definition handler_generated :: "env \<Rightarrow> pending \<Rightarrow> outcome \<Rightarrow> proxy \<Rightarrow> progress \<times> proxy" where
  "handler_generated env pn oc px =
     (let (r, p) = generate_finish env pn oc (px_provider px)
      in (answer r Generated, px\<lparr>px_provider := p\<rparr>))"

definition handler_parsed ::
  "env \<Rightarrow> (nat \<Rightarrow> string) \<Rightarrow> string \<Rightarrow> pydict \<Rightarrow> turn_reply \<Rightarrow> proxy \<Rightarrow> progress \<times> proxy" where
  "handler_parsed env fresh stream body reply px =
     (case reply of (prompt, ids, lps, reason, text, meta) \<Rightarrow>
        (let (r, p) = parse_completion env fresh (Some stream) ids text reason (dget body ''tools'') (px_provider px)
         in (case r of Inl _ \<Rightarrow> Unrecorded reply | Inr parsed \<Rightarrow> Parsed reply parsed, px\<lparr>px_provider := p\<rparr>)))"

definition delivery_of ::
  "string \<Rightarrow> string \<Rightarrow> pydict \<Rightarrow> turn_reply \<Rightarrow> parsed_completion \<Rightarrow> delivery" where
  "delivery_of sid aid body reply parsed =
     (case reply of (prompt, ids, lps, reason, text, meta) \<Rightarrow>
        \<lparr>dl_session_id = sid, dl_messages = message_dicts (dget body ''messages''),
         dl_completion_text = text, dl_token_ids = ids, dl_logprobs = lps,
         dl_finish_reason = Some (pc_finish_reason parsed), dl_prompt_token_ids = prompt,
         dl_agent_id = Some aid, dl_content = message_content parsed,
         dl_reasoning_content = pc_reasoning_content parsed, dl_tool_calls = pc_tool_calls parsed,
         dl_weight_version = (case dget meta ''weight_version'' of PStr v \<Rightarrow> Some v | _ \<Rightarrow> None),
         dl_routed_experts = (case dget meta ''routed_experts'' of PDict d \<Rightarrow> Some d | _ \<Rightarrow> None),
         dl_sampling_params = (case dget meta ''sampling_params'' of PDict d \<Rightarrow> Some d | _ \<Rightarrow> None)\<rparr>)"

definition turn_response ::
  "string \<Rightarrow> int \<Rightarrow> string \<Rightarrow> pydict \<Rightarrow> turn_reply \<Rightarrow> parsed_completion \<Rightarrow> http_response" where
  "turn_response ident created model body reply parsed =
     (let response = build_openai_response ident created (fst (snd reply)) parsed model (int (length (fst reply)))
      in if truthy (dget body ''stream'') then SseResponse (build_openai_stream_response response)
         else JsonResponse response)"

text \<open>The snapshot \<open>record_completion\<close> returns is flushed to the store by the recorder itself.\<close>

definition handler_recorded ::
  "rat \<Rightarrow> flt \<Rightarrow> string \<Rightarrow> int \<Rightarrow> string \<Rightarrow> string \<Rightarrow> string \<Rightarrow> pydict \<Rightarrow> turn_reply \<Rightarrow>
   parsed_completion \<Rightarrow> proxy \<Rightarrow> progress \<times> proxy" where
  "handler_recorded now wall ident created sid aid model body reply parsed px =
     (let (r, rec) = record_completion now wall (delivery_of sid aid body reply parsed) (px_recorder px)
      in (case r of Inl _ \<Rightarrow> Unrecorded reply
          | Inr _ \<Rightarrow> Answered (turn_response ident created model body reply parsed),
          px\<lparr>px_recorder := rec\<rparr>))"

text \<open>
  The failure guard. If marking itself raised, the server would answer with its own HTTP 500.
\<close>

definition handler_failed ::
  "rat \<Rightarrow> string \<Rightarrow> string \<Rightarrow> pydict \<Rightarrow> turn_reply \<Rightarrow> proxy \<Rightarrow> progress \<times> proxy" where
  "handler_failed now sid aid body reply px =
     (case reply of (prompt, ids, _) \<Rightarrow>
        (let (_, rec) = mark_recording_failed now sid (Some aid) (message_dicts (dget body ''messages''))
                          prompt ids (px_recorder px)
         in (Answered (ErrorResponse 500), px\<lparr>px_recorder := rec\<rparr>)))"

end
