(* ===== verification/SessionKeys.thy ===== *)
theory SessionKeys
  imports PyValue
begin

section \<open>Session keys\<close>

text \<open>
  How a request names its session: the keyed API key that \<^verbatim>\<open>client.py\<close> composes in \<^verbatim>\<open>agent_key\<close> and
  \<^verbatim>\<open>service.py\<close> takes apart in \<^verbatim>\<open>parse_session_key\<close>, the identifier of a token stream, and the
  instance id of \<^verbatim>\<open>protocol.py\<close>. The delimiter is an argument, as it is configurable.
\<close>

definition PROXY_KEY_DELIMITER :: string where "PROXY_KEY_DELIMITER = ''|''"

definition id_char :: "char \<Rightarrow> bool" where
  "id_char c \<longleftrightarrow> c \<in> set ''ABCDEFGHIJKLMNOPQRSTUVWXYZabcdefghijklmnopqrstuvwxyz0123456789._''"

text \<open>\<^verbatim>\<open>re.fullmatch(r"[A-Za-z0-9._]{1,256}", s)\<close>, as the client checks an id.\<close>

definition full_id :: "string \<Rightarrow> bool" where
  "full_id s \<longleftrightarrow> s \<noteq> [] \<and> length s \<le> 256 \<and> list_all id_char s"

text \<open>
  \<^verbatim>\<open>_SESSION_ID_RE.match\<close>, as the service checks it: the dollar sign of the pattern also matches before
  a final newline.
\<close>

definition matches_id :: "string \<Rightarrow> bool" where
  "matches_id s \<longleftrightarrow> full_id s \<or> (s \<noteq> [] \<and> last s = CHR 10 \<and> full_id (butlast s))"

definition is_hex :: "char \<Rightarrow> bool" where
  "is_hex c \<longleftrightarrow> c \<in> set ''0123456789abcdef''"

datatype key_error = BadInstanceId | EmptyDelimiter | BadId | InstanceInDelimiter | ProxyRestarted

definition validate_instance_id :: "string \<Rightarrow> key_error + string" where
  "validate_instance_id v = rbind (require (length v = 32 \<and> list_all is_hex v) BadInstanceId) (\<lambda>_. Inr v)"

definition agent_key :: "string \<Rightarrow> string \<Rightarrow> string \<Rightarrow> string \<Rightarrow> string option \<Rightarrow> key_error + string" where
  "agent_key api_key sid aid delim instance_id =
     rbind (require (delim \<noteq> []) EmptyDelimiter) (\<lambda>_.
     rbind (check_all (\<lambda>v. require (full_id v \<and> \<not> sublist delim v) BadId) [sid, aid]) (\<lambda>_.
     rbind (case instance_id of
              None \<Rightarrow> Inr api_key
            | Some i \<Rightarrow> rbind (validate_instance_id i) (\<lambda>i.
                rbind (require (\<not> sublist delim i) InstanceInDelimiter) (\<lambda>_. Inr (api_key @ delim @ i))))
       (\<lambda>pre. Inr (pre @ delim @ sid @ delim @ aid))))"

text \<open>
  \<open>Inr None\<close> is the refusal (HTTP 401), \<open>ProxyRestarted\<close> the HTTP 412 of a key bound to another
  instance. \<open>split_last\<close> is \<^verbatim>\<open>rpartition\<close>: without a separator the whole string is the tail.
\<close>

definition split_last :: "string \<Rightarrow> string \<Rightarrow> string \<times> bool \<times> string" where
  "split_last delim s = (case rpartition_at delim s of None \<Rightarrow> ([], False, s) | Some (a, b) \<Rightarrow> (a, True, b))"

definition parse_session_key ::
  "string option \<Rightarrow> string \<Rightarrow> string \<Rightarrow> string \<Rightarrow> key_error + (string \<times> string) option" where
  "parse_session_key api_key delim instance token =
     (case api_key of
        None \<Rightarrow> Inr None
      | Some key \<Rightarrow>
          if key = [] \<or> token = [] then Inr None
          else
            (let (head, sep, aid) = split_last delim token in
             if \<not> sep then Inr None
             else
               (let (real_key, sep2, sid) = split_last delim head;
                    accept = (if \<not> sep2 \<or> \<not> matches_id sid \<or> \<not> matches_id aid then Inr None
                              else Inr (Some (sid, aid)))
                in if real_key \<noteq> key then
                     (let (base, bound, i) = split_last delim real_key in
                      if \<not> bound \<or> base \<noteq> key then Inr None
                      else if i \<noteq> instance then Inl ProxyRestarted
                      else accept)
                   else accept)))"

definition stream_id :: "string \<Rightarrow> string \<Rightarrow> string" where
  "stream_id sid aid = sid @ ''-'' @ aid"

text \<open>\<^verbatim>\<open>request.headers["authorization"].removeprefix("Bearer ").strip()\<close>.\<close>

definition bearer_token :: "string \<Rightarrow> string" where
  "bearer_token header = strip (if prefix ''Bearer '' header then drop 7 header else header)"

subsection \<open>Splitting at the last delimiter\<close>

text \<open>A delimiter none of whose characters may occur in an id.\<close>

definition outside_ids :: "string \<Rightarrow> bool" where
  "outside_ids delim \<longleftrightarrow> delim \<noteq> [] \<and> list_all (\<lambda>c. \<not> id_char c) delim"

lemma rpartition_at_absent:
  assumes "delim \<noteq> []" and "\<forall>c\<in>set delim. c \<notin> set s"
  shows "rpartition_at delim s = None"
  using assms
proof (induction s)
  case (Cons c cs)
  have "\<not> prefix delim (c # cs)"
    using Cons.prems by (cases delim) auto
  with Cons show ?case by simp
qed simp

lemma rpartition_at_cons_None:
  "rpartition_at delim cs = None \<Longrightarrow> prefix delim (c # cs) \<Longrightarrow>
   rpartition_at delim (c # cs) = Some ([], drop (length delim) (c # cs))"
  by simp

text \<open>Behind a nonempty part of the delimiter there is no room for another one before an id.\<close>

lemma rpartition_at_short:
  assumes "\<forall>c\<in>set delim. c \<notin> set s" and "length t < length delim"
  shows "rpartition_at delim (t @ s) = None"
  using assms(2)
proof (induction t)
  case Nil
  with assms(1) rpartition_at_absent [of delim s] show ?case by auto
next
  case (Cons c cs)
  have "\<not> prefix delim ((c # cs) @ s)"
  proof
    assume "prefix delim ((c # cs) @ s)"
    then obtain u where u: "(c # cs) @ s = delim @ u" by (auto simp: prefix_def)
    have "length (c # cs) < length delim" using Cons.prems .
    with u have "drop (length (c # cs)) delim \<noteq> [] \<and> prefix (drop (length (c # cs)) delim) s"
      by (metis append_eq_append_conv_if drop_eq_Nil linorder_not_le prefixI)
    then obtain x where "x \<in> set (drop (length (c # cs)) delim)" "x \<in> set s"
      by (metis hd_in_set prefix_def append_is_Nil_conv hd_append2)
    with assms(1) show False by (meson in_set_dropD)
  qed
  with Cons show ?case by simp
qed

lemma split_last_at:
  assumes "delim \<noteq> []" and "\<forall>c\<in>set delim. c \<notin> set s"
  shows "split_last delim (p @ delim @ s) = (p, True, s)"
proof -
  have "rpartition_at delim (p @ delim @ s) = Some (p, s)"
  proof (induction p)
    case Nil
    obtain c cs where d: "delim = c # cs" using assms(1) by (cases delim) auto
    have "rpartition_at delim (cs @ s) = None"
      by (rule rpartition_at_short [OF assms(2)]) (simp add: d)
    with d show ?case by simp
  next
    case (Cons c p)
    then show ?case by simp
  qed
  then show ?thesis by (simp add: split_last_def)
qed

lemma split_last_True: "split_last delim s = (a, True, b) \<Longrightarrow> s = a @ delim @ b"
  using rpartition_at_Some by (auto simp: split_last_def split: option.splits)

lemma full_id_outside:
  "full_id s \<Longrightarrow> outside_ids delim \<Longrightarrow> \<forall>c\<in>set delim. c \<notin> set s"
  by (auto simp: full_id_def outside_ids_def list_all_iff)

lemma hex_outside: "list_all is_hex i \<Longrightarrow> outside_ids delim \<Longrightarrow> \<forall>c\<in>set delim. c \<notin> set i"
proof -
  have "id_char c" if "is_hex c" for c
    using that unfolding is_hex_def id_char_def by auto
  then show "list_all is_hex i \<Longrightarrow> outside_ids delim \<Longrightarrow> \<forall>c\<in>set delim. c \<notin> set i"
    by (auto simp: outside_ids_def list_all_iff)
qed

lemma agent_key_Inr:
  assumes "agent_key key sid aid delim inst = Inr token"
  shows "full_id sid \<and> full_id aid \<and>
    token = key @ (case inst of None \<Rightarrow> [] | Some i \<Rightarrow> delim @ i) @ delim @ sid @ delim @ aid \<and>
    (\<forall>i. inst = Some i \<longrightarrow> list_all is_hex i)"
  using assms
  by (auto simp: agent_key_def validate_instance_id_def result_simps split: option.splits)

lemma parse_joined:
  assumes "key \<noteq> []" and "outside_ids delim" and "full_id sid" and "full_id aid"
  shows "parse_session_key (Some key) delim instance (rkey @ delim @ sid @ delim @ aid) =
    (if rkey = key then Inr (Some (sid, aid))
     else (case split_last delim rkey of
             (base, bound, i) \<Rightarrow>
               if \<not> bound \<or> base \<noteq> key then Inr None
               else if i \<noteq> instance then Inl ProxyRestarted else Inr (Some (sid, aid))))"
proof -
  have d: "delim \<noteq> []" using assms(2) by (simp add: outside_ids_def)
  have 1: "split_last delim ((rkey @ delim @ sid) @ delim @ aid) = (rkey @ delim @ sid, True, aid)"
    by (rule split_last_at [OF d full_id_outside [OF assms(4,2)]])
  have 2: "split_last delim (rkey @ delim @ sid) = (rkey, True, sid)"
    by (rule split_last_at [OF d full_id_outside [OF assms(3,2)]])
  show ?thesis
    using 1 2 d assms(1,3,4) by (simp add: parse_session_key_def matches_id_def split: prod.split)
qed

text \<open>C24:
  The key the client composes is the key the service reads: whatever characters the real key
  contains, the delimiter included, a key made for a session and an agent is taken apart into
  exactly these ids, and a key bound to an instance is honoured by that instance and refused with
  the restart error by any other. The delimiter must share no character with the ids, as the service
  asks of a configured delimiter.
\<close>

theorem agent_key_roundtrip:
  assumes "agent_key key sid aid delim inst = Inr token" and "key \<noteq> []" and "outside_ids delim"
  shows "parse_session_key (Some key) delim instance token =
    (case inst of None \<Rightarrow> Inr (Some (sid, aid))
     | Some i \<Rightarrow> if i = instance then Inr (Some (sid, aid)) else Inl ProxyRestarted)"
proof -
  note k = agent_key_Inr [OF assms(1)]
  show ?thesis
  proof (cases inst)
    case None
    then show ?thesis using k parse_joined [OF assms(2,3), of sid aid "instance" key] by simp
  next
    case (Some i)
    have "split_last delim (key @ delim @ i) = (key, True, i)"
      using k Some assms(3) by (intro split_last_at hex_outside) (auto simp: outside_ids_def)
    moreover have "delim \<noteq> []" using assms(3) by (simp add: outside_ids_def)
    ultimately show ?thesis
      using k Some parse_joined [OF assms(2,3), of sid aid "instance" "key @ delim @ i"] by simp
  qed
qed

theorem agent_key_roundtrip_witness:
  "parse_session_key (Some ''sk|1'') ''|'' ''0'' ''sk|1|run.7|agent'' = Inr (Some (''run.7'', ''agent''))"
proof -
  have "agent_key ''sk|1'' ''run.7'' ''agent'' ''|'' None = Inr ''sk|1|run.7|agent''" "outside_ids ''|''"
    by code_simp+
  from agent_key_roundtrip [OF this(1) _ this(2)] show ?thesis by simp
qed

subsection \<open>Accepted keys\<close>

lemma parse_Some:
  assumes "parse_session_key (Some key) delim instance token = Inr (Some (sid, aid))"
  shows "matches_id sid \<and> matches_id aid \<and>
    (token = key @ delim @ sid @ delim @ aid \<or> token = key @ delim @ instance @ delim @ sid @ delim @ aid)"
proof -
  obtain head sep aid' where t: "split_last delim token = (head, sep, aid')" by (cases "split_last delim token")
  obtain rkey sep2 sid' where h: "split_last delim head = (rkey, sep2, sid')" by (cases "split_last delim head")
  obtain base bound i where r: "split_last delim rkey = (base, bound, i)" by (cases "split_last delim rkey")
  have ids: "sep" "sep2" "sid' = sid" "aid' = aid" "matches_id sid" "matches_id aid"
    and rkey: "rkey = key \<or> bound \<and> base = key \<and> i = instance"
    using assms by (auto simp: parse_session_key_def Let_def t h r split: if_splits)
  then show ?thesis
    using split_last_True [of delim token head aid] split_last_True [of delim head rkey sid]
      split_last_True [of delim rkey base i] t h r
    by auto
qed

lemma matches_id_chars: "matches_id s \<Longrightarrow> CHR ''-'' \<notin> set s"
proof -
  have "\<not> id_char (CHR ''-'')" by (simp add: id_char_def)
  then have full: "CHR ''-'' \<notin> set u" if "full_id u" for u
    using that by (auto simp: full_id_def list_all_iff)
  assume "matches_id s"
  then show ?thesis
  proof (cases "full_id s")
    case False
    with \<open>matches_id s\<close> have s: "s \<noteq> []" "last s = CHR 10" "full_id (butlast s)" by (auto simp: matches_id_def)
    then have "s = butlast s @ [CHR 10]" by (metis append_butlast_last_id)
    then have "set s = insert (CHR 10) (set (butlast s))" by (metis list.simps(15) rotate1.simps(2) set_rotate1)
    with full [OF s(3)] show ?thesis by simp
  qed (rule full)
qed

lemma stream_id_inject:
  assumes "matches_id s" and "matches_id s'"
  shows "stream_id s a = stream_id s' a' \<longleftrightarrow> s = s' \<and> a = a'"
proof
  assume eq: "stream_id s a = stream_id s' a'"
  have cut: "takeWhile (\<lambda>c. c \<noteq> CHR ''-'') (stream_id u v) = u" if "matches_id u" for u v
    using matches_id_chars [OF that] by (induction u) (auto simp: stream_id_def)
  from arg_cong [OF eq, of "takeWhile (\<lambda>c. c \<noteq> CHR ''-'')"] cut assms have "s = s'" by simp
  with eq show "s = s' \<and> a = a'" by (simp add: stream_id_def)
qed simp

text \<open>C25:
  Only the holder of the real key reaches a session, and only its own streams: an accepted key
  starts with the real key and the delimiter and ends in the two ids it names, at most the instance
  id of this very proxy between them; and two accepted keys share a token stream only if they name
  the same session and the same agent.
\<close>

theorem accepted_keys_are_authentic:
  assumes "parse_session_key (Some key) delim instance token = Inr (Some (sid, aid))"
    and "parse_session_key (Some key) delim instance token' = Inr (Some (sid', aid'))"
  shows "(token = key @ delim @ sid @ delim @ aid \<or> token = key @ delim @ instance @ delim @ sid @ delim @ aid) \<and>
    (stream_id sid aid = stream_id sid' aid' \<longleftrightarrow> sid = sid' \<and> aid = aid')"
  using parse_Some [OF assms(1)] parse_Some [OF assms(2)] stream_id_inject by blast

theorem accepted_keys_are_authentic_witness:
  "stream_id ''a'' ''b.c'' \<noteq> stream_id ''a.b'' ''c'' \<and>
   ''key|a|b.c'' = ''key'' @ ''|'' @ ''a'' @ ''|'' @ ''b.c''"
proof -
  have p: "parse_session_key (Some ''key'') ''|'' ''0'' ''key|a|b.c'' = Inr (Some (''a'', ''b.c''))"
    "parse_session_key (Some ''key'') ''|'' ''0'' ''key|a.b|c'' = Inr (Some (''a.b'', ''c''))"
    by code_simp+
  from accepted_keys_are_authentic [OF p] show ?thesis by simp
qed

text \<open>
  The service accepts a session id that ends in a newline, which its own comment and the client rule
  out.
\<close>

lemma trailing_newline_accepted:
  "parse_session_key (Some ''key'') ''|'' ''0'' (''key|run'' @ [CHR 10] @ ''|agent'') =
     Inr (Some (''run'' @ [CHR 10], ''agent'')) \<and> \<not> full_id (''run'' @ [CHR 10])"
  by code_simp

end
