(* ===== verification/Service.thy ===== *)
theory Service
  imports Completion SessionKeys
begin

section \<open>The service\<close>

text \<open>
  \<^verbatim>\<open>LLMProxyServer\<close> of \<^verbatim>\<open>service.py\<close> with the handlers that use it: admission of chat requests, one turn
  per stream at a time, turns whose caller gave up, finalization, and deletion. The asyncio tasks are
  values of the state; \<open>server_step\<close> runs one task from one await to the next, and any enabled event
  may come next. A turn is the request task together with the pipeline task it starts: \<open>tn_attached\<close>
  says the request is still waiting, \<open>tn_cancelled\<close> that the turn was cancelled and only unwinds.

  A state update that runs in a worker thread is one step: if the task is cancelled meanwhile, the
  update is over before its session is cleaned up (\<^verbatim>\<open>_run_state_update\<close>), or it finds the tombstone
  of the session and does nothing (\<^verbatim>\<open>record_completion\<close>). Starting and stopping the HTTP server and
  the error log are left out.
\<close>

subsection \<open>State\<close>

datatype stage = Queued | Starting | Running progress

record turn =
  tn_session :: string
  tn_agent :: string
  tn_model :: string
  tn_body :: pydict
  tn_lock :: nat
  tn_stage :: stage
  tn_attached :: bool
  tn_cancelled :: bool

datatype finalization =
  Draining | Sealing | Finalized | FinalizationFailed recorder_error | FinalizationCancelled

record server =
  sv_proxy :: proxy
  sv_turns :: "(nat, turn) odict"
  sv_next_turn :: nat
  sv_turn_locks :: "(string, nat) odict"
  sv_next_lock :: nat
  sv_held :: "nat list"
  sv_streams :: "(string, string list) odict"
  sv_finalizations :: "(string, finalization) odict"
  sv_deletions :: "(string, nat list option) odict"
  sv_clock :: rat

record service_config =
  sc_env :: env
  sc_api_key :: "string option"
  sc_delimiter :: string
  sc_instance :: string

definition init_server :: "provider \<Rightarrow> recorder \<Rightarrow> rat \<Rightarrow> server" where
  "init_server p rec now =
     \<lparr>sv_proxy = \<lparr>px_provider = p, px_recorder = rec\<rparr>, sv_turns = [], sv_next_turn = 0, sv_turn_locks = [],
      sv_next_lock = 0, sv_held = [], sv_streams = [], sv_finalizations = [], sv_deletions = [], sv_clock = now\<rparr>"

definition tn_stream :: "turn \<Rightarrow> string" where
  "tn_stream t = stream_id (tn_session t) (tn_agent t)"

definition session_deleted :: "string \<Rightarrow> server \<Rightarrow> bool" where
  "session_deleted sid s = is_deleted (sv_clock s) sid (px_recorder (sv_proxy s))"

text \<open>A turn some task of which is not done.\<close>

definition in_flight :: "turn \<Rightarrow> bool" where
  "in_flight t = (tn_attached t \<or> (case tn_stage t of Running (Answered _) \<Rightarrow> False | _ \<Rightarrow> True))"

definition session_busy :: "string \<Rightarrow> server \<Rightarrow> bool" where
  "session_busy sid s = list_ex (\<lambda>(i, t). tn_session t = sid \<and> in_flight t) (sv_turns s)"

subsection \<open>Admission\<close>

definition turn_lock :: "string \<Rightarrow> server \<Rightarrow> nat \<times> server" where
  "turn_lock stream s =
     (case map_of (sv_turn_locks s) stream of
        Some l \<Rightarrow> (l, s)
      | None \<Rightarrow>
          (sv_next_lock s,
           s\<lparr>sv_turn_locks := AList.update stream (sv_next_lock s) (sv_turn_locks s),
             sv_next_lock := Suc (sv_next_lock s)\<rparr>))"

definition track_stream :: "string \<Rightarrow> string \<Rightarrow> server \<Rightarrow> server" where
  "track_stream sid stream s =
     (let streams = (case map_of (sv_streams s) sid of None \<Rightarrow> [] | Some xs \<Rightarrow> xs)
      in s\<lparr>sv_streams := AList.update sid (List.insert stream streams) (sv_streams s)\<rparr>)"

definition on_recorder :: "(recorder \<Rightarrow> recorder) \<Rightarrow> server \<Rightarrow> server" where
  "on_recorder f s = s\<lparr>sv_proxy := (sv_proxy s)\<lparr>px_recorder := f (px_recorder (sv_proxy s))\<rparr>\<rparr>"

definition enqueue_turn :: "flt \<Rightarrow> string \<Rightarrow> string \<Rightarrow> string \<Rightarrow> pydict \<Rightarrow> server \<Rightarrow> server" where
  "enqueue_turn wall sid aid model body s =
     (let s = on_recorder (ensure_session (sv_clock s) wall sid (Some model)) s;
          s = track_stream sid (stream_id sid aid) s;
          (lock, s) = turn_lock (stream_id sid aid) s
      in s\<lparr>sv_turns := sv_turns s @ [(sv_next_turn s,
             \<lparr>tn_session = sid, tn_agent = aid, tn_model = model, tn_body = body, tn_lock = lock,
              tn_stage = Queued, tn_attached = True, tn_cancelled = False\<rparr>)],
           sv_next_turn := Suc (sv_next_turn s)\<rparr>)"

definition profile_status :: "model_error \<Rightarrow> int" where
  "profile_status e = (case e of UnknownModel _ \<Rightarrow> 404 | _ \<Rightarrow> 500)"

text \<open>
  The checks of \<^verbatim>\<open>chat_completions\<close> in their order: the HTTP status of a refusal, or the ids, the
  model and the body of the turn.
\<close>

definition check_admission ::
  "service_config \<Rightarrow> string \<Rightarrow> pyval option \<Rightarrow> server \<Rightarrow> int + string \<times> string \<times> string \<times> pydict" where
  "check_admission cf header body s =
     (case parse_session_key (sc_api_key cf) (sc_delimiter cf) (sc_instance cf) (bearer_token header) of
        Inl _ \<Rightarrow> Inl 412
      | Inr None \<Rightarrow> Inl 401
      | Inr (Some (sid, aid)) \<Rightarrow>
          rbind (case body of None \<Rightarrow> Inl 400 | Some v \<Rightarrow> Inr v) (\<lambda>v.
          rbind (case validate_chat_request v of Inl _ \<Rightarrow> Inl 400 | Inr _ \<Rightarrow> Inr ()) (\<lambda>_.
          rbind (require (\<not> session_deleted sid s) 410) (\<lambda>_.
          rbind (case v of PDict d \<Rightarrow> (case dget d ''model'' of PStr m \<Rightarrow> Inr (m, d) | _ \<Rightarrow> Inl 400) | _ \<Rightarrow> Inl 400)
            (\<lambda>(model, d).
          rbind (case resolve_profile (ev_mapping (sc_env cf)) (ev_is_dir (sc_env cf)) model of
                   Inl e \<Rightarrow> Inl (profile_status e) | Inr p \<Rightarrow> Inr p) (\<lambda>profile.
          rbind (case validate_reasoning_effort (dget d ''reasoning_effort'') (mp_reasoning_efforts profile) of
                   Inl _ \<Rightarrow> Inl 400 | Inr _ \<Rightarrow> Inr ()) (\<lambda>_.
          rbind (require (map_of (sv_finalizations s) sid = None) 409) (\<lambda>_.
            Inr (sid, aid, model, d)))))))))"

definition admit :: "service_config \<Rightarrow> flt \<Rightarrow> string \<Rightarrow> pyval option \<Rightarrow> server \<Rightarrow> (int + unit) \<times> server" where
  "admit cf wall header body s =
     (case check_admission cf header body s of
        Inl status \<Rightarrow> (Inl status, s)
      | Inr (sid, aid, model, d) \<Rightarrow> (Inr (), enqueue_turn wall sid aid model d s))"

subsection \<open>The steps of a turn\<close>

definition put_turn :: "nat \<Rightarrow> turn \<Rightarrow> server \<Rightarrow> server" where
  "put_turn i t s = s\<lparr>sv_turns := AList.update i t (sv_turns s)\<rparr>"

definition drop_turn :: "nat \<Rightarrow> server \<Rightarrow> server" where
  "drop_turn i s = s\<lparr>sv_turns := od_pop i (sv_turns s)\<rparr>"

definition unlock :: "nat \<Rightarrow> server \<Rightarrow> server" where
  "unlock l s = s\<lparr>sv_held := removeAll l (sv_held s)\<rparr>"

text \<open>The turn goes on with the handler: its next stage and what it did to provider and recorder.\<close>

definition proceed :: "nat \<Rightarrow> turn \<Rightarrow> progress \<times> proxy \<Rightarrow> server \<Rightarrow> server" where
  "proceed i t r s = put_turn i (t\<lparr>tn_stage := Running (fst r)\<rparr>) (s\<lparr>sv_proxy := snd r\<rparr>)"

definition acquire :: "nat \<Rightarrow> turn \<Rightarrow> server \<Rightarrow> server option" where
  "acquire i t s =
     (case tn_stage t of
        Queued \<Rightarrow>
          if tn_lock t \<in> set (sv_held s) then None
          else Some (put_turn i (t\<lparr>tn_stage := Starting\<rparr>) (s\<lparr>sv_held := tn_lock t # sv_held s\<rparr>))
      | _ \<Rightarrow> None)"

text \<open>\<^verbatim>\<open>_call_handler\<close>: the session may have been deleted while the turn was queued.\<close>

definition begin_turn :: "service_config \<Rightarrow> nat \<Rightarrow> turn \<Rightarrow> server \<Rightarrow> server option" where
  "begin_turn cf i t s =
     (case tn_stage t of
        Starting \<Rightarrow>
          if session_deleted (tn_session t) s
          then Some (proceed i t (Answered (ErrorResponse 410), sv_proxy s) s)
          else if lock_free (tn_stream t) (px_provider (sv_proxy s))
          then Some (proceed i t (handler_start (sc_env cf) (tn_session t) (tn_agent t) (tn_stream t)
                 (tn_model t) (tn_body t) (sv_proxy s)) s)
          else None
      | _ \<Rightarrow> None)"

definition engine_reply :: "service_config \<Rightarrow> nat \<Rightarrow> outcome \<Rightarrow> turn \<Rightarrow> server \<Rightarrow> server option" where
  "engine_reply cf i oc t s =
     (case tn_stage t of
        Running (AwaitingEngine pn) \<Rightarrow> Some (proceed i t (handler_generated (sc_env cf) pn oc (sv_proxy s)) s)
      | _ \<Rightarrow> None)"

definition parse_turn :: "service_config \<Rightarrow> nat \<Rightarrow> (nat \<Rightarrow> string) \<Rightarrow> turn \<Rightarrow> server \<Rightarrow> server option" where
  "parse_turn cf i fresh t s =
     (case tn_stage t of
        Running (Generated r) \<Rightarrow>
          Some (proceed i t (handler_parsed (sc_env cf) fresh (tn_stream t) (tn_body t) r (sv_proxy s)) s)
      | _ \<Rightarrow> None)"

definition record_turn :: "nat \<Rightarrow> flt \<Rightarrow> string \<Rightarrow> int \<Rightarrow> turn \<Rightarrow> server \<Rightarrow> server option" where
  "record_turn i wall ident created t s =
     (case tn_stage t of
        Running (Parsed r parsed) \<Rightarrow>
          Some (proceed i t (handler_recorded (sv_clock s) wall ident created (tn_session t) (tn_agent t)
                 (tn_model t) (tn_body t) r parsed (sv_proxy s)) s)
      | _ \<Rightarrow> None)"

definition mark_turn :: "nat \<Rightarrow> turn \<Rightarrow> server \<Rightarrow> server option" where
  "mark_turn i t s =
     (case tn_stage t of
        Running (Unrecorded r) \<Rightarrow>
          Some (proceed i t (handler_failed (sv_clock s) (tn_session t) (tn_agent t) (tn_body t) r (sv_proxy s)) s)
      | _ \<Rightarrow> None)"

text \<open>The caller disconnects: a queued turn ends, a running one finishes detached.\<close>

definition give_up :: "nat \<Rightarrow> turn \<Rightarrow> server \<Rightarrow> server option" where
  "give_up i t s =
     (if \<not> tn_attached t then None
      else case tn_stage t of
             Queued \<Rightarrow> Some (drop_turn i s)
           | _ \<Rightarrow> Some (put_turn i (t\<lparr>tn_attached := False\<rparr>) s))"

definition finish_turn :: "nat \<Rightarrow> turn \<Rightarrow> server \<Rightarrow> server option" where
  "finish_turn i t s =
     (case tn_stage t of
        Running (Answered _) \<Rightarrow> Some (unlock (tn_lock t) (drop_turn i s))
      | _ \<Rightarrow> None)"

text \<open>A cancelled turn unwinds: it leaves the provider's lock and the turn lock.\<close>

definition unwind_turn :: "nat \<Rightarrow> turn \<Rightarrow> server \<Rightarrow> server" where
  "unwind_turn i t s =
     (let s = (case tn_stage t of
                 Running (AwaitingEngine pn) \<Rightarrow>
                   s\<lparr>sv_proxy := (sv_proxy s)\<lparr>px_provider := release_lock (pn_lock pn) (px_provider (sv_proxy s))\<rparr>\<rparr>
               | _ \<Rightarrow> s);
          s = (if tn_stage t = Queued then s else unlock (tn_lock t) s)
      in drop_turn i s)"

subsection \<open>Finalization\<close>

definition request_finalization :: "string \<Rightarrow> server \<Rightarrow> server" where
  "request_finalization sid s =
     (if session_deleted sid s \<or> map_of (sv_finalizations s) sid \<noteq> None
         \<or> get_session sid (px_recorder (sv_proxy s)) = None
      then s
      else s\<lparr>sv_finalizations := AList.update sid Draining (sv_finalizations s)\<rparr>)"

definition drained :: "string \<Rightarrow> server \<Rightarrow> server option" where
  "drained sid s =
     (if map_of (sv_finalizations s) sid = Some Draining \<and> \<not> session_busy sid s
      then Some (s\<lparr>sv_finalizations := AList.update sid Sealing (sv_finalizations s)\<rparr>) else None)"

definition seal :: "string \<Rightarrow> server \<Rightarrow> server option" where
  "seal sid s =
     (if map_of (sv_finalizations s) sid = Some Sealing
      then
        (let (r, rec) = Recorder.finalize_session sid (px_recorder (sv_proxy s));
             f = (case r of Inl e \<Rightarrow> FinalizationFailed e | Inr _ \<Rightarrow> Finalized)
         in Some (on_recorder (\<lambda>_. rec) (s\<lparr>sv_finalizations := AList.update sid f (sv_finalizations s)\<rparr>)))
      else None)"

subsection \<open>Deletion\<close>

definition request_deletion :: "string \<Rightarrow> server \<Rightarrow> server" where
  "request_deletion sid s =
     (if map_of (sv_deletions s) sid \<noteq> None then s
      else on_recorder (Recorder.delete_session (sv_clock s) sid)
             (s\<lparr>sv_deletions := AList.update sid None (sv_deletions s)\<rparr>))"

definition cancel_finalization :: "string \<Rightarrow> (string, finalization) odict \<Rightarrow> (string, finalization) odict" where
  "cancel_finalization sid d =
     (case map_of d sid of
        Some f \<Rightarrow> if f \<in> {Draining, Sealing} then AList.update sid FinalizationCancelled d else d
      | None \<Rightarrow> d)"

definition cancel_work :: "string \<Rightarrow> server \<Rightarrow> server option" where
  "cancel_work sid s =
     (if map_of (sv_deletions s) sid = Some None then
        Some (s\<lparr>sv_turns := map (\<lambda>(i, t). (i, if tn_session t = sid then t\<lparr>tn_cancelled := True\<rparr> else t)) (sv_turns s),
                sv_finalizations := cancel_finalization sid (sv_finalizations s),
                sv_deletions := AList.update sid
                  (Some (map fst (filter (\<lambda>(i, t). tn_session t = sid) (sv_turns s)))) (sv_deletions s)\<rparr>)
      else None)"

definition release_stream :: "string \<Rightarrow> server \<Rightarrow> server" where
  "release_stream x s =
     s\<lparr>sv_proxy := (sv_proxy s)\<lparr>px_provider := release_session x (px_provider (sv_proxy s))\<rparr>,
       sv_turn_locks := od_pop x (sv_turn_locks s)\<rparr>"

definition session_streams :: "string \<Rightarrow> server \<Rightarrow> string list" where
  "session_streams sid s =
     (case map_of (sv_streams s) sid of Some (x # xs) \<Rightarrow> x # xs | _ \<Rightarrow> [sid])"

definition cleanup :: "string \<Rightarrow> server \<Rightarrow> server option" where
  "cleanup sid s =
     (case map_of (sv_deletions s) sid of
        Some (Some ids) \<Rightarrow>
          if list_ex (\<lambda>i. map_of (sv_turns s) i \<noteq> None) ids then None
          else
            (let s = fold release_stream (session_streams sid s) s
             in Some (s\<lparr>sv_streams := od_pop sid (sv_streams s),
                        sv_finalizations := od_pop sid (sv_finalizations s),
                        sv_deletions := od_pop sid (sv_deletions s)\<rparr>))
      | _ \<Rightarrow> None)"

subsection \<open>The server as a machine\<close>

datatype event =
    Admit flt string "pyval option"
  | Acquire nat
  | Begin nat
  | EngineReply nat outcome
  | Parse nat "nat \<Rightarrow> string"
  | Record nat flt string int
  | Mark nat
  | GiveUp nat
  | Finish nat
  | Unwind nat
  | RequestFinalization string
  | Drained string
  | Seal string
  | RequestDeletion string
  | CancelWork string
  | Cleanup string
  | SetSampling pyval
  | Elapse rat

text \<open>A turn runs unless it was cancelled.\<close>

definition on_turn :: "nat \<Rightarrow> (turn \<Rightarrow> server \<Rightarrow> server option) \<Rightarrow> server \<Rightarrow> server option" where
  "on_turn i f s =
     (case map_of (sv_turns s) i of None \<Rightarrow> None | Some t \<Rightarrow> if tn_cancelled t then None else f t s)"

fun server_step :: "service_config \<Rightarrow> event \<Rightarrow> server \<Rightarrow> server option" where
  "server_step cf (Admit wall header body) s = Some (snd (admit cf wall header body s))"
| "server_step cf (Acquire i) s = on_turn i (acquire i) s"
| "server_step cf (Begin i) s = on_turn i (begin_turn cf i) s"
| "server_step cf (EngineReply i oc) s = on_turn i (engine_reply cf i oc) s"
| "server_step cf (Parse i fresh) s = on_turn i (parse_turn cf i fresh) s"
| "server_step cf (Record i wall ident created) s = on_turn i (record_turn i wall ident created) s"
| "server_step cf (Mark i) s = on_turn i (mark_turn i) s"
| "server_step cf (GiveUp i) s = on_turn i (give_up i) s"
| "server_step cf (Finish i) s = on_turn i (finish_turn i) s"
| "server_step cf (Unwind i) s =
     (case map_of (sv_turns s) i of
        None \<Rightarrow> None | Some t \<Rightarrow> if tn_cancelled t then Some (unwind_turn i t s) else None)"
| "server_step cf (RequestFinalization sid) s = Some (request_finalization sid s)"
| "server_step cf (Drained sid) s = drained sid s"
| "server_step cf (Seal sid) s = seal sid s"
| "server_step cf (RequestDeletion sid) s = Some (request_deletion sid s)"
| "server_step cf (CancelWork sid) s = cancel_work sid s"
| "server_step cf (Cleanup sid) s = cleanup sid s"
| "server_step cf (SetSampling v) s =
     Some (s\<lparr>sv_proxy := (sv_proxy s)
       \<lparr>px_provider := snd (set_runtime_sampling_overrides v (px_provider (sv_proxy s)))\<rparr>\<rparr>)"
| "server_step cf (Elapse d) s = (if 0 \<le> d then Some (s\<lparr>sv_clock := sv_clock s + d\<rparr>) else None)"

text \<open>
  What the service relies on and does not check: that the tombstone of a session, which lasts an hour,
  outlives the cleanup of the session, and that a deletion names a session id, not any string.
\<close>

definition tombstones_last :: "server \<Rightarrow> bool" where
  "tombstones_last s \<longleftrightarrow> list_all (\<lambda>sid. session_deleted sid s) (od_keys (sv_deletions s))"

definition names_session :: "event \<Rightarrow> bool" where
  "names_session e = (case e of RequestDeletion sid \<Rightarrow> matches_id sid | _ \<Rightarrow> True)"

text \<open>A run within these assumptions; \<open>None\<close> when an event is not enabled.\<close>

fun server_run :: "service_config \<Rightarrow> event list \<Rightarrow> server \<Rightarrow> server option" where
  "server_run cf [] s = Some s"
| "server_run cf (e # es) s =
     (case server_step cf e s of
        None \<Rightarrow> None
      | Some s' \<Rightarrow> if names_session e \<and> tombstones_last s' then server_run cf es s' else None)"

inductive server_reachable :: "service_config \<Rightarrow> server \<Rightarrow> bool" for cf :: service_config where
  server_init: "init_provider overrides = Inr p \<Longrightarrow>
    server_reachable cf (init_server p (init_recorder store lps experts validate dumps) now)"
| server_next: "server_reachable cf s \<Longrightarrow> server_step cf e s = Some s' \<Longrightarrow> names_session e \<Longrightarrow>
    tombstones_last s' \<Longrightarrow> server_reachable cf s'"

end
