(* ===== verification/ProviderProperties.thy ===== *)
theory ProviderProperties
  imports Provider StreamProperties
begin

section \<open>Properties of the rollout provider\<close>

text \<open>
  The provider as a state machine (\<open>provider_step\<close>), the refinement of its bundles' managers to the
  manager's own state machine, and its promises about turns. The locale \<open>manager_observer\<close> is the
  interface between the two machines: what is observed of a manager only has to be kept by the
  manager's methods, and the provider's operations then keep it for every bundle.
\<close>

subsection \<open>Steps\<close>

text \<open>A request enters only while the turn lock of its stream is free; everything else may happen at any time.\<close>

inductive provider_step :: "env \<Rightarrow> provider \<Rightarrow> provider \<Rightarrow> bool" for env :: env where
  start: "lock_free sid p \<Longrightarrow> provider_step env p (snd (generate_start env (Some sid) rq p))"
| finish: "provider_step env p (snd (generate_finish env pn oc p))"
| parse: "provider_step env p (snd (parse_completion env fresh sid ids text reason tools p))"
| override: "provider_step env p (snd (set_runtime_sampling_overrides overrides p))"
| release: "provider_step env p (release_session sid p)"

text \<open>The steps that neither finish a turn of \<open>sid\<close> nor release it.\<close>

inductive foreign_provider_step :: "env \<Rightarrow> string \<Rightarrow> provider \<Rightarrow> provider \<Rightarrow> bool" for env :: env and sid :: string where
  foreign_start: "foreign_provider_step env sid p (snd (generate_start env k rq p))"
| foreign_finish: "pn_session pn \<noteq> sid \<Longrightarrow> foreign_provider_step env sid p (snd (generate_finish env pn oc p))"
| foreign_parse: "foreign_provider_step env sid p (snd (parse_completion env fresh k ids text reason tools p))"
| foreign_override: "foreign_provider_step env sid p (snd (set_runtime_sampling_overrides overrides p))"
| foreign_release: "s \<noteq> sid \<Longrightarrow> foreign_provider_step env sid p (release_session s p)"

inductive provider_reachable :: "env \<Rightarrow> provider \<Rightarrow> bool" for env :: env where
  provider_init: "init_provider overrides = Inr p \<Longrightarrow> provider_reachable env p"
| provider_next: "provider_reachable env p \<Longrightarrow> provider_step env p p' \<Longrightarrow> provider_reachable env p'"

inductive_cases provider_stepE: "provider_step env p p'"
inductive_cases foreign_provider_stepE: "foreign_provider_step env sid p p'"

subsection \<open>Observing the managers\<close>

text \<open>The bundles \<open>K\<close> exist, every manager satisfies \<open>J\<close>, and the pins \<open>X\<close> are in place.\<close>

definition sat ::
  "string set \<Rightarrow> (string \<Rightarrow> manager \<Rightarrow> bool) \<Rightarrow> (string \<Rightarrow> string option) \<Rightarrow> provider \<Rightarrow> bool" where
  "sat K J X p \<longleftrightarrow> (\<forall>s v. X s = Some v \<longrightarrow> map_of (pv_models p) s = Some v) \<and>
     (\<forall>k\<in>K. map_of (pv_bundles p) k \<noteq> None) \<and>
     (\<forall>k b. map_of (pv_bundles p) k = Some b \<longrightarrow> J k (bn_manager b))"

lemma sat_fields:
  "sat K J X (p\<lparr>pv_locks := l, pv_next_lock := n\<rparr>) = sat K J X p"
  "sat K J X (p\<lparr>pv_held := h\<rparr>) = sat K J X p" "sat K J X (p\<lparr>pv_rejected := r\<rparr>) = sat K J X p"
  "sat K J X (p\<lparr>pv_runtime := x\<rparr>) = sat K J X p"
  by (simp_all add: sat_def)

lemma sat_put: "sat K J X p \<Longrightarrow> J k (bn_manager b) \<Longrightarrow> sat K J X (put_bundle k b p)"
  by (auto simp: sat_def put_bundle_def update_conv')

lemma keeps_fun: "(\<And>p. keeps P (f p)) \<Longrightarrow> keeps P (\<lambda>p. f p p)"
  by (simp add: keeps_def)

lemma map_of_map_bundles:
  "map_of (map (\<lambda>(k, b). (k, f b)) d) k = map_option f (map_of d k)"
  by (induction d) auto

lemma resolve_bundle_models: "pv_models (snd (resolve_bundle env m p)) = pv_models p"
  by (auto simp: resolve_bundle_def sbind_slift put_bundle_def split: sum.split option.split)

locale manager_observer =
  fixes T :: "manager \<Rightarrow> manager \<Rightarrow> bool" and J :: "string \<Rightarrow> manager \<Rightarrow> bool" and K :: "string set"
    and X :: "string \<Rightarrow> string option"
  assumes observed: "J k m \<Longrightarrow> T m m' \<Longrightarrow> J k m'"
    and fresh_manager: "mp_name pr \<notin> K \<Longrightarrow> J (mp_name pr) (profile_manager tok pr)"
    and T_build: "T m (snd (build_prompt s messages tools effort m))"
    and T_cached: "T m (snd (cached_turn s messages effort m))"
    and T_publish: "T m (snd (publish_parsed sid ids parsed m))"
begin

lemma keeps_on_manager:
  assumes "\<And>m. T m (snd (act m))"
  shows "keeps (sat K J X) (on_manager k act)"
proof
  fix p assume s: "sat K J X p"
  show "sat K J X (snd (on_manager k act p))"
  proof (cases "map_of (pv_bundles p) k")
    case None
    with s show ?thesis by (simp add: on_manager_def)
  next
    case (Some b)
    with s have "J k (bn_manager b)" by (simp add: sat_def)
    with assms observed have "J k (snd (act (bn_manager b)))" by blast
    with s Some show ?thesis
      by (auto simp: on_manager_def split_beta intro!: sat_put)
  qed
qed

lemma keeps_resolve_bundle: "keeps (sat K J X) (resolve_bundle env model)"
proof -
  have "sat K J X (snd (case map_of (pv_bundles p) (mp_name pr) of
      Some b \<Rightarrow> (Inr (mp_name pr, b), p)
    | None \<Rightarrow> (case build_bundle env pr of
          Inl e \<Rightarrow> (Inl e, p)
        | Inr b \<Rightarrow> (Inr (mp_name pr, b), put_bundle (mp_name pr) b p))))" if "sat K J X p" for p pr
  proof (cases "map_of (pv_bundles p) (mp_name pr)")
    case None
    with that have "mp_name pr \<notin> K" by (auto simp: sat_def)
    then have "J (mp_name pr) (bn_manager b)" if "build_bundle env pr = Inr b" for b
      using that fresh_manager by (auto simp: build_bundle_def split: option.splits)
    with None \<open>sat K J X p\<close> show ?thesis by (auto simp: sat_put split: sum.splits)
  qed (simp add: that)
  then show ?thesis
    unfolding resolve_bundle_def [abs_def] by (intro keeps_sbind keeps_slift keepsI)
qed

lemma keeps_resolve_for_session: "keeps (sat K J X) (resolve_for_session env sid model)"
proof
  fix p assume s: "sat K J X p"
  show "sat K J X (snd (resolve_for_session env sid model p))"
  proof (cases "map_of (pv_models p) sid = None \<and> model \<noteq> None \<and> model \<noteq> Some []")
    case True
    then obtain c cs where m: "model = Some (c # cs)" "map_of (pv_models p) sid = None"
      by (cases model; cases "the model") auto
    obtain r p' where r: "resolve_bundle env (c # cs) p = (r, p')" by fastforce
    then have "sat K J X p'" "pv_models p' = pv_models p"
      using keepsD [OF keeps_resolve_bundle s, of env "c # cs"] resolve_bundle_models [of env "c # cs" p]
      by simp_all
    then have "sat K J X (p'\<lparr>pv_models := AList.update sid (c # cs) (pv_models p')\<rparr>)"
      using m(2) by (auto simp: sat_def update_conv')
    with \<open>sat K J X p'\<close> m show ?thesis
      by (simp add: resolve_for_session_def sbind_def r split: sum.split)
  next
    case False
    then show ?thesis
      using s keepsD [OF keeps_resolve_bundle s]
      by (auto simp: resolve_for_session_def split: option.split list.split)
  qed
qed

lemma keeps_session_lock: "sat K J X p \<Longrightarrow> sat K J X (snd (session_lock sid p))"
  by (simp add: session_lock_def sat_fields split: option.split)

lemma keeps_generate_fresh: "keeps (sat K J X) (generate_fresh env sid lock k b effort rq)"
proof -
  have call: "keeps (sat K J X) (\<lambda>p. (Inr (f p), p\<lparr>pv_held := lock # pv_held p\<rparr>))"
    for f :: "provider \<Rightarrow> started"
    by (intro keepsI) (simp add: sat_fields)
  have T: "T m (snd (build_prompt (Some sid) ms ts e m))" for m ms ts e by (rule T_build)
  have lift: "keeps (sat K J X) (\<lambda>p. slift (r p) p)" for r :: "provider \<Rightarrow> provider_error + 'a"
    by (intro keepsI) simp
  show ?thesis
    unfolding generate_fresh_def [abs_def]
    by (intro keeps_sbind keeps_slift keeps_on_manager T call lift)
qed

lemma keeps_generate_locked: "keeps (sat K J X) (generate_locked env sid lock rq)"
proof -
  have rest: "keeps (sat K J X) (case cached of Some turn \<Rightarrow> slift (serve_replay env k turn)
      | None \<Rightarrow> generate_fresh env sid lock k b effort rq)" for cached k b effort
    by (cases cached) (simp_all add: keeps_slift keeps_generate_fresh)
  show ?thesis
    unfolding generate_locked_def [abs_def] Let_def split_beta
    by (intro keeps_sbind keeps_resolve_for_session keeps_slift keeps_on_manager T_cached rest)
qed

lemma keeps_start: "sat K J X p \<Longrightarrow> sat K J X (snd (generate_start env session_id rq p))"
proof (cases session_id)
  case (Some sid)
  assume s: "sat K J X p"
  have lock: "keeps (sat K J X) (\<lambda>p. let (lock, p) = session_lock sid p in generate_locked env sid lock rq p)"
    using keeps_session_lock keepsD [OF keeps_generate_locked]
    by (intro keepsI) (simp add: split_beta)
  have "keeps (sat K J X) (sbind (slift (via StreamError (validate_tools (rq_tools rq)))) (\<lambda>_.
      sbind (slift (via BadRequest (validate_reasoning_effort (rq_effort rq) []))) (\<lambda>_ p.
        let (lock, p) = session_lock sid p in generate_locked env sid lock rq p)))"
    by (intro keeps_sbind keeps_slift lock)
  with s Some show ?thesis by (simp add: generate_start_def keepsD)
qed (simp add: generate_start_def)

lemma keeps_parse: "sat K J X p \<Longrightarrow> sat K J X (snd (parse_completion env fresh sid ids text reason tools p))"
proof (cases "Option.bind sid (map_of (pv_models p))")
  case (Some pinned)
  assume s: "sat K J X p"
  have T: "T m (snd ((\<lambda>m. apfst Inr (publish_parsed x ids q m)) m))" for m x q
    using T_publish [of m x ids q] by simp
  have tail: "keeps (sat K J X) (case a of Some parsed \<Rightarrow> sret parsed
      | None \<Rightarrow> (case e of None \<Rightarrow> slift (Inl ParseFailed)
        | Some d \<Rightarrow> (\<lambda>p. on_manager k (\<lambda>m. apfst Inr (publish_parsed x ids (parsed_of fresh d reason) m)) p)))"
    for a e k x
    using keeps_on_manager [OF T]
    by (cases a; cases e) (simp_all add: keeps_sret keeps_slift)
  note defs = parse_completion_def Some option.case Let_def split_beta
  show ?thesis
    unfolding defs by (rule keepsD [where P = "sat K J X", OF _ s]) (intro keeps_sbind keeps_resolve_bundle tail)
qed (simp add: parse_completion_def)

lemma keeps_finish:
  assumes commit: "\<And>m ids lps reason meta. T m (snd (commit (pn_session pn) (pn_messages pn) (pn_prompt pn) ids
      lps reason meta (pn_tools pn) (pn_effort pn) m))"
    and s: "sat K J X p"
  shows "sat K J X (snd (generate_finish env pn oc p))"
proof -
  have c: "keeps (sat K J X) (commit_turn pn ids lps reason meta)" for ids lps reason meta
    using keepsD [OF keeps_on_manager [OF commit]] by (intro keepsI) (simp add: commit_turn_def)
  have n: "keeps (sat K J X) (note_engine_rejection sid messages e effort)" for sid messages e effort
    by (intro keepsI) (auto simp: note_engine_rejection_def sbind_slift sat_fields Let_def split: sum.split)
  have fin: "keeps (sat K J X) (sbind (slift r) (\<lambda>(ids, lps, reason).
      sbind (slift (decode_completion env (pn_bundle pn) ids)) (\<lambda>text.
      sbind (commit_turn pn ids lps reason meta) (\<lambda>_.
        sret (pn_prompt pn, ids, lps, reason, text, meta)))))" for r meta
    unfolding split_beta by (intro keeps_sbind keeps_slift keeps_sret c)
  have "sat K J X (snd (finish_outcome env pn oc p))"
  proof (cases oc)
    case (Raised e)
    show ?thesis
      unfolding finish_outcome_def Raised outcome.case
      by (rule keepsD [where P = "sat K J X", OF _ s]) (intro keeps_sbind n keeps_slift)
  next
    case (Returned params ids lps stop meta)
    have "sat K J X (p\<lparr>pv_rejected := od_pop (pn_session pn) (pv_rejected p)\<rparr>)" using s by (simp add: sat_fields)
    then show ?thesis
      unfolding finish_outcome_def Returned outcome.case Let_def by (rule keepsD [OF fin])
  qed
  then show ?thesis by (simp add: generate_finish_def split_beta release_lock_def sat_fields)
qed

lemma keeps_release:
  assumes "\<And>m. T m (drop_stream sid m)" and "sat K J X p" and "X sid = None"
  shows "sat K J X (release_session sid p)"
proof -
  have "J k (drop_stream sid m)" if "J k m" for k m
    using observed [OF that assms(1)] .
  with assms(2,3) show ?thesis by (auto simp: sat_def release_session_def map_of_map_bundles)
qed

lemma keeps_override: "sat K J X p \<Longrightarrow> sat K J X (snd (set_runtime_sampling_overrides x p))"
  by (simp add: set_runtime_sampling_overrides_def sat_fields Let_def split: sum.split)

lemmas keeps_operations = keeps_start keeps_parse keeps_finish keeps_release keeps_override

end

subsection \<open>Every bundle's manager moves by manager steps\<close>

lemma mgr_step_max_sessions:
  assumes "mgr_step m m'" and "caches_ok m"
  shows "mgr_max_sessions m' = mgr_max_sessions m"
  using assms(1)
proof cases
  case (step_build sid messages tools effort)
  obtain m'' where "build_prompt sid messages tools effort m = (prompt_spec m sid messages tools effort, m'')"
    and "touched sid m m''"
    using build_prompt_refines [OF assms(2)] .
  then show ?thesis by (auto simp: step_build touched_def warmed_fields)
next
  case (step_cached sid messages effort)
  then show ?thesis by (cases rule: cached_turn_cases [of sid messages effort m]) simp_all
next
  case (step_commit s messages p c lps reason meta tools effort)
  then show ?thesis
    by (cases "normalize_messages messages") (simp_all add: commit_def sbind_slift Let_def split_beta)
next
  case (step_publish s ids result)
  then show ?thesis by (simp add: publish_parsed_def split: option.split)
next
  case (step_drop s)
  then show ?thesis by (simp add: drop_stream_def)
qed

definition live_manager :: "string \<Rightarrow> manager \<Rightarrow> bool" where
  "live_manager k m \<longleftrightarrow> mgr_reachable m \<and> mgr_max_sessions m = MAX_SESSIONS"

lemma live_manager_step: "live_manager k m \<Longrightarrow> mgr_step m m' \<Longrightarrow> live_manager k m'"
  by (metis live_manager_def mgr_step_max_sessions reachable_caches_ok mgr_reachable.reachable_step)

lemma live_profile_manager: "live_manager k (profile_manager tok pr)"
  unfolding live_manager_def profile_manager_def
  by (simp add: mgr_reachable.reachable_init) (simp add: init_manager_def)

interpretation live: manager_observer mgr_step live_manager "{}" "\<lambda>_. None"
  by unfold_locales (auto simp: live_profile_manager intro: live_manager_step mgr_step.intros)

interpretation foreign: manager_observer "foreign_step sid"
  "\<lambda>k' m. k' = k \<longrightarrow> (foreign_step sid)\<^sup>*\<^sup>* m0 m" "{k}" X
  for sid k m0 X
  by unfold_locales (auto intro: rtranclp.rtrancl_into_rtrancl foreign_step.intros)

lemma provider_step_live: "provider_step env p p' \<Longrightarrow> sat {} live_manager (\<lambda>_. None) p \<Longrightarrow> sat {} live_manager (\<lambda>_. None) p'"
  by (erule provider_stepE)
    (auto intro: live.keeps_operations mgr_step.intros)

lemma provider_reachable_live: "provider_reachable env p \<Longrightarrow> sat {} live_manager (\<lambda>_. None) p"
proof (induction rule: provider_reachable.induct)
  case (provider_init overrides p)
  then show ?case by (auto simp: init_provider_def rbind_eq_Inr sat_def)
next
  case (provider_next p p')
  then show ?case using provider_step_live by blast
qed

definition pin_of :: "string \<Rightarrow> string option \<Rightarrow> string \<Rightarrow> string option" where
  "pin_of sid x s = (if s = sid then x else None)"

lemma foreign_step_observed:
  assumes "foreign_provider_step env sid p p'" and "map_of (pv_bundles p) k = Some b"
    and "map_of (pv_models p) sid = Some x"
  shows "map_of (pv_models p') sid = Some x \<and>
    (\<exists>b'. map_of (pv_bundles p') k = Some b' \<and> (foreign_step sid)\<^sup>*\<^sup>* (bn_manager b) (bn_manager b'))"
proof -
  let ?S = "sat {k} (\<lambda>k' m. k' = k \<longrightarrow> (foreign_step sid)\<^sup>*\<^sup>* (bn_manager b) m) (pin_of sid (Some x))"
  have "?S p" using assms(2,3) by (simp add: sat_def pin_of_def)
  with assms(1) have "?S p'"
    by (cases rule: foreign_provider_stepE)
      (auto intro: foreign.keeps_operations foreign_step.intros simp: pin_of_def)
  then show ?thesis by (auto simp: sat_def pin_of_def)
qed

lemma foreign_steps_observed:
  assumes "(foreign_provider_step env sid)\<^sup>*\<^sup>* p p'" and "map_of (pv_bundles p) k = Some b"
    and "map_of (pv_models p) sid = Some x"
  shows "map_of (pv_models p') sid = Some x \<and>
    (\<exists>b'. map_of (pv_bundles p') k = Some b' \<and> (foreign_step sid)\<^sup>*\<^sup>* (bn_manager b) (bn_manager b'))"
  using assms
proof induction
  case (step p1 p2)
  then obtain b1 where "map_of (pv_models p1) sid = Some x" "map_of (pv_bundles p1) k = Some b1"
    "(foreign_step sid)\<^sup>*\<^sup>* (bn_manager b) (bn_manager b1)" by blast
  then show ?case using foreign_step_observed [OF step(2)] by (meson rtranclp_trans)
qed auto

subsection \<open>What the parts of a turn do\<close>

lemma resolve_bundle_Inr:
  assumes "resolve_bundle env model p = (Inr (k, b), p')"
  shows "\<exists>pr. resolve_profile (ev_mapping env) (ev_is_dir env) model = Inr pr \<and> k = mp_name pr"
    and "map_of (pv_bundles p') k = Some b" and "pv_models p' = pv_models p"
    and "map_of (pv_bundles p) k = Some b0 \<Longrightarrow> p' = p"
    and "map_of (pv_bundles p) k = Some b \<or> (\<exists>tok pr. bn_manager b = profile_manager tok pr)"
proof -
  show "\<exists>pr. resolve_profile (ev_mapping env) (ev_is_dir env) model = Inr pr \<and> k = mp_name pr"
    "map_of (pv_bundles p') k = Some b" "pv_models p' = pv_models p"
    "map_of (pv_bundles p) k = Some b0 \<Longrightarrow> p' = p"
    using assms resolve_bundle_models [of env model p]
    by (auto simp: resolve_bundle_def sbind_slift via_def put_bundle_def update_conv' split: sum.splits option.splits)
  have "\<exists>tok pr. bn_manager b = profile_manager tok pr" if built: "build_bundle env pr = Inr b" for pr
  proof -
    obtain tok where "bn_manager b = profile_manager tok pr"
      using built by (auto simp: build_bundle_def split: option.splits)
    then show ?thesis by blast
  qed
  with assms show "map_of (pv_bundles p) k = Some b \<or> (\<exists>tok pr. bn_manager b = profile_manager tok pr)"
    by (auto simp: resolve_bundle_def sbind_slift via_def split: sum.splits option.splits)
qed

lemma on_manager_Inr:
  assumes "on_manager k act p = (Inr x, p')" and "map_of (pv_bundles p) k = Some b"
  shows "fst (act (bn_manager b)) = Inr x"
    and "map_of (pv_bundles p') k = Some (b\<lparr>bn_manager := snd (act (bn_manager b))\<rparr>)"
    and "pv_models p' = pv_models p"
  using assms by (auto simp: on_manager_def split_beta put_bundle_def update_conv')

text \<open>Every session is pinned to a profile by its model.\<close>

definition pinned_to :: "env \<Rightarrow> provider \<Rightarrow> string \<Rightarrow> string \<Rightarrow> bool" where
  "pinned_to env p sid k \<longleftrightarrow>
     (\<exists>model pr. map_of (pv_models p) sid = Some model \<and>
        resolve_profile (ev_mapping env) (ev_is_dir env) model = Inr pr \<and> mp_name pr = k)"

lemma pinned_to_unique: "pinned_to env p sid k \<Longrightarrow> pinned_to env p sid k' \<Longrightarrow> k = k'"
  by (auto simp: pinned_to_def)

lemma resolve_for_session_Inr:
  assumes "resolve_for_session env sid model p = (Inr (k, b), p')"
  shows "pinned_to env p' sid k" and "map_of (pv_bundles p') k = Some b"
    and "map_of (pv_models p) sid = Some x \<Longrightarrow> pv_models p' = pv_models p"
    and "map_of (pv_bundles p) k = Some b0 \<Longrightarrow> pv_bundles p' = pv_bundles p"
    and "map_of (pv_bundles p) k = Some b \<or> (\<exists>tok pr. bn_manager b = profile_manager tok pr)"
proof -
  consider (first) m p1 where "map_of (pv_models p) sid = None" "resolve_bundle env m p = (Inr (k, b), p1)"
      "p' = p1\<lparr>pv_models := AList.update sid m (pv_models p1)\<rparr>"
    | (later) m where "map_of (pv_models p) sid = Some m" "resolve_bundle env m p = (Inr (k, b), p')"
    using assms
    by (auto simp: resolve_for_session_def sbind_eq_Inr split: option.splits list.splits if_splits)
  note way = this
  from way have "pinned_to env p' sid k \<and> map_of (pv_bundles p') k = Some b \<and>
      (map_of (pv_models p) sid = Some x \<longrightarrow> pv_models p' = pv_models p) \<and>
      (map_of (pv_bundles p) k = Some b0 \<longrightarrow> pv_bundles p' = pv_bundles p)"
    using resolve_bundle_Inr(1-4)
    by cases (fastforce simp: pinned_to_def update_conv')+
  moreover from way have "map_of (pv_bundles p) k = Some b \<or> (\<exists>tok pr. bn_manager b = profile_manager tok pr)"
    by cases (drule resolve_bundle_Inr(5), assumption)+
  ultimately show "pinned_to env p' sid k" "map_of (pv_bundles p') k = Some b"
    "map_of (pv_models p) sid = Some x \<Longrightarrow> pv_models p' = pv_models p"
    "map_of (pv_bundles p) k = Some b0 \<Longrightarrow> pv_bundles p' = pv_bundles p"
    "map_of (pv_bundles p) k = Some b \<or> (\<exists>tok pr. bn_manager b = profile_manager tok pr)" by blast+
qed

lemma session_lock_fields [simp]:
  "pv_models (snd (session_lock sid p)) = pv_models p" "pv_bundles (snd (session_lock sid p)) = pv_bundles p"
  by (simp_all add: session_lock_def split: option.split)

text \<open>
  A started call: the stream's pin and bundle are in place, and the prompt is what the bundle's
  manager built after it found no turn to replay.
\<close>

lemma generate_start_Calling:
  assumes "generate_start env (Some sid) rq p = (Inr (Calling pn), p')"
  obtains k b effort where "pinned_to env p' sid k" and "pn_bundle pn = k" and "pn_session pn = sid"
    and "\<And>x. map_of (pv_models p) sid = Some x \<Longrightarrow> map_of (pv_models p') sid = Some x"
    and "map_of (pv_bundles p') k \<noteq> None"
    and "\<And>b0. map_of (pv_bundles p) k = Some b0 \<Longrightarrow> b = b0"
    and "map_of (pv_bundles p) k = Some b \<or> (\<exists>tok pr. bn_manager b = profile_manager tok pr)"
    and "fst (cached_turn (Some sid) (rq_messages rq) effort (bn_manager b)) = Inr None"
    and "fst (build_prompt (Some sid) (rq_messages rq) (rq_tools rq) effort
           (snd (cached_turn (Some sid) (rq_messages rq) effort (bn_manager b)))) = Inr (pn_prompt pn)"
    and "pn_messages pn = rq_messages rq"
proof -
  obtain lock p0 where lock: "session_lock sid p = (lock, p0)" by fastforce
  then have p0: "p0 = snd (session_lock sid p)" by simp
  from assms have l: "generate_locked env sid lock rq p0 = (Inr (Calling pn), p')"
    by (auto simp: generate_start_def sbind_eq_Inr lock)
  from l obtain k b p1 cached p2 where r: "resolve_for_session env sid (rq_model rq) p0 = (Inr (k, b), p1)"
    and c2: "on_manager k (cached_turn (Some sid) (rq_messages rq) (effective_effort b (rq_effort rq))) p1 = (Inr cached, p2)"
    and f: "(case cached of Some turn \<Rightarrow> slift (serve_replay env k turn)
         | None \<Rightarrow> generate_fresh env sid lock k b (effective_effort b (rq_effort rq)) rq) p2 = (Inr (Calling pn), p')"
    by (auto simp: generate_locked_def sbind_eq_Inr Let_def)
  let ?e = "effective_effort b (rq_effort rq)"
  have none: "cached = None"
    using f by (auto simp: serve_replay_def rbind_eq_Inr split: option.splits)
  obtain prompt params p3 where bp: "on_manager k (build_prompt (Some sid) (rq_messages rq) (rq_tools rq) ?e) p2 = (Inr prompt, p3)"
    and pn: "pn = \<lparr>pn_session = sid, pn_bundle = k, pn_lock = lock, pn_messages = rq_messages rq,
        pn_tools = rq_tools rq, pn_effort = ?e, pn_prompt = prompt, pn_params = params, pn_prior = rq_prior rq\<rparr>"
    and p': "p' = p3\<lparr>pv_held := lock # pv_held p3\<rparr>"
    using f none by (auto simp: generate_fresh_def sbind_eq_Inr split: option.splits)
  note r = resolve_for_session_Inr [OF r]
  note c = on_manager_Inr [OF c2 r(2)]
  note b = on_manager_Inr [OF bp c(2)]
  show thesis
  proof (rule that [of k b ?e])
    show "pinned_to env p' sid k" using r(1) b(3) c(3) by (simp add: pinned_to_def p')
    show "map_of (pv_models p') sid = Some x" if "map_of (pv_models p) sid = Some x" for x
      using that r(3) [of x] b(3) c(3) by (simp add: p' p0)
    show "map_of (pv_bundles p') k \<noteq> None" using b(2) by (simp add: p')
    show "b = b0" if "map_of (pv_bundles p) k = Some b0" for b0
      using that r(4) [of b0] r(2) by (simp add: p0)
    show "map_of (pv_bundles p) k = Some b \<or> (\<exists>tok pr. bn_manager b = profile_manager tok pr)"
      using r(5) by (simp add: p0)
    show "fst (cached_turn (Some sid) (rq_messages rq) ?e (bn_manager b)) = Inr None"
      using c(1) none by simp
    show "fst (build_prompt (Some sid) (rq_messages rq) (rq_tools rq) ?e
           (snd (cached_turn (Some sid) (rq_messages rq) ?e (bn_manager b)))) = Inr (pn_prompt pn)"
      using b(1) by (simp add: pn)
  qed (simp_all add: pn)
qed

lemma check_completion_Inr:
  assumes "check_completion params ids lps stop = Inr (ts, fs, reason)"
  shows "ts \<noteq> [] \<and> list_all (\<lambda>t. 0 \<le> t) ts \<and> length fs = length ts \<and> list_all is_fin fs \<and>
         reason \<in> {STOP, LENGTH}"
proof -
  from assms obtain xs ys where l: "ids = PList xs" "lps = PList ys"
    by (cases ids; cases lps) (simp_all add: check_completion_def)
  with assms obtain st where ts: "ts = map int_of_val xs" "xs \<noteq> []" "list_all is_token xs"
    and fs: "length ys = length xs" "traverse_from 0 (\<lambda>_. finite_logprob) ys = Inr fs"
    and reason: "reason = normalize_finish_reason st (int (length xs)) (budget_of params)" "reason \<noteq> ABORT"
    by (auto simp: check_completion_def rbind_eq_Inr require_eq Let_def)
  have "list_all is_fin fs"
    unfolding list_all_length
    using traverse_from_nth [OF fs(2)] traverse_from_length [OF fs(2)] finite_logprob_fin by auto
  then show ?thesis
    using ts fs(1) traverse_from_length [OF fs(2)] tokens_nonneg reason normalize_finish_reason_cases(1) [of st]
    by auto
qed

lemma generate_finish_Inr:
  assumes "generate_finish env pn oc p = (Inr (prompt, ids, lps, reason, text, meta), p')"
  shows "prompt = pn_prompt pn" and "ids \<noteq> []" and "pv_models p' = pv_models p"
    and "map_of (pv_models p) (pn_session pn) \<noteq> None \<Longrightarrow> map_of (pv_bundles p) (pn_bundle pn) = Some b \<Longrightarrow>
         \<exists>m'. commit (pn_session pn) (pn_messages pn) (pn_prompt pn) ids (Some lps) (Some reason) (Some meta)
                (pn_tools pn) (pn_effort pn) (bn_manager b) = (Inr (), m') \<and>
              map_of (pv_bundles p') (pn_bundle pn) = Some (b\<lparr>bn_manager := m'\<rparr>)"
proof -
  from assms obtain p1 where f: "finish_outcome env pn oc p = (Inr (prompt, ids, lps, reason, text, meta), p1)"
    and p': "p' = release_lock (pn_lock pn) p1"
    by (auto simp: generate_finish_def split_beta prod_eq_iff)
  from f obtain params i l s m0 where oc: "oc = Returned params i l s m0"
    by (cases oc) (auto simp: finish_outcome_def sbind_eq_Inr)
  let ?p = "p\<lparr>pv_rejected := od_pop (pn_session pn) (pv_rejected p)\<rparr>"
  from f have chk: "check_completion params i l s = Inr (ids, lps, reason)"
    and c: "commit_turn pn ids lps reason meta ?p = (Inr (), p1)" and pr: "prompt = pn_prompt pn"
    by (auto simp: finish_outcome_def oc sbind_eq_Inr Let_def)
  show "prompt = pn_prompt pn" by (fact pr)
  show "ids \<noteq> []" using check_completion_Inr [OF chk] by simp
  show "pv_models p' = pv_models p"
    using c by (auto simp: commit_turn_def on_manager_def p' release_lock_def put_bundle_def split_beta
        split: if_splits option.splits)
  assume pin: "map_of (pv_models p) (pn_session pn) \<noteq> None" and b: "map_of (pv_bundles p) (pn_bundle pn) = Some b"
  have om: "on_manager (pn_bundle pn) (commit (pn_session pn) (pn_messages pn) (pn_prompt pn) ids (Some lps)
      (Some reason) (Some meta) (pn_tools pn) (pn_effort pn)) ?p = (Inr (), p1)"
    using c pin by (simp add: commit_turn_def)
  have "map_of (pv_bundles ?p) (pn_bundle pn) = Some b" using b by simp
  from on_manager_Inr [OF om this]
  show "\<exists>m'. commit (pn_session pn) (pn_messages pn) (pn_prompt pn) ids (Some lps) (Some reason) (Some meta)
                (pn_tools pn) (pn_effort pn) (bn_manager b) = (Inr (), m') \<and>
              map_of (pv_bundles p') (pn_bundle pn) = Some (b\<lparr>bn_manager := m'\<rparr>)"
    by (auto simp: p' release_lock_def prod_eq_iff)
qed

subsection \<open>The prompt of the next turn\<close>

lemma live_bundle:
  "provider_reachable env p \<Longrightarrow> map_of (pv_bundles p) k = Some b \<Longrightarrow> live_manager k (bn_manager b)"
  using provider_reachable_live by (auto simp: sat_def)

lemma foreign_is_provider_reachable:
  "foreign_provider_step env sid p p' \<Longrightarrow> sat {} live_manager (\<lambda>_. None) p \<Longrightarrow>
   sat {} live_manager (\<lambda>_. None) p'"
  by (erule foreign_provider_stepE) (auto intro: live.keeps_operations mgr_step.intros)

lemma foreign_steps_live:
  "(foreign_provider_step env sid)\<^sup>*\<^sup>* p p' \<Longrightarrow> sat {} live_manager (\<lambda>_. None) p \<Longrightarrow>
   sat {} live_manager (\<lambda>_. None) p'"
  by (induction rule: rtranclp_induct) (auto intro: foreign_is_provider_reachable)

lemma next_prompt_extends:
  assumes "provider_reachable env p0"
    and "generate_start env (Some sid) rq0 p0 = (Inr (Calling pn), p1)"
    and "(foreign_provider_step env sid)\<^sup>*\<^sup>* p1 p2"
    and "generate_finish env pn oc p2 = (Inr (prompt, ids, lps, reason, text, meta), p3)"
    and "(foreign_provider_step env sid)\<^sup>*\<^sup>* p3 p4"
    and "generate_start env (Some sid) rq p4 = (Inr (Calling pn'), p5)"
    and "normalize_messages (rq_messages rq) = Inr ms" and "first_assistant ms \<noteq> None"
  shows "prompt = pn_prompt pn \<and> prefix (prompt @ ids) (pn_prompt pn')"
proof -
  from assms(2) obtain k b where pin1: "pinned_to env p1 sid k" and k: "pn_bundle pn = k" "pn_session pn = sid"
    and b1: "map_of (pv_bundles p1) k \<noteq> None"
    by (rule generate_start_Calling) blast
  from pin1 obtain x where x1: "map_of (pv_models p1) sid = Some x" by (auto simp: pinned_to_def)
  obtain b2 where b2: "map_of (pv_bundles p2) k = Some b2" and x2: "map_of (pv_models p2) sid = Some x"
    using foreign_steps_observed [OF assms(3) _ x1] b1 by blast
  have "sat {} live_manager (\<lambda>_. None) p1"
    using live.keeps_start [OF provider_reachable_live [OF assms(1)], of env "Some sid" rq0] assms(2) by simp
  then have live2: "live_manager k (bn_manager b2)"
    using foreign_steps_live [OF assms(3)] b2 by (auto simp: sat_def)
  note fin = generate_finish_Inr [OF assms(4), unfolded k]
  obtain m3 where commit: "commit sid (pn_messages pn) (pn_prompt pn) ids (Some lps) (Some reason) (Some meta)
      (pn_tools pn) (pn_effort pn) (bn_manager b2) = (Inr (), m3)"
    and b3: "map_of (pv_bundles p3) k = Some (b2\<lparr>bn_manager := m3\<rparr>)"
    using fin(4) [OF _ b2] x2 by auto
  have x3: "map_of (pv_models p3) sid = Some x" using fin(3) x2 by simp
  obtain b4 where x4: "map_of (pv_models p4) sid = Some x" and b4: "map_of (pv_bundles p4) k = Some b4"
    and steps: "(foreign_step sid)\<^sup>*\<^sup>* m3 (bn_manager b4)"
    using foreign_steps_observed [OF assms(5) b3 x3] by auto
  from assms(6) obtain k' b' effort where pin5: "pinned_to env p5 sid k'" and x5: "map_of (pv_models p5) sid = Some x"
    and b': "\<And>b0. map_of (pv_bundles p4) k' = Some b0 \<Longrightarrow> b' = b0"
    and bp: "fst (build_prompt (Some sid) (rq_messages rq) (rq_tools rq) effort
           (snd (cached_turn (Some sid) (rq_messages rq) effort (bn_manager b')))) = Inr (pn_prompt pn')"
    by (rule generate_start_Calling) (use x4 in blast)
  have "k' = k" using pin1 pin5 x1 x5 by (auto simp: pinned_to_def)
  with b' b4 have "b' = b4" by simp
  have "(foreign_step sid)\<^sup>*\<^sup>* m3 (snd (cached_turn (Some sid) (rq_messages rq) effort (bn_manager b4)))"
    using steps foreign_cached by (rule rtranclp.rtrancl_into_rtrancl)
  from commit_then_prompt [OF _ _ commit this assms(7,8) bp [unfolded \<open>b' = b4\<close>]] live2
  show ?thesis by (simp add: live_manager_def MAX_SESSIONS_def fin(1))
qed

text \<open>C1:
  Token-in, token-out through the whole provider: when a turn of a stream was started, whatever the
  other streams did while the engine was sampling, finished with a completion, and whatever they do
  afterwards, the next engine call of that stream whose conversation continues it gets a prompt that
  starts with exactly the prompt sent before followed by exactly the tokens the engine sampled.
\<close>

theorem provider_token_in_token_out:
  assumes "provider_reachable env p0"
    and "generate_start env (Some sid) rq0 p0 = (Inr (Calling pn), p1)"
    and "(foreign_provider_step env sid)\<^sup>*\<^sup>* p1 p2"
    and "generate_finish env pn oc p2 = (Inr (prompt, ids, lps, reason, text, meta), p3)"
    and "(foreign_provider_step env sid)\<^sup>*\<^sup>* p3 p4"
    and "generate_start env (Some sid) rq p4 = (Inr (Calling pn'), p5)"
    and "normalize_messages (rq_messages rq) = Inr ms" and "first_assistant ms \<noteq> None"
  shows "prompt = pn_prompt pn \<and> prefix (prompt @ ids) (pn_prompt pn')"
  using assms by (rule next_prompt_extends)

text \<open>A profile on the demonstration tokenizer, an opening request, its completion and a follow-up.\<close>

definition demo_env :: env where
  "demo_env =
     \<lparr>ev_mapping = PDict [(''m'', PStr ''llama3_1'')], ev_is_dir = (\<lambda>_. True),
      ev_load_tokenizer = (\<lambda>_. Some demo_tokenizer), ev_decode = (\<lambda>_ _. Some ''ok''),
      ev_generation_config = (\<lambda>_. None), ev_extract = (\<lambda>_ _ _ _. None)\<rparr>"

definition demo_request :: "pyval \<Rightarrow> request" where
  "demo_request messages =
     \<lparr>rq_messages = messages, rq_model = Some ''m'', rq_requested = [], rq_max_tokens = PInt 9, rq_stop = None,
      rq_tools = PNone, rq_seed = None, rq_stop_token_ids = None, rq_effort = PNone, rq_prior = None\<rparr>"

definition demo_provider :: provider where
  "demo_provider = projr (init_provider (PDict []))"

definition demo_pending :: pending where
  "demo_pending = (case fst (generate_start demo_env (Some ''s'') (demo_request demo_opening) demo_provider) of
     Inr (Calling pn) \<Rightarrow> pn)"

definition demo_calling :: provider where
  "demo_calling = snd (generate_start demo_env (Some ''s'') (demo_request demo_opening) demo_provider)"

definition demo_outcome :: outcome where
  "demo_outcome = Returned [(''max_tokens'', PInt 9)] (PList [PInt 3, PInt 4]) (PList [PFloat (Fin (-1)), PInt 0])
     (PStr ''stop'') []"

definition demo_finished :: provider where
  "demo_finished = snd (generate_finish demo_env demo_pending demo_outcome demo_calling)"

lemma demo_provider_reachable: "provider_reachable demo_env demo_provider"
  by (rule provider_init [of "PDict []"])
    (simp add: demo_provider_def init_provider_def validate_sampling_overrides_def pick_keys_def has_key_def)

definition is_calling :: "provider_error + started \<Rightarrow> bool" where
  "is_calling r = (case r of Inr (Calling _) \<Rightarrow> True | _ \<Rightarrow> False)"

lemma demo_start:
  "generate_start demo_env (Some ''s'') (demo_request demo_opening) demo_provider = (Inr (Calling demo_pending), demo_calling)"
proof -
  have "is_calling (fst (generate_start demo_env (Some ''s'') (demo_request demo_opening) demo_provider))"
    by code_simp
  then show ?thesis
    by (auto simp: demo_pending_def demo_calling_def is_calling_def prod_eq_iff split: sum.splits started.splits)
qed

lemma demo_finish:
  "generate_finish demo_env demo_pending demo_outcome demo_calling =
     (Inr (pn_prompt demo_pending, [3, 4], [Fin (-1), Fin 0], ''stop'', ''ok'', [(''sampling_params'', PDict [(''temperature'', PFloat (Fin 1))])]),
      demo_finished)"
proof -
  have "fst (generate_finish demo_env demo_pending demo_outcome demo_calling) =
     Inr (pn_prompt demo_pending, [3, 4], [Fin (-1), Fin 0], ''stop'', ''ok'', [(''sampling_params'', PDict [(''temperature'', PFloat (Fin 1))])])"
    by code_simp
  then show ?thesis by (simp add: demo_finished_def prod_eq_iff)
qed

definition demo_next :: "provider_error + started" where
  "demo_next = fst (generate_start demo_env (Some ''s'') (demo_request demo_followup) demo_finished)"

definition demo_next_prompt :: "int list" where
  "demo_next_prompt = (case demo_next of Inr (Calling pn) \<Rightarrow> pn_prompt pn)"

theorem provider_token_in_token_out_witness: "prefix (pn_prompt demo_pending @ [3, 4]) demo_next_prompt"
proof -
  have "is_calling demo_next" by code_simp
  then obtain pn' p5 where n: "generate_start demo_env (Some ''s'') (demo_request demo_followup) demo_finished = (Inr (Calling pn'), p5)"
    by (auto simp: demo_next_def is_calling_def prod_eq_iff split: sum.splits started.splits)
  then have "demo_next_prompt = pn_prompt pn'" by (simp add: demo_next_prompt_def demo_next_def)
  moreover have "normalize_messages (rq_messages (demo_request demo_followup)) = Inr demo_messages"
    using demo_followup_normal by (simp add: demo_request_def)
  ultimately show ?thesis
    using provider_token_in_token_out [OF demo_provider_reachable demo_start rtranclp.rtrancl_refl demo_finish
        rtranclp.rtrancl_refl n _ demo_followup_assistant]
    by simp
qed

subsection \<open>Failed commits\<close>

lemma commit_Inl: "fst (commit sid messages p c lps reason meta tools effort m) = Inl e \<Longrightarrow>
    snd (commit sid messages p c lps reason meta tools effort m) = m"
  by (cases "normalize_messages messages") (auto simp: commit_def sbind_slift Let_def split_beta)

lemma commit_turn_Inl:
  assumes "commit_turn pn ids lps reason meta p = (Inl e, p')"
  shows "map_of (pv_bundles p') = map_of (pv_bundles p)"
proof (cases "map_of (pv_models p) (pn_session pn) = None \<or> map_of (pv_bundles p) (pn_bundle pn) = None")
  case True
  with assms show ?thesis by (auto simp: commit_turn_def on_manager_def split: if_splits)
next
  case False
  then obtain b where b: "map_of (pv_bundles p) (pn_bundle pn) = Some b" by auto
  let ?c = "commit (pn_session pn) (pn_messages pn) (pn_prompt pn) ids (Some lps) (Some reason) (Some meta)
      (pn_tools pn) (pn_effort pn) (bn_manager b)"
  from assms False b have p': "p' = put_bundle (pn_bundle pn) (b\<lparr>bn_manager := snd ?c\<rparr>) p"
    and "via StreamError (fst ?c) = Inl e"
    by (auto simp: commit_turn_def on_manager_def split_beta)
  then obtain e' where "fst ?c = Inl e'" by (cases "fst ?c") (auto simp: via_def)
  from commit_Inl [OF this] b show ?thesis by (auto simp: p' put_bundle_def update_conv')
qed

subsection \<open>Rejected requests\<close>

text \<open>C26:
  A request the engine keeps rejecting is not retried forever: after one deterministic rejection the
  same messages still get a second live call, and after the second one every exact repetition raises
  the stored rejection without building a prompt or calling the engine, while a request with another
  reasoning effort still goes through.
\<close>

theorem rejected_request_fails_fast:
  assumes "normalize_messages (rq_messages rq) = Inr ms" and "map_of (pv_rejected p) sid = None"
    and "rejection_status e1 \<noteq> None" and "rejection_status e2 \<noteq> None"
    and "p1 = snd (note_engine_rejection sid (rq_messages rq) e1 effort p)"
    and "p2 = snd (note_engine_rejection sid (rq_messages rq) e2 effort p1)"
  shows "rejected_repeat sid (rq_messages rq) effort p1 = Inr None \<and>
         generate_fresh env sid lock k b effort rq p2 = (Inl (EngineFailed e2), p2) \<and>
         (effort' \<noteq> effort \<longrightarrow> rejected_repeat sid (rq_messages rq) effort' p2 = Inr None)"
proof -
  have p1: "p1 = p\<lparr>pv_rejected := AList.update sid
      \<lparr>rj_messages = ms, rj_error = e1, rj_attempts = 1, rj_effort = effort\<rparr> (pv_rejected p)\<rparr>"
    using assms(1-3) by (simp add: assms(5) note_engine_rejection_def sbind_slift via_def del: not_None_eq)
  have p2: "map_of (pv_rejected p2) sid =
      Some \<lparr>rj_messages = ms, rj_error = e2, rj_attempts = 2, rj_effort = effort\<rparr>"
    using assms(1,4)
    by (simp add: assms(6) p1 note_engine_rejection_def sbind_slift via_def update_conv' del: not_None_eq)
  have "rejected_repeat sid (rq_messages rq) effort p2 = Inr (Some e2)"
    using assms(1) by (simp add: rejected_repeat_def p2 MAX_REJECTED_GENERATIONS_def via_def)
  then have "generate_fresh env sid lock k b effort rq p2 = (Inl (EngineFailed e2), p2)"
    by (simp add: generate_fresh_def sbind_def)
  moreover have "rejected_repeat sid (rq_messages rq) effort p1 = Inr None"
    by (simp add: rejected_repeat_def p1 MAX_REJECTED_GENERATIONS_def update_conv')
  ultimately show ?thesis
    using assms(1) by (simp add: rejected_repeat_def p2 MAX_REJECTED_GENERATIONS_def via_def)
qed

definition demo_bundle :: model_bundle where
  "demo_bundle = \<lparr>bn_manager = demo_manager, bn_sampling_defaults = [], bn_stop_token_ids = [], bn_efforts = [],
     bn_default_effort = None\<rparr>"

theorem rejected_request_fails_fast_witness:
  "fst (generate_fresh demo_env ''s'' 0 ''llama3_1'' demo_bundle None (demo_request demo_opening)
     (snd (note_engine_rejection ''s'' demo_opening (HttpStatus 422) None
       (snd (note_engine_rejection ''s'' demo_opening (HttpStatus 400) None demo_provider)))))
   = Inl (EngineFailed (HttpStatus 422))"
proof -
  have n: "normalize_messages (rq_messages (demo_request demo_opening)) = Inr [demo_msg ''user'' ''hi'']"
    and r: "map_of (pv_rejected demo_provider) ''s'' = None"
    and s: "rejection_status (HttpStatus 400) \<noteq> None" "rejection_status (HttpStatus 422) \<noteq> None"
    by code_simp+
  show ?thesis
    using rejected_request_fails_fast [OF n r s refl refl, of None demo_env 0 "''llama3_1''" demo_bundle None]
    by (simp add: demo_request_def)
qed

subsection \<open>Parsed completions\<close>

lemma committed_turn_publish:
  assumes "committed_turn m sid ids = Some t" and "ct_parsed_completion t = None"
  shows "committed_turn (snd (publish_parsed sid ids q m)) sid ids = Some (t\<lparr>ct_parsed_completion := Some q\<rparr>)"
proof -
  obtain s where s: "map_of (mgr_sessions m) sid = Some s" "ss_last_turn s = Some t"
    and "length ids = ct_completion_len t" "last_n (ct_completion_len t) (ss_stream s) = ids"
    using assms(1) by (auto simp: committed_turn_def split: option.splits if_splits)
  then show ?thesis
    using assms by (simp add: publish_parsed_def committed_turn_def map_of_map_value)
qed

text \<open>
  The parsed view of a committed turn is published once: after the first successful parse, every
  later parse of that turn returns the same content, tool calls (ids included), reasoning and finish
  reason, whatever the parser, the fresh ids, the tools or the finish reason of the later request
  are, and changes nothing.
\<close>

theorem parse_is_published_once:
  assumes "map_of (pv_models p) sid = Some model" and "resolve_bundle env model p = (Inr (k, b), p0)"
    and "committed_turn (bn_manager b) sid ids \<noteq> None"
    and "parse_completion env fresh (Some sid) ids text reason tools p = (Inr parsed, p')"
  shows "parse_completion (env\<lparr>ev_extract := extract'\<rparr>) fresh' (Some sid) ids text' reason' tools' p' = (Inr parsed, p')"
proof -
  from assms(3) obtain t where t: "committed_turn (bn_manager b) sid ids = Some t" by blast
  note r = resolve_bundle_Inr [OF assms(2)]
  have resolved: "sbind (resolve_bundle env model) f p = f (k, b) p0" for f :: "_ \<Rightarrow> 'a provider_action"
    using assms(2) by (simp add: sbind_def)
  have again: "resolve_bundle (env\<lparr>ev_extract := extract'\<rparr>) model q = (Inr (k, b'), q)"
    if "map_of (pv_bundles q) k = Some b'" for q b'
    using r(1) that by (auto simp: resolve_bundle_def via_def)
  have result: "\<exists>b' t'. map_of (pv_bundles p') k = Some b' \<and> committed_turn (bn_manager b') sid ids = Some t' \<and>
      ct_parsed_completion t' = Some parsed \<and> pv_models p' = pv_models p"
  proof (cases "ct_parsed_completion t")
    case (Some q)
    then have "p' = p0" "parsed = q"
      using assms(1,4) t by (auto simp: parse_completion_def resolved)
    with Some t r show ?thesis by auto
  next
    case None
    obtain d where d: "ev_extract env k ids (ct_tools t) text = Some d"
      and o: "on_manager k (\<lambda>m. apfst Inr (publish_parsed sid ids (parsed_of fresh d reason) m)) p0 = (Inr parsed, p')"
      using assms(1,4) t None
      by (auto simp: parse_completion_def resolved split: option.splits)
    let ?q = "parsed_of fresh d reason"
    note o = on_manager_Inr [OF o r(2)]
    have "parsed = ?q" using o(1) t None by (simp add: publish_parsed_def)
    with o(2,3) committed_turn_publish [OF t None, of ?q] r(3) show ?thesis by simp
  qed
  then obtain b' t' where b': "map_of (pv_bundles p') k = Some b'" "committed_turn (bn_manager b') sid ids = Some t'"
    "ct_parsed_completion t' = Some parsed" "pv_models p' = pv_models p" by blast
  then show ?thesis
    using assms(1) by (simp add: parse_completion_def sbind_def again [OF b'(1)])
qed

definition parsing_env :: env where
  "parsing_env = demo_env\<lparr>ev_extract := \<lambda>_ _ _ _. Some
     \<lparr>dc_content = None, dc_reasoning = Some ''hm'', dc_calls = [(''ls'', ''{}'')]\<rparr>\<rparr>"

definition demo_parsed :: parsed_completion where
  "demo_parsed =
     \<lparr>pc_content = None, pc_tool_calls = Some [openai_call ''7'' (''ls'', ''{}'')],
      pc_finish_reason = ''tool_calls'', pc_reasoning_content = Some ''hm''\<rparr>"

definition demo_parse :: "provider_error + parsed_completion" where
  "demo_parse = fst (parse_completion parsing_env (\<lambda>_. ''7'') (Some ''s'') [3, 4] ''ok'' STOP PNone demo_finished)"

theorem parse_is_published_once_witness:
  "fst (parse_completion demo_env (\<lambda>_. ''8'') (Some ''s'') [3, 4] ''no'' LENGTH (PList [])
     (snd (parse_completion parsing_env (\<lambda>_. ''7'') (Some ''s'') [3, 4] ''ok'' STOP PNone demo_finished)))
   = Inr demo_parsed"
proof -
  let ?p = "snd (parse_completion parsing_env (\<lambda>_. ''7'') (Some ''s'') [3, 4] ''ok'' STOP PNone demo_finished)"
  have m: "map_of (pv_models demo_finished) ''s'' = Some ''m''" by code_simp
  have "(case fst (resolve_bundle parsing_env ''m'' demo_finished) of
      Inl _ \<Rightarrow> False | Inr (k, b) \<Rightarrow> (case committed_turn (bn_manager b) ''s'' [3, 4] of None \<Rightarrow> False | Some _ \<Rightarrow> True))"
    by code_simp
  then obtain k b p0 where r: "resolve_bundle parsing_env ''m'' demo_finished = (Inr (k, b), p0)"
    and t: "committed_turn (bn_manager b) ''s'' [3, 4] \<noteq> None"
    by (cases "resolve_bundle parsing_env ''m'' demo_finished") (auto split: sum.splits option.splits)
  have "demo_parse = Inr demo_parsed" by code_simp
  then have "parse_completion parsing_env (\<lambda>_. ''7'') (Some ''s'') [3, 4] ''ok'' STOP PNone demo_finished = (Inr demo_parsed, ?p)"
    by (simp add: demo_parse_def prod_eq_iff)
  from parse_is_published_once [OF m r t this, of "ev_extract demo_env"] show ?thesis
    by (simp add: parsing_env_def)
qed

end
