(* ===== verification/ServiceSafety.thy ===== *)
theory ServiceSafety
  imports Service RecorderProperties ProviderProperties
begin

section \<open>Turns, finalization and deletion\<close>

text \<open>
  Invariants of the service that do not depend on what a turn computes: every turn holds the lock of
  its stream while it runs, a finalization passes only when no work of its session is left, and a
  deletion leaves nothing behind.
\<close>

subsection \<open>The invariant\<close>

definition past_queue :: "turn \<Rightarrow> bool" where
  "past_queue t \<longleftrightarrow> tn_stage t \<noteq> Queued"

text \<open>The turn's ids, its stream among the session's streams, its lock in the table of turn locks.\<close>

definition turn_wf :: "server \<Rightarrow> turn \<Rightarrow> bool" where
  "turn_wf s t \<longleftrightarrow>
     matches_id (tn_session t) \<and> map_of (sv_turn_locks s) (tn_stream t) = Some (tn_lock t) \<and>
     (\<exists>xs. map_of (sv_streams s) (tn_session t) = Some xs \<and> tn_stream t \<in> set xs)"

definition turns_ok :: "server \<Rightarrow> bool" where
  "turns_ok s \<longleftrightarrow> distinct (od_keys (sv_turns s)) \<and> (\<forall>i\<in>set (od_keys (sv_turns s)). i < sv_next_turn s) \<and>
     (\<forall>i t. map_of (sv_turns s) i = Some t \<longrightarrow> turn_wf s t)"

definition locks_ok :: "server \<Rightarrow> bool" where
  "locks_ok s \<longleftrightarrow>
     (\<forall>x l. map_of (sv_turn_locks s) x = Some l \<longrightarrow> l < sv_next_lock s) \<and>
     (\<forall>x y l. map_of (sv_turn_locks s) x = Some l \<longrightarrow> map_of (sv_turn_locks s) y = Some l \<longrightarrow> x = y) \<and>
     (\<forall>i t. map_of (sv_turns s) i = Some t \<longrightarrow> past_queue t \<longrightarrow> tn_lock t \<in> set (sv_held s)) \<and>
     (\<forall>i j t u. map_of (sv_turns s) i = Some t \<longrightarrow> map_of (sv_turns s) j = Some u \<longrightarrow>
        past_queue t \<longrightarrow> past_queue u \<longrightarrow> tn_lock t = tn_lock u \<longrightarrow> i = j)"

definition streams_ok :: "server \<Rightarrow> bool" where
  "streams_ok s \<longleftrightarrow> (\<forall>sid xs. map_of (sv_streams s) sid = Some xs \<longrightarrow>
     xs \<noteq> [] \<and> (\<forall>x\<in>set xs. \<exists>aid. x = stream_id sid aid) \<and> matches_id sid)"

text \<open>A session under deletion has no record; its cancelled turns are the ones the cleanup waits for.\<close>

definition cancel_ok :: "server \<Rightarrow> nat \<Rightarrow> turn \<Rightarrow> bool" where
  "cancel_ok s i t \<longleftrightarrow>
     (session_deleted (tn_session t) s \<longrightarrow> map_of (sv_deletions s) (tn_session t) \<noteq> None) \<and>
     (tn_cancelled t \<longleftrightarrow> (\<exists>ids. map_of (sv_deletions s) (tn_session t) = Some (Some ids))) \<and>
     (\<forall>ids. map_of (sv_deletions s) (tn_session t) = Some (Some ids) \<longrightarrow> i \<in> set ids)"

definition deletions_ok :: "server \<Rightarrow> bool" where
  "deletions_ok s \<longleftrightarrow> tombstones_last s \<and> distinct (od_keys (rec_deleted (px_recorder (sv_proxy s)))) \<and>
     (\<forall>sid d. map_of (sv_deletions s) sid = Some d \<longrightarrow>
        get_session sid (px_recorder (sv_proxy s)) = None \<and> map_of (rec_failed (px_recorder (sv_proxy s))) sid = None \<and>
        matches_id sid) \<and>
     (\<forall>i t. map_of (sv_turns s) i = Some t \<longrightarrow> cancel_ok s i t)"

definition past_barrier :: "finalization \<Rightarrow> bool" where
  "past_barrier f \<longleftrightarrow> f \<noteq> Draining \<and> f \<noteq> FinalizationCancelled"

definition finalizations_ok :: "server \<Rightarrow> bool" where
  "finalizations_ok s \<longleftrightarrow>
     (\<forall>sid f. map_of (sv_finalizations s) sid = Some f \<longrightarrow> past_barrier f \<longrightarrow>
        (\<forall>i t. map_of (sv_turns s) i = Some t \<longrightarrow> tn_session t = sid \<longrightarrow> \<not> in_flight t)) \<and>
     (\<forall>sid. map_of (sv_finalizations s) sid = Some Finalized \<longrightarrow> map_of (sv_deletions s) sid = None \<longrightarrow>
        (\<exists>r. get_session sid (px_recorder (sv_proxy s)) = Some r \<and> sr_completed r) \<and>
        map_of (rec_failed (px_recorder (sv_proxy s))) sid = None) \<and>
     (\<forall>sid. map_of (sv_finalizations s) sid = Some FinalizationCancelled \<longrightarrow> map_of (sv_deletions s) sid \<noteq> None)"

definition server_ok :: "server \<Rightarrow> bool" where
  "server_ok s \<longleftrightarrow> turns_ok s \<and> locks_ok s \<and> streams_ok s \<and> deletions_ok s \<and> finalizations_ok s"

lemmas server_ok_defs = turns_ok_def locks_ok_def streams_ok_def deletions_ok_def finalizations_ok_def

lemma map_of_snoc_new: "k \<notin> set (od_keys d) \<Longrightarrow> map_of (d @ [(k, v)]) = (map_of d)(k \<mapsto> v)"
  by (rule ext) (auto simp: map_add_def map_of_eq_None_keys [symmetric] split: option.splits)

lemma session_busy_iff:
  assumes "distinct (od_keys (sv_turns s))"
  shows "session_busy sid s \<longleftrightarrow> (\<exists>i t. map_of (sv_turns s) i = Some t \<and> tn_session t = sid \<and> in_flight t)"
  using assms by (auto simp: session_busy_def list_ex_iff od_keys_def)

lemma tombstones_last_iff:
  "tombstones_last s \<longleftrightarrow> (\<forall>sid. map_of (sv_deletions s) sid \<noteq> None \<longrightarrow> session_deleted sid s)"
  by (auto simp: tombstones_last_def list_all_iff map_of_eq_None_keys)

subsection \<open>What the handler does to the recorder\<close>

text \<open>An operation of the recorder that touches one session, and no tombstone.\<close>

definition recorder_local :: "string \<Rightarrow> recorder \<Rightarrow> recorder \<Rightarrow> bool" where
  "recorder_local sid m m' \<longleftrightarrow> rec_deleted m' = rec_deleted m \<and>
     (\<forall>k. k \<noteq> sid \<longrightarrow> map_of (rec_sessions m') k = map_of (rec_sessions m) k \<and>
        map_of (rec_failed m') k = map_of (rec_failed m) k)"

lemma recorder_local_refl [simp]: "recorder_local sid m m"
  by (simp add: recorder_local_def)

lemma failed_clear_other: "k \<noteq> sid \<Longrightarrow> map_of (rec_failed (clear_recording_failure sid a m)) k = map_of (rec_failed m) k"
  by (simp add: clear_recording_failure_def Let_def update_conv' split: option.split)

lemma recorder_local_record:
  "recorder_local (dl_session_id d) m (snd (record_completion now wall d m))"
proof (cases "tombstoned now (dl_session_id d) m")
  case True
  then show ?thesis by (simp add: record_completion_def)
next
  case False
  then show ?thesis
    by (cases rule: record_completion_cases [where wall = wall]) (simp_all add: recorder_local_def failed_clear_other)
qed

lemma recorder_local_mark: "recorder_local sid m (snd (mark_recording_failed now sid agent ms p ids m))"
  by (auto simp: mark_recording_failed_def recorder_local_def Let_def sbind_slift update_conv' split: sum.split)

lemma recorder_local_ensure: "recorder_local sid m (ensure_session now wall sid model m)"
  by (auto simp: ensure_session_def recorder_local_def split: option.split)

lemma recorder_local_finalize: "recorder_local sid m (snd (Recorder.finalize_session sid m))"
  by (auto simp: Recorder.finalize_session_def recorder_local_def Let_def split_beta split: option.split)

lemma tombstoned_silent:
  "tombstoned now (dl_session_id d) m \<Longrightarrow> record_completion now wall d m = (Inr None, m)"
  "tombstoned now sid m \<Longrightarrow> mark_recording_failed now sid agent ms p ids m = (Inr (), m)"
  by (simp_all add: record_completion_def mark_recording_failed_def)

lemma delete_session_fields:
  "get_session k (Recorder.delete_session now sid m) = (if k = sid then None else get_session k m)"
  "map_of (rec_failed (Recorder.delete_session now sid m)) k = (if k = sid then None else map_of (rec_failed m) k)"
  by (simp_all add: get_session_def Recorder.delete_session_def)

lemma delete_session_distinct:
  assumes "distinct (od_keys (rec_deleted m))"
  shows "distinct (od_keys (rec_deleted (Recorder.delete_session now sid m)))"
proof -
  obtain n where "drop_expired (now - TOMBSTONE_TTL) (od_put sid now (rec_deleted m)) = drop n (od_put sid now (rec_deleted m))"
    using drop_expired_suffix by blast
  then show ?thesis
    using assms by (simp add: Recorder.delete_session_def prune_tombstones_def Let_def del: od_keys_put)
qed

lemma delete_session_tombstones:
  assumes "distinct (od_keys (rec_deleted m))" and "tombstoned now k (Recorder.delete_session now sid m)"
  shows "k = sid \<or> tombstoned now k m"
proof -
  let ?d = "od_put sid now (rec_deleted m)"
  obtain n where n: "prune_tombstones now ?d = drop n ?d"
    using drop_expired_suffix [of "now - TOMBSTONE_TTL" ?d] by (auto simp: prune_tombstones_def Let_def)
  have "distinct (od_keys ?d)" using assms(1) by simp
  then have "map_of (drop n ?d) k = None \<or> map_of (drop n ?d) k = map_of ?d k" by (rule map_of_drop_distinct)
  with assms(2) n show ?thesis
    by (cases "k = sid"; cases "map_of (rec_deleted m) k")
      (auto simp: tombstoned_def Recorder.delete_session_def split: option.splits)
qed

subsection \<open>Small steps of the state\<close>

lemma put_turn_fields [simp]:
  "map_of (sv_turns (put_turn i t s)) j = (if j = i then Some t else map_of (sv_turns s) j)"
  "sv_turn_locks (put_turn i t s) = sv_turn_locks s" "sv_next_lock (put_turn i t s) = sv_next_lock s"
  "sv_held (put_turn i t s) = sv_held s" "sv_streams (put_turn i t s) = sv_streams s"
  "sv_finalizations (put_turn i t s) = sv_finalizations s" "sv_deletions (put_turn i t s) = sv_deletions s"
  "sv_clock (put_turn i t s) = sv_clock s" "sv_proxy (put_turn i t s) = sv_proxy s"
  "sv_next_turn (put_turn i t s) = sv_next_turn s"
  by (simp_all add: put_turn_def update_conv')

lemma drop_turn_fields [simp]:
  "map_of (sv_turns (drop_turn i s)) j = (if j = i then None else map_of (sv_turns s) j)"
  "sv_turn_locks (drop_turn i s) = sv_turn_locks s" "sv_next_lock (drop_turn i s) = sv_next_lock s"
  "sv_held (drop_turn i s) = sv_held s" "sv_streams (drop_turn i s) = sv_streams s"
  "sv_finalizations (drop_turn i s) = sv_finalizations s" "sv_deletions (drop_turn i s) = sv_deletions s"
  "sv_clock (drop_turn i s) = sv_clock s" "sv_proxy (drop_turn i s) = sv_proxy s"
  "sv_next_turn (drop_turn i s) = sv_next_turn s"
  by (simp_all add: drop_turn_def)

lemma unlock_fields [simp]:
  "set (sv_held (unlock l s)) = set (sv_held s) - {l}" "sv_turns (unlock l s) = sv_turns s"
  "sv_turn_locks (unlock l s) = sv_turn_locks s" "sv_next_lock (unlock l s) = sv_next_lock s"
  "sv_streams (unlock l s) = sv_streams s" "sv_finalizations (unlock l s) = sv_finalizations s"
  "sv_deletions (unlock l s) = sv_deletions s" "sv_clock (unlock l s) = sv_clock s"
  "sv_proxy (unlock l s) = sv_proxy s" "sv_next_turn (unlock l s) = sv_next_turn s"
  by (auto simp: unlock_def)

lemma on_recorder_fields [simp]:
  "sv_turns (on_recorder f s) = sv_turns s" "sv_turn_locks (on_recorder f s) = sv_turn_locks s"
  "sv_next_lock (on_recorder f s) = sv_next_lock s" "sv_held (on_recorder f s) = sv_held s"
  "sv_streams (on_recorder f s) = sv_streams s" "sv_finalizations (on_recorder f s) = sv_finalizations s"
  "sv_deletions (on_recorder f s) = sv_deletions s" "sv_clock (on_recorder f s) = sv_clock s"
  "sv_next_turn (on_recorder f s) = sv_next_turn s"
  "px_recorder (sv_proxy (on_recorder f s)) = f (px_recorder (sv_proxy s))"
  "px_provider (sv_proxy (on_recorder f s)) = px_provider (sv_proxy s)"
  by (simp_all add: on_recorder_def)

lemma put_turn_keys:
  assumes "map_of (sv_turns s) i = Some t0"
  shows "distinct (od_keys (sv_turns (put_turn i t s))) \<longleftrightarrow> distinct (od_keys (sv_turns s))"
    and "set (od_keys (sv_turns (put_turn i t s))) = set (od_keys (sv_turns s))"
proof -
  have "i \<in> set (od_keys (sv_turns s))" using assms by (rule map_of_Some_keys)
  then have "od_keys (sv_turns (put_turn i t s)) = od_keys (sv_turns s)"
    by (simp add: put_turn_def od_keys_def update_keys)
  then show "distinct (od_keys (sv_turns (put_turn i t s))) \<longleftrightarrow> distinct (od_keys (sv_turns s))"
    "set (od_keys (sv_turns (put_turn i t s))) = set (od_keys (sv_turns s))" by simp_all
qed

lemma drop_turn_keys: "od_keys (sv_turns (drop_turn i s)) = filter (\<lambda>j. j \<noteq> i) (od_keys (sv_turns s))"
  by (simp add: drop_turn_def)

text \<open>A turn keeps its identity: session, agent, lock.\<close>

definition same_turn :: "turn \<Rightarrow> turn \<Rightarrow> bool" where
  "same_turn t u \<longleftrightarrow> tn_session u = tn_session t \<and> tn_agent u = tn_agent t \<and> tn_lock u = tn_lock t \<and>
     tn_cancelled u = tn_cancelled t"

lemma same_turn_stage [simp]:
  "same_turn t (t\<lparr>tn_stage := g\<rparr>)" "same_turn t (t\<lparr>tn_attached := a\<rparr>)"
  by (simp_all add: same_turn_def)

lemma same_turn_stream: "same_turn t u \<Longrightarrow> tn_stream u = tn_stream t"
  by (simp add: same_turn_def tn_stream_def)

lemma turn_wf_same: "same_turn t u \<Longrightarrow> turn_wf s t \<Longrightarrow> turn_wf s u"
  by (simp add: turn_wf_def same_turn_stream) (simp add: same_turn_def)

lemma turn_wf_cong:
  "sv_turn_locks s' = sv_turn_locks s \<Longrightarrow> sv_streams s' = sv_streams s \<Longrightarrow> turn_wf s' t = turn_wf s t"
  by (simp add: turn_wf_def)

lemma session_deleted_cong:
  "sv_clock s' = sv_clock s \<Longrightarrow> rec_deleted (px_recorder (sv_proxy s')) = rec_deleted (px_recorder (sv_proxy s)) \<Longrightarrow>
   session_deleted sid s' = session_deleted sid s"
  by (simp add: session_deleted_def is_deleted_def tombstoned_def)

text \<open>
  A running turn moves to its next stage and changes the recorder for its own session only, not at
  all when that session is deleted.
\<close>

definition own_recording :: "turn \<Rightarrow> server \<Rightarrow> proxy \<Rightarrow> bool" where
  "own_recording t s px \<longleftrightarrow> recorder_local (tn_session t) (px_recorder (sv_proxy s)) (px_recorder px) \<and>
     (session_deleted (tn_session t) s \<longrightarrow> px_recorder px = px_recorder (sv_proxy s))"

lemma ok_proceed:
  assumes ok: "server_ok s" and t: "map_of (sv_turns s) i = Some t"
    and u: "same_turn t u" "past_queue u" and held: "past_queue t" and flight: "in_flight t"
    and own: "own_recording t s px"
  shows "server_ok (put_turn i u (s\<lparr>sv_proxy := px\<rparr>))"
proof -
  let ?s = "put_turn i u (s\<lparr>sv_proxy := px\<rparr>)"
  let ?rec = "px_recorder (sv_proxy s)"
  have keys: "set (od_keys (sv_turns ?s)) = set (od_keys (sv_turns s))"
    "distinct (od_keys (sv_turns ?s)) \<longleftrightarrow> distinct (od_keys (sv_turns s))"
    using put_turn_keys [of "s\<lparr>sv_proxy := px\<rparr>" i t u] t by simp_all
  have wf: "turn_wf ?s v = turn_wf s v" for v by (rule turn_wf_cong) simp_all
  have tok: "turns_ok ?s"
    using ok turn_wf_same [OF u(1)] t unfolding server_ok_def turns_ok_def keys wf by auto
  have lok: "locks_ok ?s"
    using ok t u held unfolding server_ok_def locks_ok_def same_turn_def by simp metis
  have del: "session_deleted k ?s = session_deleted k s" for k
    using own by (intro session_deleted_cong) (simp_all add: own_recording_def recorder_local_def)
  have last: "tombstones_last ?s = tombstones_last s" by (simp add: tombstones_last_iff del)
  have deleted: "px_recorder px = ?rec" if "map_of (sv_deletions s) (tn_session t) = Some d" for d
    using ok own that by (auto simp: server_ok_def deletions_ok_def tombstones_last_iff own_recording_def)
  have other: "map_of (rec_sessions (px_recorder px)) k = map_of (rec_sessions ?rec) k"
    "map_of (rec_failed (px_recorder px)) k = map_of (rec_failed ?rec) k" if "k \<noteq> tn_session t" for k
    using own that by (simp_all add: own_recording_def recorder_local_def)
  have dok: "deletions_ok ?s"
    unfolding deletions_ok_def
  proof (intro conjI allI impI)
    show "tombstones_last ?s" "distinct (od_keys (rec_deleted (px_recorder (sv_proxy ?s))))"
      using ok own last by (simp_all add: server_ok_def deletions_ok_def own_recording_def recorder_local_def)
    fix sid d assume "map_of (sv_deletions ?s) sid = Some d"
    then show "get_session sid (px_recorder (sv_proxy ?s)) = None" "map_of (rec_failed (px_recorder (sv_proxy ?s))) sid = None"
      "matches_id sid"
      using ok deleted other [of sid]
      by (cases "sid = tn_session t"; simp add: server_ok_def deletions_ok_def get_session_def)+
  next
    fix j v assume "map_of (sv_turns ?s) j = Some v"
    then have v: "(if j = i then v = u else map_of (sv_turns s) j = Some v)" by (simp split: if_splits)
    show "cancel_ok ?s j v"
    proof (cases "j = i")
      case True
      with ok t v have "cancel_ok s i t" by (simp add: server_ok_def deletions_ok_def)
      with True v u(1) show ?thesis by (simp add: cancel_ok_def del same_turn_def)
    next
      case False
      with ok v have "cancel_ok s j v" by (simp add: server_ok_def deletions_ok_def)
      then show ?thesis by (simp add: cancel_ok_def del)
    qed
  qed
  have barrier: "f = Draining \<or> f = FinalizationCancelled" if "map_of (sv_finalizations s) (tn_session t) = Some f" for f
    using ok t flight that by (auto simp: server_ok_def finalizations_ok_def past_barrier_def)
  have fok: "finalizations_ok ?s"
    unfolding finalizations_ok_def
  proof (intro conjI allI impI)
    fix sid f j v
    assume "map_of (sv_finalizations ?s) sid = Some f" "past_barrier f" "map_of (sv_turns ?s) j = Some v" "tn_session v = sid"
    then show "\<not> in_flight v"
      using ok barrier u(1)
      by (auto simp: server_ok_def finalizations_ok_def past_barrier_def same_turn_def split: if_splits)
  next
    fix sid assume "map_of (sv_finalizations ?s) sid = Some Finalized" "map_of (sv_deletions ?s) sid = None"
    then show "\<exists>r. get_session sid (px_recorder (sv_proxy ?s)) = Some r \<and> sr_completed r"
      "map_of (rec_failed (px_recorder (sv_proxy ?s))) sid = None"
      using ok barrier other [of sid]
      by (cases "sid = tn_session t"; auto simp: server_ok_def finalizations_ok_def get_session_def)+
  next
    fix sid assume "map_of (sv_finalizations ?s) sid = Some FinalizationCancelled"
    then show "map_of (sv_deletions ?s) sid \<noteq> None" using ok by (simp add: server_ok_def finalizations_ok_def)
  qed
  have "streams_ok ?s" using ok by (simp add: server_ok_def streams_ok_def)
  with tok lok dok fok show ?thesis by (simp add: server_ok_def)
qed

text \<open>A turn leaves: it ended, its caller gave up while it was queued, or it was cancelled.\<close>

lemma ok_release:
  assumes ok: "server_ok s" and t: "map_of (sv_turns s) i = Some t"
    and l: "l = [] \<or> past_queue t \<and> l = [tn_lock t]"
    and p: "px_recorder px = px_recorder (sv_proxy s)"
    and s': "s' = drop_turn i (fold unlock l (s\<lparr>sv_proxy := px\<rparr>))"
  shows "server_ok s'"
proof -
  have same: "sv_turn_locks s' = sv_turn_locks s" "sv_next_lock s' = sv_next_lock s" "sv_streams s' = sv_streams s"
    "sv_finalizations s' = sv_finalizations s" "sv_deletions s' = sv_deletions s"
    "px_recorder (sv_proxy s') = px_recorder (sv_proxy s)" "sv_clock s' = sv_clock s"
    and turns: "map_of (sv_turns s') j = (if j = i then None else map_of (sv_turns s) j)"
    and held: "set (sv_held s') = (if l = [] then set (sv_held s) else set (sv_held s) - {tn_lock t})" for j
    using l p by (auto simp: s')
  have keys: "od_keys (sv_turns s') = filter (\<lambda>j. j \<noteq> i) (od_keys (sv_turns s))" "sv_next_turn s' = sv_next_turn s"
    using l by (auto simp: s' drop_turn_keys)
  have wf: "turn_wf s' v = turn_wf s v" for v by (rule turn_wf_cong) (simp_all add: same)
  have del: "session_deleted k s' = session_deleted k s" for k by (rule session_deleted_cong) (simp_all add: same)
  have "turns_ok s'" using ok by (auto simp: server_ok_def turns_ok_def keys turns wf split: if_splits)
  moreover have "locks_ok s'"
    unfolding locks_ok_def same
  proof (intro conjI allI impI)
    fix j v assume v: "map_of (sv_turns s') j = Some v" "past_queue v"
    then have v': "map_of (sv_turns s) j = Some v" "j \<noteq> i" by (auto simp: turns split: if_splits)
    then have "tn_lock v \<in> set (sv_held s)" using ok v by (auto simp: server_ok_def locks_ok_def)
    moreover have "tn_lock v \<noteq> tn_lock t" if "l \<noteq> []"
      using ok that v v' t l unfolding server_ok_def locks_ok_def by metis
    ultimately show "tn_lock v \<in> set (sv_held s')" by (simp add: held)
  next
    fix j k v u assume "map_of (sv_turns s') j = Some v" "map_of (sv_turns s') k = Some u" "past_queue v" "past_queue u"
      "tn_lock v = tn_lock u"
    then show "j = k" using ok unfolding server_ok_def locks_ok_def turns by (metis option.distinct(1))
  qed (use ok in \<open>auto simp: server_ok_def locks_ok_def\<close>)
  moreover have "streams_ok s'" using ok by (simp add: server_ok_def streams_ok_def same)
  moreover have "deletions_ok s'"
    using ok by (auto simp: server_ok_def deletions_ok_def same turns tombstones_last_iff del cancel_ok_def split: if_splits)
  moreover have "finalizations_ok s'"
    using ok unfolding server_ok_def finalizations_ok_def same turns by (auto split: if_splits)
  ultimately show ?thesis by (simp add: server_ok_def)
qed

text \<open>A turn that only changes its stage or is left by its caller.\<close>

lemma ok_acquire:
  assumes ok: "server_ok s" and t: "map_of (sv_turns s) i = Some t" and "tn_stage t = Queued"
    and free: "tn_lock t \<notin> set (sv_held s)"
  shows "server_ok (put_turn i (t\<lparr>tn_stage := Starting\<rparr>) (s\<lparr>sv_held := tn_lock t # sv_held s\<rparr>))"
proof -
  let ?u = "t\<lparr>tn_stage := Starting\<rparr>"
  let ?s = "put_turn i ?u (s\<lparr>sv_held := tn_lock t # sv_held s\<rparr>)"
  have keys: "set (od_keys (sv_turns ?s)) = set (od_keys (sv_turns s))"
    "distinct (od_keys (sv_turns ?s)) \<longleftrightarrow> distinct (od_keys (sv_turns s))"
    using put_turn_keys [of "s\<lparr>sv_held := tn_lock t # sv_held s\<rparr>" i t ?u] t by simp_all
  have wf: "turn_wf ?s v = turn_wf s v" for v by (rule turn_wf_cong) simp_all
  have del: "session_deleted k ?s = session_deleted k s" for k by (rule session_deleted_cong) simp_all
  have flight: "in_flight t" "in_flight ?u" using assms(3) by (simp_all add: in_flight_def)
  have "turns_ok ?s"
    using ok turn_wf_same [of t ?u] t unfolding server_ok_def turns_ok_def keys wf by auto
  moreover have "locks_ok ?s"
    using ok t free unfolding server_ok_def locks_ok_def by (simp add: past_queue_def) metis
  moreover have "streams_ok ?s" using ok by (simp add: server_ok_def streams_ok_def)
  moreover have "deletions_ok ?s"
    using ok t by (auto simp: server_ok_def deletions_ok_def tombstones_last_iff del cancel_ok_def)
  moreover have "finalizations_ok ?s"
    using ok t flight by (auto simp: server_ok_def finalizations_ok_def)
  ultimately show ?thesis by (simp add: server_ok_def)
qed

lemma ok_detach:
  assumes ok: "server_ok s" and t: "map_of (sv_turns s) i = Some t"
  shows "server_ok (put_turn i (t\<lparr>tn_attached := False\<rparr>) s)"
proof -
  let ?u = "t\<lparr>tn_attached := False\<rparr>"
  let ?s = "put_turn i ?u s"
  have wf: "turn_wf ?s v = turn_wf s v" for v by (rule turn_wf_cong) simp_all
  have del: "session_deleted k ?s = session_deleted k s" for k by (rule session_deleted_cong) simp_all
  have flight: "in_flight ?u \<Longrightarrow> in_flight t" by (simp add: in_flight_def)
  have "turns_ok ?s"
    using ok turn_wf_same [of t ?u] t unfolding server_ok_def turns_ok_def put_turn_keys [OF t] wf by auto
  moreover have "locks_ok ?s"
    using ok t unfolding server_ok_def locks_ok_def by (simp add: past_queue_def) metis
  moreover have "streams_ok ?s" using ok by (simp add: server_ok_def streams_ok_def)
  moreover have "deletions_ok ?s"
    using ok t by (auto simp: server_ok_def deletions_ok_def tombstones_last_iff del cancel_ok_def)
  moreover have "finalizations_ok ?s"
    using ok t flight by (auto simp: server_ok_def finalizations_ok_def split: if_splits)
  ultimately show ?thesis by (simp add: server_ok_def)
qed

subsection \<open>Admission, finalization, deletion\<close>

lemma check_admission_Inr:
  assumes "check_admission cf header body s = Inr (sid, aid, model, d)"
  shows "matches_id sid" and "matches_id aid" and "\<not> session_deleted sid s"
    and "map_of (sv_finalizations s) sid = None" and "body = Some (PDict d)"
    and "validate_chat_request (PDict d) = Inr ()"
proof -
  obtain key where key: "sc_api_key cf = Some key"
    using assms by (cases "sc_api_key cf") (auto simp: check_admission_def parse_session_key_def)
  let ?parse = "parse_session_key (Some key) (sc_delimiter cf) (sc_instance cf) (bearer_token header)"
  have "\<exists>p. ?parse = Inr (Some p)"
    using assms by (cases ?parse) (simp_all add: check_admission_def key split: option.splits)
  then obtain sid' aid' where p: "?parse = Inr (Some (sid', aid'))" by auto
  from assms [unfolded check_admission_def key p sum.case option.case prod.case rbind_eq_Inr split_beta fst_conv snd_conv]
  obtain v md where v: "(case body of None \<Rightarrow> Inl (400 :: int) | Some v \<Rightarrow> Inr v) = Inr v"
    and valid: "(case validate_chat_request v of Inl _ \<Rightarrow> Inl (400 :: int) | Inr _ \<Rightarrow> Inr ()) = Inr ()"
    and nd: "require (\<not> session_deleted sid' s) (410 :: int) = Inr ()"
    and md: "(case v of PDict d \<Rightarrow> (case dget d ''model'' of PStr m \<Rightarrow> Inr (m, d) | _ \<Rightarrow> Inl (400 :: int))
      | _ \<Rightarrow> Inl 400) = Inr md"
    and nf: "require (map_of (sv_finalizations s) sid' = None) (409 :: int) = Inr ()"
    and res: "(sid', aid', fst md, snd md) = (sid, aid, model, d)"
    by (elim exE conjE) (simp only: unit_eq sum.inject)
  from md res have "v = PDict d" by (auto split: pyval.splits)
  with v valid have "body = Some (PDict d)" "validate_chat_request (PDict d) = Inr ()"
    by (auto split: option.splits sum.splits)
  with p nd nf res have "?parse = Inr (Some (sid, aid)) \<and> body = Some (PDict d) \<and>
      validate_chat_request (PDict d) = Inr () \<and> \<not> session_deleted sid s \<and> map_of (sv_finalizations s) sid = None"
    by (simp add: require_eq)
  then show "matches_id sid" "matches_id aid" "\<not> session_deleted sid s" "map_of (sv_finalizations s) sid = None"
    "body = Some (PDict d)" "validate_chat_request (PDict d) = Inr ()"
    using parse_Some by blast+
qed

lemma turn_lock_ok:
  assumes "turn_lock x s = (l, s')"
  shows "map_of (sv_turn_locks s') x = Some l" and "map_of (sv_turn_locks s) y = Some k \<Longrightarrow> map_of (sv_turn_locks s') y = Some k"
    and "s' = s\<lparr>sv_turn_locks := sv_turn_locks s', sv_next_lock := sv_next_lock s'\<rparr>"
    and "map_of (sv_turn_locks s') y = Some k \<Longrightarrow> map_of (sv_turn_locks s) y = Some k \<or> y = x \<and> k = sv_next_lock s"
    and "sv_next_lock s \<le> sv_next_lock s'"
    and "map_of (sv_turn_locks s') x = Some (sv_next_lock s) \<Longrightarrow> (\<forall>k. map_of (sv_turn_locks s) x = Some k \<longrightarrow> k < sv_next_lock s)
          \<Longrightarrow> sv_next_lock s < sv_next_lock s'"
  using assms by (auto simp: turn_lock_def update_conv' split: option.splits if_splits)

lemma track_stream_streams:
  "map_of (sv_streams (track_stream sid x s)) k =
     (if k = sid then Some (List.insert x (case map_of (sv_streams s) sid of None \<Rightarrow> [] | Some xs \<Rightarrow> xs))
      else map_of (sv_streams s) k)"
  by (simp add: track_stream_def Let_def update_conv')

lemma track_stream_fields [simp]:
  "sv_turns (track_stream sid x s) = sv_turns s" "sv_turn_locks (track_stream sid x s) = sv_turn_locks s"
  "sv_next_lock (track_stream sid x s) = sv_next_lock s" "sv_held (track_stream sid x s) = sv_held s"
  "sv_finalizations (track_stream sid x s) = sv_finalizations s" "sv_deletions (track_stream sid x s) = sv_deletions s"
  "sv_clock (track_stream sid x s) = sv_clock s" "sv_proxy (track_stream sid x s) = sv_proxy s"
  "sv_next_turn (track_stream sid x s) = sv_next_turn s"
  by (simp_all add: track_stream_def Let_def)

definition queued_turn :: "string \<Rightarrow> string \<Rightarrow> string \<Rightarrow> pydict \<Rightarrow> nat \<Rightarrow> turn" where
  "queued_turn sid aid model body lock =
     \<lparr>tn_session = sid, tn_agent = aid, tn_model = model, tn_body = body, tn_lock = lock,
      tn_stage = Queued, tn_attached = True, tn_cancelled = False\<rparr>"

text \<open>An admission, field by field.\<close>

lemma enqueue_turn_fields:
  assumes "server_ok s"
  obtains lock where
    "map_of (sv_turns (enqueue_turn wall sid aid model body s)) =
       (map_of (sv_turns s))(sv_next_turn s \<mapsto> queued_turn sid aid model body lock)"
    and "od_keys (sv_turns (enqueue_turn wall sid aid model body s)) = od_keys (sv_turns s) @ [sv_next_turn s]"
    and "sv_next_turn (enqueue_turn wall sid aid model body s) = Suc (sv_next_turn s)"
    and "map_of (sv_turn_locks (enqueue_turn wall sid aid model body s)) (stream_id sid aid) = Some lock"
    and "\<forall>y k. map_of (sv_turn_locks s) y = Some k \<longrightarrow>
           map_of (sv_turn_locks (enqueue_turn wall sid aid model body s)) y = Some k"
    and "\<forall>y k. map_of (sv_turn_locks (enqueue_turn wall sid aid model body s)) y = Some k \<longrightarrow>
           map_of (sv_turn_locks s) y = Some k \<or> y = stream_id sid aid \<and> k = sv_next_lock s"
    and "\<forall>y k. map_of (sv_turn_locks (enqueue_turn wall sid aid model body s)) y = Some k \<longrightarrow>
           k < sv_next_lock (enqueue_turn wall sid aid model body s)"
    and "\<forall>k. map_of (sv_streams (enqueue_turn wall sid aid model body s)) k =
           (if k = sid then Some (List.insert (stream_id sid aid) (case map_of (sv_streams s) sid of None \<Rightarrow> [] | Some xs \<Rightarrow> xs))
            else map_of (sv_streams s) k)"
    and "sv_held (enqueue_turn wall sid aid model body s) = sv_held s"
    and "sv_finalizations (enqueue_turn wall sid aid model body s) = sv_finalizations s"
    and "sv_deletions (enqueue_turn wall sid aid model body s) = sv_deletions s"
    and "sv_clock (enqueue_turn wall sid aid model body s) = sv_clock s"
    and "px_provider (sv_proxy (enqueue_turn wall sid aid model body s)) = px_provider (sv_proxy s)"
    and "px_recorder (sv_proxy (enqueue_turn wall sid aid model body s)) =
           ensure_session (sv_clock s) wall sid (Some model) (px_recorder (sv_proxy s))"
proof -
  let ?s1 = "track_stream sid (stream_id sid aid) (on_recorder (ensure_session (sv_clock s) wall sid (Some model)) s)"
  obtain l s2 where lock: "turn_lock (stream_id sid aid) ?s1 = (l, s2)" by fastforce
  note tl = turn_lock_ok [OF lock]
  have s': "enqueue_turn wall sid aid model body s =
      s2\<lparr>sv_turns := sv_turns s @ [(sv_next_turn s, queued_turn sid aid model body l)], sv_next_turn := Suc (sv_next_turn s)\<rparr>"
    using arg_cong [OF tl(3), of sv_turns] arg_cong [OF tl(3), of sv_next_turn]
    by (simp add: enqueue_turn_def lock queued_turn_def)
  have bound: "map_of (sv_turn_locks s) y = Some k \<Longrightarrow> k < sv_next_lock s" for y k
    using assms by (auto simp: server_ok_def locks_ok_def)
  have fresh: "sv_next_turn s \<notin> set (od_keys (sv_turns s))"
    using assms by (auto simp: server_ok_def turns_ok_def)
  show thesis
  proof (rule that [of l])
    show "map_of (sv_turns (enqueue_turn wall sid aid model body s)) =
       (map_of (sv_turns s))(sv_next_turn s \<mapsto> queued_turn sid aid model body l)"
      using map_of_snoc_new [OF fresh] by (simp add: s')
    show "\<forall>y k. map_of (sv_turn_locks (enqueue_turn wall sid aid model body s)) y = Some k \<longrightarrow>
        map_of (sv_turn_locks s) y = Some k \<or> y = stream_id sid aid \<and> k = sv_next_lock s"
      using tl(4) by (simp add: s')
    show "\<forall>y k. map_of (sv_turn_locks (enqueue_turn wall sid aid model body s)) y = Some k \<longrightarrow>
        k < sv_next_lock (enqueue_turn wall sid aid model body s)"
    proof (intro allI impI)
      fix y k assume k: "map_of (sv_turn_locks (enqueue_turn wall sid aid model body s)) y = Some k"
      then show "k < sv_next_lock (enqueue_turn wall sid aid model body s)"
        using tl(4) [of y k] tl(5,6) bound [of y k] bound [of "stream_id sid aid"] by (auto simp: s')
    qed
    show "\<forall>y k. map_of (sv_turn_locks s) y = Some k \<longrightarrow>
        map_of (sv_turn_locks (enqueue_turn wall sid aid model body s)) y = Some k"
      using tl(2) by (simp add: s')
    show "\<forall>k. map_of (sv_streams (enqueue_turn wall sid aid model body s)) k =
           (if k = sid then Some (List.insert (stream_id sid aid) (case map_of (sv_streams s) sid of None \<Rightarrow> [] | Some xs \<Rightarrow> xs))
            else map_of (sv_streams s) k)"
      using arg_cong [OF tl(3), of sv_streams] by (simp add: s' track_stream_streams)
  qed (use tl(1) arg_cong [OF tl(3), of sv_held] arg_cong [OF tl(3), of sv_finalizations]
      arg_cong [OF tl(3), of sv_deletions] arg_cong [OF tl(3), of sv_clock] arg_cong [OF tl(3), of sv_proxy]
      in \<open>simp_all add: s'\<close>)
qed

lemma insert_not_Nil: "List.insert x xs \<noteq> []"
  by (auto simp: List.insert_def)

lemma ok_enqueue:
  assumes ok: "server_ok s" and id: "matches_id sid" and fin: "map_of (sv_finalizations s) sid = None"
    and nd: "\<not> session_deleted sid s"
  shows "server_ok (enqueue_turn wall sid aid model body s)"
proof -
  let ?s = "enqueue_turn wall sid aid model body s"
  obtain lock where f:
    "map_of (sv_turns ?s) = (map_of (sv_turns s))(sv_next_turn s \<mapsto> queued_turn sid aid model body lock)"
    "od_keys (sv_turns ?s) = od_keys (sv_turns s) @ [sv_next_turn s]" "sv_next_turn ?s = Suc (sv_next_turn s)"
    and l: "map_of (sv_turn_locks ?s) (stream_id sid aid) = Some lock"
    "\<forall>y k. map_of (sv_turn_locks s) y = Some k \<longrightarrow> map_of (sv_turn_locks ?s) y = Some k"
    "\<forall>y k. map_of (sv_turn_locks ?s) y = Some k \<longrightarrow> map_of (sv_turn_locks s) y = Some k \<or> y = stream_id sid aid \<and> k = sv_next_lock s"
    "\<forall>y k. map_of (sv_turn_locks ?s) y = Some k \<longrightarrow> k < sv_next_lock ?s"
    and st: "\<forall>k. map_of (sv_streams ?s) k =
           (if k = sid then Some (List.insert (stream_id sid aid) (case map_of (sv_streams s) sid of None \<Rightarrow> [] | Some xs \<Rightarrow> xs))
            else map_of (sv_streams s) k)"
    and same: "sv_held ?s = sv_held s" "sv_finalizations ?s = sv_finalizations s" "sv_deletions ?s = sv_deletions s"
    "sv_clock ?s = sv_clock s"
    and "px_provider (sv_proxy ?s) = px_provider (sv_proxy s)"
    and rec: "px_recorder (sv_proxy ?s) = ensure_session (sv_clock s) wall sid (Some model) (px_recorder (sv_proxy s))"
    by (rule enqueue_turn_fields [OF ok, of wall sid aid model body])
  let ?q = "queued_turn sid aid model body lock"
  have q: "tn_session ?q = sid" "tn_stream ?q = stream_id sid aid" "tn_lock ?q = lock" "\<not> past_queue ?q"
    "\<not> tn_cancelled ?q"
    by (simp_all add: queued_turn_def tn_stream_def past_queue_def)
  have loc: "recorder_local sid (px_recorder (sv_proxy s)) (px_recorder (sv_proxy ?s))"
    by (simp add: rec recorder_local_ensure)
  then have del: "session_deleted k ?s = session_deleted k s" for k
    by (intro session_deleted_cong) (simp_all add: same recorder_local_def)
  have wf: "turn_wf ?s v" if "turn_wf s v" for v
    using that l(2) by (auto simp: turn_wf_def st [rule_format])
  have "turn_wf ?s ?q" using id l(1) by (simp add: turn_wf_def q st [rule_format])
  moreover have ids: "i < sv_next_turn s" if "map_of (sv_turns s) i = Some v" for i v
    using ok map_of_Some_keys [OF that] by (simp add: server_ok_def turns_ok_def)
  ultimately have "turns_ok ?s"
    using ok wf unfolding server_ok_def turns_ok_def f by (auto split: if_splits intro: less_SucI)
  moreover have "locks_ok ?s"
    unfolding locks_ok_def
  proof (intro conjI allI impI)
    fix x y k assume "map_of (sv_turn_locks ?s) x = Some k" "map_of (sv_turn_locks ?s) y = Some k"
    moreover have "\<forall>x l. map_of (sv_turn_locks s) x = Some l \<longrightarrow> l < sv_next_lock s"
      "\<forall>x y l. map_of (sv_turn_locks s) x = Some l \<longrightarrow> map_of (sv_turn_locks s) y = Some l \<longrightarrow> x = y"
      using ok by (simp_all add: server_ok_def locks_ok_def)
    ultimately show "x = y" using l(3) by (metis less_irrefl_nat)
  next
    fix i t assume "map_of (sv_turns ?s) i = Some t" "past_queue t"
    then show "tn_lock t \<in> set (sv_held ?s)"
      using ok q by (auto simp: f same server_ok_def locks_ok_def split: if_splits)
  next
    fix i j t u assume "map_of (sv_turns ?s) i = Some t" "map_of (sv_turns ?s) j = Some u" "past_queue t" "past_queue u"
      "tn_lock t = tn_lock u"
    then show "i = j" using ok q unfolding server_ok_def locks_ok_def f by (auto split: if_splits)
  qed (use l(4) in blast)
  moreover have "streams_ok ?s"
  proof (cases "map_of (sv_streams s) sid")
    case None
    with ok id show ?thesis unfolding server_ok_def streams_ok_def st [rule_format] by (auto split: if_splits)
  next
    case (Some xs)
    with ok have "\<forall>x\<in>set xs. \<exists>aid. x = stream_id sid aid" by (simp add: server_ok_def streams_ok_def)
    with ok id Some show ?thesis
      unfolding server_ok_def streams_ok_def st [rule_format] by (auto simp: insert_not_Nil split: if_splits)
  qed
  moreover have "deletions_ok ?s"
  proof -
    have nodel: "map_of (sv_deletions s) sid = None"
      using ok nd by (auto simp: server_ok_def deletions_ok_def tombstones_last_iff)
    have "get_session k (px_recorder (sv_proxy ?s)) = None" "map_of (rec_failed (px_recorder (sv_proxy ?s))) k = None"
      if "map_of (sv_deletions s) k = Some d" for k d
      using ok that nodel loc by (cases "k = sid"; simp add: server_ok_def deletions_ok_def get_session_def recorder_local_def)+
    moreover have "distinct (od_keys (rec_deleted (px_recorder (sv_proxy ?s))))" "tombstones_last ?s"
      using ok loc by (auto simp: server_ok_def deletions_ok_def recorder_local_def tombstones_last_iff del same)
    ultimately show ?thesis
      using ok nodel nd q unfolding server_ok_def deletions_ok_def cancel_ok_def f same del
      by (auto split: if_splits)
  qed
  moreover have "finalizations_ok ?s"
    using ok fin loc q unfolding server_ok_def finalizations_ok_def f same get_session_def recorder_local_def
    by (auto split: if_splits) (metis option.distinct(1))+
  ultimately show ?thesis by (simp add: server_ok_def)
qed

text \<open>Changes of the finalization table alone.\<close>

lemma ok_finalization:
  assumes ok: "server_ok s"
    and busy: "past_barrier f \<Longrightarrow> \<not> session_busy sid s"
    and sealed: "f = Finalized \<Longrightarrow> (\<exists>r. get_session sid rec = Some r \<and> sr_completed r) \<and> map_of (rec_failed rec) sid = None"
    and nc: "f \<noteq> FinalizationCancelled"
    and loc: "recorder_local sid (px_recorder (sv_proxy s)) rec"
    and deleted: "map_of (sv_deletions s) sid \<noteq> None \<Longrightarrow> rec = px_recorder (sv_proxy s)"
    and s': "s' = on_recorder (\<lambda>_. rec) (s\<lparr>sv_finalizations := AList.update sid f (sv_finalizations s)\<rparr>)"
  shows "server_ok s'"
proof -
  have same: "sv_turns s' = sv_turns s" "sv_turn_locks s' = sv_turn_locks s" "sv_next_lock s' = sv_next_lock s"
    "sv_streams s' = sv_streams s" "sv_deletions s' = sv_deletions s" "sv_held s' = sv_held s"
    "sv_next_turn s' = sv_next_turn s" "sv_clock s' = sv_clock s" "px_recorder (sv_proxy s') = rec"
    and fin: "map_of (sv_finalizations s') k = (if k = sid then Some f else map_of (sv_finalizations s) k)" for k
    by (simp_all add: s' update_conv')
  have wf: "turn_wf s' v = turn_wf s v" for v by (rule turn_wf_cong) (simp_all add: same)
  have del: "session_deleted k s' = session_deleted k s" for k
    using loc by (intro session_deleted_cong) (simp_all add: same recorder_local_def)
  have "turns_ok s'" using ok by (simp add: server_ok_def turns_ok_def same wf)
  moreover have "locks_ok s'" using ok by (simp add: server_ok_def locks_ok_def same)
  moreover have "streams_ok s'" using ok by (simp add: server_ok_def streams_ok_def same)
  moreover have "deletions_ok s'"
  proof -
    have "get_session k rec = None" "map_of (rec_failed rec) k = None" if "map_of (sv_deletions s) k = Some d" for k d
      using ok that deleted loc
      by (cases "k = sid"; simp add: server_ok_def deletions_ok_def get_session_def recorder_local_def)+
    moreover have "distinct (od_keys (rec_deleted rec))" using ok loc by (simp add: server_ok_def deletions_ok_def recorder_local_def)
    ultimately show ?thesis
      using ok by (auto simp: server_ok_def deletions_ok_def same tombstones_last_iff del cancel_ok_def)
  qed
  moreover have "finalizations_ok s'"
    unfolding finalizations_ok_def same
  proof (intro conjI allI impI)
    fix k g i t assume "map_of (sv_finalizations s') k = Some g" "past_barrier g" "map_of (sv_turns s) i = Some t" "tn_session t = k"
    then show "\<not> in_flight t"
      using ok busy session_busy_iff [of s sid]
      by (cases "k = sid") (auto simp: fin server_ok_def turns_ok_def finalizations_ok_def)
  next
    fix k assume "map_of (sv_finalizations s') k = Some Finalized" "map_of (sv_deletions s) k = None"
    then show "\<exists>r. get_session k rec = Some r \<and> sr_completed r" "map_of (rec_failed rec) k = None"
      using ok sealed loc
      by (cases "k = sid"; auto simp: fin server_ok_def finalizations_ok_def get_session_def recorder_local_def)+
  next
    fix k assume "map_of (sv_finalizations s') k = Some FinalizationCancelled"
    then show "map_of (sv_deletions s) k \<noteq> None"
      using ok nc by (auto simp: fin server_ok_def finalizations_ok_def split: if_splits)
  qed
  ultimately show ?thesis by (simp add: server_ok_def)
qed

lemma ok_delete:
  assumes ok: "server_ok s" and new: "map_of (sv_deletions s) sid = None" and id: "matches_id sid"
    and s': "s' = on_recorder (Recorder.delete_session (sv_clock s) sid)
      (s\<lparr>sv_deletions := AList.update sid None (sv_deletions s)\<rparr>)"
    and last: "tombstones_last s'"
  shows "server_ok s'"
proof -
  let ?rec = "px_recorder (sv_proxy s)"
  have same: "sv_turns s' = sv_turns s" "sv_turn_locks s' = sv_turn_locks s" "sv_next_lock s' = sv_next_lock s"
    "sv_streams s' = sv_streams s" "sv_finalizations s' = sv_finalizations s" "sv_held s' = sv_held s"
    "sv_next_turn s' = sv_next_turn s" "sv_clock s' = sv_clock s"
    "px_recorder (sv_proxy s') = Recorder.delete_session (sv_clock s) sid ?rec"
    and del: "map_of (sv_deletions s') k = (if k = sid then Some None else map_of (sv_deletions s) k)" for k
    by (simp_all add: s' update_conv')
  have wf: "turn_wf s' v = turn_wf s v" for v by (rule turn_wf_cong) (simp_all add: same)
  have dist: "distinct (od_keys (rec_deleted ?rec))" using ok by (simp add: server_ok_def deletions_ok_def)
  have dead: "k = sid \<or> session_deleted k s" if "session_deleted k s'" for k
    using delete_session_tombstones [OF dist, of "sv_clock s" k sid] that
    by (simp add: session_deleted_def is_deleted_def same)
  have "turns_ok s'" using ok by (simp add: server_ok_def turns_ok_def same wf)
  moreover have "locks_ok s'" using ok by (simp add: server_ok_def locks_ok_def same)
  moreover have "streams_ok s'" using ok by (simp add: server_ok_def streams_ok_def same)
  moreover have "deletions_ok s'"
  proof -
    have "cancel_ok s' i t" if "map_of (sv_turns s) i = Some t" for i t
    proof -
      have "cancel_ok s i t" using ok that by (simp add: server_ok_def deletions_ok_def)
      then show ?thesis using dead new by (auto simp: cancel_ok_def del)
    qed
    with last show ?thesis
      using ok dist id by (auto simp: server_ok_def deletions_ok_def same del delete_session_fields delete_session_distinct split: if_splits)
  qed
  moreover have "finalizations_ok s'"
    using ok by (auto simp: server_ok_def finalizations_ok_def same del delete_session_fields split: if_splits)
  ultimately show ?thesis by (simp add: server_ok_def)
qed

lemma map_of_map_turns: "map_of (map (\<lambda>(i, t). (i, f t)) d) k = map_option f (map_of d k)"
  by (induction d) auto

lemma ok_cancel:
  assumes ok: "server_ok s" and s': "cancel_work sid s = Some s'"
  shows "server_ok s'"
proof -
  let ?c = "\<lambda>t. if tn_session t = sid then t\<lparr>tn_cancelled := True\<rparr> else t"
  let ?ids = "map fst (filter (\<lambda>(i, t). tn_session t = sid) (sv_turns s))"
  from s' have pending: "map_of (sv_deletions s) sid = Some None"
    and s': "s' = s\<lparr>sv_turns := map (\<lambda>(i, t). (i, ?c t)) (sv_turns s),
      sv_finalizations := cancel_finalization sid (sv_finalizations s),
      sv_deletions := AList.update sid (Some ?ids) (sv_deletions s)\<rparr>"
    by (auto simp: cancel_work_def split: if_splits)
  have turns: "map_of (sv_turns s') i = map_option ?c (map_of (sv_turns s) i)" for i
    by (simp add: s' map_of_map_turns)
  have keys: "od_keys (sv_turns s') = od_keys (sv_turns s)" by (simp add: s' od_keys_def split_beta comp_def)
  have same: "sv_turn_locks s' = sv_turn_locks s" "sv_next_lock s' = sv_next_lock s"
    "sv_streams s' = sv_streams s" "sv_held s' = sv_held s" "sv_next_turn s' = sv_next_turn s"
    "sv_clock s' = sv_clock s" "sv_proxy s' = sv_proxy s"
    and del: "map_of (sv_deletions s') k = (if k = sid then Some (Some ?ids) else map_of (sv_deletions s) k)"
    and fin: "map_of (sv_finalizations s') k = (case map_of (sv_finalizations s) k of None \<Rightarrow> None
      | Some f \<Rightarrow> Some (if k = sid \<and> f \<in> {Draining, Sealing} then FinalizationCancelled else f))" for k
    by (auto simp: s' update_conv' cancel_finalization_def split: option.split)
  have c: "tn_session (?c t) = tn_session t" "tn_stream (?c t) = tn_stream t" "tn_lock (?c t) = tn_lock t"
    "past_queue (?c t) = past_queue t" "in_flight (?c t) = in_flight t" "turn_wf s' (?c t) = turn_wf s t" for t
    by (simp_all add: tn_stream_def past_queue_def in_flight_def turn_wf_def same)
  have dead: "session_deleted k s' = session_deleted k s" for k by (rule session_deleted_cong) (simp_all add: same)
  have "turn_wf s' (t\<lparr>tn_cancelled := True\<rparr>) = turn_wf s t" "turn_wf s' t = turn_wf s t" for t
    by (simp_all add: turn_wf_def same tn_stream_def)
  then have "turns_ok s'" using ok by (auto simp: server_ok_def turns_ok_def keys turns same split: if_splits)
  moreover have "locks_ok s'"
    unfolding locks_ok_def same
  proof (intro conjI allI impI)
    fix i t assume a: "map_of (sv_turns s') i = Some t" "past_queue t"
    then obtain u where u: "map_of (sv_turns s) i = Some u" "t = ?c u" unfolding turns map_option_eq_Some by blast
    with ok a(2) c(4) [of u] have "tn_lock u \<in> set (sv_held s)" unfolding server_ok_def locks_ok_def by blast
    then show "tn_lock t \<in> set (sv_held s)" using c(3) [of u] u(2) by simp
  next
    fix i j t u assume a: "map_of (sv_turns s') i = Some t" "map_of (sv_turns s') j = Some u"
      and b: "past_queue t" "past_queue u" "tn_lock t = tn_lock u"
    from a obtain t0 u0 where u: "map_of (sv_turns s) i = Some t0" "t = ?c t0" "map_of (sv_turns s) j = Some u0" "u = ?c u0"
      unfolding turns map_option_eq_Some by blast
    then have "past_queue t0" "past_queue u0" "tn_lock t0 = tn_lock u0"
      using b c(3,4) [of t0] c(3,4) [of u0] by simp_all
    with u ok show "i = j" unfolding server_ok_def locks_ok_def by blast
  qed (use ok in \<open>auto simp: server_ok_def locks_ok_def\<close>)
  moreover have "streams_ok s'" using ok by (simp add: server_ok_def streams_ok_def same)
  moreover have "deletions_ok s'"
  proof -
    have "cancel_ok s' i t" if t: "map_of (sv_turns s') i = Some t" for i t
    proof -
      from t obtain u where u: "map_of (sv_turns s) i = Some u" "t = ?c u" by (auto simp: turns)
      then have "cancel_ok s i u" using ok by (simp add: server_ok_def deletions_ok_def)
      moreover have "i \<in> set ?ids" if "tn_session u = sid"
        using that map_of_SomeD [OF u(1)] by force
      ultimately show ?thesis using pending by (auto simp: cancel_ok_def del dead u(2))
    qed
    then show ?thesis
      using ok pending by (auto simp: server_ok_def deletions_ok_def same del dead tombstones_last_iff split: if_splits)
  qed
  moreover have "finalizations_ok s'"
    unfolding finalizations_ok_def same
  proof (intro conjI allI impI)
    fix k f i t assume f: "map_of (sv_finalizations s') k = Some f" "past_barrier f" "map_of (sv_turns s') i = Some t" "tn_session t = k"
    from f(3) obtain u where u: "map_of (sv_turns s) i = Some u" "t = ?c u" unfolding turns map_option_eq_Some by blast
    from f(1,2) obtain g where "map_of (sv_finalizations s) k = Some g" "past_barrier g"
      by (auto simp: fin past_barrier_def split: option.splits if_splits)
    moreover have "tn_session u = k" using f(4) c(1) [of u] u(2) by simp
    ultimately have "\<not> in_flight u" using ok u(1) unfolding server_ok_def finalizations_ok_def by blast
    then show "\<not> in_flight t" using c(5) [of u] u(2) by simp
  next
    fix k assume "map_of (sv_finalizations s') k = Some Finalized" "map_of (sv_deletions s') k = None"
    then show "\<exists>r. get_session k (px_recorder (sv_proxy s)) = Some r \<and> sr_completed r"
      "map_of (rec_failed (px_recorder (sv_proxy s))) k = None"
      using ok by (auto simp: server_ok_def finalizations_ok_def fin del split: option.splits if_splits)
  next
    fix k assume "map_of (sv_finalizations s') k = Some FinalizationCancelled"
    then show "map_of (sv_deletions s') k \<noteq> None"
      using ok by (auto simp: server_ok_def finalizations_ok_def fin del split: option.splits if_splits)
  qed
  ultimately show ?thesis by (simp add: server_ok_def)
qed

lemma release_streams_fields:
  "sv_turns (fold release_stream xs s) = sv_turns s" "sv_next_lock (fold release_stream xs s) = sv_next_lock s"
  "sv_streams (fold release_stream xs s) = sv_streams s" "sv_held (fold release_stream xs s) = sv_held s"
  "sv_next_turn (fold release_stream xs s) = sv_next_turn s" "sv_clock (fold release_stream xs s) = sv_clock s"
  "sv_finalizations (fold release_stream xs s) = sv_finalizations s"
  "sv_deletions (fold release_stream xs s) = sv_deletions s"
  "px_recorder (sv_proxy (fold release_stream xs s)) = px_recorder (sv_proxy s)"
  "px_provider (sv_proxy (fold release_stream xs s)) = fold release_session xs (px_provider (sv_proxy s))"
  "map_of (sv_turn_locks (fold release_stream xs s)) x = (if x \<in> set xs then None else map_of (sv_turn_locks s) x)"
  by (induction xs arbitrary: s) (simp_all add: release_stream_def)

text \<open>A session no turn of which is left, after its cleanup.\<close>

lemma cleanup_Some:
  assumes "cleanup sid s = Some s'" and "server_ok s"
  obtains ids where "map_of (sv_deletions s) sid = Some (Some ids)"
    and "\<And>i t. map_of (sv_turns s) i = Some t \<Longrightarrow> tn_session t \<noteq> sid"
    and "s' = (fold release_stream (session_streams sid s) s)
           \<lparr>sv_streams := od_pop sid (sv_streams s), sv_finalizations := od_pop sid (sv_finalizations s),
            sv_deletions := od_pop sid (sv_deletions s)\<rparr>"
proof -
  from assms(1) obtain ids where ids: "map_of (sv_deletions s) sid = Some (Some ids)"
    and gone: "\<not> list_ex (\<lambda>i. map_of (sv_turns s) i \<noteq> None) ids"
    and s': "s' = (fold release_stream (session_streams sid s) s)
           \<lparr>sv_streams := od_pop sid (sv_streams s), sv_finalizations := od_pop sid (sv_finalizations s),
            sv_deletions := od_pop sid (sv_deletions s)\<rparr>"
    by (auto simp: cleanup_def release_streams_fields split: option.splits if_splits)
  have "tn_session t \<noteq> sid" if "map_of (sv_turns s) i = Some t" for i t
  proof
    assume "tn_session t = sid"
    moreover have "cancel_ok s i t" using assms(2) that by (simp add: server_ok_def deletions_ok_def)
    ultimately have "i \<in> set ids" using ids by (simp add: cancel_ok_def)
    with gone that show False by (auto simp: list_ex_iff)
  qed
  with ids s' show thesis using that by blast
qed

lemma ok_cleanup:
  assumes ok: "server_ok s" and s': "cleanup sid s = Some s'"
  shows "server_ok s'"
proof -
  from s' ok obtain ids where ids: "map_of (sv_deletions s) sid = Some (Some ids)"
    and gone: "\<And>i t. map_of (sv_turns s) i = Some t \<Longrightarrow> tn_session t \<noteq> sid"
    and s': "s' = (fold release_stream (session_streams sid s) s)
           \<lparr>sv_streams := od_pop sid (sv_streams s), sv_finalizations := od_pop sid (sv_finalizations s),
            sv_deletions := od_pop sid (sv_deletions s)\<rparr>"
    by (rule cleanup_Some) blast
  have same: "sv_turns s' = sv_turns s" "sv_next_lock s' = sv_next_lock s" "sv_held s' = sv_held s"
    "sv_next_turn s' = sv_next_turn s" "sv_clock s' = sv_clock s"
    "px_recorder (sv_proxy s') = px_recorder (sv_proxy s)"
    and fin: "map_of (sv_finalizations s') k = (if k = sid then None else map_of (sv_finalizations s) k)"
    and del: "map_of (sv_deletions s') k = (if k = sid then None else map_of (sv_deletions s) k)"
    and st: "map_of (sv_streams s') k = (if k = sid then None else map_of (sv_streams s) k)"
    and locks: "map_of (sv_turn_locks s') x = (if x \<in> set (session_streams sid s) then None else map_of (sv_turn_locks s) x)"
    for k x
    by (simp_all add: s' release_streams_fields)
  have dead: "session_deleted k s' = session_deleted k s" for k by (rule session_deleted_cong) (simp_all add: same)
  have wf: "turn_wf s' t" if t: "map_of (sv_turns s) i = Some t" for i t
  proof -
    have w: "turn_wf s t" using ok t by (simp add: server_ok_def turns_ok_def)
    have "tn_stream t \<notin> set (session_streams sid s)"
    proof (cases "map_of (sv_streams s) sid")
      case None
      then have "session_streams sid s = [sid]" by (simp add: session_streams_def)
      moreover have "tn_stream t \<noteq> sid"
      proof -
        have "matches_id sid" using ok ids by (auto simp: server_ok_def deletions_ok_def)
        then show ?thesis using matches_id_chars [of sid] by (auto simp: tn_stream_def stream_id_def)
      qed
      ultimately show ?thesis by simp
    next
      case (Some xs)
      with ok have xs: "xs \<noteq> []" "\<forall>x\<in>set xs. \<exists>aid. x = stream_id sid aid" "matches_id sid"
        by (auto simp: server_ok_def streams_ok_def)
      then have "session_streams sid s = xs" by (cases xs) (simp_all add: session_streams_def Some)
      moreover have "tn_stream t \<noteq> stream_id sid aid" for aid
        using w stream_id_inject [OF _ xs(3), of "tn_session t" "tn_agent t" aid] gone [OF t]
        by (simp add: turn_wf_def tn_stream_def)
      ultimately show ?thesis using xs(2) by auto
    qed
    with w gone [OF t] show ?thesis by (simp add: turn_wf_def locks st)
  qed
  have "turns_ok s'" using ok wf by (simp add: server_ok_def turns_ok_def same)
  moreover have "locks_ok s'" using ok by (auto simp: server_ok_def locks_ok_def same locks split: if_splits)
  moreover have "streams_ok s'" using ok by (auto simp: server_ok_def streams_ok_def st split: if_splits)
  moreover have "deletions_ok s'"
    using ok gone by (auto simp: server_ok_def deletions_ok_def same del dead tombstones_last_iff cancel_ok_def split: if_splits)
  moreover have "finalizations_ok s'"
    using ok by (auto simp: server_ok_def finalizations_ok_def same del fin split: if_splits)
  ultimately show ?thesis by (simp add: server_ok_def)
qed

subsection \<open>Every step keeps the invariant\<close>

lemma ok_recorder_unchanged:
  assumes ok: "server_ok s" and "px_recorder px = px_recorder (sv_proxy s)"
  shows "server_ok (s\<lparr>sv_proxy := px\<rparr>)"
  using assms unfolding server_ok_def server_ok_defs cancel_ok_def tombstones_last_iff
  by (simp add: turn_wf_def session_deleted_def)

lemma ok_elapse:
  assumes ok: "server_ok s" and "0 \<le> d" and last: "tombstones_last (s\<lparr>sv_clock := sv_clock s + d\<rparr>)"
  shows "server_ok (s\<lparr>sv_clock := sv_clock s + d\<rparr>)"
proof -
  have "session_deleted k s" if "session_deleted k (s\<lparr>sv_clock := sv_clock s + d\<rparr>)" for k
    using that assms(2) by (auto simp: session_deleted_def is_deleted_def tombstoned_def split: option.splits)
  then show ?thesis
    using ok last unfolding server_ok_def server_ok_defs cancel_ok_def
    by (simp add: turn_wf_def)
qed

text \<open>What each part of the handler does to the recorder.\<close>

lemma own_recording_id: "px_recorder px = px_recorder (sv_proxy s) \<Longrightarrow> own_recording t s px"
  by (simp add: own_recording_def)

lemma handler_recorders [simp]:
  "px_recorder (snd (handler_start env sid aid x model body px)) = px_recorder px"
  "px_recorder (snd (handler_generated env pn oc px)) = px_recorder px"
  "px_recorder (snd (handler_parsed env fresh x body r px)) = px_recorder px"
  by (simp_all add: handler_start_def handler_generated_def handler_parsed_def Let_def split_beta)

lemma own_recording_record:
  "own_recording t s (snd (handler_recorded (sv_clock s) wall ident created (tn_session t) (tn_agent t) model body r q (sv_proxy s)))"
proof -
  have "dl_session_id (delivery_of (tn_session t) (tn_agent t) body r q) = tn_session t"
    by (simp add: delivery_of_def split_beta)
  then show ?thesis
    using recorder_local_record [of "delivery_of (tn_session t) (tn_agent t) body r q" "px_recorder (sv_proxy s)" "sv_clock s" wall]
    by (simp add: own_recording_def handler_recorded_def split_beta session_deleted_def is_deleted_def tombstoned_silent)
qed

lemma own_recording_mark:
  "own_recording t s (snd (handler_failed (sv_clock s) (tn_session t) (tn_agent t) body r (sv_proxy s)))"
  using recorder_local_mark
  by (simp add: own_recording_def handler_failed_def split_beta Let_def session_deleted_def is_deleted_def tombstoned_silent)

lemma past_queue_running [simp]: "past_queue (t\<lparr>tn_stage := Running g\<rparr>)"
  by (simp add: past_queue_def)

lemma ok_handler:
  assumes "server_ok s" and "map_of (sv_turns s) i = Some t" and "past_queue t" and "in_flight t"
    and "own_recording t s (snd r)"
  shows "server_ok (proceed i t r s)"
  unfolding proceed_def by (rule ok_proceed [OF assms(1,2)]) (use assms in simp_all)

lemma on_turn_Some:
  "on_turn i f s = Some s' \<longleftrightarrow> (\<exists>t. map_of (sv_turns s) i = Some t \<and> \<not> tn_cancelled t \<and> f t s = Some s')"
  by (auto simp: on_turn_def split: option.splits)

lemma ok_turn_step:
  assumes ok: "server_ok s" and t: "map_of (sv_turns s) i = Some t"
  shows "acquire i t s = Some s' \<Longrightarrow> server_ok s'" "begin_turn cf i t s = Some s' \<Longrightarrow> server_ok s'"
    "engine_reply cf i oc t s = Some s' \<Longrightarrow> server_ok s'" "parse_turn cf i fresh t s = Some s' \<Longrightarrow> server_ok s'"
    "record_turn i wall ident created t s = Some s' \<Longrightarrow> server_ok s'" "mark_turn i t s = Some s' \<Longrightarrow> server_ok s'"
    "give_up i t s = Some s' \<Longrightarrow> server_ok s'" "finish_turn i t s = Some s' \<Longrightarrow> server_ok s'"
proof -
  have flight: "in_flight t" if "\<forall>x. tn_stage t \<noteq> Running (Answered x)"
    using that by (auto simp: in_flight_def split: stage.split progress.split)
  note step = ok_handler [OF ok t] flight
  show "acquire i t s = Some s' \<Longrightarrow> server_ok s'"
    by (auto simp: acquire_def split: stage.splits if_splits intro: ok_acquire [OF ok t])
  show "begin_turn cf i t s = Some s' \<Longrightarrow> server_ok s'"
    by (auto simp: begin_turn_def past_queue_def split: stage.splits if_splits intro!: step own_recording_id)
  show "engine_reply cf i oc t s = Some s' \<Longrightarrow> server_ok s'"
    by (auto simp: engine_reply_def past_queue_def split: stage.splits progress.splits intro!: step own_recording_id)
  show "parse_turn cf i fresh t s = Some s' \<Longrightarrow> server_ok s'"
    by (auto simp: parse_turn_def past_queue_def split: stage.splits progress.splits intro!: step own_recording_id)
  show "record_turn i wall ident created t s = Some s' \<Longrightarrow> server_ok s'"
    by (auto simp: record_turn_def past_queue_def split: stage.splits progress.splits intro!: step own_recording_record)
  show "mark_turn i t s = Some s' \<Longrightarrow> server_ok s'"
    by (auto simp: mark_turn_def past_queue_def split: stage.splits progress.splits intro!: step own_recording_mark)
  show "give_up i t s = Some s' \<Longrightarrow> server_ok s'"
  proof -
    have "server_ok (drop_turn i s)" by (rule ok_release [OF ok t, of "[]" "sv_proxy s"]) simp_all
    with ok_detach [OF ok t] show "give_up i t s = Some s' \<Longrightarrow> server_ok s'"
      by (auto simp: give_up_def split: stage.splits if_splits)
  qed
  show "finish_turn i t s = Some s' \<Longrightarrow> server_ok s'"
  proof -
    have "server_ok (unlock (tn_lock t) (drop_turn i s))" if "past_queue t"
      by (rule ok_release [OF ok t, of "[tn_lock t]" "sv_proxy s"])
        (use that in \<open>simp_all add: unlock_def drop_turn_def\<close>)
    then show "finish_turn i t s = Some s' \<Longrightarrow> server_ok s'"
      by (auto simp: finish_turn_def past_queue_def split: stage.splits progress.splits)
  qed
qed

lemma ok_unwind:
  assumes ok: "server_ok s" and t: "map_of (sv_turns s) i = Some t"
  shows "server_ok (unwind_turn i t s)"
proof -
  define px where "px = (case tn_stage t of
      Running (AwaitingEngine pn) \<Rightarrow> (sv_proxy s)\<lparr>px_provider := release_lock (pn_lock pn) (px_provider (sv_proxy s))\<rparr>
    | _ \<Rightarrow> sv_proxy s)"
  have "unwind_turn i t s = drop_turn i (fold unlock (if tn_stage t = Queued then [] else [tn_lock t]) (s\<lparr>sv_proxy := px\<rparr>))"
    by (simp add: unwind_turn_def px_def Let_def split: stage.split progress.split)
  moreover have "px_recorder px = px_recorder (sv_proxy s)"
    by (simp add: px_def split: stage.split progress.split)
  ultimately show ?thesis
    using ok_release [OF ok t, of "if tn_stage t = Queued then [] else [tn_lock t]" px]
    by (simp add: past_queue_def)
qed

lemma ok_seal:
  assumes ok: "server_ok s" and "seal sid s = Some s'"
  shows "server_ok s'"
proof -
  let ?m = "px_recorder (sv_proxy s)"
  obtain r rec where f: "Recorder.finalize_session sid ?m = (r, rec)" by fastforce
  let ?f = "case r of Inl e \<Rightarrow> FinalizationFailed e | Inr _ \<Rightarrow> Finalized"
  have fin: "map_of (sv_finalizations s) sid = Some Sealing"
    and s': "s' = on_recorder (\<lambda>_. rec) (s\<lparr>sv_finalizations := AList.update sid ?f (sv_finalizations s)\<rparr>)"
    using assms(2) by (auto simp: seal_def f split: if_splits)
  show ?thesis
  proof (rule ok_finalization [OF ok _ _ _ _ _ s'])
    have "\<forall>i t. map_of (sv_turns s) i = Some t \<longrightarrow> tn_session t = sid \<longrightarrow> \<not> in_flight t"
      using ok fin unfolding server_ok_def finalizations_ok_def past_barrier_def by (metis finalization.distinct(1,7,13,15))
    then show "\<not> session_busy sid s"
      using ok session_busy_iff [of s sid] by (auto simp: server_ok_def turns_ok_def)
    show "(\<exists>r. get_session sid rec = Some r \<and> sr_completed r) \<and> map_of (rec_failed rec) sid = None" if "?f = Finalized"
      using f that
      by (auto simp: Recorder.finalize_session_def get_session_def Let_def split_beta split: option.splits if_splits sum.splits)
    show "recorder_local sid ?m rec" using recorder_local_finalize [of sid ?m] by (simp add: f)
    show "rec = ?m" if "map_of (sv_deletions s) sid \<noteq> None"
    proof -
      have "map_of (rec_sessions ?m) sid = None"
        using ok that by (auto simp: server_ok_def deletions_ok_def get_session_def)
      with f show ?thesis by (simp add: Recorder.finalize_session_def)
    qed
  qed (auto split: sum.splits)
qed

lemma ok_step:
  assumes ok: "server_ok s" and step: "server_step cf e s = Some s'" and "names_session e" and last: "tombstones_last s'"
  shows "server_ok s'"
proof (cases e)
  case (Admit wall header body)
  show ?thesis
  proof (cases "check_admission cf header body s")
    case (Inl status)
    with Admit step ok show ?thesis by (simp add: admit_def)
  next
    case (Inr x)
    then obtain sid aid model d where x: "check_admission cf header body s = Inr (sid, aid, model, d)" by (cases x) auto
    from check_admission_Inr [OF x] have "server_ok (enqueue_turn wall sid aid model d s)"
      by (intro ok_enqueue [OF ok])
    with Admit step x show ?thesis by (auto simp: admit_def)
  qed
next
  case (RequestFinalization sid)
  have "server_ok (s\<lparr>sv_finalizations := AList.update sid Draining (sv_finalizations s)\<rparr>)"
    by (rule ok_finalization [OF ok, where f = Draining and rec = "px_recorder (sv_proxy s)" and sid = sid])
      (simp_all add: on_recorder_def past_barrier_def)
  with RequestFinalization step ok show ?thesis by (auto simp: request_finalization_def split: if_splits)
next
  case (Drained sid)
  with step have "\<not> session_busy sid s"
    and "s' = s\<lparr>sv_finalizations := AList.update sid Sealing (sv_finalizations s)\<rparr>"
    by (auto simp: drained_def split: if_splits)
  then show ?thesis
    by (intro ok_finalization [OF ok, where f = Sealing and rec = "px_recorder (sv_proxy s)" and sid = sid])
      (simp_all add: on_recorder_def)
next
  case (RequestDeletion sid)
  with step ok assms(3) last show ?thesis
    using ok_delete [OF ok, of sid]
    by (auto simp: request_deletion_def names_session_def split: if_splits)
next
  case (SetSampling v)
  with step ok_recorder_unchanged [OF ok] show ?thesis by auto
next
  case (Elapse d)
  with step ok_elapse [OF ok] last show ?thesis by (auto split: if_splits)
next
  case (Acquire i)
  with step show ?thesis using ok_turn_step(1) [OF ok] by (auto simp only: server_step.simps on_turn_Some)
next
  case (Begin i)
  with step show ?thesis using ok_turn_step(2) [OF ok] by (auto simp only: server_step.simps on_turn_Some)
next
  case (EngineReply i oc)
  with step show ?thesis using ok_turn_step(3) [OF ok] by (auto simp only: server_step.simps on_turn_Some)
next
  case (Parse i fresh)
  with step show ?thesis using ok_turn_step(4) [OF ok] by (auto simp only: server_step.simps on_turn_Some)
next
  case (Record i wall ident created)
  with step show ?thesis using ok_turn_step(5) [OF ok] by (auto simp only: server_step.simps on_turn_Some)
next
  case (Mark i)
  with step show ?thesis using ok_turn_step(6) [OF ok] by (auto simp only: server_step.simps on_turn_Some)
next
  case (GiveUp i)
  with step show ?thesis using ok_turn_step(7) [OF ok] by (auto simp only: server_step.simps on_turn_Some)
next
  case (Finish i)
  with step show ?thesis using ok_turn_step(8) [OF ok] by (auto simp only: server_step.simps on_turn_Some)
next
  case (Unwind i)
  with step obtain t where "map_of (sv_turns s) i = Some t" and "s' = unwind_turn i t s"
    by (auto split: option.splits if_splits)
  then show ?thesis using ok_unwind [OF ok] by simp
next
  case (Seal sid)
  with step show ?thesis using ok_seal [OF ok] by simp
next
  case (CancelWork sid)
  with step show ?thesis using ok_cancel [OF ok] by simp
next
  case (Cleanup sid)
  with step show ?thesis using ok_cleanup [OF ok] by simp
qed

lemma ok_init:
  "server_ok (init_server p (init_recorder store lps experts validate dumps) now)"
  by (simp add: server_ok_def server_ok_defs init_server_def init_recorder_def tombstones_last_def)

lemma server_reachable_ok: "server_reachable cf s \<Longrightarrow> server_ok s"
  by (induction rule: server_reachable.induct) (auto intro: ok_init ok_step)

lemma server_run_reachable: "server_reachable cf s \<Longrightarrow> server_run cf es s = Some s' \<Longrightarrow> server_reachable cf s'"
  by (induction es arbitrary: s) (auto split: option.splits if_splits intro: server_next)

end
