(* ===== verification/ServiceProperties.thy ===== *)
theory ServiceProperties
  imports ServiceSafety
begin

section \<open>Properties of the service\<close>

text \<open>
  What the invariant \<open>server_ok\<close> gives a client of the service, over every interleaving of its tasks:
  one turn per stream at a time, a finalized record that no later event changes, and a deletion that
  leaves nothing of its session behind.
\<close>

subsection \<open>One turn per stream\<close>

text \<open>Every state a sequence of events goes through, the first one included; \<open>None\<close> when an event is not enabled.\<close>

fun server_trace :: "service_config \<Rightarrow> event list \<Rightarrow> server \<Rightarrow> server list option" where
  "server_trace cf [] s = Some [s]"
| "server_trace cf (e # es) s =
     (case server_step cf e s of None \<Rightarrow> None | Some s' \<Rightarrow> map_option ((#) s) (server_trace cf es s'))"

lemma trace_start: "server_trace cf es s = Some ss \<Longrightarrow> s \<in> set ss"
  by (cases es) (auto split: option.splits)

lemma trace_reachable:
  assumes "server_reachable cf s" and "server_trace cf es s = Some ss" and "\<forall>sid. RequestDeletion sid \<in> set es \<longrightarrow> matches_id sid"
    and "\<forall>t\<in>set ss. tombstones_last t" and "t \<in> set ss"
  shows "server_reachable cf t"
  using assms
proof (induction es arbitrary: s ss)
  case (Cons e es)
  then obtain s' ts where e: "server_step cf e s = Some s'" and ts: "server_trace cf es s' = Some ts" "ss = s # ts"
    by (auto split: option.splits)
  have "names_session e" using Cons.prems(3) by (auto simp: names_session_def split: event.split)
  moreover have "tombstones_last s'" using trace_start [OF ts(1)] Cons.prems(4) ts(2) by simp
  ultimately have "server_reachable cf s'" using Cons.prems(1) e by (blast intro: server_next)
  with Cons ts show ?case by auto
qed auto

text \<open>C6:
  One turn per stream at a time: in every state a service goes through from its start, however requests,
  retries, disconnects, deletions and the reuse of deleted session ids interleave, no two turns of the
  same session and agent are past the turn lock at once, and no two running turns share a turn lock.
  Two conditions on the run are stated, neither of which the service checks: every deletion names an id the
  service accepts for sessions, and the tombstone of a deleted session outlives its cleanup. A finding
  shows two running turns of one stream after a deletion that breaks the first.
\<close>

theorem one_turn_per_stream:
  assumes "init_provider overrides = Inr p"
    and "server_trace cf es (init_server p (init_recorder store lps experts validate dumps) now) = Some ss"
    and "\<forall>sid. RequestDeletion sid \<in> set es \<longrightarrow> matches_id sid" and "\<forall>s\<in>set ss. tombstones_last s"
    and "s \<in> set ss" and "map_of (sv_turns s) i = Some t" and "map_of (sv_turns s) j = Some u" and "i \<noteq> j"
    and "tn_session t = tn_session u \<and> tn_agent t = tn_agent u \<or> tn_lock t = tn_lock u"
  shows "\<not> (past_queue t \<and> past_queue u)"
proof -
  have "server_reachable cf s" by (rule trace_reachable [OF server_init [OF assms(1)] assms(2-5)])
  from server_reachable_ok [OF this] have ok: "server_ok s" .
  have "turn_wf s t" "turn_wf s u" using ok assms(6,7) by (simp_all add: server_ok_def turns_ok_def)
  with assms(9) have "tn_lock t = tn_lock u" by (auto simp: turn_wf_def tn_stream_def)
  with assms(6-8) ok show ?thesis unfolding server_ok_def locks_ok_def by blast
qed

text \<open>A service on the demonstration tokenizer, and a chat request of the agent \<open>main\<close> of the session \<open>run\<close>.\<close>

definition demo_config :: service_config where
  "demo_config = \<lparr>sc_env = parsing_env, sc_api_key = Some ''key'', sc_delimiter = PROXY_KEY_DELIMITER, sc_instance = ''0''\<rparr>"

definition demo_server :: server where
  "demo_server = init_server demo_provider (init_recorder False False False (\<lambda>_. None) (\<lambda>_. None)) 0"

definition demo_chat :: event where
  "demo_chat = Admit (Fin 0) ''Bearer key|run|main'' (Some (PDict [(''model'', PStr ''m''), (''messages'', demo_opening)]))"

definition after_run :: "event list \<Rightarrow> server" where
  "after_run es = the (server_run demo_config es demo_server)"

definition runs :: "event list \<Rightarrow> bool" where
  "runs es = (case server_run demo_config es demo_server of None \<Rightarrow> False | Some _ \<Rightarrow> True)"

lemma demo_server_reachable: "server_reachable cf demo_server"
  unfolding demo_server_def
  by (rule server_init [of "PDict []"])
    (simp add: demo_provider_def init_provider_def validate_sampling_overrides_def pick_keys_def has_key_def)

lemma runs_after: "runs es \<Longrightarrow> server_run demo_config es demo_server = Some (after_run es)"
  by (auto simp: runs_def after_run_def split: option.splits)

lemma server_run_append:
  "server_run cf (es @ fs) s = Option.bind (server_run cf es s) (server_run cf fs)"
  by (induction es arbitrary: s) (simp_all split: option.split)

lemma runs_reachable: "runs es \<Longrightarrow> server_reachable demo_config (after_run es)"
  using server_run_reachable [OF demo_server_reachable runs_after] .

definition demo_trace :: "server list" where
  "demo_trace = the (server_trace demo_config [demo_chat, demo_chat, Acquire 1] demo_server)"

theorem one_turn_per_stream_witness:
  "map_option tn_stage (map_of (sv_turns (last demo_trace)) 1) = Some Starting \<and>
   \<not> (case map_of (sv_turns (last demo_trace)) 0 of None \<Rightarrow> False | Some u \<Rightarrow> past_queue u)"
proof -
  let ?s = "last demo_trace"
  have init: "init_provider (PDict []) = Inr demo_provider"
    by (simp add: demo_provider_def init_provider_def validate_sampling_overrides_def pick_keys_def has_key_def)
  have "(case server_trace demo_config [demo_chat, demo_chat, Acquire 1] demo_server of
      None \<Rightarrow> False | Some ss \<Rightarrow> ss \<noteq> [] \<and> list_all tombstones_last ss)" by code_simp
  then have tr: "server_trace demo_config [demo_chat, demo_chat, Acquire 1] demo_server = Some demo_trace"
    and last: "?s \<in> set demo_trace" "\<forall>s\<in>set demo_trace. tombstones_last s"
    by (auto simp: demo_trace_def list_all_iff split: option.splits)
  have none: "\<forall>sid. RequestDeletion sid \<in> set [demo_chat, demo_chat, Acquire 1] \<longrightarrow> matches_id sid"
    by (simp add: demo_chat_def)
  have "map_option (\<lambda>t. (tn_session t, tn_agent t)) (map_of (sv_turns ?s) 1) = Some (''run'', ''main'')"
    "map_option (\<lambda>t. (tn_session t, tn_agent t)) (map_of (sv_turns ?s) 0) = Some (''run'', ''main'')"
    "(case map_of (sv_turns ?s) 1 of None \<Rightarrow> False | Some t \<Rightarrow> (case tn_stage t of Starting \<Rightarrow> True | _ \<Rightarrow> False))"
    by code_simp+
  then obtain t u where t: "map_of (sv_turns ?s) 1 = Some t" "map_of (sv_turns ?s) 0 = Some u"
    "tn_session t = tn_session u \<and> tn_agent t = tn_agent u" "tn_stage t = Starting"
    by (auto split: option.splits stage.splits)
  from one_turn_per_stream [OF init tr [unfolded demo_server_def] none last(2,1) t(1,2)] t show ?thesis
    by (simp add: past_queue_def)
qed

subsection \<open>A finalized record is final\<close>

definition frozen :: "string \<Rightarrow> session_record \<Rightarrow> server \<Rightarrow> bool" where
  "frozen sid r s \<longleftrightarrow> map_of (sv_finalizations s) sid = Some Finalized \<and> map_of (sv_deletions s) sid = None \<and>
     get_session sid (px_recorder (sv_proxy s)) = Some r \<and> map_of (rec_failed (px_recorder (sv_proxy s))) sid = None"

lemma frozen_local:
  assumes "frozen sid r s" and "recorder_local k (px_recorder (sv_proxy s)) (px_recorder (sv_proxy s'))" and "k \<noteq> sid"
    and "sv_finalizations s' = sv_finalizations s" and "sv_deletions s' = sv_deletions s"
  shows "frozen sid r s'"
  using assms by (simp add: frozen_def recorder_local_def get_session_def)

lemma frozen_same:
  assumes "frozen sid r s" and "px_recorder (sv_proxy s') = px_recorder (sv_proxy s)"
    and "sv_finalizations s' = sv_finalizations s" and "sv_deletions s' = sv_deletions s"
  shows "frozen sid r s'"
  using assms by (simp add: frozen_def)

lemma frozen_handler:
  assumes ok: "server_ok s" and fr: "frozen sid r s" and t: "map_of (sv_turns s) i = Some t" and "in_flight t"
    and own: "own_recording t s (snd p)"
  shows "frozen sid r (proceed i t p s)"
proof (rule frozen_local [OF fr, where k = "tn_session t"])
  show "tn_session t \<noteq> sid"
    using ok fr t assms(4) by (auto simp: frozen_def server_ok_def finalizations_ok_def past_barrier_def)
qed (use own in \<open>simp_all add: proceed_def own_recording_def\<close>)

lemma frozen_turn_step:
  assumes ok: "server_ok s" and fr: "frozen sid r s" and t: "map_of (sv_turns s) i = Some t"
  shows "acquire i t s = Some s' \<Longrightarrow> frozen sid r s'" "begin_turn cf i t s = Some s' \<Longrightarrow> frozen sid r s'"
    "engine_reply cf i oc t s = Some s' \<Longrightarrow> frozen sid r s'" "parse_turn cf i fresh t s = Some s' \<Longrightarrow> frozen sid r s'"
    "record_turn i wall ident created t s = Some s' \<Longrightarrow> frozen sid r s'" "mark_turn i t s = Some s' \<Longrightarrow> frozen sid r s'"
    "give_up i t s = Some s' \<Longrightarrow> frozen sid r s'" "finish_turn i t s = Some s' \<Longrightarrow> frozen sid r s'"
proof -
  have flight: "in_flight t" if "\<forall>x. tn_stage t \<noteq> Running (Answered x)"
    using that by (auto simp: in_flight_def split: stage.split progress.split)
  note step = frozen_handler [OF ok fr t] flight
  show "acquire i t s = Some s' \<Longrightarrow> frozen sid r s'"
    by (auto simp: acquire_def split: stage.splits if_splits intro: frozen_same [OF fr])
  show "begin_turn cf i t s = Some s' \<Longrightarrow> frozen sid r s'"
    by (auto simp: begin_turn_def split: stage.splits if_splits intro!: step own_recording_id)
  show "engine_reply cf i oc t s = Some s' \<Longrightarrow> frozen sid r s'"
    by (auto simp: engine_reply_def split: stage.splits progress.splits intro!: step own_recording_id)
  show "parse_turn cf i fresh t s = Some s' \<Longrightarrow> frozen sid r s'"
    by (auto simp: parse_turn_def split: stage.splits progress.splits intro!: step own_recording_id)
  show "record_turn i wall ident created t s = Some s' \<Longrightarrow> frozen sid r s'"
    by (auto simp: record_turn_def split: stage.splits progress.splits intro!: step own_recording_record)
  show "mark_turn i t s = Some s' \<Longrightarrow> frozen sid r s'"
    by (auto simp: mark_turn_def split: stage.splits progress.splits intro!: step own_recording_mark)
  show "give_up i t s = Some s' \<Longrightarrow> frozen sid r s'"
    by (auto simp: give_up_def split: stage.splits if_splits intro: frozen_same [OF fr])
  show "finish_turn i t s = Some s' \<Longrightarrow> frozen sid r s'"
    by (auto simp: finish_turn_def split: stage.splits progress.splits intro: frozen_same [OF fr])
qed

lemma fold_release_frozen:
  "frozen sid r s \<Longrightarrow> frozen sid r (fold release_stream xs s)"
  by (simp add: frozen_def release_streams_fields)

lemma frozen_enqueue:
  assumes "frozen sid r s" and "k \<noteq> sid"
  shows "frozen sid r (enqueue_turn wall k aid model body s)"
proof (rule frozen_local [OF assms(1) _ assms(2)])
  show "recorder_local k (px_recorder (sv_proxy s)) (px_recorder (sv_proxy (enqueue_turn wall k aid model body s)))"
    using recorder_local_ensure [of k "px_recorder (sv_proxy s)" "sv_clock s" wall "Some model"]
    by (simp add: enqueue_turn_def on_recorder_def track_stream_def turn_lock_def Let_def split: option.split)
qed (simp_all add: enqueue_turn_def on_recorder_def track_stream_def turn_lock_def Let_def split: option.split)

lemma frozen_step:
  assumes ok: "server_ok s" and fr: "frozen sid r s" and step: "server_step cf e s = Some s'" and e: "e \<noteq> RequestDeletion sid"
  shows "frozen sid r s'"
proof (cases e)
  case (Admit wall header body)
  show ?thesis
  proof (cases "check_admission cf header body s")
    case (Inl status)
    with Admit step fr show ?thesis by (simp add: admit_def)
  next
    case (Inr x)
    then obtain k aid model d where x: "check_admission cf header body s = Inr (k, aid, model, d)" by (cases x) auto
    then have "k \<noteq> sid" using check_admission_Inr [OF x] fr by (auto simp: frozen_def)
    from frozen_enqueue [OF fr this] Admit step x show ?thesis by (auto simp: admit_def)
  qed
next
  case (Acquire i)
  with step show ?thesis using frozen_turn_step(1) [OF ok fr] by (auto simp only: server_step.simps on_turn_Some)
next
  case (Begin i)
  with step show ?thesis using frozen_turn_step(2) [OF ok fr] by (auto simp only: server_step.simps on_turn_Some)
next
  case (EngineReply i oc)
  with step show ?thesis using frozen_turn_step(3) [OF ok fr] by (auto simp only: server_step.simps on_turn_Some)
next
  case (Parse i fresh)
  with step show ?thesis using frozen_turn_step(4) [OF ok fr] by (auto simp only: server_step.simps on_turn_Some)
next
  case (Record i wall ident created)
  with step show ?thesis using frozen_turn_step(5) [OF ok fr] by (auto simp only: server_step.simps on_turn_Some)
next
  case (Mark i)
  with step show ?thesis using frozen_turn_step(6) [OF ok fr] by (auto simp only: server_step.simps on_turn_Some)
next
  case (GiveUp i)
  with step show ?thesis using frozen_turn_step(7) [OF ok fr] by (auto simp only: server_step.simps on_turn_Some)
next
  case (Finish i)
  with step show ?thesis using frozen_turn_step(8) [OF ok fr] by (auto simp only: server_step.simps on_turn_Some)
next
  case (Unwind i)
  with step obtain t where "s' = unwind_turn i t s" by (auto split: option.splits if_splits)
  then show ?thesis
    using fr by (auto simp: unwind_turn_def Let_def frozen_def drop_turn_def unlock_def split: stage.split progress.split)
next
  case (RequestFinalization k)
  with step fr show ?thesis
    by (cases "k = sid") (auto simp: request_finalization_def frozen_def update_conv')
next
  case (Drained k)
  with step fr show ?thesis
    by (cases "k = sid") (auto simp: drained_def frozen_def update_conv' split: if_splits)
next
  case (Seal k)
  show ?thesis
  proof (cases "k = sid")
    case True
    with Seal step fr show ?thesis by (simp add: seal_def frozen_def)
  next
    case False
    obtain q rec where f: "Recorder.finalize_session k (px_recorder (sv_proxy s)) = (q, rec)" by fastforce
    with recorder_local_finalize [of k "px_recorder (sv_proxy s)"] have "recorder_local k (px_recorder (sv_proxy s)) rec" by simp
    with Seal step fr f False show ?thesis
      by (auto simp: seal_def on_recorder_def frozen_def recorder_local_def get_session_def update_conv' split: if_splits)
  qed
next
  case (RequestDeletion k)
  with step fr e show ?thesis
    by (auto simp: request_deletion_def frozen_def on_recorder_def update_conv' delete_session_fields)
next
  case (CancelWork k)
  with step fr show ?thesis
    by (cases "k = sid")
      (auto simp: cancel_work_def cancel_finalization_def frozen_def update_conv' split: if_splits option.splits)
next
  case (Cleanup k)
  with step ok obtain xs where "map_of (sv_deletions s) k \<noteq> None"
    and "s' = (fold release_stream xs s)\<lparr>sv_streams := od_pop k (sv_streams s),
      sv_finalizations := od_pop k (sv_finalizations s), sv_deletions := od_pop k (sv_deletions s)\<rparr>"
    by (auto elim!: cleanup_Some)
  with fr fold_release_frozen [OF fr] show ?thesis by (cases "k = sid") (auto simp: frozen_def)
next
  case (SetSampling v)
  with step fr show ?thesis by (auto simp: frozen_def)
next
  case (Elapse d)
  with step fr show ?thesis by (auto simp: frozen_def split: if_splits)
qed

lemma frozen_run:
  "server_reachable cf s \<Longrightarrow> frozen sid r s \<Longrightarrow> server_run cf es s = Some s' \<Longrightarrow> RequestDeletion sid \<notin> set es \<Longrightarrow> frozen sid r s'"
proof (induction es arbitrary: s)
  case (Cons e es)
  then obtain s1 where s1: "server_step cf e s = Some s1" "names_session e" "tombstones_last s1" "server_run cf es s1 = Some s'"
    by (auto split: option.splits if_splits)
  have "frozen sid r s1"
    by (rule frozen_step [OF server_reachable_ok [OF Cons.prems(1)] Cons.prems(2) s1(1)]) (use Cons.prems(4) in auto)
  with Cons.IH [OF server_next [OF Cons.prems(1) s1(1-3)]] Cons.prems(4) s1(4) show ?case by simp
qed simp

text \<open>C8:
  A finalized record is final: once the finalization of a session has completed and the session is
  not being deleted, then whatever happens next short of a deletion of that session (requests for it,
  callers that return or give up, other sessions' turns and deletions, time), the dump of the session
  is the same complete record, and no turn of the session is in flight. Reachable means: in a run whose deletions name ids the service accepts for
  sessions and whose tombstones outlive the cleanups (\<open>names_session\<close>, \<open>tombstones_last\<close>).
\<close>

theorem finalized_record_is_final:
  assumes "server_reachable cf s" and "map_of (sv_finalizations s) sid = Some Finalized" and "map_of (sv_deletions s) sid = None"
    and "server_run cf es s = Some s'" and "RequestDeletion sid \<notin> set es"
  shows "(\<exists>d. dump_session sid (px_recorder (sv_proxy s)) = Inr (Some d) \<and> dump_session sid (px_recorder (sv_proxy s')) = Inr (Some d)) \<and>
    \<not> session_busy sid s'"
proof -
  note ok = server_reachable_ok [OF assms(1)]
  then obtain r where fr: "frozen sid r s"
    using assms(2,3) by (auto simp: frozen_def server_ok_def finalizations_ok_def)
  note fr' = frozen_run [OF assms(1) fr assms(4,5)]
  have ok': "server_ok s'" by (rule server_reachable_ok [OF server_run_reachable [OF assms(1,4)]])
  have "dump_session sid (px_recorder (sv_proxy s)) = Inr (Some (model_dump r))" if "frozen sid r s" for s
    using that by (simp add: frozen_def dump_session_def get_session_def)
  moreover have "\<not> session_busy sid s'"
    using ok' fr' session_busy_iff [of s' sid]
    by (auto simp: server_ok_def turns_ok_def finalizations_ok_def frozen_def past_barrier_def)
  ultimately show ?thesis using fr fr' by blast
qed

text \<open>The agent gives up while its turn is queued and finalizes the session.\<close>

definition demo_sealed :: "event list" where
  "demo_sealed = [demo_chat, GiveUp 0, RequestFinalization ''run'', Drained ''run'', Seal ''run'']"

definition demo_later :: "event list" where
  "demo_later = [demo_chat, Elapse 9, RequestDeletion ''eval'']"

lemma demo_sealed_runs: "runs demo_sealed" "runs (demo_sealed @ demo_later)"
  by code_simp+

theorem finalized_record_is_final_witness:
  "dump_session ''run'' (px_recorder (sv_proxy (after_run demo_sealed))) =
   dump_session ''run'' (px_recorder (sv_proxy (after_run (demo_sealed @ demo_later))))"
proof -
  have "map_of (sv_finalizations (after_run demo_sealed)) ''run'' = Some Finalized"
    "map_of (sv_deletions (after_run demo_sealed)) ''run'' = None"
    by code_simp+
  moreover have "server_run demo_config demo_later (after_run demo_sealed) = Some (after_run (demo_sealed @ demo_later))"
    using demo_sealed_runs [THEN runs_after] by (simp add: server_run_append)
  moreover have "RequestDeletion ''run'' \<notin> set demo_later" by (simp add: demo_chat_def demo_later_def)
  ultimately show ?thesis
    using finalized_record_is_final [OF runs_reachable [OF demo_sealed_runs(1)], of "''run''" demo_later] by metis
qed

subsection \<open>Deletion\<close>

lemma release_session_fields:
  "map_of (pv_models (release_session x p)) y = (if y = x then None else map_of (pv_models p) y)"
  "map_of (pv_locks (release_session x p)) y = (if y = x then None else map_of (pv_locks p) y)"
  "map_of (pv_rejected (release_session x p)) y = (if y = x then None else map_of (pv_rejected p) y)"
  "map_of (pv_bundles (release_session x p)) k =
     map_option (\<lambda>b. b\<lparr>bn_manager := drop_stream x (bn_manager b)\<rparr>) (map_of (pv_bundles p) k)"
  by (simp_all add: release_session_def map_of_map_bundles)

definition no_trace :: "string \<Rightarrow> provider \<Rightarrow> bool" where
  "no_trace x p \<longleftrightarrow> map_of (pv_models p) x = None \<and> map_of (pv_locks p) x = None \<and> map_of (pv_rejected p) x = None \<and>
     (\<forall>k b. map_of (pv_bundles p) k = Some b \<longrightarrow> map_of (mgr_sessions (bn_manager b)) x = None)"

lemma no_trace_release: "no_trace x (release_session y p)" if "no_trace x p \<or> x = y"
  using that by (auto simp: no_trace_def release_session_fields drop_stream_def)

lemma no_trace_fold: "x \<in> set xs \<or> no_trace x p \<Longrightarrow> no_trace x (fold release_session xs p)"
  by (induction xs arbitrary: p) (auto intro: no_trace_release)

lemma release_others:
  "y \<notin> set xs \<Longrightarrow> map_of (pv_models (fold release_session xs p)) y = map_of (pv_models p) y \<and>
     map_of (pv_locks (fold release_session xs p)) y = map_of (pv_locks p) y"
  by (induction xs arbitrary: p) (auto simp: release_session_fields)

lemma session_streams_named:
  assumes "server_ok s" and "matches_id sid" and "x \<in> set (session_streams sid s)" and "matches_id k" and "k \<noteq> sid"
  shows "x \<noteq> stream_id k aid"
proof (cases "x = sid")
  case True
  then show ?thesis using matches_id_chars [OF assms(2)] by (auto simp: stream_id_def)
next
  case False
  with assms(3) obtain xs where "map_of (sv_streams s) sid = Some xs" "x \<in> set xs"
    by (auto simp: session_streams_def split: option.splits list.splits)
  with assms(1) obtain a where "x = stream_id sid a" unfolding server_ok_def streams_ok_def by blast
  with stream_id_inject [OF assms(2,4)] assms(5) show ?thesis by auto
qed

text \<open>C20:
  A deletion leaves nothing of its session, and touches no other: when the cleanup of a deleted
  session has run, no turn, record, failure, stream, finalization, turn lock, model pin, provider lock,
  engine rejection or token stream of it is left, its id stays refused, and the locks and pins of the
  streams of every other session are the ones they had. Reachable means: in a run whose deletions name ids the service accepts for
  sessions and whose tombstones outlive the cleanups (\<open>names_session\<close>, \<open>tombstones_last\<close>).
\<close>

theorem deletion_leaves_nothing:
  assumes "server_reachable cf s" and "server_step cf (Cleanup sid) s = Some s'"
  shows "(\<forall>i t. map_of (sv_turns s') i = Some t \<longrightarrow> tn_session t \<noteq> sid) \<and>
    get_session sid (px_recorder (sv_proxy s')) = None \<and> map_of (rec_failed (px_recorder (sv_proxy s'))) sid = None \<and>
    map_of (sv_streams s') sid = None \<and> map_of (sv_finalizations s') sid = None \<and> session_deleted sid s' \<and>
    (\<forall>xs x. map_of (sv_streams s) sid = Some xs \<longrightarrow> x \<in> set xs \<longrightarrow>
       map_of (sv_turn_locks s') x = None \<and> no_trace x (px_provider (sv_proxy s'))) \<and>
    (\<forall>k aid. matches_id k \<longrightarrow> k \<noteq> sid \<longrightarrow>
       map_of (sv_turn_locks s') (stream_id k aid) = map_of (sv_turn_locks s) (stream_id k aid) \<and>
       map_of (pv_models (px_provider (sv_proxy s'))) (stream_id k aid) = map_of (pv_models (px_provider (sv_proxy s))) (stream_id k aid) \<and>
       map_of (pv_locks (px_provider (sv_proxy s'))) (stream_id k aid) = map_of (pv_locks (px_provider (sv_proxy s))) (stream_id k aid))"
proof -
  note ok = server_reachable_ok [OF assms(1)]
  from assms(2) have "cleanup sid s = Some s'" by simp
  from cleanup_Some [OF this ok] obtain ids where ids: "map_of (sv_deletions s) sid = Some (Some ids)"
    and gone: "\<forall>i t. map_of (sv_turns s) i = Some t \<longrightarrow> tn_session t \<noteq> sid"
    and s': "s' = (fold release_stream (session_streams sid s) s)
           \<lparr>sv_streams := od_pop sid (sv_streams s), sv_finalizations := od_pop sid (sv_finalizations s),
            sv_deletions := od_pop sid (sv_deletions s)\<rparr>" by metis
  have rec: "get_session sid (px_recorder (sv_proxy s)) = None" "map_of (rec_failed (px_recorder (sv_proxy s))) sid = None"
    and id: "matches_id sid" and del: "session_deleted sid s"
    using ok ids by (auto simp: server_ok_def deletions_ok_def tombstones_last_iff)
  have other: "stream_id k aid \<notin> set (session_streams sid s)" if "matches_id k" "k \<noteq> sid" for k aid
    using session_streams_named [OF ok id _ that] by blast
  have held: "set xs \<subseteq> set (session_streams sid s)" if "map_of (sv_streams s) sid = Some xs" for xs
    using that by (auto simp: session_streams_def split: list.split)
  have "session_deleted sid s'" using del by (simp add: s' session_deleted_def release_streams_fields)
  then show ?thesis
    using gone rec other release_others no_trace_fold held by (simp add: s' release_streams_fields) blast
qed

definition demo_deleted :: "event list" where
  "demo_deleted = [demo_chat, Acquire 0, RequestDeletion ''run'', CancelWork ''run'', Unwind 0]"

theorem deletion_leaves_nothing_witness:
  "map_of (sv_turn_locks (after_run demo_deleted)) ''run-main'' = Some 0 \<and>
   map_of (sv_turn_locks (after_run (demo_deleted @ [Cleanup ''run'']))) ''run-main'' = None"
proof -
  have r: "runs demo_deleted" "runs (demo_deleted @ [Cleanup ''run''])"
    and l: "map_of (sv_turn_locks (after_run demo_deleted)) ''run-main'' = Some 0"
    and x: "map_of (sv_streams (after_run demo_deleted)) ''run'' = Some [''run-main'']"
    by code_simp+
  have "server_step demo_config (Cleanup ''run'') (after_run demo_deleted) = Some (after_run (demo_deleted @ [Cleanup ''run'']))"
    using r [THEN runs_after] by (auto simp: server_run_append split: option.splits if_splits)
  from deletion_leaves_nothing [OF runs_reachable [OF r(1)] this] l x show ?thesis by simp
qed

text \<open>
  Outside the assumption \<open>names_session\<close>: a deletion whose id is the name of a stream has no session to
  cancel, releases that stream, and a second turn of it then runs beside the first.
\<close>

definition demo_stray :: "event list" where
  "demo_stray = [demo_chat, Acquire 0, RequestDeletion ''run-main'', CancelWork ''run-main'', Cleanup ''run-main'',
     demo_chat, Acquire 1]"

lemma stray_deletion_releases_a_live_stream:
  "(case fold (\<lambda>e s. Option.bind s (server_step demo_config e)) demo_stray (Some demo_server) of
      None \<Rightarrow> False
    | Some s \<Rightarrow> list_all (\<lambda>(i, t). tn_session t = ''run'' \<and> tn_agent t = ''main'' \<and> past_queue t \<and> \<not> tn_cancelled t) (sv_turns s) \<and>
        od_keys (sv_turns s) = [0, 1])"
  unfolding past_queue_def by code_simp

end
