(* ===== verification/ProviderStreams.thy ===== *)
theory ProviderStreams
  imports ProviderProperties
begin

section \<open>The streams a provider holds\<close>

text \<open>
  What each operation of the provider does to the token streams of its bundles: only a finished turn
  changes the tokens of a stream, only of its own, and then to exactly its prompt and completion;
  everything else keeps or drops streams.
\<close>

definition held :: "provider \<Rightarrow> string \<Rightarrow> string \<Rightarrow> session_state \<Rightarrow> bool" where
  "held p x k st \<longleftrightarrow> (\<exists>b. map_of (pv_bundles p) k = Some b \<and> map_of (mgr_sessions (bn_manager b)) x = Some st)"

text \<open>No pin or bundle goes, and no stream appears or changes its tokens.\<close>

definition quiet :: "provider \<Rightarrow> provider \<Rightarrow> bool" where
  "quiet p p' \<longleftrightarrow>
     (\<forall>x v. map_of (pv_models p) x = Some v \<longrightarrow> map_of (pv_models p') x = Some v) \<and>
     (\<forall>k. map_of (pv_bundles p) k \<noteq> None \<longrightarrow> map_of (pv_bundles p') k \<noteq> None) \<and>
     (\<forall>x k st'. held p' x k st' \<longrightarrow> (\<exists>st. held p x k st \<and> ss_stream st' = ss_stream st))"

abbreviation live_provider :: "provider \<Rightarrow> bool" where
  "live_provider p \<equiv> sat {} live_manager (\<lambda>_. None) p"

lemma held_unique: "held p x k st \<Longrightarrow> held p x k st' \<Longrightarrow> st = st'"
  by (auto simp: held_def)

lemma held_bundles: "map_of (pv_bundles p') = map_of (pv_bundles p) \<Longrightarrow> held p' = held p"
  by (intro ext) (simp add: held_def)

lemma quiet_refl [simp]: "quiet p p"
  by (auto simp: quiet_def)

lemma quiet_pinned: "quiet p p' \<Longrightarrow> pinned_to env p x k \<Longrightarrow> pinned_to env p' x k"
  by (auto simp: quiet_def pinned_to_def)

text \<open>A manager that holds, up to what its caches and retries count, streams it held before.\<close>

definition holds_no_more :: "provider \<Rightarrow> string \<Rightarrow> manager \<Rightarrow> bool" where
  "holds_no_more p k m \<longleftrightarrow> live_manager k m \<and>
     (\<forall>x st'. map_of (mgr_sessions m) x = Some st' \<longrightarrow> (\<exists>st. held p x k st \<and> ss_stream st' = ss_stream st))"

lemma stream_kept_tokens:
  "stream_kept old new \<Longrightarrow> new = Some st' \<Longrightarrow> \<exists>st. old = Some st \<and> ss_stream st' = ss_stream st"
  by (auto simp: stream_kept_def split: option.splits)

lemma profile_manager_empty [simp]: "mgr_sessions (profile_manager tok pr) = []"
  by (simp add: profile_manager_def init_manager_def)

lemma holds_no_more_step:
  assumes "holds_no_more p k m" and "\<forall>x. foreign_step x m m'"
  shows "holds_no_more p k m'"
proof -
  have live: "live_manager k m" using assms(1) by (simp add: holds_no_more_def)
  have "\<exists>st. held p x k st \<and> ss_stream st' = ss_stream st" if "map_of (mgr_sessions m') x = Some st'" for x st'
  proof -
    have "stream_kept (map_of (mgr_sessions m) x) (map_of (mgr_sessions m') x)"
      using foreign_step_kept live assms(2) by (simp add: live_manager_def)
    from stream_kept_tokens [OF this that] assms(1) show ?thesis by (auto simp: holds_no_more_def)
  qed
  with live live_manager_step foreign_mgr_step assms(2) show ?thesis unfolding holds_no_more_def by blast
qed

lemma fresh_manager_holds: "holds_no_more p (mp_name pr) (profile_manager tok pr)"
  using live_profile_manager [of "mp_name pr" tok pr]
  by (simp add: holds_no_more_def)

interpretation calm: manager_observer "\<lambda>m m'. \<forall>x. foreign_step x m m'" "holds_no_more p" K X
  for p K X
  by unfold_locales (auto intro: holds_no_more_step fresh_manager_holds foreign_step.intros)

abbreviation still :: "provider \<Rightarrow> provider \<Rightarrow> bool" where
  "still p p' \<equiv> sat {k. map_of (pv_bundles p) k \<noteq> None} (holds_no_more p) (map_of (pv_models p)) p'"

lemma still_refl: "live_provider p \<Longrightarrow> still p p"
  by (auto simp: sat_def holds_no_more_def held_def)

lemma still_quiet: "still p p' \<Longrightarrow> quiet p p'"
  unfolding sat_def quiet_def holds_no_more_def held_def by fast

lemmas quiet_start = still_quiet [OF calm.keeps_start [OF still_refl]]
lemmas quiet_parse = still_quiet [OF calm.keeps_parse [OF still_refl]]
lemmas quiet_override = still_quiet [OF calm.keeps_override [OF still_refl]]

subsection \<open>What a turn starts from\<close>

lemma cached_turn_None:
  assumes "fst (cached_turn sid messages effort m) = Inr None"
  shows "snd (cached_turn sid messages effort m) = m"
  by (cases rule: cached_turn_cases [of sid messages effort m]) (use assms in auto)

lemma built_bundle_live:
  assumes "live_provider p" and "map_of (pv_bundles p) k = Some b \<or> (\<exists>tok pr. bn_manager b = profile_manager tok pr)"
  shows "live_manager k (bn_manager b)"
  using assms live_profile_manager by (auto simp: sat_def)

text \<open>The prompt of a continuation extends the stream that is held when the turn starts.\<close>

lemma start_Calling_stream:
  assumes "live_provider p" and "generate_start env (Some x) rq p = (Inr (Calling pn), p')"
  obtains ms where "normalize_messages (rq_messages rq) = Inr ms"
    and "pinned_to env p' x (pn_bundle pn)" and "pn_session pn = x" and "map_of (pv_bundles p') (pn_bundle pn) \<noteq> None"
    and "pn_messages pn = rq_messages rq"
    and "first_assistant ms \<noteq> None \<Longrightarrow> \<exists>st. held p x (pn_bundle pn) st \<and> prefix (ss_stream st) (pn_prompt pn)"
proof -
  from assms(2) obtain k b effort where k: "pinned_to env p' x k" "pn_bundle pn = k" "pn_session pn = x"
    "map_of (pv_bundles p') k \<noteq> None"
    and b: "map_of (pv_bundles p) k = Some b \<or> (\<exists>tok pr. bn_manager b = profile_manager tok pr)"
    and c: "fst (cached_turn (Some x) (rq_messages rq) effort (bn_manager b)) = Inr None"
    and bp: "fst (build_prompt (Some x) (rq_messages rq) (rq_tools rq) effort
           (snd (cached_turn (Some x) (rq_messages rq) effort (bn_manager b)))) = Inr (pn_prompt pn)"
    and m: "pn_messages pn = rq_messages rq"
    by (rule generate_start_Calling) blast
  have reach: "mgr_reachable (bn_manager b)" using built_bundle_live [OF assms(1) b] by (simp add: live_manager_def)
  have spec: "prompt_spec (bn_manager b) (Some x) (rq_messages rq) (rq_tools rq) effort = Inr (pn_prompt pn)"
    using bp build_prompt_outcome [OF reach] by (simp add: cached_turn_None [OF c])
  then obtain ms where ms: "normalize_messages (rq_messages rq) = Inr ms"
    by (auto simp: prompt_spec_def result_simps)
  show thesis
  proof (rule that [OF ms k(1) [folded k(2)] k(3) k(4) [folded k(2)] m])
    assume "first_assistant ms \<noteq> None"
    from prompt_spec_continuation [OF spec ms this] obtain st d
      where st: "map_of (mgr_sessions (bn_manager b)) x = Some st" "pn_prompt pn = ss_stream st @ d" by metis
    with b have "map_of (pv_bundles p) k = Some b" by auto
    with st k(2) show "\<exists>st. held p x (pn_bundle pn) st \<and> prefix (ss_stream st) (pn_prompt pn)"
      by (auto simp: held_def)
  qed
qed

lemma cached_turn_Some:
  assumes "fst (cached_turn (Some x) messages effort m) = Inr (Some (prompt, ids, rest))"
  obtains st ms where "map_of (mgr_sessions m) x = Some st" and "ss_stream st = prompt @ ids"
    and "normalize_messages messages = Inr ms"
proof -
  obtain st where st: "map_of (mgr_sessions m) x = Some st" "ss_stream st = prompt @ ids"
  proof (cases rule: cached_turn_cases [of "Some x" messages effort m])
    case (unchanged r)
    with assms show thesis by simp
  next
    case (served k s t)
    with assms that [of s] show thesis by (simp add: replay_of_def) (metis drop_last_append_last_n)
  qed
  moreover obtain ms where "normalize_messages messages = Inr ms"
    using assms st(1) by (auto simp: cached_turn_def sbind_slift split: option.splits sum.splits)
  ultimately show thesis using that by blast
qed

text \<open>A replay is the turn at the end of the stream.\<close>

lemma start_Served_stream:
  assumes "generate_start env (Some x) rq p = (Inr (Served (prompt, ids, rest)), p')" and "live_provider p"
  obtains k st ms where "pinned_to env p' x k" and "held p x k st" and "ss_stream st = prompt @ ids"
    and "normalize_messages (rq_messages rq) = Inr ms"
proof -
  obtain lock p0 where lock: "session_lock x p = (lock, p0)" by fastforce
  then have p0: "p0 = snd (session_lock x p)" by simp
  from assms(1) have l: "generate_locked env x lock rq p0 = (Inr (Served (prompt, ids, rest)), p')"
    by (auto simp: generate_start_def sbind_eq_Inr lock)
  from l obtain k b p1 cached p2 where r: "resolve_for_session env x (rq_model rq) p0 = (Inr (k, b), p1)"
    and c2: "on_manager k (cached_turn (Some x) (rq_messages rq) (effective_effort b (rq_effort rq))) p1 = (Inr cached, p2)"
    and f: "(case cached of Some turn \<Rightarrow> slift (serve_replay env k turn)
         | None \<Rightarrow> generate_fresh env x lock k b (effective_effort b (rq_effort rq)) rq) p2 = (Inr (Served (prompt, ids, rest)), p')"
    by (auto simp: generate_locked_def sbind_eq_Inr Let_def)
  let ?e = "effective_effort b (rq_effort rq)"
  obtain rest' where cached: "cached = Some (prompt, ids, rest')" and p': "p' = p2"
    using f by (auto simp: serve_replay_def generate_fresh_def sbind_eq_Inr rbind_eq_Inr split: option.splits)
  note r' = resolve_for_session_Inr [OF r]
  note c = on_manager_Inr [OF c2 r'(2)]
  from c(1) cached have "fst (cached_turn (Some x) (rq_messages rq) ?e (bn_manager b)) = Inr (Some (prompt, ids, rest'))" by simp
  then obtain st ms where st: "map_of (mgr_sessions (bn_manager b)) x = Some st" "ss_stream st = prompt @ ids"
    "normalize_messages (rq_messages rq) = Inr ms"
    by (rule cached_turn_Some)
  have "held p x k st"
    using r'(5) st(1) by (auto simp: held_def p0)
  moreover have "pinned_to env p' x k" using r'(1) c(3) by (simp add: pinned_to_def p')
  ultimately show thesis using that st by blast
qed

subsection \<open>What a finished turn leaves\<close>

lemma commit_turn_models: "pv_models (snd (commit_turn pn ids lps reason meta p)) = pv_models p"
  by (auto simp: commit_turn_def on_manager_def put_bundle_def split_beta split: option.split)

lemma note_rejection_models:
  "pv_models (snd (note_engine_rejection sid messages e effort p)) = pv_models p"
  "pv_bundles (snd (note_engine_rejection sid messages e effort p)) = pv_bundles p"
  by (auto simp: note_engine_rejection_def sbind_slift Let_def split: sum.split)

lemma finish_failed:
  assumes "generate_finish env pn oc p = (Inl e, p')"
  shows "pv_models p' = pv_models p" and "map_of (pv_bundles p') = map_of (pv_bundles p)"
proof -
  obtain p1 where f: "finish_outcome env pn oc p = (Inl e, p1)" and p': "p' = release_lock (pn_lock pn) p1"
    using assms by (auto simp: generate_finish_def split_beta prod_eq_iff)
  have "pv_models p1 = pv_models p \<and> map_of (pv_bundles p1) = map_of (pv_bundles p)"
  proof (cases oc)
    case (Raised e')
    with f note_rejection_models [of "pn_session pn" "pn_messages pn" e' "pn_effort pn" p] show ?thesis
      by (auto simp: finish_outcome_def sbind_eq_Inl)
  next
    case (Returned params i l s m0)
    let ?p = "p\<lparr>pv_rejected := od_pop (pn_session pn) (pv_rejected p)\<rparr>"
    consider "p1 = ?p" | ids lps reason meta where "commit_turn pn ids lps reason meta ?p = (Inl e, p1)"
      using f by (auto simp: finish_outcome_def Returned sbind_eq_Inl Let_def)
    then show ?thesis
    proof cases
      case (2 ids lps reason meta)
      from commit_turn_Inl [OF 2] commit_turn_models [of pn ids lps reason meta ?p] 2 show ?thesis by simp
    qed simp
  qed
  then show "pv_models p' = pv_models p" and "map_of (pv_bundles p') = map_of (pv_bundles p)"
    by (simp_all add: p' release_lock_def)
qed

lemma commit_tokens:
  assumes "live_manager k m" and "commit sid messages p c lps reason meta tools effort m = (Inr (), m')"
    and "map_of (mgr_sessions m') x = Some st'"
  shows "if x = sid then ss_stream st' = p @ c else map_of (mgr_sessions m) x = Some st'"
proof -
  obtain cs where n: "normalize_messages messages = Inr cs"
    using assms(2) by (cases "normalize_messages messages") (auto simp: commit_def sbind_slift)
  have "m' = snd (commit sid messages p c lps reason meta tools effort m)" by (simp add: assms(2))
  with assms(1,3) show ?thesis
    using commit_evicts [OF _ _ n, of m sid p c lps reason meta tools effort x]
    by (auto simp: live_manager_def MAX_SESSIONS_def new_session_state_def split: if_splits)
qed

lemma commit_turn_others:
  "k \<noteq> pn_bundle pn \<Longrightarrow> map_of (pv_bundles (snd (commit_turn pn ids lps reason meta p))) k = map_of (pv_bundles p) k"
  by (auto simp: commit_turn_def on_manager_def put_bundle_def update_conv' split_beta split: option.split)

lemma finish_other_bundles:
  assumes "k \<noteq> pn_bundle pn"
  shows "map_of (pv_bundles (snd (generate_finish env pn oc p))) k = map_of (pv_bundles p) k"
proof -
  have "map_of (pv_bundles (snd (finish_outcome env pn oc p))) k = map_of (pv_bundles p) k"
    by (cases oc)
      (auto simp: finish_outcome_def sbind_def note_rejection_models commit_turn_others [OF assms] Let_def
        split: sum.split prod.split dest!: arg_cong [of _ _ snd])
  then show ?thesis by (simp add: generate_finish_def split_beta release_lock_def)
qed

lemma finish_committed:
  assumes "live_provider p" and "generate_finish env pn oc p = (Inr (prompt, ids, rest), p')"
    and "map_of (pv_bundles p) (pn_bundle pn) \<noteq> None" and "map_of (pv_models p) (pn_session pn) \<noteq> None"
  shows "prompt = pn_prompt pn" and "pv_models p' = pv_models p"
    and "\<And>k. map_of (pv_bundles p) k \<noteq> None \<Longrightarrow> map_of (pv_bundles p') k \<noteq> None"
    and "\<exists>ms. normalize_messages (pn_messages pn) = Inr ms"
    and "\<And>x k st'. held p' x k st' \<Longrightarrow> if x = pn_session pn \<and> k = pn_bundle pn then ss_stream st' = prompt @ ids else held p x k st'"
proof -
  obtain lps reason body meta where rest: "rest = (lps, reason, body, meta)" by (cases rest) auto
  note fin = generate_finish_Inr [OF assms(2) [unfolded rest]]
  obtain b where b: "map_of (pv_bundles p) (pn_bundle pn) = Some b" using assms(3) by auto
  from fin(4) [OF assms(4) b] obtain m' where
    commit: "commit (pn_session pn) (pn_messages pn) (pn_prompt pn) ids (Some lps) (Some reason) (Some meta)
                (pn_tools pn) (pn_effort pn) (bn_manager b) = (Inr (), m')"
    and b': "map_of (pv_bundles p') (pn_bundle pn) = Some (b\<lparr>bn_manager := m'\<rparr>)" by blast
  have others: "map_of (pv_bundles p') k = map_of (pv_bundles p) k" if "k \<noteq> pn_bundle pn" for k
    using finish_other_bundles [OF that, of env oc p] assms(2) by simp
  show "prompt = pn_prompt pn" "pv_models p' = pv_models p" by (fact fin)+
  show "map_of (pv_bundles p') k \<noteq> None" if "map_of (pv_bundles p) k \<noteq> None" for k
    using that others b' by (cases "k = pn_bundle pn") auto
  show "\<exists>ms. normalize_messages (pn_messages pn) = Inr ms"
    using commit by (cases "normalize_messages (pn_messages pn)") (auto simp: commit_def sbind_slift)
  have live: "live_manager (pn_bundle pn) (bn_manager b)" using assms(1) b by (simp add: sat_def)
  show "if x = pn_session pn \<and> k = pn_bundle pn then ss_stream st' = prompt @ ids else held p x k st'"
    if "held p' x k st'" for x k st'
    using that commit_tokens [OF live commit] b b' others fin(1)
    by (cases "k = pn_bundle pn") (auto simp: held_def split: if_splits)
qed

lemma held_release: "held (release_session y p) x k st \<longleftrightarrow> x \<noteq> y \<and> held p x k st"
  by (auto simp: held_def release_session_def map_of_map_bundles drop_stream_def split: if_splits)

subsection \<open>Only valid completions are committed\<close>

text \<open>What a successful end of a turn checked, and what it committed.\<close>

lemma finish_succeeded:
  assumes "generate_finish env pn oc p = (Inr (prompt, ids, lps, reason, body, meta), p')"
  obtains params i l s m0 p1 where "oc = Returned params i l s m0" and "check_completion params i l s = Inr (ids, lps, reason)"
    and "meta = dset ''sampling_params'' (PDict (actual_sampling (pn_params pn))) m0"
    and "commit_turn pn ids lps reason meta (p\<lparr>pv_rejected := od_pop (pn_session pn) (pv_rejected p)\<rparr>) = (Inr (), p1)"
    and "p' = release_lock (pn_lock pn) p1" and "prompt = pn_prompt pn"
proof -
  obtain p1 where f: "finish_outcome env pn oc p = (Inr (prompt, ids, lps, reason, body, meta), p1)"
    and p': "p' = release_lock (pn_lock pn) p1"
    using assms by (auto simp: generate_finish_def split_beta prod_eq_iff)
  from f obtain params i l s m0 where oc: "oc = Returned params i l s m0"
    by (cases oc) (auto simp: finish_outcome_def sbind_eq_Inr)
  from f show thesis by (intro that [OF oc _ _ _ p']) (auto simp: finish_outcome_def oc sbind_eq_Inr Let_def)
qed

lemma check_completion_ids:
  assumes "check_completion params i l s = Inr (ids, lps, reason)"
  shows "i = PList (map PInt ids)"
proof -
  from assms obtain xs where "i = PList xs" "list_all is_token xs" "ids = map int_of_val xs"
    by (auto simp: check_completion_def rbind_eq_Inr require_eq Let_def split: pyval.splits)
  moreover from this(2) have "map (PInt \<circ> int_of_val) xs = xs"
    by (intro map_idI) (auto simp: list_all_iff is_token_iff)
  ultimately show ?thesis by simp
qed

text \<open>The turn a stream keeps of a completion.\<close>

definition turn_kept :: "session_state \<Rightarrow> int list \<Rightarrow> flt list \<Rightarrow> string \<Rightarrow> pydict \<Rightarrow> bool" where
  "turn_kept st ids lps reason meta \<longleftrightarrow>
     (\<exists>t. ss_last_turn st = Some t \<and> ct_completion_len t = length ids \<and> ct_log_probs t = lps \<and> ct_finish_reason t = reason \<and>
        ct_engine_meta t = meta)"

lemma finish_streams:
  assumes "live_provider p" and fin: "generate_finish env pn oc p = (Inr (prompt, ids, lps, reason, body, meta), p')"
  shows "held p' x k st \<Longrightarrow>
     if x = pn_session pn \<and> k = pn_bundle pn \<and> map_of (pv_models p) x \<noteq> None
     then ss_stream st = prompt @ ids \<and> turn_kept st ids lps reason meta else held p x k st"
    and "map_of (pv_models p) (pn_session pn) \<noteq> None \<Longrightarrow> \<exists>st. held p' (pn_session pn) (pn_bundle pn) st"
proof -
  let ?p = "p\<lparr>pv_rejected := od_pop (pn_session pn) (pv_rejected p)\<rparr>"
  obtain params i l s m0 p1 where check: "check_completion params i l s = Inr (ids, lps, reason)"
    and commit: "commit_turn pn ids lps reason meta ?p = (Inr (), p1)" and p': "p' = release_lock (pn_lock pn) p1"
    and prompt: "prompt = pn_prompt pn"
    by (rule finish_succeeded [OF fin])
  have h: "held p' = held p1" by (rule held_bundles) (simp add: p' release_lock_def)
  have ids: "ids \<noteq> []" using check_completion_Inr [OF check] by simp
  have "(held p' x k st \<longrightarrow>
     (if x = pn_session pn \<and> k = pn_bundle pn \<and> map_of (pv_models p) x \<noteq> None
     then ss_stream st = prompt @ ids \<and> turn_kept st ids lps reason meta else held p x k st)) \<and>
    (map_of (pv_models p) (pn_session pn) \<noteq> None \<longrightarrow> (\<exists>st. held p' (pn_session pn) (pn_bundle pn) st))"
  proof (cases "map_of (pv_models p) (pn_session pn) = None")
    case True
    with commit have "held p1 = held p" by (intro held_bundles) (auto simp: commit_turn_def)
    with True h show ?thesis by auto
  next
    case False
    with commit obtain b where b: "map_of (pv_bundles p) (pn_bundle pn) = Some b"
      by (auto simp: commit_turn_def on_manager_def split: option.splits)
    from False commit have om: "on_manager (pn_bundle pn) (commit (pn_session pn) (pn_messages pn) (pn_prompt pn) ids
        (Some lps) (Some reason) (Some meta) (pn_tools pn) (pn_effort pn)) ?p = (Inr (), p1)"
      by (auto simp: commit_turn_def split: if_splits)
    let ?c = "commit (pn_session pn) (pn_messages pn) (pn_prompt pn) ids (Some lps) (Some reason) (Some meta)
        (pn_tools pn) (pn_effort pn) (bn_manager b)"
    have b': "map_of (pv_bundles ?p) (pn_bundle pn) = Some b" using b by simp
    note om' = on_manager_Inr [OF om b']
    obtain ms where ms: "normalize_messages (pn_messages pn) = Inr ms"
      using om'(1) by (cases "normalize_messages (pn_messages pn)") (auto simp: commit_def sbind_slift)
    have live: "mgr_reachable (bn_manager b)" "0 < mgr_max_sessions (bn_manager b)"
      using assms(1) b by (auto simp: sat_def live_manager_def MAX_SESSIONS_def)
    note after = commit_evicts [OF live ms]
    have others: "held p1 x k st \<longleftrightarrow> held p x k st" if "k \<noteq> pn_bundle pn" for x k st
      using commit_turn_others [OF that, of ids lps reason meta ?p] commit by (simp add: held_def)
    have own: "held p1 x (pn_bundle pn) st \<longleftrightarrow> map_of (mgr_sessions (snd ?c)) x = Some st" for x st
      using om'(2) by (simp add: held_def)
    have was: "held p x (pn_bundle pn) st \<longleftrightarrow> map_of (mgr_sessions (bn_manager b)) x = Some st" for x st
      using b by (simp add: held_def)
    show ?thesis
      using False ids others by (cases "k = pn_bundle pn")
        (auto simp: h own was after prompt new_session_state_def turn_kept_def turn_to_cache_def)
  qed
  then show "held p' x k st \<Longrightarrow>
     if x = pn_session pn \<and> k = pn_bundle pn \<and> map_of (pv_models p) x \<noteq> None
     then ss_stream st = prompt @ ids \<and> turn_kept st ids lps reason meta else held p x k st"
    and "map_of (pv_models p) (pn_session pn) \<noteq> None \<Longrightarrow> \<exists>st. held p' (pn_session pn) (pn_bundle pn) st" by blast+
qed

text \<open>C10:
  Only a valid completion enters an authoritative stream, whatever the engine returned. Either the turn fails and
  every stream of every bundle is as it was, or the engine returned exactly the reported tokens, nonempty nonnegative
  integers with one finite log probability each, with the finish reason \<^verbatim>\<open>stop\<close> or \<^verbatim>\<open>length\<close>, never an abort, and
  metadata that names the policy they were sampled under. Then the stream of the turn, when its session has not been
  released, holds exactly the prompt and these tokens, with their log probabilities, reason and metadata as its last
  turn, and no other stream appears or changes. In both cases the turn lock is released.
\<close>

theorem only_valid_completions_are_committed:
  assumes "provider_reachable env p" and "generate_finish env pn oc p = (r, p')"
  shows "pn_lock pn \<notin> set (pv_held p') \<and>
   (case r of
      Inl e \<Rightarrow> \<forall>x k st. held p' x k st \<longleftrightarrow> held p x k st
    | Inr (prompt, ids, lps, reason, body, meta) \<Rightarrow>
        prompt = pn_prompt pn \<and> ids \<noteq> [] \<and> list_all (\<lambda>t. 0 \<le> t) ids \<and> length lps = length ids \<and>
        list_all is_fin lps \<and> reason \<in> {STOP, LENGTH} \<and>
        dget meta ''sampling_params'' = PDict (actual_sampling (pn_params pn)) \<and>
        (\<exists>params l s m0. oc = Returned params (PList (map PInt ids)) l s m0) \<and>
        (map_of (pv_models p) (pn_session pn) \<noteq> None \<longrightarrow>
           (\<exists>st. held p' (pn_session pn) (pn_bundle pn) st \<and> ss_stream st = pn_prompt pn @ ids \<and> turn_kept st ids lps reason meta)) \<and>
        (\<forall>x k st. held p' x k st \<longrightarrow>
           held p x k st \<and> \<not> (x = pn_session pn \<and> k = pn_bundle pn \<and> map_of (pv_models p) x \<noteq> None) \<or>
           x = pn_session pn \<and> k = pn_bundle pn \<and> ss_stream st = pn_prompt pn @ ids \<and> turn_kept st ids lps reason meta))"
proof -
  have live: "live_provider p" by (rule provider_reachable_live [OF assms(1)])
  have lock: "pn_lock pn \<notin> set (pv_held p')"
    using assms(2) by (auto simp: generate_finish_def split_beta release_lock_def)
  show ?thesis
  proof (cases r)
    case (Inl e)
    with assms(2) finish_failed(2) have "map_of (pv_bundles p') = map_of (pv_bundles p)" by blast
    from held_bundles [OF this] lock show ?thesis by (simp add: Inl)
  next
    case (Inr y)
    obtain prompt ids lps reason body meta where y: "y = (prompt, ids, lps, reason, body, meta)" by (cases y)
    with assms(2) Inr have fin: "generate_finish env pn oc p = (Inr (prompt, ids, lps, reason, body, meta), p')" by simp
    obtain params i l s m0 where oc: "oc = Returned params i l s m0"
      and check: "check_completion params i l s = Inr (ids, lps, reason)"
      and meta: "meta = dset ''sampling_params'' (PDict (actual_sampling (pn_params pn))) m0" and prompt: "prompt = pn_prompt pn"
      by (rule finish_succeeded [OF fin])
    note streams = finish_streams [OF live fin]
    have "\<exists>st. held p' (pn_session pn) (pn_bundle pn) st \<and> ss_stream st = pn_prompt pn @ ids \<and> turn_kept st ids lps reason meta"
      if pin: "map_of (pv_models p) (pn_session pn) \<noteq> None"
    proof -
      obtain st where st: "held p' (pn_session pn) (pn_bundle pn) st" using streams(2) [OF pin] by blast
      with streams(1) [of "pn_session pn" "pn_bundle pn" st] pin prompt show ?thesis by auto
    qed
    moreover have "held p x k st \<and> \<not> (x = pn_session pn \<and> k = pn_bundle pn \<and> map_of (pv_models p) x \<noteq> None) \<or>
        x = pn_session pn \<and> k = pn_bundle pn \<and> ss_stream st = pn_prompt pn @ ids \<and> turn_kept st ids lps reason meta"
      if "held p' x k st" for x k st
      using streams(1) [of x k st] that prompt by (auto split: if_splits)
    moreover have "\<exists>params l s m0. oc = Returned params (PList (map PInt ids)) l s m0"
      using oc check_completion_ids [OF check] by blast
    ultimately show ?thesis using lock check_completion_Inr [OF check] prompt meta by (simp add: Inr y)
  qed
qed

theorem only_valid_completions_are_committed_witness:
  "\<exists>st. held demo_finished (pn_session demo_pending) (pn_bundle demo_pending) st \<and>
     ss_stream st = pn_prompt demo_pending @ [3, 4]"
proof -
  have "lock_free ''s'' demo_provider" by code_simp
  from provider_next [OF demo_provider_reachable provider_step.start [OF this, of demo_env "demo_request demo_opening"]]
  have "provider_reachable demo_env demo_calling" by (simp add: demo_calling_def)
  moreover have "map_of (pv_models demo_calling) (pn_session demo_pending) \<noteq> None" by code_simp
  ultimately show ?thesis
    using only_valid_completions_are_committed [of demo_env demo_calling demo_pending demo_outcome] demo_finish by fastforce
qed

end
