(* ===== verification/RecordingStreams.thy ===== *)
theory RecordingStreams
  imports RecorderProperties Completion
begin

section \<open>Recordings against the stream of the engine\<close>

text \<open>
  When the rebuilt stream of an agent is the stream the engine saw. A delivery \<open>fits\<close> the recorded
  turns if it opens a conversation, continues the rebuilt stream, or repeats its last turn; recording
  such a delivery rebuilds its prompt and completion, and an unresolved failure keeps what its repair
  needs.
\<close>

definition has_assistant :: "pydict list \<Rightarrow> bool" where
  "has_assistant ms = list_ex (role_is ''assistant'') ms"

definition continues :: "completion_record list \<Rightarrow> bool \<Rightarrow> int list \<Rightarrow> bool" where
  "continues turns assistant p \<longleftrightarrow> turns = [] \<or> \<not> assistant \<or> prefix (stream_after [] turns) p"

definition fits :: "completion_record list \<Rightarrow> bool \<Rightarrow> int list \<Rightarrow> int list \<Rightarrow> bool" where
  "fits turns assistant p ids \<longleftrightarrow> continues turns assistant p \<or> stream_after [] turns = p @ ids"

lemma stream_after_last:
  "turns \<noteq> [] \<Longrightarrow> cr_new_conversation (last turns) \<Longrightarrow>
     stream_after [] turns = cr_prompt_token_ids (last turns) @ cr_completion_token_ids (last turns)"
  by (cases turns rule: rev_cases) (auto simp: stream_after_append)

lemma stream_after_record:
  "stream_after [] (turns @ [record_of d new ms p]) = (if new then [] else stream_after [] turns) @ p @ dl_token_ids d"
  by (simp add: stream_after_append record_of_def)

lemma stored_delta_fits:
  assumes "fits turns (has_assistant (dl_messages d)) (dl_prompt_token_ids d) (dl_token_ids d)"
    and "stored_delta d turns = Inr st"
  shows "stream_after [] (turns @ recorded_turn d turns) = dl_prompt_token_ids d @ dl_token_ids d"
proof (cases "turns = [] \<or> \<not> has_assistant (dl_messages d)")
  case True
  show ?thesis
  proof (cases st)
    case Duplicate
    with True assms(2) have "turns \<noteq> []" "opening_duplicate d (last turns) = Inr True"
      by (auto simp: stored_delta_def has_assistant_def result_simps split: if_splits)
    then show ?thesis
      using assms(2) Duplicate stream_after_last [of turns]
      by (auto simp: recorded_turn_def opening_duplicate_def result_simps split: if_splits)
  next
    case (Store new ms p)
    with True assms(2) have "new" "p = dl_prompt_token_ids d"
      by (auto simp: stored_delta_def has_assistant_def result_simps split: if_splits)
    with assms(2) Store show ?thesis by (simp add: recorded_turn_def stream_after_record)
  qed
next
  case False
  let ?s = "stream_after [] turns" and ?p = "dl_prompt_token_ids d" and ?c = "dl_token_ids d"
  from False assms(1) have fit: "prefix ?s ?p \<or> ?s = ?p @ ?c" by (simp add: fits_def continues_def)
  have delta: "stored_delta d turns = Inr
      (if length (non_assistant (dl_messages d)) = fst (conversation_extent turns) \<and> ?c = cr_completion_token_ids (last turns)
          \<and> int (length ?p) = int (length ?s) - int (length ?c)
       then Duplicate
       else if length (non_assistant (dl_messages d)) < fst (conversation_extent turns) \<or> length ?p < length ?s
       then Store True (dl_messages d) ?p
       else Store False (drop (fst (conversation_extent turns)) (non_assistant (dl_messages d))) (drop (length ?s) ?p))"
    using False by (auto simp: stored_delta_def has_assistant_def Let_def split_beta extent_stream [symmetric])
  have drop: "?s @ drop (length ?s) ?p @ ?c = ?p @ ?c" if "length ?s \<le> length ?p"
    using fit that by (auto simp: prefix_def)
  have dup: "?s = ?p @ ?c" if "int (length ?p) = int (length ?s) - int (length ?c)"
  proof -
    from that have le: "length ?p \<le> length ?s" "length ?p = length ?s \<Longrightarrow> ?c = []" by auto
    show ?thesis
      using fit
    proof
      assume "prefix ?s ?p"
      with le show ?thesis by (auto simp: prefix_def)
    qed
  qed
  let ?a = "length (non_assistant (dl_messages d)) = fst (conversation_extent turns) \<and> ?c = cr_completion_token_ids (last turns)
          \<and> int (length ?p) = int (length ?s) - int (length ?c)"
  let ?b = "length (non_assistant (dl_messages d)) < fst (conversation_extent turns) \<or> length ?p < length ?s"
  consider (again) ?a | (restart) "\<not> ?a" ?b | (more) "\<not> ?a" "\<not> ?b" by blast
  then show ?thesis
  proof cases
    case again
    then have "stored_delta d turns = Inr Duplicate" unfolding delta by (simp only: if_True simp_thms)
    with again dup show ?thesis by (simp add: recorded_turn_def)
  next
    case restart
    then have "stored_delta d turns = Inr (Store True (dl_messages d) ?p)" unfolding delta by (simp only: if_True if_False simp_thms)
    then show ?thesis by (simp add: recorded_turn_def stream_after_record)
  next
    case more
    then have "stored_delta d turns =
        Inr (Store False (drop (fst (conversation_extent turns)) (non_assistant (dl_messages d))) (drop (length ?s) ?p))"
      unfolding delta by (simp only: if_True if_False simp_thms)
    moreover from more have "length ?s \<le> length ?p" by simp
    ultimately show ?thesis using drop by (simp add: recorded_turn_def stream_after_record)
  qed
qed

subsection \<open>Messages\<close>

lemma first_assistant_iff: "first_assistant ms \<noteq> None \<longleftrightarrow> has_assistant ms"
  by (induction ms) (auto simp: has_assistant_def)

lemma normalize_message_role:
  assumes "normalize_message i v = Inr m"
  obtains d where "v = PDict d" and "role_is r m = role_is r d"
proof -
  from assms obtain d where v: "v = PDict d" by (auto simp: normalize_message_def split: pyval.splits)
  have "dget m ''role'' = dget d ''role''"
    using assms by (auto simp: v normalize_message_def normalize_content_def result_simps split: if_splits pyval.splits)
  with v that show thesis by (simp add: role_is_def)
qed

lemma traverse_message_dicts:
  assumes "traverse_from i normalize_message vs = Inr ms"
  shows "map PDict (message_dicts (PList vs)) = vs \<and> (has_assistant ms \<longleftrightarrow> has_assistant (message_dicts (PList vs)))"
  using assms
proof (induction vs arbitrary: i ms)
  case (Cons v vs)
  then obtain m ms' where ms: "ms = m # ms'" "normalize_message i v = Inr m" "traverse_from (Suc i) normalize_message vs = Inr ms'"
    by (auto simp: result_simps)
  from ms(2) obtain d where "v = PDict d" "role_is ''assistant'' m = role_is ''assistant'' d"
    by (rule normalize_message_role)
  with Cons.IH [OF ms(3)] ms(1) show ?case by (simp add: has_assistant_def)
qed (simp add: has_assistant_def)

text \<open>The messages a handler hands to the recorder are the ones the provider generated from.\<close>

lemma normalize_message_dicts:
  assumes "normalize_messages v = Inr ms"
  shows "norm_messages (message_dicts v) = Inr ms" and "has_assistant (message_dicts v) \<longleftrightarrow> has_assistant ms"
proof -
  from assms obtain vs where v: "v = PList vs" and t: "traverse_from 0 normalize_message vs = Inr ms"
    by (auto simp: normalize_messages_def split: pyval.splits)
  from traverse_message_dicts [OF t] assms show "norm_messages (message_dicts v) = Inr ms"
    "has_assistant (message_dicts v) \<longleftrightarrow> has_assistant ms"
    by (simp_all add: v norm_messages_def)
qed

lemma py_eq_str: "py_eq v w \<Longrightarrow> v = PStr r \<longleftrightarrow> w = PStr r"
  using py_eq_atoms(3,4) by blast

lemma dict_eq_role: "dict_eq d e \<Longrightarrow> role_is r d = role_is r e"
proof -
  assume "dict_eq d e"
  then have "rel_option py_eq (map_of d ''role'') (map_of e ''role'')" by (simp add: py_eq_dict)
  then show ?thesis
    by (cases "map_of d ''role''"; cases "map_of e ''role''") (auto simp: role_is_def dget_def dest: py_eq_str)
qed

lemma dicts_eq_has_assistant: "dicts_eq ms ns \<Longrightarrow> has_assistant ms = has_assistant ns"
  unfolding dicts_eq_def by (induction rule: list_all2_induct) (simp_all add: has_assistant_def dict_eq_role)

lemma norm_messages_has_assistant: "norm_messages ds = Inr ms \<Longrightarrow> has_assistant ms = has_assistant ds"
proof -
  have "message_dicts (PList (map PDict ds)) = ds" by (induction ds) auto
  then show "norm_messages ds = Inr ms \<Longrightarrow> has_assistant ms = has_assistant ds"
    using normalize_message_dicts(2) [of "PList (map PDict ds)" ms] by (simp add: norm_messages_def)
qed

subsection \<open>Recording and failing\<close>

text \<open>
  A failure is either past repair, because its agent recorded another turn meanwhile, or its turn
  still fits the record.
\<close>

definition failures_ok :: "recorder \<Rightarrow> bool" where
  "failures_ok m \<longleftrightarrow> (\<forall>sid a f. failed_of sid a m = Some f \<longrightarrow>
     ft_recorded_turns f < length (turns_of sid a m) \<or>
     ft_recorded_turns f = length (turns_of sid a m) \<and>
       fits (turns_of sid a m) (has_assistant (ft_messages f)) (ft_prompt_token_ids f) (ft_token_ids f))"

lemma failures_ok_cong:
  assumes "\<forall>k c. failed_of k c m' \<noteq> None \<longrightarrow> failed_of k c m' = failed_of k c m \<and> turns_of k c m' = turns_of k c m"
    and "failures_ok m"
  shows "failures_ok m'"
  unfolding failures_ok_def
proof (intro allI impI)
  fix k c f assume f: "failed_of k c m' = Some f"
  with assms(1) have "failed_of k c m = Some f" "turns_of k c m' = turns_of k c m" by (metis option.distinct(1))+
  with assms(2) show "ft_recorded_turns f < length (turns_of k c m') \<or>
     ft_recorded_turns f = length (turns_of k c m') \<and>
       fits (turns_of k c m') (has_assistant (ft_messages f)) (ft_prompt_token_ids f) (ft_token_ids f)"
    by (simp add: failures_ok_def)
qed

lemma record_completion_Inl:
  assumes "record_completion now wall d m = (Inl e, m')" and "\<not> tombstoned now (dl_session_id d) m"
  shows "turns_of k c m' = turns_of k c m" and "failed_of k c m' = failed_of k c m"
  using assms(2)
  by (cases rule: record_completion_cases [where wall = wall]; use assms(1) in auto)+

lemma record_completion_Inr:
  assumes "record_completion now wall d m = (Inr f, m')" and "\<not> tombstoned now (dl_session_id d) m"
  obtains b st where "repairs_failure d (turns_of (dl_session_id d) (dl_agent_id d) m) (failed_of (dl_session_id d) (dl_agent_id d) m) = Inr b"
    and "stored_delta d (turns_of (dl_session_id d) (dl_agent_id d) m) = Inr st"
    and "\<forall>k c. failed_of k c m' = (if b \<and> k = dl_session_id d \<and> c = dl_agent_id d then None else failed_of k c m)"
  using assms(2)
proof (cases rule: record_completion_cases [where wall = wall])
  case (raised e)
  with assms(1) show ?thesis by simp
next
  case (duplicate b)
  then show ?thesis using assms(1) by (intro that [of b Duplicate]) (auto simp: failed_of_clear)
next
  case (recorded b new ms p s' m2)
  then show ?thesis using assms(1) by (intro that [of b "Store new ms p"]) (auto simp: failed_of_clear)
qed

lemma record_completion_synced:
  assumes ok: "failures_ok m" and nt: "\<not> tombstoned now (dl_session_id d) m"
    and r: "record_completion now wall d m = (Inr f, m')"
    and fit: "failed_of (dl_session_id d) (dl_agent_id d) m = None \<Longrightarrow>
      fits (turns_of (dl_session_id d) (dl_agent_id d) m) (has_assistant (dl_messages d)) (dl_prompt_token_ids d) (dl_token_ids d)"
  shows "failures_ok m'"
    and "failed_of (dl_session_id d) (dl_agent_id d) m' = None \<Longrightarrow>
      stream_after [] (turns_of (dl_session_id d) (dl_agent_id d) m') = dl_prompt_token_ids d @ dl_token_ids d"
    and "k \<noteq> dl_session_id d \<or> c \<noteq> dl_agent_id d \<Longrightarrow> turns_of k c m' = turns_of k c m \<and> failed_of k c m' = failed_of k c m"
proof -
  let ?sid = "dl_session_id d" and ?a = "dl_agent_id d"
  let ?T = "turns_of ?sid ?a m"
  obtain b st where b: "repairs_failure d ?T (failed_of ?sid ?a m) = Inr b" and st: "stored_delta d ?T = Inr st"
    and failed: "\<forall>k c. failed_of k c m' = (if b \<and> k = ?sid \<and> c = ?a then None else failed_of k c m)"
    by (rule record_completion_Inr [OF r nt])
  have turns: "turns_of k c m' = turns_of k c m @ (if k = ?sid \<and> c = ?a then recorded_turn d ?T else [])" for k c
    using record_completion_turns [OF nt r, of k c] by simp
  then show other: "turns_of k c m' = turns_of k c m \<and> failed_of k c m' = failed_of k c m" if "k \<noteq> ?sid \<or> c \<noteq> ?a" for k c
    using that failed by auto
  show "failures_ok m'"
    unfolding failures_ok_def
  proof (intro allI impI)
    fix k c f assume f: "failed_of k c m' = Some f"
    then have "failed_of k c m = Some f" using failed by (auto split: if_splits)
    with ok have "ft_recorded_turns f < length (turns_of k c m) \<or> ft_recorded_turns f = length (turns_of k c m) \<and>
       fits (turns_of k c m) (has_assistant (ft_messages f)) (ft_prompt_token_ids f) (ft_token_ids f)"
      by (simp add: failures_ok_def)
    then show "ft_recorded_turns f < length (turns_of k c m') \<or> ft_recorded_turns f = length (turns_of k c m') \<and>
       fits (turns_of k c m') (has_assistant (ft_messages f)) (ft_prompt_token_ids f) (ft_token_ids f)"
      unfolding turns by (cases "if k = ?sid \<and> c = ?a then recorded_turn d ?T else []") auto
  qed
  show "stream_after [] (turns_of ?sid ?a m') = dl_prompt_token_ids d @ dl_token_ids d" if "failed_of ?sid ?a m' = None"
  proof -
    have "fits ?T (has_assistant (dl_messages d)) (dl_prompt_token_ids d) (dl_token_ids d)"
    proof (cases b)
      case True
      with b have "repairs_failure d ?T (failed_of ?sid ?a m) = Inr True" by simp
      then obtain g ns where g: "failed_of ?sid ?a m = Some g" "length ?T = ft_recorded_turns g"
        "dl_prompt_token_ids d = ft_prompt_token_ids g" "dl_token_ids d = ft_token_ids g"
        "norm_messages (dl_messages d) = Inr ns" "dicts_eq ns (ft_messages g)"
        by (rule repairs_failure_True)
      moreover from g(5,6) have "has_assistant (dl_messages d) = has_assistant (ft_messages g)"
        using norm_messages_has_assistant dicts_eq_has_assistant by metis
      ultimately show ?thesis using ok by (simp add: failures_ok_def) (metis less_irrefl_nat)
    next
      case False
      with that failed have "failed_of ?sid ?a m = None" by simp
      then show ?thesis by (rule fit)
    qed
    from stored_delta_fits [OF this st] show ?thesis by (simp add: turns)
  qed
qed

lemma mark_recording_failed_effect:
  assumes "\<not> tombstoned now sid m" and "norm_messages ms = Inr ns" and "mark_recording_failed now sid a ms p ids m = (r, m')"
  shows "turns_of k c m' = turns_of k c m"
    and "failed_of k c m' =
      (if k = sid \<and> c = a
       then Some (case failed_of sid a m of Some f \<Rightarrow> f | None \<Rightarrow>
              \<lparr>ft_messages = ns, ft_prompt_token_ids = p, ft_token_ids = ids, ft_recorded_turns = length (turns_of sid a m)\<rparr>)
       else failed_of k c m)"
  using assms
  by (auto simp: mark_recording_failed_def turns_of_def failed_of_def sbind_slift Let_def update_conv'
      split: option.splits if_splits)

lemma mark_recording_failed_synced:
  assumes ok: "failures_ok m" and nt: "\<not> tombstoned now sid m" and ns: "norm_messages ms = Inr ns"
    and r: "mark_recording_failed now sid a ms p ids m = (r, m')"
    and fit: "failed_of sid a m = None \<Longrightarrow> fits (turns_of sid a m) (has_assistant ms) p ids"
  shows "failures_ok m'"
proof -
  note eff = mark_recording_failed_effect [OF nt ns r]
  show ?thesis
    unfolding failures_ok_def eff(1)
  proof (intro allI impI)
    fix k c f assume f: "failed_of k c m' = Some f"
    show "ft_recorded_turns f < length (turns_of k c m) \<or> ft_recorded_turns f = length (turns_of k c m) \<and>
       fits (turns_of k c m) (has_assistant (ft_messages f)) (ft_prompt_token_ids f) (ft_token_ids f)"
    proof (cases "failed_of k c m = Some f")
      case True
      with ok show ?thesis by (simp add: failures_ok_def)
    next
      case False
      with f have "k = sid" "c = a" "failed_of sid a m = None"
        "f = \<lparr>ft_messages = ns, ft_prompt_token_ids = p, ft_token_ids = ids, ft_recorded_turns = length (turns_of sid a m)\<rparr>"
        unfolding eff(2) by (auto split: if_splits option.splits)
      with fit norm_messages_has_assistant [OF ns] show ?thesis by simp
    qed
  qed
qed

end
