(* ===== verification/EndToEnd.thy ===== *)
theory EndToEnd
  imports ServiceProperties ProviderStreams RecordingStreams
begin

section \<open>The record is the stream\<close>

text \<open>
  Engine, token streams and recorder composed: the invariant \<open>synced\<close> relates the streams the provider
  holds to the turns the recorder stored, through every stage of a turn and every interleaving of
  turns, retries, failures, finalizations and deletions.
\<close>

subsection \<open>The invariant\<close>

abbreviation sv_provider :: "server \<Rightarrow> provider" where
  "sv_provider s \<equiv> px_provider (sv_proxy s)"

abbreviation sv_recorder :: "server \<Rightarrow> recorder" where
  "sv_recorder s \<equiv> px_recorder (sv_proxy s)"

definition tn_messages :: "turn \<Rightarrow> pyval" where
  "tn_messages t = dget (tn_body t) ''messages''"

abbreviation recorded_turns :: "turn \<Rightarrow> recorder \<Rightarrow> completion_record list" where
  "recorded_turns t m \<equiv> turns_of (tn_session t) (Some (tn_agent t)) m"

abbreviation failure_of :: "turn \<Rightarrow> recorder \<Rightarrow> failed_turn option" where
  "failure_of t m \<equiv> failed_of (tn_session t) (Some (tn_agent t)) m"

abbreviation asks_on :: "turn \<Rightarrow> bool" where
  "asks_on t \<equiv> has_assistant (message_dicts (tn_messages t))"

text \<open>The reply of a turn that is committed and not recorded yet.\<close>

definition unrecorded_reply :: "stage \<Rightarrow> turn_reply option" where
  "unrecorded_reply g = (case g of
     Running (Generated r) \<Rightarrow> Some r | Running (Parsed r _) \<Rightarrow> Some r | Running (Unrecorded r) \<Rightarrow> Some r | _ \<Rightarrow> None)"

definition stage_pinned :: "env \<Rightarrow> provider \<Rightarrow> turn \<Rightarrow> bool" where
  "stage_pinned env p t \<longleftrightarrow> (\<forall>pn. tn_stage t = Running (AwaitingEngine pn) \<longrightarrow>
     pn_session pn = tn_stream t \<and> pn_messages pn = tn_messages t \<and> pinned_to env p (tn_stream t) (pn_bundle pn) \<and>
     map_of (pv_bundles p) (pn_bundle pn) \<noteq> None)"

definition stage_fits :: "provider \<Rightarrow> recorder \<Rightarrow> turn \<Rightarrow> bool" where
  "stage_fits p m t \<longleftrightarrow>
     (\<forall>pn. tn_stage t = Running (AwaitingEngine pn) \<longrightarrow> failure_of t m = None \<longrightarrow>
        continues (recorded_turns t m) (asks_on t) (pn_prompt pn)) \<and>
     (\<forall>prompt ids rest. unrecorded_reply (tn_stage t) = Some (prompt, ids, rest) \<longrightarrow>
        (failure_of t m = None \<longrightarrow> fits (recorded_turns t m) (asks_on t) prompt ids) \<and>
        (\<forall>k st. held p (tn_stream t) k st \<longrightarrow> ss_stream st = prompt @ ids) \<and>
        (\<exists>ms. normalize_messages (tn_messages t) = Inr ms))"

definition in_sync :: "provider \<Rightarrow> recorder \<Rightarrow> string \<Rightarrow> string \<Rightarrow> bool" where
  "in_sync p m sid aid \<longleftrightarrow> failed_of sid (Some aid) m = None \<longrightarrow>
     (\<forall>k st. held p (stream_id sid aid) k st \<longrightarrow> ss_stream st = stream_after [] (turns_of sid (Some aid) m))"

definition committing :: "string \<Rightarrow> string \<Rightarrow> server \<Rightarrow> bool" where
  "committing sid aid s \<longleftrightarrow> (\<exists>i t. map_of (sv_turns s) i = Some t \<and> tn_session t = sid \<and> tn_agent t = aid \<and>
     unrecorded_reply (tn_stage t) \<noteq> None)"

definition tracked :: "string \<Rightarrow> server \<Rightarrow> bool" where
  "tracked x s \<longleftrightarrow> (\<exists>sid xs. map_of (sv_streams s) sid = Some xs \<and> x \<in> set xs)"

definition streams_held_ok :: "env \<Rightarrow> server \<Rightarrow> bool" where
  "streams_held_ok env s \<longleftrightarrow> live_provider (sv_provider s) \<and>
     (\<forall>x k st. held (sv_provider s) x k st \<longrightarrow> pinned_to env (sv_provider s) x k \<and> tracked x s)"

definition turns_synced :: "env \<Rightarrow> server \<Rightarrow> bool" where
  "turns_synced env s \<longleftrightarrow> (\<forall>i t. map_of (sv_turns s) i = Some t \<longrightarrow>
     stage_pinned env (sv_provider s) t \<and>
     (map_of (sv_deletions s) (tn_session t) = None \<longrightarrow> stage_fits (sv_provider s) (sv_recorder s) t))"

definition sessions_synced :: "server \<Rightarrow> bool" where
  "sessions_synced s \<longleftrightarrow> (\<forall>sid aid. matches_id sid \<longrightarrow> map_of (sv_deletions s) sid = None \<longrightarrow>
     \<not> committing sid aid s \<longrightarrow> in_sync (sv_provider s) (sv_recorder s) sid aid)"

definition synced :: "env \<Rightarrow> server \<Rightarrow> bool" where
  "synced env s \<longleftrightarrow> streams_held_ok env s \<and> failures_ok (sv_recorder s) \<and> turns_synced env s \<and> sessions_synced s"

lemmas synced_defs = streams_held_ok_def turns_synced_def sessions_synced_def

subsection \<open>Steps that leave streams and records alone\<close>

text \<open>A stage with no obligation: the turn has not reached the engine, or is answered.\<close>

definition idle_stage :: "stage \<Rightarrow> bool" where
  "idle_stage g \<longleftrightarrow> (\<forall>pn. g \<noteq> Running (AwaitingEngine pn)) \<and> unrecorded_reply g = None"

definition kept_turn :: "turn \<Rightarrow> turn \<Rightarrow> bool" where
  "kept_turn t u \<longleftrightarrow> tn_session u = tn_session t \<and> tn_agent u = tn_agent t \<and> tn_body u = tn_body t \<and>
     tn_stage u = tn_stage t"

lemma idle_stage_simps [simp]:
  "idle_stage Queued" "idle_stage Starting" "idle_stage (Running (Answered r))"
  by (simp_all add: idle_stage_def unrecorded_reply_def)

lemma idle_pinned: "idle_stage (tn_stage t) \<Longrightarrow> stage_pinned env p t \<and> stage_fits p m t"
  by (simp add: idle_stage_def stage_pinned_def stage_fits_def)

lemma kept_stream: "kept_turn t u \<Longrightarrow> tn_stream u = tn_stream t \<and> tn_messages u = tn_messages t"
  by (simp add: kept_turn_def tn_stream_def tn_messages_def)

lemma stage_pinned_quiet:
  "stage_pinned env p t \<Longrightarrow> quiet p p' \<Longrightarrow> kept_turn t u \<Longrightarrow> stage_pinned env p' u"
  using quiet_pinned by (auto simp: stage_pinned_def kept_stream quiet_def) (auto simp: kept_turn_def)

lemma stage_fits_quiet:
  assumes "stage_fits p m t" and "quiet p p'" and "kept_turn t u"
    and "recorded_turns t m' = recorded_turns t m" and "failure_of t m' = failure_of t m"
  shows "stage_fits p' m' u"
proof -
  have "\<exists>st. held p x k st \<and> ss_stream st' = ss_stream st" if "held p' x k st'" for x k st'
    using assms(2) that by (simp add: quiet_def)
  with assms kept_stream [OF assms(3)] show ?thesis
    unfolding stage_fits_def kept_turn_def by metis
qed

lemma in_sync_quiet:
  "in_sync p m sid aid \<Longrightarrow> quiet p p' \<Longrightarrow> turns_of sid (Some aid) m' = turns_of sid (Some aid) m \<Longrightarrow>
     failed_of sid (Some aid) m' = failed_of sid (Some aid) m \<Longrightarrow> in_sync p' m' sid aid"
  unfolding in_sync_def quiet_def by metis

text \<open>What such a step may do to the state.\<close>

definition turns_kept :: "server \<Rightarrow> server \<Rightarrow> bool" where
  "turns_kept s s' \<longleftrightarrow>
     (\<forall>i u. map_of (sv_turns s') i = Some u \<longrightarrow>
        idle_stage (tn_stage u) \<or> (\<exists>t. map_of (sv_turns s) i = Some t \<and> kept_turn t u)) \<and>
     (\<forall>i t. map_of (sv_turns s) i = Some t \<longrightarrow> unrecorded_reply (tn_stage t) \<noteq> None \<longrightarrow>
        map_of (sv_deletions s') (tn_session t) = None \<longrightarrow> (\<exists>u. map_of (sv_turns s') i = Some u \<and> kept_turn t u))"

definition records_kept :: "server \<Rightarrow> server \<Rightarrow> bool" where
  "records_kept s s' \<longleftrightarrow> (\<forall>sid. map_of (sv_deletions s') sid = None \<longrightarrow> map_of (sv_deletions s) sid = None \<and>
     (\<forall>a. turns_of sid a (sv_recorder s') = turns_of sid a (sv_recorder s) \<and>
          failed_of sid a (sv_recorder s') = failed_of sid a (sv_recorder s)))"

lemma committing_kept:
  "turns_kept s s' \<Longrightarrow> map_of (sv_deletions s') sid = None \<Longrightarrow> committing sid aid s \<Longrightarrow> committing sid aid s'"
  unfolding turns_kept_def committing_def kept_turn_def by metis

lemma synced_kept:
  assumes sync: "synced env s" and q: "quiet (sv_provider s) (sv_provider s')" and live: "live_provider (sv_provider s')"
    and tk: "turns_kept s s'" and rk: "records_kept s s'"
    and tr: "\<And>x. tracked x s \<Longrightarrow> tracked x s'" and f: "failures_ok (sv_recorder s')"
  shows "synced env s'"
  unfolding synced_def
proof (intro conjI)
  show "failures_ok (sv_recorder s')" by (fact f)
  show "streams_held_ok env s'"
    using sync live tr quiet_pinned [OF q] q unfolding synced_def streams_held_ok_def quiet_def by metis
  show "turns_synced env s'"
    unfolding turns_synced_def
  proof (intro allI impI)
    fix i u assume u: "map_of (sv_turns s') i = Some u"
    show "stage_pinned env (sv_provider s') u \<and>
      (map_of (sv_deletions s') (tn_session u) = None \<longrightarrow> stage_fits (sv_provider s') (sv_recorder s') u)"
    proof (cases "idle_stage (tn_stage u)")
      case True
      then show ?thesis using idle_pinned by blast
    next
      case False
      with tk u obtain t where t: "map_of (sv_turns s) i = Some t" "kept_turn t u" unfolding turns_kept_def by blast
      with sync have "stage_pinned env (sv_provider s) t"
        "map_of (sv_deletions s) (tn_session t) = None \<longrightarrow> stage_fits (sv_provider s) (sv_recorder s) t"
        by (simp_all add: synced_def turns_synced_def)
      moreover have "map_of (sv_deletions s) (tn_session t) = None"
        "recorded_turns t (sv_recorder s') = recorded_turns t (sv_recorder s)"
        "failure_of t (sv_recorder s') = failure_of t (sv_recorder s)"
        if "map_of (sv_deletions s') (tn_session u) = None"
        using rk t(2) that by (auto simp: records_kept_def kept_turn_def)
      ultimately show ?thesis
        using stage_pinned_quiet [OF _ q t(2)] stage_fits_quiet [OF _ q t(2)] by metis
    qed
  qed
  show "sessions_synced s'"
    using sync in_sync_quiet [OF _ q] committing_kept [OF tk] rk
    unfolding synced_def sessions_synced_def records_kept_def by metis
qed

subsection \<open>The parts of a turn\<close>

text \<open>A stage reached with an error, or with a reply that is committed.\<close>

lemma turn_flight: "tn_stage t \<noteq> Queued \<Longrightarrow> (\<forall>x. tn_stage t \<noteq> Running (Answered x)) \<Longrightarrow> past_queue t \<and> in_flight t"
  by (auto simp: past_queue_def in_flight_def split: stage.split progress.split)

lemma ok_turn_wf: "server_ok s \<Longrightarrow> map_of (sv_turns s) i = Some t \<Longrightarrow> turn_wf s t"
  by (simp add: server_ok_def turns_ok_def)

text \<open>While a turn is past its lock, no other turn of its stream has anything to record.\<close>

lemma only_committing:
  assumes ok: "server_ok s" and t: "map_of (sv_turns s) i = Some t" "past_queue t" and idle: "unrecorded_reply (tn_stage t) = None"
  shows "\<not> committing (tn_session t) (tn_agent t) s"
proof
  assume "committing (tn_session t) (tn_agent t) s"
  then obtain j u where u: "map_of (sv_turns s) j = Some u" "tn_session u = tn_session t" "tn_agent u = tn_agent t"
    "unrecorded_reply (tn_stage u) \<noteq> None" by (auto simp: committing_def)
  then have "past_queue u" by (auto simp: past_queue_def unrecorded_reply_def)
  moreover have "tn_lock u = tn_lock t"
  proof -
    have "turn_wf s u" "turn_wf s t" using ok_turn_wf [OF ok] t(1) u(1) by blast+
    with u show ?thesis by (simp add: turn_wf_def tn_stream_def)
  qed
  ultimately have "j = i" using ok t u(1) unfolding server_ok_def locks_ok_def by blast
  with t u idle show False by simp
qed

lemma turn_in_sync:
  assumes ok: "server_ok s" and sync: "synced env s" and t: "map_of (sv_turns s) i = Some t" "past_queue t"
    and "unrecorded_reply (tn_stage t) = None" and "map_of (sv_deletions s) (tn_session t) = None"
  shows "in_sync (sv_provider s) (sv_recorder s) (tn_session t) (tn_agent t)"
proof -
  have "matches_id (tn_session t)" using ok t(1) by (simp add: server_ok_def turns_ok_def turn_wf_def)
  with sync only_committing [OF ok t assms(5)] assms(6) show ?thesis by (simp add: synced_def sessions_synced_def)
qed

text \<open>
  One turn goes on: what its handler must establish for the turn itself, and that it leaves the streams
  and records of every other session and agent alone.
\<close>

definition others_kept :: "turn \<Rightarrow> server \<Rightarrow> proxy \<Rightarrow> bool" where
  "others_kept t s px \<longleftrightarrow>
     (\<forall>x v. map_of (pv_models (sv_provider s)) x = Some v \<longrightarrow> map_of (pv_models (px_provider px)) x = Some v) \<and>
     (\<forall>k. map_of (pv_bundles (sv_provider s)) k \<noteq> None \<longrightarrow> map_of (pv_bundles (px_provider px)) k \<noteq> None) \<and>
     (\<forall>x k st'. x \<noteq> tn_stream t \<longrightarrow> held (px_provider px) x k st' \<longrightarrow>
        (\<exists>st. held (sv_provider s) x k st \<and> ss_stream st' = ss_stream st)) \<and>
     (\<forall>sid a. sid \<noteq> tn_session t \<or> a \<noteq> Some (tn_agent t) \<longrightarrow>
        turns_of sid a (px_recorder px) = turns_of sid a (sv_recorder s) \<and>
        failed_of sid a (px_recorder px) = failed_of sid a (sv_recorder s))"

lemma others_kept_quiet:
  "quiet (sv_provider s) (px_provider px) \<Longrightarrow> px_recorder px = sv_recorder s \<Longrightarrow> others_kept t s px"
  by (simp add: others_kept_def quiet_def)

lemma other_stream:
  assumes "server_ok s" and "map_of (sv_turns s) i = Some t" and "map_of (sv_turns s) j = Some u"
    and "tn_session u \<noteq> tn_session t \<or> tn_agent u \<noteq> tn_agent t"
  shows "tn_stream u \<noteq> tn_stream t"
  using assms stream_id_inject by (auto simp: server_ok_def turns_ok_def turn_wf_def tn_stream_def)

lemma stage_pinned_others: "stage_pinned env (sv_provider s) u \<Longrightarrow> others_kept t s px \<Longrightarrow> stage_pinned env (px_provider px) u"
  unfolding stage_pinned_def others_kept_def pinned_to_def by metis

lemma stage_fits_others:
  assumes "stage_fits (sv_provider s) (sv_recorder s) u" and "others_kept t s px"
    and "tn_session u \<noteq> tn_session t \<or> tn_agent u \<noteq> tn_agent t" and "tn_stream u \<noteq> tn_stream t"
  shows "stage_fits (px_provider px) (px_recorder px) u"
proof -
  have rec: "recorded_turns u (px_recorder px) = recorded_turns u (sv_recorder s)"
    "failure_of u (px_recorder px) = failure_of u (sv_recorder s)"
    using assms(2,3) by (simp_all add: others_kept_def)
  have "\<exists>st. held (sv_provider s) (tn_stream u) k st \<and> ss_stream st' = ss_stream st"
    if "held (px_provider px) (tn_stream u) k st'" for k st'
    using assms(2,4) that by (simp add: others_kept_def)
  with assms(1) show ?thesis unfolding stage_fits_def rec by metis
qed

lemma synced_proceed:
  assumes ok: "server_ok s" and sync: "synced env s" and t: "map_of (sv_turns s) i = Some t" "past_queue t"
    and ok': "server_ok (proceed i t (g, px) s)"
    and live: "live_provider (px_provider px)" and others: "others_kept t s px" and f: "failures_ok (px_recorder px)"
    and pins: "\<And>k st'. held (px_provider px) (tn_stream t) k st' \<Longrightarrow> pinned_to env (px_provider px) (tn_stream t) k"
    and own: "stage_pinned env (px_provider px) (t\<lparr>tn_stage := Running g\<rparr>)"
    and fit: "map_of (sv_deletions s) (tn_session t) = None \<Longrightarrow> stage_fits (px_provider px) (px_recorder px) (t\<lparr>tn_stage := Running g\<rparr>)"
    and insync: "map_of (sv_deletions s) (tn_session t) = None \<Longrightarrow> unrecorded_reply (Running g) = None \<Longrightarrow>
      in_sync (px_provider px) (px_recorder px) (tn_session t) (tn_agent t)"
  shows "synced env (proceed i t (g, px) s)"
proof -
  let ?t = "t\<lparr>tn_stage := Running g\<rparr>" and ?s = "proceed i t (g, px) s"
  have flds: "sv_proxy ?s = px" "sv_deletions ?s = sv_deletions s" "sv_streams ?s = sv_streams s"
    and turns: "map_of (sv_turns ?s) j = (if j = i then Some ?t else map_of (sv_turns s) j)" for j
    by (simp_all add: proceed_def)
  have tr: "tracked x ?s = tracked x s" for x by (simp add: tracked_def flds)
  have own_tracked: "tracked (tn_stream t) s"
    using ok_turn_wf [OF ok t(1)] by (auto simp: turn_wf_def tracked_def)
  have alone: "tn_session u \<noteq> tn_session t \<or> tn_agent u \<noteq> tn_agent t"
    if "map_of (sv_turns s) j = Some u" "j \<noteq> i" "past_queue u" for j u
  proof (rule ccontr)
    assume "\<not> ?thesis"
    moreover have "turn_wf s u" "turn_wf s t" using ok_turn_wf [OF ok] t(1) that(1) by blast+
    ultimately have "tn_lock u = tn_lock t" by (simp add: turn_wf_def tn_stream_def)
    then show False using ok t that unfolding server_ok_def locks_ok_def by blast
  qed
  have "streams_held_ok env ?s"
    unfolding streams_held_ok_def flds tr
  proof (intro conjI allI impI)
    show "live_provider (px_provider px)" by (fact live)
    fix x k st' assume h: "held (px_provider px) x k st'"
    have "pinned_to env (px_provider px) x k \<and> tracked x s"
    proof (cases "x = tn_stream t")
      case True
      with h pins own_tracked show ?thesis by blast
    next
      case False
      with others h obtain st where "held (sv_provider s) x k st" unfolding others_kept_def by blast
      with sync have "pinned_to env (sv_provider s) x k" "tracked x s" unfolding synced_def streams_held_ok_def by blast+
      with others show ?thesis unfolding others_kept_def pinned_to_def by blast
    qed
    then show "pinned_to env (px_provider px) x k" "tracked x s" by blast+
  qed
  moreover have "turns_synced env ?s"
    unfolding turns_synced_def flds
  proof (intro allI impI)
    fix j u assume u: "map_of (sv_turns ?s) j = Some u"
    show "stage_pinned env (px_provider px) u \<and>
      (map_of (sv_deletions s) (tn_session u) = None \<longrightarrow> stage_fits (px_provider px) (px_recorder px) u)"
    proof (cases "j = i")
      case True
      with u turns own fit show ?thesis by auto
    next
      case False
      with u have v: "map_of (sv_turns s) j = Some u" by (simp add: turns)
      with sync have "stage_pinned env (sv_provider s) u"
        "map_of (sv_deletions s) (tn_session u) = None \<longrightarrow> stage_fits (sv_provider s) (sv_recorder s) u"
        by (simp_all add: synced_def turns_synced_def)
      show ?thesis
      proof (cases "past_queue u")
        case True
        from alone [OF v False True] have a: "tn_session u \<noteq> tn_session t \<or> tn_agent u \<noteq> tn_agent t" .
        from \<open>stage_pinned env (sv_provider s) u\<close> \<open>_ \<longrightarrow> stage_fits _ _ u\<close> show ?thesis
          using stage_pinned_others [OF _ others] stage_fits_others [OF _ others a other_stream [OF ok t(1) v a]] by blast
      next
        case False
        then have "idle_stage (tn_stage u)" by (simp add: past_queue_def)
        then show ?thesis using idle_pinned by blast
      qed
    qed
  qed
  moreover have "sessions_synced ?s"
    unfolding sessions_synced_def flds
  proof (intro allI impI)
    fix sid aid
    assume id: "matches_id sid" and nd: "map_of (sv_deletions s) sid = None" and nc: "\<not> committing sid aid ?s"
    show "in_sync (px_provider px) (px_recorder px) sid aid"
    proof (cases "sid = tn_session t \<and> aid = tn_agent t")
      case True
      have "committing sid aid ?s" if "unrecorded_reply (Running g) \<noteq> None"
        unfolding committing_def by (intro exI [of _ i] exI [of _ ?t]) (use True that turns in simp)
      with nc have "unrecorded_reply (Running g) = None" by blast
      with True insync nd show ?thesis by simp
    next
      case False
      have "committing sid aid ?s" if "committing sid aid s"
      proof -
        from that obtain j u where u: "map_of (sv_turns s) j = Some u" "tn_session u = sid" "tn_agent u = aid"
          "unrecorded_reply (tn_stage u) \<noteq> None" by (auto simp: committing_def)
        with False t(1) have "j \<noteq> i" by auto
        with u show ?thesis by (auto simp: committing_def turns)
      qed
      with nc sync id nd have "in_sync (sv_provider s) (sv_recorder s) sid aid" by (auto simp: synced_def sessions_synced_def)
      moreover have "stream_id sid aid \<noteq> tn_stream t"
        using False stream_id_inject [OF id] ok t(1) by (auto simp: server_ok_def turns_ok_def turn_wf_def tn_stream_def)
      ultimately show ?thesis
        using others False unfolding in_sync_def others_kept_def by (metis option.sel)
    qed
  qed
  ultimately show ?thesis using f by (simp add: synced_def flds)
qed

lemma synced_pins: "synced env s \<Longrightarrow> held (sv_provider s) x k st \<Longrightarrow> pinned_to env (sv_provider s) x k"
  unfolding synced_def streams_held_ok_def by blast

lemma synced_live: "synced env s \<Longrightarrow> live_provider (sv_provider s)"
  by (simp add: synced_def streams_held_ok_def)

lemma quiet_pins:
  assumes "synced env s" and "quiet (sv_provider s) p'" and "held p' x k st'"
  shows "pinned_to env p' x k"
proof -
  from assms(2,3) obtain st where "held (sv_provider s) x k st" unfolding quiet_def by blast
  from quiet_pinned [OF assms(2) synced_pins [OF assms(1) this]] show ?thesis .
qed

lemma request_messages [simp]: "rq_messages (request_of model body prior) = dget body ''messages''"
  by (simp add: request_of_def)

lemma synced_start:
  assumes ok: "server_ok s" and sync: "synced env s" and t: "map_of (sv_turns s) i = Some t" and stage: "tn_stage t = Starting"
    and h: "handler_start env (tn_session t) (tn_agent t) (tn_stream t) (tn_model t) (tn_body t) (sv_proxy s) = (g, px)"
    and ok': "server_ok (proceed i t (g, px) s)"
  shows "synced env (proceed i t (g, px) s)"
proof -
  define rq where "rq = request_of (tn_model t) (tn_body t)
    (experts_prior (tn_session t) (tn_agent t) (tn_body t) (sv_recorder s))"
  have rq: "rq_messages rq = tn_messages t" by (simp add: rq_def tn_messages_def)
  obtain r p' where r: "generate_start env (Some (tn_stream t)) rq (sv_provider s) = (r, p')" by fastforce
  have g: "g = answer r (\<lambda>s. case s of Served reply \<Rightarrow> Generated reply | Calling pn \<Rightarrow> AwaitingEngine pn)"
    and px: "px = (sv_proxy s)\<lparr>px_provider := p'\<rparr>"
    using h by (simp_all add: handler_start_def rq_def [symmetric] r Let_def)
  note live = synced_live [OF sync]
  have q: "quiet (sv_provider s) p'" using quiet_start [OF live, of env "Some (tn_stream t)" rq] by (simp add: r)
  have past: "past_queue t" and idle: "unrecorded_reply (tn_stage t) = None"
    by (simp_all add: stage past_queue_def unrecorded_reply_def)
  have insync: "in_sync (sv_provider s) (sv_recorder s) (tn_session t) (tn_agent t)"
    if "map_of (sv_deletions s) (tn_session t) = None"
    using turn_in_sync [OF ok sync t past idle that] .
  have tokens: "ss_stream st = stream_after [] (recorded_turns t (sv_recorder s))"
    if "map_of (sv_deletions s) (tn_session t) = None" "failure_of t (sv_recorder s) = None" "held (sv_provider s) (tn_stream t) k st" for k st
    using insync that by (simp add: in_sync_def tn_stream_def)
  show ?thesis
  proof (rule synced_proceed [OF ok sync t past ok'])
    show "live_provider (px_provider px)" using live.keeps_start [OF live, of env "Some (tn_stream t)" rq] by (simp add: r px)
    show "others_kept t s px" by (rule others_kept_quiet) (simp_all add: px q)
    show "failures_ok (px_recorder px)" using sync by (simp add: px synced_def)
    show "pinned_to env (px_provider px) (tn_stream t) k" if "held (px_provider px) (tn_stream t) k st'" for k st'
      using quiet_pins [OF sync q] that by (simp add: px)
    show "in_sync (px_provider px) (px_recorder px) (tn_session t) (tn_agent t)" if "map_of (sv_deletions s) (tn_session t) = None"
      using in_sync_quiet [OF insync q] that by (simp add: px)
    show "stage_pinned env (px_provider px) (t\<lparr>tn_stage := Running g\<rparr>)"
      unfolding stage_pinned_def
    proof (intro allI impI)
      fix pn assume "tn_stage (t\<lparr>tn_stage := Running g\<rparr>) = Running (AwaitingEngine pn)"
      then have c: "generate_start env (Some (tn_stream t)) rq (sv_provider s) = (Inr (Calling pn), p')"
        by (auto simp: g r answer_def split: sum.splits started.splits)
      show "pn_session pn = tn_stream (t\<lparr>tn_stage := Running g\<rparr>) \<and> pn_messages pn = tn_messages (t\<lparr>tn_stage := Running g\<rparr>) \<and>
        pinned_to env (px_provider px) (tn_stream (t\<lparr>tn_stage := Running g\<rparr>)) (pn_bundle pn) \<and>
        map_of (pv_bundles (px_provider px)) (pn_bundle pn) \<noteq> None"
        by (rule start_Calling_stream [OF live c]) (simp add: px rq tn_stream_def tn_messages_def)
    qed
    assume nd: "map_of (sv_deletions s) (tn_session t) = None"
    show "stage_fits (px_provider px) (px_recorder px) (t\<lparr>tn_stage := Running g\<rparr>)"
      unfolding stage_fits_def
    proof (intro conjI allI impI)
      fix pn assume "tn_stage (t\<lparr>tn_stage := Running g\<rparr>) = Running (AwaitingEngine pn)"
        and nf: "failure_of (t\<lparr>tn_stage := Running g\<rparr>) (px_recorder px) = None"
      then have c: "generate_start env (Some (tn_stream t)) rq (sv_provider s) = (Inr (Calling pn), p')"
        by (auto simp: g r answer_def split: sum.splits started.splits)
      from start_Calling_stream [OF live c] obtain ms where ms: "normalize_messages (tn_messages t) = Inr ms"
        "first_assistant ms \<noteq> None \<longrightarrow> (\<exists>st. held (sv_provider s) (tn_stream t) (pn_bundle pn) st \<and> prefix (ss_stream st) (pn_prompt pn))"
        by (metis rq)
      have "prefix (stream_after [] (recorded_turns t (sv_recorder s))) (pn_prompt pn)" if "asks_on t"
      proof -
        from that normalize_message_dicts(2) [OF ms(1)] have "first_assistant ms \<noteq> None" by (simp add: first_assistant_iff del: not_None_eq)
        with ms(2) obtain st where st: "held (sv_provider s) (tn_stream t) (pn_bundle pn) st" "prefix (ss_stream st) (pn_prompt pn)"
          by blast
        from tokens [OF nd _ st(1)] nf st(2) show ?thesis by (simp add: px)
      qed
      then show "continues (recorded_turns (t\<lparr>tn_stage := Running g\<rparr>) (px_recorder px)) (asks_on (t\<lparr>tn_stage := Running g\<rparr>)) (pn_prompt pn)"
        by (auto simp: continues_def px tn_messages_def)
    next
      fix prompt ids rest assume u: "unrecorded_reply (tn_stage (t\<lparr>tn_stage := Running g\<rparr>)) = Some (prompt, ids, rest)"
      then have c: "generate_start env (Some (tn_stream t)) rq (sv_provider s) = (Inr (Served (prompt, ids, rest)), p')"
        by (auto simp: g r answer_def unrecorded_reply_def split: sum.splits started.splits)
      obtain k st ms where k: "pinned_to env p' (tn_stream t) k" "held (sv_provider s) (tn_stream t) k st" "ss_stream st = prompt @ ids"
        and ms: "normalize_messages (tn_messages t) = Inr ms"
        using start_Served_stream [OF c live] by (metis rq)
      from ms show "\<exists>ms. normalize_messages (tn_messages (t\<lparr>tn_stage := Running g\<rparr>)) = Inr ms" by (simp add: tn_messages_def)
      show "fits (recorded_turns (t\<lparr>tn_stage := Running g\<rparr>) (px_recorder px)) (asks_on (t\<lparr>tn_stage := Running g\<rparr>)) prompt ids"
        if "failure_of (t\<lparr>tn_stage := Running g\<rparr>) (px_recorder px) = None"
        using tokens [OF nd _ k(2)] k(3) that by (simp add: fits_def px)
      fix k' st' assume "held (px_provider px) (tn_stream (t\<lparr>tn_stage := Running g\<rparr>)) k' st'"
      then have h: "held p' (tn_stream t) k' st'" by (simp add: px tn_stream_def)
      from pinned_to_unique [OF quiet_pins [OF sync q h] k(1)] have "k' = k" .
      with h q obtain st0 where "held (sv_provider s) (tn_stream t) k st0" "ss_stream st' = ss_stream st0"
        unfolding quiet_def by blast
      with held_unique [OF k(2)] have "ss_stream st' = ss_stream st" by simp
      with k(3) show "ss_stream st' = prompt @ ids" by simp
    qed
  qed
qed

lemma running_past [simp]: "tn_stage t = Running g \<Longrightarrow> past_queue t"
  by (simp add: past_queue_def)

lemma turn_update_simps [simp]:
  "tn_stream (t\<lparr>tn_stage := g\<rparr>) = tn_stream t" "tn_messages (t\<lparr>tn_stage := g\<rparr>) = tn_messages t"
  by (simp_all add: tn_stream_def tn_messages_def)

lemma not_awaiting_pinned:
  "(\<forall>pn. g \<noteq> AwaitingEngine pn) \<Longrightarrow> stage_pinned env p (t\<lparr>tn_stage := Running g\<rparr>)"
  by (simp add: stage_pinned_def)

lemma stage_fitsD:
  assumes "stage_fits p m t" and "unrecorded_reply (tn_stage t) = Some (prompt, ids, rest)"
  shows "failure_of t m = None \<Longrightarrow> fits (recorded_turns t m) (asks_on t) prompt ids"
    and "held p (tn_stream t) k st \<Longrightarrow> ss_stream st = prompt @ ids"
    and "\<exists>ms. normalize_messages (tn_messages t) = Inr ms"
  using assms unfolding stage_fits_def by blast+

lemma stage_fits_answered [simp]: "stage_fits p m (t\<lparr>tn_stage := Running (Answered r)\<rparr>)"
  by (simp add: stage_fits_def unrecorded_reply_def)

lemma synced_engine:
  assumes ok: "server_ok s" and sync: "synced env s" and t: "map_of (sv_turns s) i = Some t"
    and stage: "tn_stage t = Running (AwaitingEngine pn)"
    and h: "handler_generated env pn oc (sv_proxy s) = (g, px)" and ok': "server_ok (proceed i t (g, px) s)"
  shows "synced env (proceed i t (g, px) s)"
proof -
  let ?p = "sv_provider s"
  obtain r p' where r: "generate_finish env pn oc ?p = (r, p')" by fastforce
  have g: "g = answer r Generated" and px: "px = (sv_proxy s)\<lparr>px_provider := p'\<rparr>"
    using h by (simp_all add: handler_generated_def r)
  note live = synced_live [OF sync]
  have past: "past_queue t" and idle: "unrecorded_reply (tn_stage t) = None"
    using stage by (simp_all add: unrecorded_reply_def)
  from sync t stage have pn: "pn_session pn = tn_stream t" "pn_messages pn = tn_messages t"
    "pinned_to env ?p (tn_stream t) (pn_bundle pn)" "map_of (pv_bundles ?p) (pn_bundle pn) \<noteq> None"
    by (simp_all add: synced_def turns_synced_def stage_pinned_def)
  then have pin: "map_of (pv_models ?p) (pn_session pn) \<noteq> None" by (auto simp: pinned_to_def)
  have live': "live_provider p'"
    using live.keeps_finish [OF step_commit live, of env pn oc] by (simp add: r)
  show ?thesis
  proof (cases r)
    case (Inl e)
    note fin = finish_failed [OF r [unfolded Inl]]
    have held: "held p' = held ?p" by (rule held_bundles [OF fin(2)])
    then have q: "quiet ?p p'" by (auto simp: quiet_def fin)
    show ?thesis
    proof (rule synced_proceed [OF ok sync t past ok'])
      show "others_kept t s px" by (rule others_kept_quiet) (simp_all add: px q)
      show "failures_ok (px_recorder px)" using sync by (simp add: px synced_def)
      show "pinned_to env (px_provider px) (tn_stream t) k" if "held (px_provider px) (tn_stream t) k st'" for k st'
        using quiet_pins [OF sync q] that by (simp add: px)
      show "in_sync (px_provider px) (px_recorder px) (tn_session t) (tn_agent t)" if "map_of (sv_deletions s) (tn_session t) = None"
        using in_sync_quiet [OF turn_in_sync [OF ok sync t past idle that] q] by (simp add: px)
    qed (simp_all add: live' px g Inl answer_def not_awaiting_pinned)
  next
    case (Inr reply)
    obtain prompt ids rest where reply: "reply = (prompt, ids, rest)" by (cases reply) auto
    note fin = finish_committed [OF live r [unfolded Inr reply] pn(4) pin]
    have held: "if x = tn_stream t \<and> k = pn_bundle pn then ss_stream st' = prompt @ ids else held ?p x k st'"
      if "held p' x k st'" for x k st'
      using fin(5) [OF that] by (simp add: pn(1))
    have pinned: "pinned_to env p' x k = pinned_to env ?p x k" for x k by (simp add: pinned_to_def fin(2))
    have own: "k = pn_bundle pn \<and> ss_stream st' = prompt @ ids" if "held p' (tn_stream t) k st'" for k st'
    proof (cases "k = pn_bundle pn")
      case True
      with held [OF that] show ?thesis by simp
    next
      case False
      with held [OF that] have "held ?p (tn_stream t) k st'" by simp
      from pinned_to_unique [OF synced_pins [OF sync this] pn(3)] False show ?thesis by simp
    qed
    have others: "held ?p x k st'" if "held p' x k st'" "x \<noteq> tn_stream t" for x k st'
      using held [OF that(1)] that(2) by simp
    show ?thesis
    proof (rule synced_proceed [OF ok sync t past ok'])
      show "others_kept t s px"
        unfolding others_kept_def px using fin(2,3) others by simp blast
      show "failures_ok (px_recorder px)" using sync by (simp add: px synced_def)
      show "pinned_to env (px_provider px) (tn_stream t) k" if "held (px_provider px) (tn_stream t) k st'" for k st'
        using own that pn(3) by (simp add: px pinned)
      assume nd: "map_of (sv_deletions s) (tn_session t) = None"
      with sync t have "stage_fits ?p (sv_recorder s) t" by (simp add: synced_def turns_synced_def)
      with stage have "failure_of t (sv_recorder s) = None \<longrightarrow> continues (recorded_turns t (sv_recorder s)) (asks_on t) prompt"
        by (simp add: stage_fits_def fin(1))
      then show "stage_fits (px_provider px) (px_recorder px) (t\<lparr>tn_stage := Running g\<rparr>)"
        using own fin(4) pn(2)
        by (simp add: stage_fits_def px g Inr answer_def unrecorded_reply_def reply fits_def)
    qed (simp_all add: live' px g Inr answer_def not_awaiting_pinned unrecorded_reply_def)
  qed
qed

text \<open>A step that only changes the stage of a turn with a reply to record.\<close>

lemma stage_fits_reply:
  assumes "stage_fits p m t" and "unrecorded_reply (tn_stage t) = Some r" and "unrecorded_reply g = Some r"
    and "quiet p p'" and "recorded_turns t m' = recorded_turns t m" and "failure_of t m' = failure_of t m"
    and "\<forall>pn. g \<noteq> Running (AwaitingEngine pn)"
  shows "stage_fits p' m' (t\<lparr>tn_stage := g\<rparr>)"
proof -
  have "\<exists>st. held p x k st \<and> ss_stream st' = ss_stream st" if "held p' x k st'" for x k st'
    using assms(4) that by (simp add: quiet_def)
  moreover obtain prompt ids rest where r: "r = (prompt, ids, rest)" by (cases r) auto
  ultimately show ?thesis
    using assms(1-3,5-7) by (simp add: stage_fits_def) metis
qed

lemma synced_parse:
  assumes ok: "server_ok s" and sync: "synced env s" and t: "map_of (sv_turns s) i = Some t"
    and stage: "tn_stage t = Running (Generated r)"
    and h: "handler_parsed env fresh (tn_stream t) (tn_body t) r (sv_proxy s) = (g, px)"
    and ok': "server_ok (proceed i t (g, px) s)"
  shows "synced env (proceed i t (g, px) s)"
proof -
  obtain prompt ids lps reason body meta where reply: "r = (prompt, ids, lps, reason, body, meta)" by (cases r) auto
  obtain q p' where q: "parse_completion env fresh (Some (tn_stream t)) ids body reason (dget (tn_body t) ''tools'') (sv_provider s) = (q, p')"
    by fastforce
  have g: "g = (case q of Inl _ \<Rightarrow> Unrecorded r | Inr parsed \<Rightarrow> Parsed r parsed)" and px: "px = (sv_proxy s)\<lparr>px_provider := p'\<rparr>"
    using h unfolding handler_parsed_def reply prod.case by (simp_all add: q)
  note live = synced_live [OF sync]
  have quiet: "quiet (sv_provider s) p'"
    using quiet_parse [OF live, of env fresh "Some (tn_stream t)" ids body reason "dget (tn_body t) ''tools''"] by (simp add: q)
  have reply: "unrecorded_reply (tn_stage t) = Some r" "unrecorded_reply (Running g) = Some r" "\<forall>pn. g \<noteq> AwaitingEngine pn"
    by (auto simp: stage g unrecorded_reply_def split: sum.split)
  show ?thesis
  proof (rule synced_proceed [OF ok sync t _ ok'])
    show "past_queue t" using stage by simp
    show "live_provider (px_provider px)"
      using live.keeps_parse [OF live, of env fresh "Some (tn_stream t)" ids body reason "dget (tn_body t) ''tools''"] by (simp add: q px)
    show "others_kept t s px" by (rule others_kept_quiet) (simp_all add: px quiet)
    show "failures_ok (px_recorder px)" using sync by (simp add: px synced_def)
    show "pinned_to env (px_provider px) (tn_stream t) k" if "held (px_provider px) (tn_stream t) k st'" for k st'
      using quiet_pins [OF sync quiet] that by (simp add: px)
    assume nd: "map_of (sv_deletions s) (tn_session t) = None"
    with sync t have "stage_fits (sv_provider s) (sv_recorder s) t" by (simp add: synced_def turns_synced_def)
    from stage_fits_reply [OF this reply(1,2)] quiet reply(3)
    show "stage_fits (px_provider px) (px_recorder px) (t\<lparr>tn_stage := Running g\<rparr>)" by (simp add: px)
  qed (simp_all add: reply not_awaiting_pinned)
qed

lemma not_tombstoned:
  assumes "server_ok s" and "map_of (sv_turns s) i = Some t" and "map_of (sv_deletions s) (tn_session t) = None"
  shows "\<not> tombstoned (sv_clock s) (tn_session t) (sv_recorder s)"
proof -
  have "cancel_ok s i t" using assms(1,2) by (simp add: server_ok_def deletions_ok_def)
  with assms(3) show ?thesis by (simp add: cancel_ok_def session_deleted_def is_deleted_def)
qed

lemma deleted_tombstoned:
  assumes "server_ok s" and "map_of (sv_deletions s) (tn_session t) = Some d"
  shows "tombstoned (sv_clock s) (tn_session t) (sv_recorder s)"
  using assms by (auto simp: server_ok_def deletions_ok_def tombstones_last_iff session_deleted_def is_deleted_def)

lemma delivery_fields [simp]:
  "dl_session_id (delivery_of sid aid body (prompt, ids, rest) parsed) = sid"
  "dl_agent_id (delivery_of sid aid body (prompt, ids, rest) parsed) = Some aid"
  "dl_messages (delivery_of sid aid body (prompt, ids, rest) parsed) = message_dicts (dget body ''messages'')"
  "dl_prompt_token_ids (delivery_of sid aid body (prompt, ids, rest) parsed) = prompt"
  "dl_token_ids (delivery_of sid aid body (prompt, ids, rest) parsed) = ids"
  by (simp_all add: delivery_of_def split_beta)

lemma others_kept_recorder:
  assumes "px_provider px = sv_provider s"
    and "\<forall>sid a. sid \<noteq> tn_session t \<or> a \<noteq> Some (tn_agent t) \<longrightarrow>
        turns_of sid a (px_recorder px) = turns_of sid a (sv_recorder s) \<and>
        failed_of sid a (px_recorder px) = failed_of sid a (sv_recorder s)"
  shows "others_kept t s px"
  unfolding others_kept_def assms(1) using assms(2) by blast

lemma synced_record:
  assumes ok: "server_ok s" and sync: "synced env s" and t: "map_of (sv_turns s) i = Some t"
    and stage: "tn_stage t = Running (Parsed r parsed)"
    and h: "handler_recorded (sv_clock s) wall ident created (tn_session t) (tn_agent t) (tn_model t) (tn_body t) r parsed (sv_proxy s) = (g, px)"
    and ok': "server_ok (proceed i t (g, px) s)"
  shows "synced env (proceed i t (g, px) s)"
proof -
  obtain prompt ids rest where reply: "r = (prompt, ids, rest)" by (cases r) auto
  let ?d = "delivery_of (tn_session t) (tn_agent t) (tn_body t) r parsed"
  obtain q m' where q: "record_completion (sv_clock s) wall ?d (sv_recorder s) = (q, m')" by fastforce
  have g: "g = (case q of Inl _ \<Rightarrow> Unrecorded r | Inr _ \<Rightarrow> Answered (turn_response ident created (tn_model t) (tn_body t) r parsed))"
    and px: "px = (sv_proxy s)\<lparr>px_recorder := m'\<rparr>"
    using h by (simp_all add: handler_recorded_def q)
  have past: "past_queue t" using stage by simp
  note live = synced_live [OF sync]
  have ok_m: "failures_ok (sv_recorder s)" using sync by (simp add: synced_def)
  have u: "unrecorded_reply (tn_stage t) = Some (prompt, ids, rest)" by (simp add: stage unrecorded_reply_def reply)
  show ?thesis
  proof (cases "map_of (sv_deletions s) (tn_session t)")
    case (Some d)
    have m': "m' = sv_recorder s" "q = Inr None"
      using q tombstoned_silent(1) [where d = ?d and now = "sv_clock s" and wall = wall and m = "sv_recorder s"]
        deleted_tombstoned [OF ok Some] by (auto simp: reply)
    show ?thesis
    proof (rule synced_proceed [OF ok sync t past ok'])
      show "others_kept t s px" by (rule others_kept_recorder) (simp_all add: px m')
      show "pinned_to env (px_provider px) (tn_stream t) k" if "held (px_provider px) (tn_stream t) k st'" for k st'
        using synced_pins [OF sync] that by (simp add: px)
    qed (use live ok_m Some in \<open>simp_all add: px m' g not_awaiting_pinned\<close>)
  next
    case None
    have nt: "\<not> tombstoned (sv_clock s) (dl_session_id ?d) (sv_recorder s)"
      using not_tombstoned [OF ok t None] by (simp add: reply)
    have sf: "stage_fits (sv_provider s) (sv_recorder s) t" using sync t None by (simp add: synced_def turns_synced_def)
    show ?thesis
    proof (cases q)
      case (Inl e)
      note same = record_completion_Inl [OF q [unfolded Inl] nt]
      show ?thesis
      proof (rule synced_proceed [OF ok sync t past ok'])
        show "others_kept t s px" by (rule others_kept_recorder) (simp_all add: px same)
        show "pinned_to env (px_provider px) (tn_stream t) k" if "held (px_provider px) (tn_stream t) k st'" for k st'
          using synced_pins [OF sync] that by (simp add: px)
        show "failures_ok (px_recorder px)" using failures_ok_cong [OF _ ok_m] same by (simp add: px)
        show "stage_fits (px_provider px) (px_recorder px) (t\<lparr>tn_stage := Running g\<rparr>)"
          by (rule stage_fits_reply [OF sf u]) (simp_all add: px same g Inl reply unrecorded_reply_def)
      qed (use live in \<open>simp_all add: px g Inl not_awaiting_pinned unrecorded_reply_def\<close>)
    next
      case (Inr f)
      have fit: "fits (turns_of (dl_session_id ?d) (dl_agent_id ?d) (sv_recorder s)) (has_assistant (dl_messages ?d))
          (dl_prompt_token_ids ?d) (dl_token_ids ?d)"
        if "failed_of (dl_session_id ?d) (dl_agent_id ?d) (sv_recorder s) = None"
        using stage_fitsD(1) [OF sf u] that by (simp add: reply tn_messages_def)
      note rc = record_completion_synced [OF ok_m nt q [unfolded Inr] fit]
      show ?thesis
      proof (rule synced_proceed [OF ok sync t past ok'])
        show "others_kept t s px"
          by (rule others_kept_recorder) (use rc(3) in \<open>simp_all add: px reply\<close>)
        show "pinned_to env (px_provider px) (tn_stream t) k" if "held (px_provider px) (tn_stream t) k st'" for k st'
          using synced_pins [OF sync] that by (simp add: px)
        show "failures_ok (px_recorder px)" using rc(1) by (simp add: px)
        show "in_sync (px_provider px) (px_recorder px) (tn_session t) (tn_agent t)"
          using rc(2) stage_fitsD(2) [OF sf u] by (simp add: in_sync_def px reply tn_stream_def)
      qed (use live in \<open>simp_all add: px g Inr not_awaiting_pinned unrecorded_reply_def\<close>)
    qed
  qed
qed

lemma synced_mark:
  assumes ok: "server_ok s" and sync: "synced env s" and t: "map_of (sv_turns s) i = Some t"
    and stage: "tn_stage t = Running (Unrecorded r)"
    and h: "handler_failed (sv_clock s) (tn_session t) (tn_agent t) (tn_body t) r (sv_proxy s) = (g, px)"
    and ok': "server_ok (proceed i t (g, px) s)"
  shows "synced env (proceed i t (g, px) s)"
proof -
  obtain prompt ids rest where reply: "r = (prompt, ids, rest)" by (cases r) auto
  obtain q m' where q: "mark_recording_failed (sv_clock s) (tn_session t) (Some (tn_agent t)) (message_dicts (tn_messages t)) prompt ids (sv_recorder s) = (q, m')"
    by fastforce
  have g: "g = Answered (ErrorResponse 500)" and px: "px = (sv_proxy s)\<lparr>px_recorder := m'\<rparr>"
    using h by (simp_all add: handler_failed_def reply q [unfolded tn_messages_def])
  have past: "past_queue t" using stage by simp
  note live = synced_live [OF sync]
  have ok_m: "failures_ok (sv_recorder s)" using sync by (simp add: synced_def)
  have u: "unrecorded_reply (tn_stage t) = Some (prompt, ids, rest)" by (simp add: stage unrecorded_reply_def reply)
  show ?thesis
  proof (cases "map_of (sv_deletions s) (tn_session t)")
    case (Some d)
    have m': "m' = sv_recorder s"
      using q tombstoned_silent(2) deleted_tombstoned [OF ok Some] by simp
    show ?thesis
    proof (rule synced_proceed [OF ok sync t past ok'])
      show "others_kept t s px" by (rule others_kept_recorder) (simp_all add: px m')
      show "pinned_to env (px_provider px) (tn_stream t) k" if "held (px_provider px) (tn_stream t) k st'" for k st'
        using synced_pins [OF sync] that by (simp add: px)
    qed (use live ok_m Some in \<open>simp_all add: px m' g not_awaiting_pinned\<close>)
  next
    case None
    note nt = not_tombstoned [OF ok t None]
    have sf: "stage_fits (sv_provider s) (sv_recorder s) t" using sync t None by (simp add: synced_def turns_synced_def)
    from stage_fitsD(3) [OF sf u] obtain ms where "normalize_messages (tn_messages t) = Inr ms" by blast
    note ns = normalize_message_dicts(1) [OF this]
    note eff = mark_recording_failed_effect [OF nt ns q]
    have fit: "fits (recorded_turns t (sv_recorder s)) (asks_on t) prompt ids" if "failure_of t (sv_recorder s) = None"
      using stage_fitsD(1) [OF sf u that] .
    show ?thesis
    proof (rule synced_proceed [OF ok sync t past ok'])
      show "others_kept t s px" by (rule others_kept_recorder) (use eff in \<open>auto simp: px\<close>)
      show "pinned_to env (px_provider px) (tn_stream t) k" if "held (px_provider px) (tn_stream t) k st'" for k st'
        using synced_pins [OF sync] that by (simp add: px)
      show "failures_ok (px_recorder px)" using mark_recording_failed_synced [OF ok_m nt ns q fit] by (simp add: px)
      show "in_sync (px_provider px) (px_recorder px) (tn_session t) (tn_agent t)"
        by (simp add: in_sync_def px eff)
    qed (use live in \<open>simp_all add: px g not_awaiting_pinned\<close>)
  qed
qed

end
