(* ===== verification/EndToEndProperties.thy ===== *)
theory EndToEndProperties
  imports EndToEnd TrainingProperties
begin

section \<open>The record is the stream: every run\<close>

text \<open>
  Every event of the service keeps \<open>synced\<close>, so in every reachable state the streams the provider holds
  are the streams that the recorded turns add up to.
\<close>

subsection \<open>Events that leave streams and records alone\<close>

lemma turns_of_local:
  "recorder_local sid m m' \<Longrightarrow> k \<noteq> sid \<Longrightarrow> turns_of k a m' = turns_of k a m \<and> failed_of k a m' = failed_of k a m"
  by (simp add: recorder_local_def turns_of_def failed_of_def)

lemma turns_of_ensure [simp]:
  "turns_of k a (ensure_session now wall sid model m) = turns_of k a m"
  "failed_of k a (ensure_session now wall sid model m) = failed_of k a m"
  by (auto simp: ensure_session_def turns_of_def failed_of_def put_session_def update_conv' agent_turns_def
      new_session_def split: option.split)

lemma turns_of_finalize [simp]:
  "turns_of k a (snd (Recorder.finalize_session sid m)) = turns_of k a m"
  "failed_of k a (snd (Recorder.finalize_session sid m)) = failed_of k a m"
  by (auto simp: Recorder.finalize_session_def turns_of_def failed_of_def put_session_def update_conv' agent_turns_def
      snapshot_def Let_def split_beta split: option.split)

lemma turns_of_delete:
  "k \<noteq> sid \<Longrightarrow> turns_of k a (Recorder.delete_session now sid m) = turns_of k a m"
  "failed_of k a (Recorder.delete_session now sid m) = (if k = sid then None else failed_of k a m)"
  by (simp_all add: Recorder.delete_session_def turns_of_def failed_of_def)

lemma kept_turn_simps [simp]:
  "kept_turn t t" "kept_turn t (t\<lparr>tn_attached := a\<rparr>)" "kept_turn t (t\<lparr>tn_cancelled := a\<rparr>)"
  by (simp_all add: kept_turn_def)

lemma turns_kept_same: "sv_turns s' = sv_turns s \<Longrightarrow> turns_kept s s'"
  unfolding turns_kept_def using kept_turn_simps(1) by metis

lemma records_kept_same: "sv_deletions s' = sv_deletions s \<Longrightarrow> sv_recorder s' = sv_recorder s \<Longrightarrow> records_kept s s'"
  by (simp add: records_kept_def)

lemma turns_kept_put:
  assumes "map_of (sv_turns s) i = Some t" and "kept_turn t u \<or> idle_stage (tn_stage u) \<and> unrecorded_reply (tn_stage t) = None"
    and "map_of (sv_turns s') = (map_of (sv_turns s))(i \<mapsto> u)"
  shows "turns_kept s s'"
  unfolding turns_kept_def assms(3) using assms(1,2) kept_turn_simps(1)
  by (metis fun_upd_apply option.inject)

lemma turns_kept_drop:
  assumes "map_of (sv_turns s) i = Some t" and "unrecorded_reply (tn_stage t) = None \<or> map_of (sv_deletions s') (tn_session t) \<noteq> None"
    and "map_of (sv_turns s') = (map_of (sv_turns s))(i := None)"
  shows "turns_kept s s'"
  unfolding turns_kept_def assms(3) using assms(1,2) kept_turn_simps(1)
  by (metis fun_upd_apply option.inject option.distinct(1))

text \<open>The frame rule for an event that changes none of the provider, the record or the tracked streams.\<close>

lemma synced_frame:
  assumes "synced env s" and "turns_kept s s'" and "sv_proxy s' = sv_proxy s" and "sv_deletions s' = sv_deletions s"
    and "sv_streams s' = sv_streams s"
  shows "synced env s'"
  by (rule synced_kept [OF assms(1) _ _ assms(2) records_kept_same])
    (use assms synced_live in \<open>auto simp: tracked_def synced_def\<close>)

lemma synced_acquire:
  assumes "synced env s" and "map_of (sv_turns s) i = Some t" and "acquire i t s = Some s'"
  shows "synced env s'"
proof -
  have s': "s' = put_turn i (t\<lparr>tn_stage := Starting\<rparr>) (s\<lparr>sv_held := tn_lock t # sv_held s\<rparr>)" and q: "tn_stage t = Queued"
    using assms(3) by (auto simp: acquire_def split: stage.splits if_splits)
  show ?thesis
  proof (rule synced_frame [OF assms(1)])
    show "turns_kept s s'"
      by (rule turns_kept_put [OF assms(2), where u = "t\<lparr>tn_stage := Starting\<rparr>"])
        (auto simp: q unrecorded_reply_def s')
  qed (simp_all add: s')
qed

lemma synced_give_up:
  assumes "synced env s" and "map_of (sv_turns s) i = Some t" and "give_up i t s = Some s'"
  shows "synced env s'"
proof -
  consider "tn_stage t = Queued" "s' = drop_turn i s" | "s' = put_turn i (t\<lparr>tn_attached := False\<rparr>) s"
    using assms(3) by (auto simp: give_up_def split: stage.splits if_splits)
  then show ?thesis
  proof cases
    case 1
    then have "turns_kept s s'"
      by (intro turns_kept_drop [OF assms(2)]) (auto simp: unrecorded_reply_def)
    from synced_frame [OF assms(1) this] 1 show ?thesis by simp
  next
    case 2
    then have "turns_kept s s'"
      by (intro turns_kept_put [OF assms(2), where u = "t\<lparr>tn_attached := False\<rparr>"]) auto
    from synced_frame [OF assms(1) this] 2 show ?thesis by simp
  qed
qed

lemma synced_finish:
  assumes "synced env s" and "map_of (sv_turns s) i = Some t" and "finish_turn i t s = Some s'"
  shows "synced env s'"
proof -
  have s': "s' = unlock (tn_lock t) (drop_turn i s)" and "unrecorded_reply (tn_stage t) = None"
    using assms(3) by (auto simp: finish_turn_def unrecorded_reply_def split: stage.splits progress.splits)
  then have "turns_kept s s'" by (intro turns_kept_drop [OF assms(2)]) auto
  from synced_frame [OF assms(1) this] s' show ?thesis by simp
qed

lemma quiet_release_lock [simp]: "quiet p (release_lock l p)" "live_provider (release_lock l p) = live_provider p"
  unfolding quiet_def held_def release_lock_def sat_def by auto

lemma tracked_cong: "sv_streams s' = sv_streams s \<Longrightarrow> tracked x s' \<longleftrightarrow> tracked x s"
  by (simp add: tracked_def)

lemma synced_unwind:
  assumes ok: "server_ok s" and sync: "synced env s" and t: "map_of (sv_turns s) i = Some t" and "tn_cancelled t"
  shows "synced env (unwind_turn i t s)"
proof -
  let ?s = "unwind_turn i t s"
  have "cancel_ok s i t" using ok t by (simp add: server_ok_def deletions_ok_def)
  with assms(4) have del: "map_of (sv_deletions s) (tn_session t) \<noteq> None" by (auto simp: cancel_ok_def)
  have "map_of (sv_turns ?s) = (map_of (sv_turns s))(i := None)"
    and same: "sv_deletions ?s = sv_deletions s" "sv_streams ?s = sv_streams s" "sv_recorder ?s = sv_recorder s"
    and p: "sv_provider ?s = sv_provider s \<or> (\<exists>l. sv_provider ?s = release_lock l (sv_provider s))"
    by (auto simp: unwind_turn_def Let_def split: stage.split progress.split)
  then have tk: "turns_kept s ?s" using del by (intro turns_kept_drop [OF t]) auto
  show ?thesis
    by (rule synced_kept [OF sync _ _ tk records_kept_same])
      (use p same sync synced_live [OF sync] in \<open>auto simp: tracked_def synced_def\<close>)
qed

lemma synced_admit:
  assumes ok: "server_ok s" and sync: "synced env s"
  shows "synced env (enqueue_turn wall sid aid model body s)"
proof -
  let ?s = "enqueue_turn wall sid aid model body s"
  obtain lock where turns: "map_of (sv_turns ?s) = (map_of (sv_turns s))(sv_next_turn s \<mapsto> queued_turn sid aid model body lock)"
    and st: "\<forall>k. map_of (sv_streams ?s) k =
           (if k = sid then Some (List.insert (stream_id sid aid) (case map_of (sv_streams s) sid of None \<Rightarrow> [] | Some xs \<Rightarrow> xs))
            else map_of (sv_streams s) k)"
    and del: "sv_deletions ?s = sv_deletions s" and p: "sv_provider ?s = sv_provider s"
    and rec: "sv_recorder ?s = ensure_session (sv_clock s) wall sid (Some model) (sv_recorder s)"
    by (rule enqueue_turn_fields [OF ok]) blast
  have fresh: "map_of (sv_turns s) (sv_next_turn s) = None"
    using ok by (auto simp: server_ok_def turns_ok_def map_of_eq_None_keys)
  show ?thesis
  proof (rule synced_kept [OF sync])
    show "turns_kept s ?s"
      unfolding turns_kept_def turns using fresh kept_turn_simps(1)
      by (auto simp: queued_turn_def)
    show "records_kept s ?s" by (simp add: records_kept_def del rec)
    show "failures_ok (sv_recorder ?s)"
      using sync by (auto simp: rec synced_def intro: failures_ok_cong [of _ "sv_recorder s"])
    show "tracked x ?s" if "tracked x s" for x
    proof -
      from that obtain k xs where "map_of (sv_streams s) k = Some xs" "x \<in> set xs" by (auto simp: tracked_def)
      then show ?thesis unfolding tracked_def st [rule_format] by (cases "k = sid") auto
    qed
  qed (use synced_live [OF sync] in \<open>simp_all add: p\<close>)
qed

lemma synced_seal:
  assumes sync: "synced env s" and "seal sid s = Some s'"
  shows "synced env s'"
proof -
  obtain r rec where f: "Recorder.finalize_session sid (sv_recorder s) = (r, rec)" by fastforce
  then have rec: "rec = snd (Recorder.finalize_session sid (sv_recorder s))" by simp
  have s': "\<exists>fins. s' = on_recorder (\<lambda>_. rec) (s\<lparr>sv_finalizations := fins\<rparr>)"
    using assms(2) by (auto simp: seal_def f split: if_splits)
  show ?thesis
  proof (rule synced_kept [OF sync])
    show "failures_ok (sv_recorder s')"
      using sync s' by (auto simp: rec synced_def intro: failures_ok_cong [of _ "sv_recorder s"])
    show "turns_kept s s'" using s' by (auto intro: turns_kept_same)
    show "records_kept s s'" using s' by (auto simp: records_kept_def rec)
  qed (use s' synced_live [OF sync] tracked_cong [of s' s] in auto)
qed

lemma synced_delete:
  assumes sync: "synced env s"
  shows "synced env (request_deletion sid s)"
proof (cases "map_of (sv_deletions s) sid")
  case None
  let ?s = "request_deletion sid s"
  have s': "?s = on_recorder (Recorder.delete_session (sv_clock s) sid) (s\<lparr>sv_deletions := AList.update sid None (sv_deletions s)\<rparr>)"
    by (simp add: request_deletion_def None)
  show ?thesis
  proof (rule synced_kept [OF sync])
    show "failures_ok (sv_recorder ?s)"
    proof (rule failures_ok_cong)
      show "\<forall>k c. failed_of k c (sv_recorder ?s) \<noteq> None \<longrightarrow>
          failed_of k c (sv_recorder ?s) = failed_of k c (sv_recorder s) \<and> turns_of k c (sv_recorder ?s) = turns_of k c (sv_recorder s)"
        by (auto simp: s' turns_of_delete split: if_splits)
    qed (use sync in \<open>simp add: synced_def\<close>)
    show "turns_kept s ?s" by (rule turns_kept_same) (simp add: s')
    show "records_kept s ?s" by (auto simp: records_kept_def s' update_conv' turns_of_delete split: if_splits)
  qed (use synced_live [OF sync] in \<open>simp_all add: s' tracked_def\<close>)
qed (use sync in \<open>simp add: request_deletion_def\<close>)

lemma synced_cancel:
  assumes sync: "synced env s" and "cancel_work sid s = Some s'"
  shows "synced env s'"
proof -
  let ?c = "\<lambda>t. if tn_session t = sid then t\<lparr>tn_cancelled := True\<rparr> else t"
  obtain fins ids where del: "map_of (sv_deletions s) sid = Some None"
    and s': "s' = s\<lparr>sv_turns := map (\<lambda>(i, t). (i, ?c t)) (sv_turns s), sv_finalizations := fins,
      sv_deletions := AList.update sid (Some ids) (sv_deletions s)\<rparr>"
    using assms(2) by (auto simp: cancel_work_def split: if_splits)
  have turns: "map_of (sv_turns s') i = map_option ?c (map_of (sv_turns s) i)" for i
    by (simp add: s' map_of_map_turns)
  have c: "kept_turn t (?c t)" for t by simp
  show ?thesis
  proof (rule synced_kept [OF sync])
    show "turns_kept s s'" unfolding turns_kept_def turns using c by (auto simp del: split_paired_All)
    show "records_kept s s'" using del by (auto simp: records_kept_def s' update_conv' split: if_splits)
  qed (use sync synced_live [OF sync] in \<open>simp_all add: s' tracked_def synced_def\<close>)
qed

subsection \<open>The cleanup of a deleted session\<close>

lemma held_release_fold: "held (fold release_session xs p) x k st \<longleftrightarrow> x \<notin> set xs \<and> held p x k st"
  by (induction xs arbitrary: p) (auto simp: held_release)

lemma live_release: "live_provider p \<Longrightarrow> live_provider (release_session x p)"
  by (rule live.keeps_release) (auto intro: step_drop)

lemma bundles_release: "map_of (pv_bundles (fold release_session xs p)) k = None \<longleftrightarrow> map_of (pv_bundles p) k = None"
  by (induction xs arbitrary: p) (auto simp: release_session_fields)

lemma synced_cleanup:
  assumes ok: "server_ok s" and sync: "synced env s" and "cleanup sid s = Some s'"
  shows "synced env s'"
proof -
  let ?xs = "session_streams sid s"
  from cleanup_Some [OF assms(3) ok] obtain ids where ids: "map_of (sv_deletions s) sid = Some (Some ids)"
    and gone: "\<forall>i t. map_of (sv_turns s) i = Some t \<longrightarrow> tn_session t \<noteq> sid"
    and s': "s' = (fold release_stream ?xs s)
           \<lparr>sv_streams := od_pop sid (sv_streams s), sv_finalizations := od_pop sid (sv_finalizations s),
            sv_deletions := od_pop sid (sv_deletions s)\<rparr>" by metis
  have id: "matches_id sid" using ok ids by (auto simp: server_ok_def deletions_ok_def)
  have p: "sv_provider s' = fold release_session ?xs (sv_provider s)" and rec: "sv_recorder s' = sv_recorder s"
    and turns: "sv_turns s' = sv_turns s"
    and del: "\<And>k. map_of (sv_deletions s') k = (if k = sid then None else map_of (sv_deletions s) k)"
    and st: "\<And>k. map_of (sv_streams s') k = (if k = sid then None else map_of (sv_streams s) k)"
    by (simp_all add: s' release_streams_fields)
  have held: "held (sv_provider s') x k st' \<longleftrightarrow> x \<notin> set ?xs \<and> held (sv_provider s) x k st'" for x k st'
    by (simp add: p held_release_fold)
  have other: "stream_id k aid \<notin> set ?xs" if "matches_id k" "k \<noteq> sid" for k aid
    using session_streams_named [OF ok id _ that] by blast
  have live: "live_provider (fold release_session xs q)" if "live_provider q" for xs q
    using that by (induction xs arbitrary: q) (simp_all add: live_release)
  have pins: "pinned_to env (sv_provider s') x k" if "pinned_to env (sv_provider s) x k" "x \<notin> set ?xs" for x k
    using that release_others [of x ?xs "sv_provider s"] by (simp add: pinned_to_def p)
  have mine: "x \<in> set ?xs" if "map_of (sv_streams s) sid = Some xs" "x \<in> set xs" for x xs
    using that by (cases xs) (simp_all add: session_streams_def)
  have wf: "matches_id (tn_session t) \<and> tn_session t \<noteq> sid \<and> tn_stream t \<notin> set ?xs" if "map_of (sv_turns s) i = Some t" for i t
    using ok_turn_wf [OF ok that] gone other that by (auto simp: turn_wf_def tn_stream_def)
  show ?thesis
    unfolding synced_def
  proof (intro conjI)
    show "failures_ok (sv_recorder s')" using sync by (simp add: rec synced_def)
    show "streams_held_ok env s'"
      unfolding streams_held_ok_def
    proof (intro conjI allI impI)
      show "live_provider (sv_provider s')" using live [OF synced_live [OF sync]] by (simp add: p)
      fix x k st assume h: "held (sv_provider s') x k st"
      then have x: "x \<notin> set ?xs" "held (sv_provider s) x k st" by (simp_all add: held)
      with synced_pins [OF sync] pins show "pinned_to env (sv_provider s') x k" by blast
      from sync x(2) have "tracked x s" unfolding synced_def streams_held_ok_def by blast
      then obtain k' xs where k': "map_of (sv_streams s) k' = Some xs" "x \<in> set xs" by (auto simp: tracked_def)
      with mine x(1) have "k' \<noteq> sid" by blast
      with k' show "tracked x s'" by (auto simp: tracked_def st)
    qed
    show "turns_synced env s'"
      unfolding turns_synced_def turns
    proof (intro allI impI conjI)
      fix i t assume t: "map_of (sv_turns s) i = Some t"
      note w = wf [OF t]
      from sync t have old: "stage_pinned env (sv_provider s) t"
        "map_of (sv_deletions s) (tn_session t) = None \<longrightarrow> stage_fits (sv_provider s) (sv_recorder s) t"
        by (simp_all add: synced_def turns_synced_def)
      show "stage_pinned env (sv_provider s') t"
        using old(1) pins w unfolding stage_pinned_def p bundles_release by blast
      assume "map_of (sv_deletions s') (tn_session t) = None"
      with w old(2) have "stage_fits (sv_provider s) (sv_recorder s) t" by (simp add: del)
      then show "stage_fits (sv_provider s') (sv_recorder s') t"
        unfolding stage_fits_def rec held by blast
    qed
    show "sessions_synced s'"
      unfolding sessions_synced_def
    proof (intro allI impI)
      fix k aid assume k: "matches_id k" "map_of (sv_deletions s') k = None" "\<not> committing k aid s'"
      show "in_sync (sv_provider s') (sv_recorder s') k aid"
      proof (cases "k = sid")
        case True
        have "\<not> held (sv_provider s') (stream_id sid aid) b st" for b st
        proof
          assume "held (sv_provider s') (stream_id sid aid) b st"
          then have x: "stream_id sid aid \<notin> set ?xs" "held (sv_provider s) (stream_id sid aid) b st" by (simp_all add: held)
          from sync x(2) have "tracked (stream_id sid aid) s" unfolding synced_def streams_held_ok_def by blast
          then obtain k' xs where k': "map_of (sv_streams s) k' = Some xs" "stream_id sid aid \<in> set xs"
            by (auto simp: tracked_def)
          with mine x(1) have "k' \<noteq> sid" by blast
          moreover from ok k' obtain a where "stream_id sid aid = stream_id k' a" "matches_id k'"
            unfolding server_ok_def streams_ok_def by blast
          ultimately show False using stream_id_inject [OF id] by blast
        qed
        with True show ?thesis by (simp add: in_sync_def)
      next
        case False
        with sync k have "in_sync (sv_provider s) (sv_recorder s) k aid"
          by (simp add: synced_def sessions_synced_def del committing_def turns)
        then show ?thesis unfolding in_sync_def rec held by blast
      qed
    qed
  qed
qed

subsection \<open>Every event\<close>

lemma synced_turn_step:
  assumes ok: "server_ok s" and sync: "synced (sc_env cf) s" and t: "map_of (sv_turns s) i = Some t"
  shows "begin_turn cf i t s = Some s' \<Longrightarrow> synced (sc_env cf) s'"
    "engine_reply cf i oc t s = Some s' \<Longrightarrow> synced (sc_env cf) s'"
    "parse_turn cf i fresh t s = Some s' \<Longrightarrow> synced (sc_env cf) s'"
    "record_turn i wall ident created t s = Some s' \<Longrightarrow> synced (sc_env cf) s'"
    "mark_turn i t s = Some s' \<Longrightarrow> synced (sc_env cf) s'"
proof -
  note ok' = ok_turn_step [OF ok t]
  show "synced (sc_env cf) s'" if step: "begin_turn cf i t s = Some s'"
  proof -
    from step have stage: "tn_stage t = Starting" by (auto simp: begin_turn_def split: stage.splits)
    show ?thesis
    proof (cases "session_deleted (tn_session t) s")
      case True
      with step stage have s': "s' = proceed i t (Answered (ErrorResponse 410), sv_proxy s) s" by (simp add: begin_turn_def)
      have del: "map_of (sv_deletions s) (tn_session t) \<noteq> None"
        using ok t True by (auto simp: server_ok_def deletions_ok_def cancel_ok_def)
      show ?thesis
        unfolding s'
      proof (rule synced_proceed [OF ok sync t _ ok'(2) [OF step, unfolded s']])
        show "pinned_to (sc_env cf) (sv_provider s) (tn_stream t) k" if "held (sv_provider s) (tn_stream t) k st'" for k st'
          using synced_pins [OF sync that] .
      qed (use synced_live [OF sync] sync del in
          \<open>simp_all add: stage past_queue_def others_kept_quiet not_awaiting_pinned synced_def\<close>)
    next
      case False
      obtain g px where h: "handler_start (sc_env cf) (tn_session t) (tn_agent t) (tn_stream t) (tn_model t) (tn_body t) (sv_proxy s) = (g, px)"
        by fastforce
      with step stage False have s': "s' = proceed i t (g, px) s" by (auto simp: begin_turn_def split: if_splits)
      show ?thesis using synced_start [OF ok sync t stage h] ok'(2) [OF step] by (simp add: s')
    qed
  qed
  show "synced (sc_env cf) s'" if step: "engine_reply cf i oc t s = Some s'"
  proof -
    obtain pn where stage: "tn_stage t = Running (AwaitingEngine pn)"
      using step by (auto simp: engine_reply_def split: stage.splits progress.splits)
    obtain g px where h: "handler_generated (sc_env cf) pn oc (sv_proxy s) = (g, px)" by fastforce
    with step stage have s': "s' = proceed i t (g, px) s" by (simp add: engine_reply_def)
    show ?thesis using synced_engine [OF ok sync t stage h] ok'(3) [OF step] by (simp add: s')
  qed
  show "synced (sc_env cf) s'" if step: "parse_turn cf i fresh t s = Some s'"
  proof -
    obtain r where stage: "tn_stage t = Running (Generated r)"
      using step by (auto simp: parse_turn_def split: stage.splits progress.splits)
    obtain g px where h: "handler_parsed (sc_env cf) fresh (tn_stream t) (tn_body t) r (sv_proxy s) = (g, px)" by fastforce
    with step stage have s': "s' = proceed i t (g, px) s" by (simp add: parse_turn_def)
    show ?thesis using synced_parse [OF ok sync t stage h] ok'(4) [OF step] by (simp add: s')
  qed
  show "synced (sc_env cf) s'" if step: "record_turn i wall ident created t s = Some s'"
  proof -
    obtain r q where stage: "tn_stage t = Running (Parsed r q)"
      using step by (auto simp: record_turn_def split: stage.splits progress.splits)
    obtain g px where h: "handler_recorded (sv_clock s) wall ident created (tn_session t) (tn_agent t) (tn_model t) (tn_body t) r q (sv_proxy s) = (g, px)"
      by fastforce
    with step stage have s': "s' = proceed i t (g, px) s" by (simp add: record_turn_def)
    show ?thesis using synced_record [OF ok sync t stage h] ok'(5) [OF step] by (simp add: s')
  qed
  show "synced (sc_env cf) s'" if step: "mark_turn i t s = Some s'"
  proof -
    obtain r where stage: "tn_stage t = Running (Unrecorded r)"
      using step by (auto simp: mark_turn_def split: stage.splits progress.splits)
    obtain g px where h: "handler_failed (sv_clock s) (tn_session t) (tn_agent t) (tn_body t) r (sv_proxy s) = (g, px)" by fastforce
    with step stage have s': "s' = proceed i t (g, px) s" by (simp add: mark_turn_def)
    show ?thesis using synced_mark [OF ok sync t stage h] ok'(6) [OF step] by (simp add: s')
  qed
qed

lemma synced_step:
  assumes ok: "server_ok s" and sync: "synced (sc_env cf) s" and step: "server_step cf e s = Some s'"
  shows "synced (sc_env cf) s'"
proof (cases e)
  case (Admit wall header body)
  show ?thesis
  proof (cases "check_admission cf header body s")
    case (Inl status)
    with Admit step sync show ?thesis by (simp add: admit_def)
  next
    case (Inr x)
    with Admit step synced_admit [OF ok sync] show ?thesis by (cases x) (auto simp: admit_def)
  qed
next
  case (Acquire i)
  with step show ?thesis using synced_acquire [OF sync] by (auto simp only: server_step.simps on_turn_Some)
next
  case (Begin i)
  with step show ?thesis using synced_turn_step(1) [OF ok sync] by (auto simp only: server_step.simps on_turn_Some)
next
  case (EngineReply i oc)
  with step show ?thesis using synced_turn_step(2) [OF ok sync] by (auto simp only: server_step.simps on_turn_Some)
next
  case (Parse i fresh)
  with step show ?thesis using synced_turn_step(3) [OF ok sync] by (auto simp only: server_step.simps on_turn_Some)
next
  case (Record i wall ident created)
  with step show ?thesis using synced_turn_step(4) [OF ok sync] by (auto simp only: server_step.simps on_turn_Some)
next
  case (Mark i)
  with step show ?thesis using synced_turn_step(5) [OF ok sync] by (auto simp only: server_step.simps on_turn_Some)
next
  case (GiveUp i)
  with step show ?thesis using synced_give_up [OF sync] by (auto simp only: server_step.simps on_turn_Some)
next
  case (Finish i)
  with step show ?thesis using synced_finish [OF sync] by (auto simp only: server_step.simps on_turn_Some)
next
  case (Unwind i)
  with step synced_unwind [OF ok sync] show ?thesis by (auto split: option.splits if_splits)
next
  case (RequestFinalization sid)
  with step sync show ?thesis
    by (auto simp: request_finalization_def intro!: synced_frame [OF sync] turns_kept_same)
next
  case (Drained sid)
  with step show ?thesis
    by (auto simp: drained_def intro!: synced_frame [OF sync] turns_kept_same split: if_splits)
next
  case (Seal sid)
  with step synced_seal [OF sync] show ?thesis by simp
next
  case (RequestDeletion sid)
  with step synced_delete [OF sync] show ?thesis by auto
next
  case (CancelWork sid)
  with step synced_cancel [OF sync] show ?thesis by simp
next
  case (Cleanup sid)
  with step synced_cleanup [OF ok sync] show ?thesis by simp
next
  case (SetSampling v)
  let ?p = "snd (set_runtime_sampling_overrides v (sv_provider s))"
  have s': "s' = s\<lparr>sv_proxy := (sv_proxy s)\<lparr>px_provider := ?p\<rparr>\<rparr>" using SetSampling step by simp
  note live = synced_live [OF sync]
  show ?thesis
    unfolding s'
    by (rule synced_kept [OF sync _ _ turns_kept_same records_kept_same])
      (use sync quiet_override [OF live] live.keeps_override [OF live] in \<open>simp_all add: synced_def tracked_def\<close>)
next
  case (Elapse d)
  with step show ?thesis
    by (auto intro!: synced_frame [OF sync] turns_kept_same split: if_splits)
qed

lemma synced_init:
  assumes "init_provider overrides = Inr p"
  shows "synced env (init_server p (init_recorder store lps experts validate dumps) now)"
proof -
  have "pv_bundles p = []" using assms by (auto simp: init_provider_def rbind_eq_Inr)
  then show ?thesis
    by (simp add: synced_def synced_defs init_server_def init_recorder_def held_def sat_def in_sync_def failures_ok_def failed_of_def)
qed

lemma server_reachable_synced: "server_reachable cf s \<Longrightarrow> synced (sc_env cf) s"
proof (induction rule: server_reachable.induct)
  case (server_init overrides p store lps experts validate dumps now)
  then show ?case by (rule synced_init)
next
  case (server_next s e s')
  from synced_step [OF server_reachable_ok [OF server_next.hyps(1)] server_next.IH server_next.hyps(2)] show ?case .
qed

subsection \<open>The theorems\<close>

lemma held_in_sync:
  assumes "server_reachable cf s" and "matches_id sid" and "map_of (sv_deletions s) sid = None"
    and "\<not> committing sid aid s" and "failed_of sid (Some aid) (sv_recorder s) = None" and "held (sv_provider s) (stream_id sid aid) k st"
  shows "ss_stream st = stream_after [] (turns_of sid (Some aid) (sv_recorder s))"
proof -
  from server_reachable_synced [OF assms(1)] assms(2-4) have "in_sync (sv_provider s) (sv_recorder s) sid aid"
    unfolding synced_def sessions_synced_def by blast
  with assms(5,6) show ?thesis by (simp add: in_sync_def)
qed

lemma idle_not_committing:
  assumes "server_reachable cf s" and "\<not> session_busy sid s"
  shows "\<not> committing sid aid s"
proof
  assume "committing sid aid s"
  then obtain i t where t: "map_of (sv_turns s) i = Some t" "tn_session t = sid" "unrecorded_reply (tn_stage t) \<noteq> None"
    unfolding committing_def by blast
  then have "in_flight t" by (auto simp: in_flight_def unrecorded_reply_def split: stage.splits progress.splits)
  with t assms show False
    using session_busy_iff [of s sid] server_reachable_ok by (auto simp: server_ok_def turns_ok_def)
qed

lemma dump_no_failure: "dump_session sid m = Inr (Some d) \<Longrightarrow> map_of (rec_failed m) sid = None"
  by (auto simp: dump_session_def rbind_eq_Inr require_eq split: option.splits)

text \<open>C2:
  The record is the stream: in every reachable state of the service, however turns, retries, failures,
  repairs, disconnects, evictions, deletions and reuses of session ids interleaved before, if a session
  can be dumped, is not being deleted and has no turn in flight, then every token stream that a model's
  manager holds for an agent of the session is exactly the stream that the agent's recorded turns add
  up to, so the next prompt continues what the dump says. Reachable means: in a run whose deletions name ids the service accepts for
  sessions and whose tombstones outlive the cleanups (\<open>names_session\<close>, \<open>tombstones_last\<close>); the first
  condition is needed, a stray deletion drops a held stream under its record.
\<close>

theorem recorded_turns_are_the_held_stream:
  assumes "server_reachable cf s" and "matches_id sid" and "map_of (sv_deletions s) sid = None"
    and "\<not> session_busy sid s" and "dump_session sid (px_recorder (sv_proxy s)) = Inr (Some d)"
    and "map_of (pv_bundles (px_provider (sv_proxy s))) k = Some b"
    and "map_of (mgr_sessions (bn_manager b)) (stream_id sid aid) = Some st"
  shows "ss_stream st = stream_after [] (turns_of sid (Some aid) (px_recorder (sv_proxy s)))"
  using held_in_sync [OF assms(1-3) idle_not_committing [OF assms(1,4)]] assms(6,7) dump_no_failure [OF assms(5)]
  by (auto simp: held_def failed_of_def)

text \<open>C3:
  What is trained is what the engine was fed and sampled: when a session is finalized and the dump of
  its record is converted for training, the last training stream of each agent has exactly the tokens
  of the token stream that the agent's model still holds, whatever happened to the session on the way.
  Reachable means: in a run whose deletions name ids the service accepts for
  sessions and whose tombstones outlive the cleanups (\<open>names_session\<close>, \<open>tombstones_last\<close>).
\<close>

theorem trained_tokens_are_the_engine_tokens:
  assumes "server_reachable cf s" and "matches_id sid" and "map_of (sv_deletions s) sid = None"
    and "map_of (sv_finalizations s) sid = Some Finalized" and "get_session sid (px_recorder (sv_proxy s)) = Some r"
    and "record_to_streams (PDict (model_dump r)) roles allow re = Inr streams" and "agent_turns (Some aid) r \<noteq> []"
    and "map_of (pv_bundles (px_provider (sv_proxy s))) k = Some b"
    and "map_of (mgr_sessions (bn_manager b)) (stream_id sid aid) = Some st"
  shows "ts_tokens (last (view (Some aid) streams)) = map PInt (ss_stream st)"
proof -
  have ok: "finalizations_ok s" "distinct (od_keys (sv_turns s))"
    using server_reachable_ok [OF assms(1)] by (simp_all add: server_ok_def turns_ok_def)
  then have "\<not> session_busy sid s" "map_of (rec_failed (px_recorder (sv_proxy s))) sid = None"
    using assms(3,4) by (auto simp: session_busy_iff finalizations_ok_def past_barrier_def)
  then have "ss_stream st = stream_after [] (turns_of sid (Some aid) (px_recorder (sv_proxy s)))"
    using held_in_sync [OF assms(1-3) idle_not_committing [OF assms(1)]] assms(8,9) by (auto simp: held_def failed_of_def)
  moreover have "turns_of sid (Some aid) (px_recorder (sv_proxy s)) = agent_turns (Some aid) r"
    using assms(5) by (simp add: turns_of_def get_session_def)
  ultimately show ?thesis using last_view_tokens [OF assms(6,7)] by simp
qed

text \<open>A session of one turn, finalized.\<close>

definition demo_turn :: "event list" where
  "demo_turn = [demo_chat, Acquire 0, Begin 0, EngineReply 0 demo_outcome, Parse 0 (\<lambda>_. []), Record 0 (Fin 0) [] 0, Finish 0,
     RequestFinalization ''run'', Drained ''run'', Seal ''run'']"

definition demo_turn_facts :: "server \<Rightarrow> bool" where
  "demo_turn_facts s \<longleftrightarrow>
     (case (get_session ''run'' (px_recorder (sv_proxy s)), map_of (pv_bundles (px_provider (sv_proxy s))) ''llama3_1'') of
        (Some r, Some b) \<Rightarrow>
          (case map_of (mgr_sessions (bn_manager b)) ''run-main'' of
             Some st \<Rightarrow> drop (length (ss_stream st) - 2) (ss_stream st) = [3, 4] \<and> agent_turns (Some ''main'') r \<noteq> [] \<and>
               \<not> isl (record_to_streams (PDict (model_dump r)) [(Some ''main'', ''solver'')] False False)
           | None \<Rightarrow> False)
      | _ \<Rightarrow> False) \<and>
     map_of (sv_deletions s) ''run'' = None \<and> map_of (sv_finalizations s) ''run'' = Some Finalized \<and> \<not> session_busy ''run'' s"

lemma demo_turn_runs: "case server_run demo_config demo_turn demo_server of None \<Rightarrow> False | Some s \<Rightarrow> demo_turn_facts s"
  by code_simp

lemma demo_turn_state:
  obtains r b st streams where "server_reachable demo_config (after_run demo_turn)"
    and "get_session ''run'' (px_recorder (sv_proxy (after_run demo_turn))) = Some r" and "agent_turns (Some ''main'') r \<noteq> []"
    and "map_of (pv_bundles (px_provider (sv_proxy (after_run demo_turn)))) ''llama3_1'' = Some b"
    and "map_of (mgr_sessions (bn_manager b)) (stream_id ''run'' ''main'') = Some st"
    and "drop (length (ss_stream st) - 2) (ss_stream st) = [3, 4]"
    and "record_to_streams (PDict (model_dump r)) [(Some ''main'', ''solver'')] False False = Inr streams"
    and "map_of (sv_deletions (after_run demo_turn)) ''run'' = None"
    and "map_of (sv_finalizations (after_run demo_turn)) ''run'' = Some Finalized"
    and "\<not> session_busy ''run'' (after_run demo_turn)" and "matches_id ''run''"
proof -
  have x: "stream_id ''run'' ''main'' = ''run-main''" and id: "matches_id ''run''" by code_simp+
  obtain s where s: "server_run demo_config demo_turn demo_server = Some s" "demo_turn_facts s"
    using demo_turn_runs by (auto split: option.splits)
  then have run: "runs demo_turn" and s': "after_run demo_turn = s" by (simp_all add: runs_def after_run_def)
  obtain r b st where r: "get_session ''run'' (px_recorder (sv_proxy s)) = Some r" "agent_turns (Some ''main'') r \<noteq> []"
    and b: "map_of (pv_bundles (px_provider (sv_proxy s))) ''llama3_1'' = Some b"
    and st: "map_of (mgr_sessions (bn_manager b)) ''run-main'' = Some st" "drop (length (ss_stream st) - 2) (ss_stream st) = [3, 4]"
    and streams: "\<not> isl (record_to_streams (PDict (model_dump r)) [(Some ''main'', ''solver'')] False False)"
    using s(2) by (auto simp: demo_turn_facts_def split: option.splits)
  from streams obtain streams where "record_to_streams (PDict (model_dump r)) [(Some ''main'', ''solver'')] False False = Inr streams"
    by (metis sum.collapse(2))
  from that [OF runs_reachable [OF run], unfolded x s', OF r b st this _ _ _ id] s(2) show thesis
    by (simp add: demo_turn_facts_def)
qed

theorem recorded_turns_are_the_held_stream_witness:
  "\<exists>m. turns_of ''run'' (Some ''main'') m \<noteq> [] \<and> m = px_recorder (sv_proxy (after_run demo_turn)) \<and>
     drop (length (stream_after [] (turns_of ''run'' (Some ''main'') m)) - 2) (stream_after [] (turns_of ''run'' (Some ''main'') m)) = [3, 4]"
proof -
  obtain r b st streams where d: "server_reachable demo_config (after_run demo_turn)"
    "get_session ''run'' (px_recorder (sv_proxy (after_run demo_turn))) = Some r" "agent_turns (Some ''main'') r \<noteq> []"
    "map_of (pv_bundles (px_provider (sv_proxy (after_run demo_turn)))) ''llama3_1'' = Some b"
    "map_of (mgr_sessions (bn_manager b)) (stream_id ''run'' ''main'') = Some st"
    "drop (length (ss_stream st) - 2) (ss_stream st) = [3, 4]"
    "map_of (sv_deletions (after_run demo_turn)) ''run'' = None"
    "map_of (sv_finalizations (after_run demo_turn)) ''run'' = Some Finalized"
    "\<not> session_busy ''run'' (after_run demo_turn)" "matches_id ''run''"
    by (rule demo_turn_state)
  have "map_of (rec_failed (px_recorder (sv_proxy (after_run demo_turn)))) ''run'' = None"
    using server_reachable_ok [OF d(1)] d(7,8) by (simp add: server_ok_def finalizations_ok_def)
  then have "dump_session ''run'' (px_recorder (sv_proxy (after_run demo_turn))) = Inr (Some (model_dump r))"
    using d(2) by (simp add: dump_session_def get_session_def)
  from recorded_turns_are_the_held_stream [OF d(1,10,7,9) this d(4,5)] d(2,3,6) show ?thesis
    by (simp add: turns_of_def get_session_def)
qed

theorem trained_tokens_are_the_engine_tokens_witness:
  "\<exists>streams ids. record_to_streams (PDict (model_dump (the (get_session ''run'' (px_recorder (sv_proxy (after_run demo_turn)))))))
       [(Some ''main'', ''solver'')] False False = Inr streams \<and>
     ts_tokens (last (view (Some ''main'') streams)) = map PInt (ids @ [3, 4])"
proof -
  obtain r b st streams where d: "server_reachable demo_config (after_run demo_turn)"
    "get_session ''run'' (px_recorder (sv_proxy (after_run demo_turn))) = Some r" "agent_turns (Some ''main'') r \<noteq> []"
    "map_of (pv_bundles (px_provider (sv_proxy (after_run demo_turn)))) ''llama3_1'' = Some b"
    "map_of (mgr_sessions (bn_manager b)) (stream_id ''run'' ''main'') = Some st"
    "drop (length (ss_stream st) - 2) (ss_stream st) = [3, 4]"
    "record_to_streams (PDict (model_dump r)) [(Some ''main'', ''solver'')] False False = Inr streams"
    "map_of (sv_deletions (after_run demo_turn)) ''run'' = None"
    "map_of (sv_finalizations (after_run demo_turn)) ''run'' = Some Finalized"
    "matches_id ''run''"
    by (rule demo_turn_state)
  have "ss_stream st = take (length (ss_stream st) - 2) (ss_stream st) @ [3, 4]"
    using d(6) by (metis append_take_drop_id)
  with trained_tokens_are_the_engine_tokens [OF d(1,10,8,9,2,7,3,4,5)] d(2,7) show ?thesis
    by (metis option.sel)
qed

end
