(* ===== verification/Json.thy ===== *)
theory Json
  imports Engines
begin

section \<open>JSON as Python reads and writes it\<close>

text \<open>
  \<^verbatim>\<open>json.loads(text, parse_constant=_reject_nonfinite)\<close> and \<^verbatim>\<open>json.dumps(value, ensure_ascii=False)\<close> of the
  standard library (the C scanner and encoder of CPython), which the tool parsers use. The scanner is
  a recursion on the nesting that is still allowed: a container below it is CPython's
  \<^verbatim>\<open>RecursionError\<close>, every other failure is a \<^verbatim>\<open>ValueError\<close>. What the development cannot compute are
  arguments, the fields of \<open>json_env\<close>: the recursion limit, \<^verbatim>\<open>float(text)\<close> and the text of a double,
  and the text of a code point beyond 255, which a string can only hold through an escape.
\<close>

record json_env =
  je_limit :: nat
  je_float :: "string \<Rightarrow> flt"
  je_repr :: "flt \<Rightarrow> string"
  je_wide :: "nat \<Rightarrow> string"

datatype json_error = BadJson | TooDeep

subsection \<open>Strings\<close>

abbreviation quote_char :: char where "quote_char \<equiv> CHR 0x22"

abbreviation backslash :: char where "backslash \<equiv> CHR 0x5C"

definition json_space :: "char \<Rightarrow> bool" where
  "json_space c \<longleftrightarrow> c \<in> {CHR 0x20, CHR 0x09, CHR 0x0A, CHR 0x0D}"

definition skip_ws :: "string \<Rightarrow> string" where
  "skip_ws s = dropWhile json_space s"

definition hex_value :: "char \<Rightarrow> nat option" where
  "hex_value c =
     (let n = of_char c :: nat in
      if 48 \<le> n \<and> n \<le> 57 then Some (n - 48)
      else if 97 \<le> n \<and> n \<le> 102 then Some (n - 87)
      else if 65 \<le> n \<and> n \<le> 70 then Some (n - 55)
      else None)"

fun hex4 :: "string \<Rightarrow> (nat \<times> string) option" where
  "hex4 (a # b # c # d # rest) =
     (case (hex_value a, hex_value b, hex_value c, hex_value d) of
        (Some x, Some y, Some z, Some w) \<Rightarrow> Some (((x * 16 + y) * 16 + z) * 16 + w, rest)
      | _ \<Rightarrow> None)"
| "hex4 _ = None"

definition is_high :: "nat \<Rightarrow> bool" where "is_high n \<longleftrightarrow> 0xD800 \<le> n \<and> n \<le> 0xDBFF"

definition is_low :: "nat \<Rightarrow> bool" where "is_low n \<longleftrightarrow> 0xDC00 \<le> n \<and> n \<le> 0xDFFF"

definition text_of :: "json_env \<Rightarrow> nat \<Rightarrow> string" where
  "text_of je n = (if n < 256 then [char_of n] else je_wide je n)"

text \<open>The four digits of an escape, with the low half of a surrogate pair when it follows.\<close>

definition scan_unicode :: "json_env \<Rightarrow> string \<Rightarrow> json_error + string \<times> string" where
  "scan_unicode je s =
     (case hex4 s of
        None \<Rightarrow> Inl BadJson
      | Some (n, rest) \<Rightarrow>
          (case rest of
             x # y # zs \<Rightarrow>
               if is_high n \<and> x = backslash \<and> y = CHR ''u'' then
                 (case hex4 zs of
                    None \<Rightarrow> Inl BadJson
                  | Some (m, rest') \<Rightarrow>
                      if is_low m then Inr (je_wide je (0x10000 + ((n - 0xD800) * 1024 + (m - 0xDC00))), rest')
                      else Inr (text_of je n, rest))
               else Inr (text_of je n, rest)
           | _ \<Rightarrow> Inr (text_of je n, rest)))"

definition simple_escape :: "char \<Rightarrow> char option" where
  "simple_escape c =
     map_of [(quote_char, quote_char), (backslash, backslash), (CHR ''/'', CHR ''/''), (CHR ''b'', CHR 0x08),
       (CHR ''f'', CHR 0x0C), (CHR ''n'', CHR 0x0A), (CHR ''r'', CHR 0x0D), (CHR ''t'', CHR 0x09)] c"

lemma hex4_length: "hex4 s = Some (n, rest) \<Longrightarrow> length rest < length s"
  by (cases s rule: hex4.cases) (auto split: option.splits)

lemma scan_unicode_length: "scan_unicode je s = Inr (t, rest) \<Longrightarrow> length rest < length s"
  by (auto simp: scan_unicode_def split: option.splits list.splits if_splits dest!: hex4_length)

text \<open>The text up to the closing quote, and what follows the quote.\<close>

function scan_string :: "json_env \<Rightarrow> string \<Rightarrow> json_error + string \<times> string" where
  "scan_string je s =
     (case s of
        [] \<Rightarrow> Inl BadJson
      | c # cs \<Rightarrow>
          if c = quote_char then Inr ([], cs)
          else if c = backslash then
            (case cs of
               [] \<Rightarrow> Inl BadJson
             | e # es \<Rightarrow>
                 if e = CHR ''u'' then
                   (case scan_unicode je es of
                      Inl x \<Rightarrow> Inl x
                    | Inr (t, rest) \<Rightarrow> rbind (scan_string je rest) (\<lambda>(u, r). Inr (t @ u, r)))
                 else (case simple_escape e of
                         None \<Rightarrow> Inl BadJson
                       | Some x \<Rightarrow> rbind (scan_string je es) (\<lambda>(u, r). Inr (x # u, r))))
          else if (of_char c :: nat) < 32 then Inl BadJson
          else rbind (scan_string je cs) (\<lambda>(u, r). Inr (c # u, r)))"
  by pat_completeness auto

termination
  by (relation "measure (length \<circ> snd)") (auto dest!: scan_unicode_length)

declare scan_string.simps [simp del]

subsection \<open>Numbers\<close>

text \<open>A fraction and an exponent, if the text goes on with a complete one.\<close>

definition scan_frac :: "string \<Rightarrow> string \<times> string" where
  "scan_frac s =
     (case s of
        p # d # cs \<Rightarrow> if p = CHR ''.'' \<and> is_digit d then (p # takeWhile is_digit (d # cs), dropWhile is_digit (d # cs)) else ([], s)
      | _ \<Rightarrow> ([], s))"

definition scan_exp :: "string \<Rightarrow> string \<times> string" where
  "scan_exp s =
     (case s of
        e # cs \<Rightarrow>
          if e = CHR ''e'' \<or> e = CHR ''E'' then
            (let (sign, t) = (case cs of c # ds \<Rightarrow> if c = CHR ''+'' \<or> c = CHR ''-'' then ([c], ds) else ([], cs) | [] \<Rightarrow> ([], cs))
             in if takeWhile is_digit t = [] then ([], s) else (e # sign @ takeWhile is_digit t, dropWhile is_digit t))
          else ([], s)
      | [] \<Rightarrow> ([], s))"

definition scan_digits :: "string \<Rightarrow> (string \<times> string) option" where
  "scan_digits s =
     (case s of
        [] \<Rightarrow> None
      | c # cs \<Rightarrow>
          if c = CHR ''0'' then Some ([c], cs)
          else if is_digit c then Some (takeWhile is_digit s, dropWhile is_digit s) else None)"

text \<open>An integer of more digits than the interpreter converts is a \<^verbatim>\<open>ValueError\<close> as well.\<close>

definition scan_number :: "json_env \<Rightarrow> string \<Rightarrow> json_error + pyval \<times> string" where
  "scan_number je s =
     (let (sign, t) = (case s of c # cs \<Rightarrow> if c = CHR ''-'' then ([c], cs) else ([], s) | [] \<Rightarrow> ([], s))
      in case scan_digits t of
           None \<Rightarrow> Inl BadJson
         | Some (ds, u) \<Rightarrow>
             (let (frac, v) = scan_frac u; (ex, w) = scan_exp v
              in if frac = [] \<and> ex = [] then
                   (case int_of_digits ds of
                      None \<Rightarrow> Inl BadJson
                    | Some i \<Rightarrow> Inr (PInt (if sign = [] then i else - i), w))
                 else Inr (PFloat (je_float je (sign @ ds @ frac @ ex)), w)))"

subsection \<open>Containers and values\<close>

type_synonym scanner = "string \<Rightarrow> json_error + pyval \<times> string"

text \<open>
  The members of an object after its brace, and the elements of an array; \<open>f\<close> scans a value one level
  down. Each round consumes at least a character, so the length of the text is enough rounds.
\<close>

primrec scan_members :: "json_env \<Rightarrow> scanner \<Rightarrow> nat \<Rightarrow> pydict \<Rightarrow> string \<Rightarrow> json_error + pyval \<times> string" where
  "scan_members je f 0 d s = Inl BadJson"
| "scan_members je f (Suc n) d s =
     (case s of
        [] \<Rightarrow> Inl BadJson
      | c # cs \<Rightarrow>
          if c \<noteq> quote_char then Inl BadJson
          else rbind (scan_string je cs) (\<lambda>(k, r).
            (case skip_ws r of
               [] \<Rightarrow> Inl BadJson
             | c # cs \<Rightarrow>
                 if c \<noteq> CHR '':'' then Inl BadJson
                 else rbind (f (skip_ws cs)) (\<lambda>(v, r).
                   (case skip_ws r of
                      [] \<Rightarrow> Inl BadJson
                    | c # cs \<Rightarrow>
                        if c = CHR ''}'' then Inr (PDict (dset k v d), cs)
                        else if c = CHR '','' then scan_members je f n (dset k v d) (skip_ws cs)
                        else Inl BadJson)))))"

primrec scan_elements :: "scanner \<Rightarrow> nat \<Rightarrow> pyval list \<Rightarrow> string \<Rightarrow> json_error + pyval \<times> string" where
  "scan_elements f 0 vs s = Inl BadJson"
| "scan_elements f (Suc n) vs s =
     rbind (f s) (\<lambda>(v, r).
       (case skip_ws r of
          [] \<Rightarrow> Inl BadJson
        | c # cs \<Rightarrow>
            if c = CHR '']'' then Inr (PList (vs @ [v]), cs)
            else if c = CHR '','' then scan_elements f n (vs @ [v]) (skip_ws cs)
            else Inl BadJson))"

definition scan_object :: "json_env \<Rightarrow> scanner \<Rightarrow> string \<Rightarrow> json_error + pyval \<times> string" where
  "scan_object je f s =
     (let t = skip_ws s
      in case t of c # cs \<Rightarrow> if c = CHR ''}'' then Inr (PDict [], cs) else scan_members je f (length t) [] t
         | [] \<Rightarrow> Inl BadJson)"

definition scan_array :: "scanner \<Rightarrow> string \<Rightarrow> json_error + pyval \<times> string" where
  "scan_array f s =
     (let t = skip_ws s
      in case t of c # cs \<Rightarrow> if c = CHR '']'' then Inr (PList [], cs) else scan_elements f (length t) [] t
         | [] \<Rightarrow> Inl BadJson)"

text \<open>
  One value: the constants \<^verbatim>\<open>NaN\<close> and \<^verbatim>\<open>Infinity\<close> are refused by the hook, like any text that is no number.
\<close>

definition scan_at :: "json_env \<Rightarrow> scanner option \<Rightarrow> scanner" where
  "scan_at je nested s =
     (case s of
        [] \<Rightarrow> Inl BadJson
      | c # cs \<Rightarrow>
          if c = quote_char then rbind (scan_string je cs) (\<lambda>(t, r). Inr (PStr t, r))
          else if c = CHR ''{'' then (case nested of None \<Rightarrow> Inl TooDeep | Some f \<Rightarrow> scan_object je f cs)
          else if c = CHR ''['' then (case nested of None \<Rightarrow> Inl TooDeep | Some f \<Rightarrow> scan_array f cs)
          else if prefix ''null'' s then Inr (PNone, drop 4 s)
          else if prefix ''true'' s then Inr (PBool True, drop 4 s)
          else if prefix ''false'' s then Inr (PBool False, drop 5 s)
          else scan_number je s)"

primrec scan_value :: "json_env \<Rightarrow> nat \<Rightarrow> scanner" where
  "scan_value je 0 = scan_at je None"
| "scan_value je (Suc d) = scan_at je (Some (scan_value je d))"

definition loads :: "json_env \<Rightarrow> string \<Rightarrow> json_error + pyval" where
  "loads je s =
     rbind (scan_value je (je_limit je) (skip_ws s)) (\<lambda>(v, r). if skip_ws r = [] then Inr v else Inl BadJson)"

subsection \<open>Writing\<close>

definition hex_char :: "nat \<Rightarrow> char" where
  "hex_char n = (if n < 10 then char_of (48 + n) else char_of (87 + n))"

definition escape_char :: "char \<Rightarrow> string" where
  "escape_char c =
     (case map_of [(quote_char, quote_char), (backslash, backslash), (CHR 0x08, CHR ''b''), (CHR 0x0C, CHR ''f''),
         (CHR 0x0A, CHR ''n''), (CHR 0x0D, CHR ''r''), (CHR 0x09, CHR ''t'')] c of
        Some e \<Rightarrow> [backslash, e]
      | None \<Rightarrow>
          if (of_char c :: nat) < 32 then [backslash, CHR ''u'', CHR ''0'', CHR ''0'', hex_char (of_char c div 16), hex_char (of_char c mod 16)]
          else [c])"

definition json_string :: "string \<Rightarrow> string" where
  "json_string s = quote_char # concat (map escape_char s) @ [quote_char]"

definition flt_json :: "json_env \<Rightarrow> flt \<Rightarrow> string" where
  "flt_json je f = (case f of NaN \<Rightarrow> ''NaN'' | PosInf \<Rightarrow> ''Infinity'' | NegInf \<Rightarrow> ''-Infinity'' | Fin q \<Rightarrow> je_repr je f)"

text \<open>The text between two items \<open>isep\<close> and after a key \<open>ksep\<close> are the \<^verbatim>\<open>separators\<close> of \<^verbatim>\<open>json.dumps\<close>.\<close>

fun json_layout :: "string \<Rightarrow> string \<Rightarrow> json_env \<Rightarrow> pyval \<Rightarrow> string" where
  "json_layout isep ksep je PNone = ''null''"
| "json_layout isep ksep je (PBool b) = (if b then ''true'' else ''false'')"
| "json_layout isep ksep je (PInt i) = dec_int i"
| "json_layout isep ksep je (PFloat f) = flt_json je f"
| "json_layout isep ksep je (PStr s) = json_string s"
| "json_layout isep ksep je (PList vs) = ''['' @ join isep (map (json_layout isep ksep je) vs) @ '']''"
| "json_layout isep ksep je (PTuple vs) = ''['' @ join isep (map (json_layout isep ksep je) vs) @ '']''"
| "json_layout isep ksep je (PDict d) =
     ''{'' @ join isep (map (\<lambda>(k, v). json_string k @ ksep @ json_layout isep ksep je v) d) @ ''}''"

abbreviation json_text :: "json_env \<Rightarrow> pyval \<Rightarrow> string" where
  "json_text \<equiv> json_layout '', '' '': ''"

fun nesting :: "pyval \<Rightarrow> nat" where
  "nesting (PList vs) = Suc (foldr max (map nesting vs) 0)"
| "nesting (PTuple vs) = Suc (foldr max (map nesting vs) 0)"
| "nesting (PDict d) = Suc (foldr max (map (\<lambda>(k, v). nesting v) d) 0)"
| "nesting _ = 0"

definition dumps :: "json_env \<Rightarrow> pyval \<Rightarrow> json_error + string" where
  "dumps je v = (if nesting v \<le> je_limit je then Inr (json_text je v) else Inl TooDeep)"

end
