(* ===== verification/ToolParser.thy ===== *)
theory ToolParser
  imports Json Provider
begin

section \<open>Tool calls in sampled text\<close>

text \<open>
  \<^verbatim>\<open>tokenization/tool_parser.py\<close>: the scan for \<^verbatim>\<open><tool_call>\<close> blocks, the four text dialects (Hermes,
  Llama 3 JSON, Qwen3-Coder, GLM), schema-guided typing of arguments, and the choice of a parser. A
  call is a pair of name and arguments, the latter a JSON text. \<^verbatim>\<open>None\<close> for a block whose markup is
  damaged and the list of its calls otherwise are an option, as in the code; an exception is \<open>Inl\<close>:
  only what \<^verbatim>\<open>except ValueError\<close> lets through is left, the recursion limit and a \<^verbatim>\<open>TypeError\<close> on tools
  that are no list. The indices of the text scan are kept in \<^verbatim>\<open>_split_sections\<close>; the block scan works on
  the pieces of the text between them. Warnings are left out.
\<close>

record parser_env =
  pe_json :: json_env
  pe_repr :: "pyval \<Rightarrow> string"

datatype parser_error = RecursionLimit | NotIterable

type_synonym tool_call = "string \<times> string"

type_synonym block_parser = "string \<Rightarrow> parser_error + tool_call list option"

definition TOOL_CALL_OPEN :: string where "TOOL_CALL_OPEN = ''<tool_call>''"

definition TOOL_CALL_CLOSE :: string where "TOOL_CALL_CLOSE = ''</tool_call>''"

definition STRING_TYPES :: "string list" where "STRING_TYPES = [''string'', ''str'']"

subsection \<open>Declared parameter types\<close>

type_synonym param_types = "(string, (string, string) odict) odict"

text \<open>The items a \<^verbatim>\<open>for\<close> loop sees, those that are no dictionary left out: they are skipped anyway.\<close>

definition tool_items :: "pyval \<Rightarrow> parser_error + pydict list" where
  "tool_items tools =
     (if \<not> truthy tools then Inr []
      else (case tools of
              PList vs \<Rightarrow> Inr (concat (map (\<lambda>v. case v of PDict d \<Rightarrow> [d] | _ \<Rightarrow> []) vs))
            | PTuple vs \<Rightarrow> Inr (concat (map (\<lambda>v. case v of PDict d \<Rightarrow> [d] | _ \<Rightarrow> []) vs))
            | PStr s \<Rightarrow> Inr []
            | PDict d \<Rightarrow> Inr []
            | _ \<Rightarrow> Inl NotIterable))"

definition declared_type :: "pyval \<Rightarrow> string option" where
  "declared_type schema =
     (case schema of
        PDict d \<Rightarrow>
          (let t = (case dget d ''type'' of
                      PList ts \<Rightarrow> (case filter (\<lambda>t. t \<noteq> PStr ''null'') ts of [] \<Rightarrow> PNone | t # _ \<Rightarrow> t)
                    | t \<Rightarrow> t)
           in case t of PStr s \<Rightarrow> Some (map lower_char (strip s)) | _ \<Rightarrow> None)
      | _ \<Rightarrow> None)"

definition add_tool :: "parser_env \<Rightarrow> pydict \<Rightarrow> param_types \<Rightarrow> param_types" where
  "add_tool pe tool types =
     (let function = (case dget tool ''function'' of PDict f \<Rightarrow> f | _ \<Rightarrow> tool);
          name = dget function ''name''
      in case dget function ''parameters'' of
           PDict parameters \<Rightarrow>
             if \<not> truthy name then types
             else (case dget parameters ''properties'' of
                     PDict properties \<Rightarrow>
                       AList.update (py_str (pe_repr pe) name)
                         (fold (\<lambda>(param, schema) declared. case declared_type schema of
                             None \<Rightarrow> declared | Some t \<Rightarrow> AList.update param t declared) properties []) types
                   | _ \<Rightarrow> types)
         | _ \<Rightarrow> types)"

definition parameter_types :: "parser_env \<Rightarrow> pyval \<Rightarrow> parser_error + param_types" where
  "parameter_types pe tools = rbind (tool_items tools) (\<lambda>ts. Inr (fold (add_tool pe) ts []))"

subsection \<open>Sections\<close>

text \<open>\<^verbatim>\<open>text.find(sub, i)\<close> and \<^verbatim>\<open>text.find(sub, i, j)\<close>; \<open>None\<close> for -1.\<close>

definition find_from :: "string \<Rightarrow> string \<Rightarrow> nat \<Rightarrow> nat option" where
  "find_from text sub i =
     (if i > length text then None else map_option (\<lambda>(a, b). i + length a) (partition_at sub (drop i text)))"

definition find_between :: "string \<Rightarrow> string \<Rightarrow> nat \<Rightarrow> nat \<Rightarrow> nat option" where
  "find_between text sub i j = find_from (take j text) sub i"

definition slice :: "string \<Rightarrow> nat \<Rightarrow> nat \<Rightarrow> string" where
  "slice text i j = drop i (take j text)"

lemma find_from_bounds: "find_from text sub i = Some k \<Longrightarrow> i \<le> k \<and> k \<le> length text"
  by (auto simp: find_from_def split: if_splits dest!: partition_at_Some arg_cong [of "drop i text" _ length])

lemma find_between_bounds: "find_between text sub i j = Some k \<Longrightarrow> i \<le> k"
  by (auto simp: find_between_def dest!: find_from_bounds)

definition sections_end :: "string \<Rightarrow> (string \<times> string) list \<Rightarrow> bool \<Rightarrow> nat \<Rightarrow> (string \<times> string) list \<times> bool" where
  "sections_end text sections well gap = (sections, well \<and> \<not> (sections \<noteq> [] \<and> strip (drop gap text) \<noteq> []))"

text \<open>
  The loop of \<^verbatim>\<open>_split_sections\<close>; \<open>name_end\<close> is the remembered position of a \<^verbatim>\<open>>\<close>, which may lie behind
  the names of several openers.
\<close>

function sections_loop ::
  "string \<Rightarrow> string \<Rightarrow> string \<Rightarrow> (string \<times> string) list \<Rightarrow> bool \<Rightarrow> nat \<Rightarrow> nat \<Rightarrow> nat option \<Rightarrow>
   (string \<times> string) list \<times> bool" where
  "sections_loop op cl text sections well gap pos name_end =
     (case find_from text op pos of
        None \<Rightarrow> sections_end text sections well gap
      | Some start \<Rightarrow>
          (let name_start = start + length op;
               name_end = (case name_end of Some e \<Rightarrow> if e < name_start then find_from text ''>'' name_start else name_end
                           | None \<Rightarrow> find_from text ''>'' name_start)
           in case name_end of
                None \<Rightarrow> sections_end text sections well gap
              | Some e \<Rightarrow>
                  (case find_between text [CHR 0x0A] name_start e of
                     Some line \<Rightarrow> sections_loop op cl text sections well gap (line + 1) name_end
                   | None \<Rightarrow>
                       (let name = slice text name_start e
                        in if strip name = [] then sections_loop op cl text sections well gap (e + 1) name_end
                           else (case find_from text cl (e + 1) of
                                   None \<Rightarrow> sections_end text sections well gap
                                 | Some close \<Rightarrow>
                                     sections_loop op cl text
                                       (sections @ [(strip name, slice text (e + 1) close)])
                                       (well \<and> \<not> (sections \<noteq> [] \<and> strip (slice text gap start) \<noteq> []))
                                       (close + length cl) (close + length cl) name_end)))))"
  by pat_completeness auto

termination
  by (relation "measure (\<lambda>(op, cl, text, sections, well, gap, pos, name_end). Suc (length text) - pos)")
    (auto dest!: find_from_bounds find_from_bounds [OF sym] find_between_bounds split: option.splits if_splits)

declare sections_loop.simps [simp del]

definition split_sections :: "string \<Rightarrow> string \<Rightarrow> string \<Rightarrow> (string \<times> string) list \<times> bool" where
  "split_sections text op cl = sections_loop op cl text [] True 0 0 None"

subsection \<open>Tool-call blocks\<close>

text \<open>
  The loop of \<^verbatim>\<open>BaseToolParser.parse\<close>. \<open>kept\<close> is the text since the last consumed block up to the
  cursor, \<open>rest\<close> the text from the cursor on; the result is the content parts and the calls.
\<close>

definition parse_or_retry :: "block_parser \<Rightarrow> string \<Rightarrow> string \<Rightarrow> parser_error + tool_call list option \<times> string" where
  "parse_or_retry block_parser before block =
     rbind (block_parser (strip block)) (\<lambda>r.
       if r = Some [] then
         (case rpartition_at TOOL_CALL_OPEN block of
            None \<Rightarrow> Inr (r, before)
          | Some (abandoned, inner) \<Rightarrow>
              rbind (block_parser (strip inner)) (\<lambda>r. Inr (r, before @ TOOL_CALL_OPEN @ abandoned)))
       else Inr (r, before))"

function scan_blocks ::
  "block_parser \<Rightarrow> string list \<Rightarrow> tool_call list \<Rightarrow> string \<Rightarrow> string \<Rightarrow> parser_error + string list \<times> tool_call list" where
  "scan_blocks block_parser parts calls kept rest =
     (case partition_at TOOL_CALL_OPEN rest of
        None \<Rightarrow> Inr (parts @ [kept @ rest], calls)
      | Some (before, tail) \<Rightarrow>
          (case partition_at TOOL_CALL_CLOSE tail of
             None \<Rightarrow> Inr (parts @ [kept @ rest], calls)
           | Some (block, rest') \<Rightarrow>
               (case parse_or_retry block_parser before block of
                  Inl e \<Rightarrow> Inl e
                | Inr (r, before') \<Rightarrow>
                    (case r of
                       Some (c # cs) \<Rightarrow> scan_blocks block_parser (parts @ [kept @ before']) (calls @ c # cs) [] rest'
                     | _ \<Rightarrow> scan_blocks block_parser parts calls
                              (kept @ before @ TOOL_CALL_OPEN @ block @ TOOL_CALL_CLOSE) rest'))))"
  by pat_completeness auto

termination
  by (relation "measure (\<lambda>(block_parser, parts, calls, kept, rest). length rest)")
    (auto dest!: partition_at_Some simp: TOOL_CALL_OPEN_def)

declare scan_blocks.simps [simp del]

definition parse_blocks :: "block_parser \<Rightarrow> string \<Rightarrow> parser_error + string \<times> tool_call list" where
  "parse_blocks block_parser text =
     rbind (scan_blocks block_parser [] [] [] text) (\<lambda>(parts, calls). Inr (strip (concat parts), calls))"

subsection \<open>Calls from JSON objects\<close>

definition written :: "parser_env \<Rightarrow> pyval \<Rightarrow> parser_error + string" where
  "written pe v = (case dumps (pe_json pe) v of Inl _ \<Rightarrow> Inl RecursionLimit | Inr s \<Rightarrow> Inr s)"

text \<open>\<^verbatim>\<open>try: json.loads(...) except ValueError\<close>: \<open>None\<close> is the handler.\<close>

definition try_loads :: "parser_env \<Rightarrow> string \<Rightarrow> parser_error + pyval option" where
  "try_loads pe s =
     (case loads (pe_json pe) s of
        Inr v \<Rightarrow> Inr (Some v)
      | Inl BadJson \<Rightarrow> Inr None
      | Inl TooDeep \<Rightarrow> Inl RecursionLimit)"

definition tool_call_from_object :: "parser_env \<Rightarrow> pyval \<Rightarrow> parser_error + tool_call option" where
  "tool_call_from_object pe obj =
     (case obj of
        PDict d \<Rightarrow>
          if \<not> truthy (dget d ''name'') then Inr None
          else
            (let name = py_str (pe_repr pe) (dget d ''name'');
                 arguments = (if dget d ''arguments'' = PNone then dget d ''parameters'' else dget d ''arguments'')
             in case arguments of
                  PStr s \<Rightarrow> Inr (Some (name, s))
                | PDict a \<Rightarrow> rbind (written pe (PDict a)) (\<lambda>s. Inr (Some (name, s)))
                | _ \<Rightarrow> rbind (written pe (PDict [])) (\<lambda>s. Inr (Some (name, s))))
      | _ \<Rightarrow> Inr None)"

definition hermes_block :: "parser_env \<Rightarrow> block_parser" where
  "hermes_block pe block =
     rbind (try_loads pe block) (\<lambda>v.
       case v of
         None \<Rightarrow> Inr (Some [])
       | Some v \<Rightarrow> rbind (tool_call_from_object pe v) (\<lambda>c.
           Inr (Some (case c of None \<Rightarrow> [] | Some c \<Rightarrow> [c]))))"

text \<open>One object or an array of them, every one a call.\<close>

fun all_calls :: "parser_env \<Rightarrow> pyval list \<Rightarrow> parser_error + tool_call list" where
  "all_calls pe [] = Inr []"
| "all_calls pe (v # vs) =
     rbind (tool_call_from_object pe v) (\<lambda>c.
       case c of
         None \<Rightarrow> Inr []
       | Some c \<Rightarrow> rbind (all_calls pe vs) (\<lambda>cs. Inr (if cs = [] \<and> vs \<noteq> [] then [] else c # cs)))"

definition llama_calls :: "parser_env \<Rightarrow> string \<Rightarrow> parser_error + tool_call list" where
  "llama_calls pe text =
     (case text of
        [] \<Rightarrow> Inr []
      | c # _ \<Rightarrow>
          if c \<noteq> CHR ''{'' \<and> c \<noteq> CHR ''['' then Inr []
          else rbind (try_loads pe text) (\<lambda>v.
            case v of
              None \<Rightarrow> Inr []
            | Some (PList vs) \<Rightarrow> all_calls pe vs
            | Some v \<Rightarrow> all_calls pe [v]))"

definition parse_llama3 :: "parser_env \<Rightarrow> string \<Rightarrow> parser_error + string \<times> tool_call list" where
  "parse_llama3 pe text =
     rbind (llama_calls pe (strip text)) (\<lambda>calls. Inr (if calls = [] then (strip text, []) else ([], calls)))"

subsection \<open>Typed arguments\<close>

definition coerce :: "parser_env \<Rightarrow> string \<Rightarrow> string option \<Rightarrow> parser_error + pyval" where
  "coerce pe value declared =
     (if (case declared of None \<Rightarrow> False | Some t \<Rightarrow> t \<in> set STRING_TYPES) then Inr (PStr value)
      else rbind (try_loads pe value) (\<lambda>v. Inr (case v of None \<Rightarrow> PStr value | Some v \<Rightarrow> v)))"

definition declared_for :: "param_types \<Rightarrow> string \<Rightarrow> (string, string) odict" where
  "declared_for types name = (case map_of types name of None \<Rightarrow> [] | Some d \<Rightarrow> d)"

definition trim_newlines :: "string \<Rightarrow> string" where
  "trim_newlines s =
     (let t = (case s of c # cs \<Rightarrow> if c = CHR 0x0A then cs else s | [] \<Rightarrow> s)
      in if t \<noteq> [] \<and> last t = CHR 0x0A then butlast t else t)"

fun qwen_arguments ::
  "parser_env \<Rightarrow> (string, string) odict \<Rightarrow> (string \<times> string) list \<Rightarrow> pydict \<Rightarrow> parser_error + pydict" where
  "qwen_arguments pe declared [] d = Inr d"
| "qwen_arguments pe declared ((key, value) # params) d =
     rbind (coerce pe (trim_newlines value) (map_of declared key)) (\<lambda>v.
       qwen_arguments pe declared params (dset key v d))"

fun qwen_functions :: "parser_env \<Rightarrow> param_types \<Rightarrow> (string \<times> string) list \<Rightarrow> parser_error + tool_call list option" where
  "qwen_functions pe types [] = Inr (Some [])"
| "qwen_functions pe types ((name, body) # functions) =
     (case split_sections body ''<parameter='' ''</parameter>'' of (params, well) \<Rightarrow>
        if \<not> well \<or> params = [] \<and> strip body \<noteq> [] then Inr None
        else
          rbind (qwen_arguments pe (declared_for types name) params []) (\<lambda>d.
          rbind (written pe (PDict d)) (\<lambda>s.
          rbind (qwen_functions pe types functions) (\<lambda>r.
            Inr (map_option ((#) (name, s)) r)))))"

definition qwen_block :: "parser_env \<Rightarrow> param_types \<Rightarrow> block_parser" where
  "qwen_block pe types block =
     (case split_sections block ''<function='' ''</function>'' of (functions, well) \<Rightarrow>
        if \<not> well then Inr None else qwen_functions pe types functions)"

text \<open>The key and value pairs of a GLM block, from behind an \<^verbatim>\<open><arg_key>\<close> on.\<close>

function glm_arguments ::
  "parser_env \<Rightarrow> (string, string) odict \<Rightarrow> string \<Rightarrow> pydict \<Rightarrow> parser_error + pydict option" where
  "glm_arguments pe declared rest d =
     (case partition_at ''</arg_key>'' rest of
        None \<Rightarrow> Inr None
      | Some (key, rest) \<Rightarrow>
          (let key = strip key in
           if key = [] \<or> CHR ''<'' \<in> set key \<or> CHR ''>'' \<in> set key \<or> has_key d key then Inr None
           else
             (let rest = lstrip rest in
              if \<not> prefix ''<arg_value>'' rest then Inr None
              else
                (case partition_at ''</arg_value>'' (drop (length ''<arg_value>'') rest) of
                   None \<Rightarrow> Inr None
                 | Some (value, rest) \<Rightarrow>
                     (case coerce pe value (map_of declared key) of
                        Inl e \<Rightarrow> Inl e
                      | Inr v \<Rightarrow>
                          (let d = dset key v d; rest = strip rest in
                           if rest = [] then Inr (Some d)
                           else if \<not> prefix ''<arg_key>'' rest then Inr None
                           else glm_arguments pe declared (drop (length ''<arg_key>'') rest) d))))))"
  by pat_completeness auto

definition glm_block :: "parser_env \<Rightarrow> param_types \<Rightarrow> block_parser" where
  "glm_block pe types block =
     (let (name, rest) = (case partition_at ''<arg_key>'' block of None \<Rightarrow> (block, None) | Some (a, b) \<Rightarrow> (a, Some b));
          name = strip name
      in if name = [] \<or> list_ex (\<lambda>c. is_space c \<or> c = CHR ''<'' \<or> c = CHR ''>'') name then Inr None
         else
           rbind (case rest of None \<Rightarrow> Inr (Some []) | Some r \<Rightarrow> glm_arguments pe (declared_for types name) r []) (\<lambda>d.
             case d of
               None \<Rightarrow> Inr None
             | Some d \<Rightarrow> rbind (written pe (PDict d)) (\<lambda>s. Inr (Some [(name, s)]))))"

lemma dropWhile_length: "length (dropWhile P s) \<le> length s"
  by (rule length_dropWhile_le)

lemma strip_length: "length (strip s) \<le> length s"
  using dropWhile_length [of is_space "rev (lstrip s)"] dropWhile_length [of is_space s]
  by (simp add: strip_def lstrip_def)

lemma partition_at_length: "partition_at sep s = Some (a, b) \<Longrightarrow> length b + length sep \<le> length s"
  by (auto dest: partition_at_Some)

termination glm_arguments
proof (relation "measure (\<lambda>(pe, declared, rest, d). length rest)", goal_cases)
  case 1
  then show ?case by simp
next
  case (2 pe declared rest d x2 x y xa xb x2a xc ya b xd xe)
  from 2(1,2) have "partition_at ''</arg_key>'' rest = Some (x, y)" by simp
  then have "length y < length rest" by (auto dest!: partition_at_length)
  moreover from 2(7,8) have "partition_at ''</arg_value>'' (drop (length ''<arg_value>'') xb) = Some (xc, ya)" by simp
  then have "length ya \<le> length xb" by (auto dest!: partition_at_length)
  moreover have "length xb \<le> length y" "length xe \<le> length ya"
    using 2(5,11) dropWhile_length [of is_space y] strip_length [of ya] by (simp_all add: lstrip_def)
  ultimately show ?case by simp
qed

declare glm_arguments.simps [simp del]

end
