(* ===== verification/Harmony.thy ===== *)
theory Harmony
  imports Json
begin

section \<open>Harmony completions\<close>

text \<open>
  \<^verbatim>\<open>tokenization/harmony.py\<close> and \<^verbatim>\<open>HarmonyToolParser\<close> of \<^verbatim>\<open>tool_parser.py\<close>: a gpt-oss completion is a
  sequence of messages delimited by structural token ids. A completion is first cut into parts, a
  marker or the decoded text between two markers; everything else looks at the parts only, so a text
  that spells a marker delimits nothing. The decoder is an argument and may raise (\<open>None\<close>).
\<close>

subsection \<open>Markers and parts\<close>

datatype part = Marker int | Text string

definition START :: int where "START = 200006"
definition END :: int where "END = 200007"
definition MESSAGE :: int where "MESSAGE = 200008"
definition CHANNEL :: int where "CHANNEL = 200005"
definition CONSTRAIN :: int where "CONSTRAIN = 200003"
definition RETURN :: int where "RETURN = 200002"
definition CALL :: int where "CALL = 200012"
definition END_OF_TEXT :: int where "END_OF_TEXT = 199999"

lemmas marker_ids = START_def END_def MESSAGE_def CHANNEL_def CONSTRAIN_def RETURN_def CALL_def END_OF_TEXT_def

definition MARKERS :: "(int \<times> string) list" where
  "MARKERS = [(START, ''<|start|>''), (END, ''<|end|>''), (MESSAGE, ''<|message|>''), (CHANNEL, ''<|channel|>''),
     (CONSTRAIN, ''<|constrain|>''), (RETURN, ''<|return|>''), (CALL, ''<|call|>''), (END_OF_TEXT, ''<|endoftext|>'')]"

definition BOUNDARIES :: "int list" where "BOUNDARIES = [START, END, RETURN, CALL, END_OF_TEXT]"

definition ACTION_ENDINGS :: "int list" where "ACTION_ENDINGS = [RETURN, CALL, END_OF_TEXT]"

definition is_boundary :: "part \<Rightarrow> bool" where
  "is_boundary p = (case p of Marker m \<Rightarrow> m \<in> set BOUNDARIES | Text t \<Rightarrow> False)"

definition marker_text :: "int \<Rightarrow> string" where
  "marker_text m = (case map_of MARKERS m of None \<Rightarrow> [] | Some t \<Rightarrow> t)"

text \<open>The text of a part inside a body: a marker that is no boundary is spelled out.\<close>

definition part_text :: "part \<Rightarrow> string" where
  "part_text p = (case p of Marker m \<Rightarrow> marker_text m | Text t \<Rightarrow> t)"

record harmony_message =
  hm_channel :: "string option"
  hm_recipient :: "string option"
  hm_body :: string
  hm_ending :: "string option"

subsection \<open>Headers\<close>

text \<open>\<^verbatim>\<open>text.split()\<close>.\<close>

function words :: "string \<Rightarrow> string list" where
  "words s =
     (case lstrip s of
        [] \<Rightarrow> []
      | c # cs \<Rightarrow> takeWhile (\<lambda>c. \<not> is_space c) (c # cs) # words (dropWhile (\<lambda>c. \<not> is_space c) (c # cs)))"
  by pat_completeness auto

lemma lstrip_Cons: "lstrip s = c # cs \<Longrightarrow> \<not> is_space c \<and> length cs < length s"
proof -
  assume a: "lstrip s = c # cs"
  then have "dropWhile is_space s \<noteq> []" by (simp add: lstrip_def)
  then have "\<not> is_space c" using hd_dropWhile [of is_space s] a by (simp add: lstrip_def)
  moreover have "length (c # cs) \<le> length s" using length_dropWhile_le [of is_space s] a by (simp add: lstrip_def)
  ultimately show ?thesis by simp
qed

termination words
  by (relation "measure length")
    (auto dest!: lstrip_Cons intro: le_less_trans [OF length_dropWhile_le])

declare words.simps [simp del]

text \<open>
  The header up to the message marker: the joined header text, the channel, and the parts behind the
  marker. \<open>None\<close> when the header is not finished.
\<close>

fun scan_header :: "part list \<Rightarrow> string \<Rightarrow> string option \<Rightarrow> (string \<times> string option \<times> part list) option" where
  "scan_header [] header channel = None"
| "scan_header (Text t # ps) header channel = scan_header ps (header @ t) channel"
| "scan_header (Marker m # ps) header channel =
     (if m = MESSAGE then Some (header, channel, ps)
      else if m \<in> set BOUNDARIES then None
      else scan_header ps (header @ '' '')
             (if m = CHANNEL
              then (case ps of Text t # _ \<Rightarrow> (case words t of [] \<Rightarrow> None | w # _ \<Rightarrow> Some w) | _ \<Rightarrow> channel)
              else channel))"

text \<open>
  \<^verbatim>\<open>_RECIPIENT.search(" ".join(fields))\<close>: the first field \<^verbatim>\<open>to=...\<close> that goes on with a character other
  than an angle bracket; fields hold no blanks.
\<close>

fun recipient_of :: "string list \<Rightarrow> string option" where
  "recipient_of [] = None"
| "recipient_of (f # fs) =
     (let name = takeWhile (\<lambda>c. c \<noteq> CHR ''<'' \<and> c \<noteq> CHR ''>'') (drop 3 f)
      in if prefix ''to='' f \<and> name \<noteq> [] then Some name else recipient_of fs)"

subsection \<open>Messages\<close>

lemma scan_header_length: "scan_header ps h c = Some (h', c', ps') \<Longrightarrow> length ps' < length ps"
  by (induction ps h c rule: scan_header.induct) (auto split: if_splits)

function harmony_loop :: "part list \<Rightarrow> harmony_message list" where
  "harmony_loop ps =
     (case ps of
        Marker m # ps1 \<Rightarrow>
          if m \<noteq> START then []
          else (case scan_header ps1 [] None of
                  None \<Rightarrow> []
                | Some (header, channel, ps2) \<Rightarrow>
                    (let fields = words header in
                     if fields = [] \<or> hd fields \<noteq> ''assistant'' then []
                     else
                       (let body = concat (map part_text (takeWhile (\<lambda>p. \<not> is_boundary p) ps2));
                            message = (\<lambda>ending. \<lparr>hm_channel = channel, hm_recipient = recipient_of fields, hm_body = body,
                                                 hm_ending = ending\<rparr>)
                        in case dropWhile (\<lambda>p. \<not> is_boundary p) ps2 of
                             Marker e # ps3 \<Rightarrow>
                               if e \<in> set ACTION_ENDINGS then [message (Some (marker_text e))]
                               else if e = START then message None # harmony_loop (Marker e # ps3)
                               else message (Some (marker_text e)) # harmony_loop ps3
                           | _ \<Rightarrow> [message None])))
      | _ \<Rightarrow> [])"
  by pat_completeness auto

lemma dropWhile_Cons_length: "dropWhile P xs = y # ys \<Longrightarrow> length ys < length xs"
  using length_dropWhile_le [of P xs] by simp

termination harmony_loop
proof (relation "measure length", goal_cases)
qed (auto dest!: scan_header_length dropWhile_Cons_length)

declare harmony_loop.simps [simp del]

definition assistant_parts :: "part list \<Rightarrow> harmony_message list" where
  "assistant_parts ps =
     harmony_loop (case ps of Marker m # _ \<Rightarrow> if m = START then ps else Marker START # Text ''assistant'' # ps
                   | _ \<Rightarrow> Marker START # Text ''assistant'' # ps)"

text \<open>\<^verbatim>\<open>assistant_messages_from_tokens\<close>: spans of ordinary tokens are decoded one by one.\<close>

fun token_parts :: "(int list \<Rightarrow> string option) \<Rightarrow> int list \<Rightarrow> int list \<Rightarrow> part list option" where
  "token_parts decode pending [] =
     (if pending = [] then Some [] else map_option (\<lambda>t. [Text t]) (decode pending))"
| "token_parts decode pending (t # ts) =
     (if map_of MARKERS t = None then token_parts decode (pending @ [t]) ts
      else if pending = [] then map_option ((#) (Marker t)) (token_parts decode [] ts)
      else (case decode pending of
              None \<Rightarrow> None
            | Some s \<Rightarrow> map_option (\<lambda>ps. Text s # Marker t # ps) (token_parts decode [] ts)))"

definition messages_from_tokens :: "(int list \<Rightarrow> string option) \<Rightarrow> int list \<Rightarrow> harmony_message list option" where
  "messages_from_tokens decode ids = map_option assistant_parts (token_parts decode [] ids)"

text \<open>\<^verbatim>\<open>assistant_messages\<close>: the text is split at every spelling of a marker; empty parts are dropped.\<close>

definition text_chunk :: "string \<Rightarrow> part list" where
  "text_chunk s = (if s = [] then [] else [Text s])"

definition marker_at :: "string \<Rightarrow> (int \<times> string) option" where
  "marker_at s = (case filter (\<lambda>(m, t). prefix t s) MARKERS of [] \<Rightarrow> None | m # _ \<Rightarrow> Some m)"

lemma marker_at_nonempty: "marker_at s = Some (m, t) \<Longrightarrow> t \<noteq> []"
  by (auto simp: marker_at_def MARKERS_def split: list.splits if_splits dest!: arg_cong [of _ "_ # _" set])

function text_parts :: "string \<Rightarrow> string \<Rightarrow> part list" where
  "text_parts pending s =
     (case s of
        [] \<Rightarrow> text_chunk pending
      | c # cs \<Rightarrow>
          (case marker_at s of
             None \<Rightarrow> text_parts (pending @ [c]) cs
           | Some (m, t) \<Rightarrow> text_chunk pending @ Marker m # text_parts [] (drop (length t) s)))"
  by pat_completeness auto

termination text_parts
  by (relation "measure (\<lambda>(pending, s). length s)") (auto dest: marker_at_nonempty)

declare text_parts.simps [simp del]

definition messages_from_text :: "string \<Rightarrow> harmony_message list" where
  "messages_from_text s = assistant_parts (text_parts [] s)"

subsection \<open>Reasoning and tool calls\<close>

definition blank_line :: string where "blank_line = [CHR 0x0A, CHR 0x0A]"

definition some_text :: "string \<Rightarrow> string option" where
  "some_text s = (if s = [] then None else Some s)"

definition harmony_reasoning :: "harmony_message list \<Rightarrow> string option" where
  "harmony_reasoning ms =
     some_text (join blank_line (map (\<lambda>m. strip (hm_body m))
       (filter (\<lambda>m. hm_channel m = Some ''analysis'' \<and> hm_recipient m = None \<and> strip (hm_body m) \<noteq> []) ms)))"

definition harmony_strip :: "harmony_message list \<Rightarrow> string" where
  "harmony_strip ms =
     join blank_line (map hm_body (filter (\<lambda>m. hm_channel m \<noteq> Some ''analysis'' \<and> hm_recipient m = None) ms))"

fun all_finite :: "pyval \<Rightarrow> bool" where
  "all_finite (PFloat f) = is_fin f"
| "all_finite (PList vs) = list_all all_finite vs"
| "all_finite (PTuple vs) = list_all all_finite vs"
| "all_finite (PDict d) = list_all (\<lambda>(k, v). all_finite v) d"
| "all_finite _ = True"

text \<open>
  What \<^verbatim>\<open>_parse_messages\<close> makes of a message: the call, if it is one. The body must be a JSON object
  without infinite numbers; exceeding the recursion limit is not caught.
\<close>

definition function_call :: "json_env \<Rightarrow> harmony_message \<Rightarrow> json_error + (string \<times> string) option" where
  "function_call je m =
     (case hm_recipient m of
        None \<Rightarrow> Inr None
      | Some r \<Rightarrow>
          if prefix ''functions.'' r \<and> hm_ending m = Some (marker_text CALL) then
            (case loads je (strip (hm_body m)) of
               Inl TooDeep \<Rightarrow> Inl TooDeep
             | Inl BadJson \<Rightarrow> Inr None
             | Inr v \<Rightarrow> Inr (if drop 10 r \<noteq> [] \<and> is_dict v \<and> all_finite v then Some (drop 10 r, strip (hm_body m)) else None))
          else Inr None)"

text \<open>The lists of contents, calls and reasoning texts.\<close>

fun sort_messages ::
  "json_env \<Rightarrow> harmony_message list \<Rightarrow> json_error + string list \<times> (string \<times> string) list \<times> string list" where
  "sort_messages je [] = Inr ([], [], [])"
| "sort_messages je (m # ms) =
     rbind (function_call je m) (\<lambda>call.
     rbind (sort_messages je ms) (\<lambda>(content, calls, reasoning).
       Inr (case call of
              Some c \<Rightarrow> (content, c # calls, reasoning)
            | None \<Rightarrow>
                if hm_recipient m = None \<and> hm_channel m = Some ''analysis''
                then (content, calls, (if strip (hm_body m) = [] then [] else [strip (hm_body m)]) @ reasoning)
                else ((if hm_body m = [] then [] else [hm_body m]) @ content, calls, reasoning))))"

definition parse_messages ::
  "json_env \<Rightarrow> harmony_message list \<Rightarrow> json_error + string \<times> string option \<times> (string \<times> string) list" where
  "parse_messages je ms =
     rbind (sort_messages je ms) (\<lambda>(content, calls, reasoning).
       Inr (join blank_line content, some_text (join blank_line reasoning), calls))"

end
