(* ===== verification/CompletionParsing.thy ===== *)
theory CompletionParsing
  imports ToolParser Harmony
begin

section \<open>From a completion to its response fields\<close>

text \<open>
  Which parser a profile's dialect uses (\<^verbatim>\<open>resolve_parser_class\<close>) and how a completion is decoded, freed of
  reasoning and parsed (\<^verbatim>\<open>BaseToolParser.extract_completion\<close>, \<^verbatim>\<open>HarmonyToolParser.extract_completion\<close>), with the
  GLM reasoning segments of \<^verbatim>\<open>glm5_3.py\<close> and the reasoning parsers of \<^verbatim>\<open>base.py\<close> over the think markers that
  count. The search for these markers (\<^verbatim>\<open>_reasoning_markers\<close>) and the tokenizer's decoder are arguments.
\<close>

subsection \<open>Dialects\<close>

datatype dialect = Hermes | Llama3Json | Qwen3Coder | GLM47 | GptOss

definition PARSERS :: "(string \<times> dialect) list" where
  "PARSERS = [(''hermes'', Hermes), (''llama3_json'', Llama3Json), (''qwen3_coder'', Qwen3Coder), (''glm47'', GLM47),
     (''gpt_oss'', GptOss)]"

definition resolve_parser_class :: "parser_env \<Rightarrow> pyval \<Rightarrow> dialect option" where
  "resolve_parser_class pe name = map_of PARSERS (map lower_char (strip (py_str (pe_repr pe) name)))"

text \<open>The parser of one block, for the dialects that have blocks. The declared types are read when a block exists.\<close>

definition dialect_block :: "parser_env \<Rightarrow> pyval \<Rightarrow> dialect \<Rightarrow> block_parser option" where
  "dialect_block pe tools d =
     (case d of
        Hermes \<Rightarrow> Some (hermes_block pe)
      | Qwen3Coder \<Rightarrow> Some (\<lambda>b. rbind (parameter_types pe tools) (\<lambda>types. qwen_block pe types b))
      | GLM47 \<Rightarrow> Some (\<lambda>b. rbind (parameter_types pe tools) (\<lambda>types. glm_block pe types b))
      | _ \<Rightarrow> None)"

definition harmony_result :: "parser_env \<Rightarrow> harmony_message list \<Rightarrow> parser_error + string \<times> string option \<times> tool_call list" where
  "harmony_result pe ms = (case parse_messages (pe_json pe) ms of Inl _ \<Rightarrow> Inl RecursionLimit | Inr r \<Rightarrow> Inr r)"

text \<open>\<^verbatim>\<open>parse\<close> of each class; \<open>None\<close> is \<^verbatim>\<open>NullToolParser\<close>.\<close>

definition parse_text :: "parser_env \<Rightarrow> dialect option \<Rightarrow> pyval \<Rightarrow> string \<Rightarrow> parser_error + string \<times> tool_call list" where
  "parse_text pe d tools text =
     (case d of
        None \<Rightarrow> Inr (strip text, [])
      | Some Llama3Json \<Rightarrow> parse_llama3 pe text
      | Some GptOss \<Rightarrow> rbind (harmony_result pe (messages_from_text text)) (\<lambda>(content, _, calls). Inr (content, calls))
      | Some d \<Rightarrow> (case dialect_block pe tools d of None \<Rightarrow> Inr (text, []) | Some block \<Rightarrow> parse_blocks block text))"

subsection \<open>Reasoning\<close>

text \<open>A marker is its position and whether it opens; \<^verbatim>\<open>_think_spans\<close> pairs them to start, body, close and end.\<close>

type_synonym think_markers = "string \<Rightarrow> (nat \<times> bool) list"

type_synonym think_span = "nat \<times> nat \<times> nat option \<times> nat"

definition THINK_OPEN :: string where "THINK_OPEN = ''<think>''"

definition THINK_CLOSE :: string where "THINK_CLOSE = ''</think>''"

fun span_loop :: "string \<Rightarrow> nat option \<Rightarrow> nat \<Rightarrow> bool \<Rightarrow> (nat \<times> bool) list \<Rightarrow> think_span list" where
  "span_loop s start body first [] = (case start of None \<Rightarrow> [] | Some i \<Rightarrow> [(i, body, None, length s)])"
| "span_loop s start body first ((p, opens) # ms) =
     (if opens then
        span_loop s (Some (case start of Some i \<Rightarrow> i | None \<Rightarrow> if first \<and> strip (take p s) = [] then 0 else p))
          (p + length THINK_OPEN) False ms
      else if start \<noteq> None \<or> first then
        ((case start of Some i \<Rightarrow> i | None \<Rightarrow> 0), body, Some p, p + length THINK_CLOSE) # span_loop s None 0 False ms
      else span_loop s start body False ms)"

definition think_spans :: "think_markers \<Rightarrow> string \<Rightarrow> think_span list" where
  "think_spans markers text = span_loop text None 0 True (markers text)"

text \<open>\<^verbatim>\<open>ThinkReasoning\<close>.\<close>

definition think_extract :: "think_markers \<Rightarrow> string \<Rightarrow> string option" where
  "think_extract markers text =
     (case think_spans markers text of
        (_, body, Some close, _) # _ \<Rightarrow> some_text (strip (slice text body close))
      | _ \<Rightarrow> None)"

definition newlines_from :: "string \<Rightarrow> nat \<Rightarrow> nat" where
  "newlines_from text pos = length (takeWhile (\<lambda>c. c = CHR 0x0A) (drop pos text))"

fun strip_spans :: "string \<Rightarrow> nat \<Rightarrow> think_span list \<Rightarrow> string" where
  "strip_spans text pos [] = drop pos text"
| "strip_spans text pos ((start, body, close, end) # spans) =
     slice text pos start @
     strip_spans text
       (if start = 0 then end + newlines_from text end
        else if prefix blank_line (drop end text) then end + 2 else end) spans"

definition think_strip :: "think_markers \<Rightarrow> string \<Rightarrow> string" where
  "think_strip markers text = strip_spans text 0 (think_spans markers text)"

text \<open>The last occurrence of a marker, \<^verbatim>\<open>text.rfind(sub)\<close>.\<close>

definition rfind :: "string \<Rightarrow> string \<Rightarrow> int" where
  "rfind text sub = (case rpartition_at sub text of None \<Rightarrow> -1 | Some (a, _) \<Rightarrow> int (length a))"

text \<open>\<^verbatim>\<open>GLMReasoning._segments\<close>: text and tool bodies alternate; open reasoning before a call is closed.\<close>

definition close_reasoning :: "string \<Rightarrow> string" where
  "close_reasoning before =
     (if rfind before THINK_OPEN > rfind before THINK_CLOSE then before @ THINK_CLOSE else before)"

function glm_segments :: "string \<Rightarrow> (string \<times> bool) list" where
  "glm_segments text =
     (case partition_at TOOL_CALL_OPEN text of
        None \<Rightarrow> [(text, False)]
      | Some (before, tail) \<Rightarrow>
          (close_reasoning before, False) #
          (case partition_at TOOL_CALL_CLOSE tail of
             None \<Rightarrow> [(TOOL_CALL_OPEN @ tail, True)]
           | Some (body, rest) \<Rightarrow> (TOOL_CALL_OPEN @ body @ TOOL_CALL_CLOSE, True) # glm_segments rest))"
  by pat_completeness auto

termination
  by (relation "measure length") (auto dest!: partition_at_length simp: TOOL_CALL_OPEN_def)

declare glm_segments.simps [simp del]

definition glm_extract :: "think_markers \<Rightarrow> string \<Rightarrow> string option" where
  "glm_extract markers text =
     (case filter (\<lambda>(part, is_tool). \<not> is_tool \<and> sublist THINK_CLOSE part) (glm_segments text) of
        [] \<Rightarrow> None
      | (part, _) # _ \<Rightarrow> think_extract markers part)"

definition glm_strip :: "think_markers \<Rightarrow> string \<Rightarrow> string" where
  "glm_strip markers text =
     concat (map (\<lambda>(part, is_tool). if is_tool then part else think_strip markers part) (glm_segments text))"

subsection \<open>Completions\<close>

datatype reasoning = NoReasoning | ThinkReasoning | GLMReasoning

definition strip_reasoning :: "think_markers \<Rightarrow> reasoning \<Rightarrow> string \<Rightarrow> string" where
  "strip_reasoning markers r text =
     (case r of NoReasoning \<Rightarrow> text | ThinkReasoning \<Rightarrow> think_strip markers text | GLMReasoning \<Rightarrow> glm_strip markers text)"

definition extract_reasoning :: "think_markers \<Rightarrow> reasoning \<Rightarrow> string \<Rightarrow> string option" where
  "extract_reasoning markers r text =
     (case r of NoReasoning \<Rightarrow> None | ThinkReasoning \<Rightarrow> think_extract markers text | GLMReasoning \<Rightarrow> glm_extract markers text)"

text \<open>
  What the provider calls: content, reasoning and calls of a completion, \<open>None\<close> when decoding or parsing
  raises. \<open>decode skip ids\<close> is the tokenizer's decoder; \<open>text\<close> is the provider's own decoding.
\<close>

definition extract_completion ::
  "parser_env \<Rightarrow> think_markers \<Rightarrow> (bool \<Rightarrow> int list \<Rightarrow> string option) \<Rightarrow> dialect option \<Rightarrow> reasoning \<Rightarrow>
   int list \<Rightarrow> pyval \<Rightarrow> string \<Rightarrow> decoded_completion option" where
  "extract_completion pe markers decode d r ids tools text =
     (if d = Some GptOss then
        (case map_option (harmony_result pe) (messages_from_tokens (decode False) ids) of
           Some (Inr (content, reason, calls)) \<Rightarrow>
             Some \<lparr>dc_content = Some content, dc_reasoning = reason, dc_calls = calls\<rparr>
         | _ \<Rightarrow> None)
      else
        (case map_option (\<lambda>t. parse_text pe d tools (strip_reasoning markers r t)) (decode True ids) of
           Some (Inr (content, calls)) \<Rightarrow>
             Some \<lparr>dc_content = Some content, dc_reasoning = extract_reasoning markers r text, dc_calls = calls\<rparr>
         | _ \<Rightarrow> None))"

end
