(* ===== verification/JsonProperties.thy ===== *)
theory JsonProperties
  imports Json
begin

section \<open>Properties of JSON\<close>

text \<open>
  What is written is read back (\<open>loads_dumps\<close>): a value without tuples, with distinct keys, integers of
  at most 4300 digits and floats whose text denotes them. What is read is such a value, up to its
  floats, and nested no deeper than the recursion limit (\<open>loads_form\<close>).
\<close>

subsection \<open>What is written is read back\<close>

text \<open>What may follow a value: the end, or a separator.\<close>

definition stops :: "string \<Rightarrow> bool" where
  "stops r \<longleftrightarrow> r = [] \<or> hd r \<in> {CHR '','', CHR '']'', CHR ''}''}"

lemma while_stop:
  "r = [] \<or> \<not> P (hd r) \<Longrightarrow> takeWhile P (s @ r) = takeWhile P s"
  "r = [] \<or> \<not> P (hd r) \<Longrightarrow> dropWhile P (s @ r) = dropWhile P s @ r"
  by (cases r; induction s; auto)+

lemma stops_not:
  assumes "stops r" and "r \<noteq> []"
  shows "\<not> is_digit (hd r)" "hd r \<noteq> CHR ''.''" "hd r \<noteq> CHR ''e''" "hd r \<noteq> CHR ''E''" "hd r \<noteq> CHR ''+''" "hd r \<noteq> CHR ''-''"
    "\<not> json_space (hd r)"
  using assms by (auto simp: stops_def is_digit_def json_space_def)

lemma digits_stop:
  "stops r \<Longrightarrow> takeWhile is_digit (s @ r) = takeWhile is_digit s"
  "stops r \<Longrightarrow> dropWhile is_digit (s @ r) = dropWhile is_digit s @ r"
  using stops_not(1) [of r] while_stop [of r is_digit] by blast+

lemma scan_digits_append:
  "scan_digits s = Some (ds, u) \<Longrightarrow> stops r \<Longrightarrow> scan_digits (s @ r) = Some (ds, u @ r)"
  by (cases s) (auto simp: scan_digits_def digits_stop split: if_splits)

lemma scan_frac_append: "stops r \<Longrightarrow> scan_frac (s @ r) = (fst (scan_frac s), snd (scan_frac s) @ r)"
proof -
  assume r: "stops r"
  consider "s = []" | p where "s = [p]" | p d cs where "s = p # d # cs" by (metis list.exhaust)
  then show ?thesis
  proof cases
    case 1
    then show ?thesis using stops_not [OF r] by (cases r) (auto simp: scan_frac_def split: list.splits)
  next
    case (2 p)
    then show ?thesis using stops_not [OF r] by (cases r) (auto simp: scan_frac_def split: list.splits)
  next
    case (3 p d cs)
    then show ?thesis by (auto simp: scan_frac_def digits_stop [OF r])
  qed
qed

lemma scan_exp_append: "stops r \<Longrightarrow> scan_exp (s @ r) = (fst (scan_exp s), snd (scan_exp s) @ r)"
proof -
  assume r: "stops r"
  have none: "takeWhile is_digit r = []" using digits_stop(1) [OF r, of "[]"] by simp
  consider "s = []" | e where "s = [e]" | e c cs where "s = e # c # cs" by (metis list.exhaust)
  then show ?thesis
  proof cases
    case 1
    then show ?thesis using stops_not [OF r] by (cases r) (auto simp: scan_exp_def)
  next
    case (2 e)
    then show ?thesis using stops_not [OF r] none by (cases r) (auto simp: scan_exp_def)
  next
    case (3 e c cs)
    then show ?thesis by (auto simp: scan_exp_def Let_def digits_stop [OF r])
  qed
qed

lemma scan_number_append:
  assumes "scan_number je s = Inr (v, [])" and "stops r"
  shows "scan_number je (s @ r) = Inr (v, r)"
proof -
  define sign t where "sign = (case s of c # cs \<Rightarrow> if c = CHR ''-'' then [c] else [] | [] \<Rightarrow> [])"
    and "t = (case s of c # cs \<Rightarrow> if c = CHR ''-'' then cs else s | [] \<Rightarrow> s)"
  have s: "(case s of c # cs \<Rightarrow> if c = CHR ''-'' then ([c], cs) else ([], s) | [] \<Rightarrow> ([], s)) = (sign, t)"
    by (simp add: sign_def t_def split: list.split)
  have "scan_digits t \<noteq> None" using assms(1) unfolding scan_number_def s by (auto split: option.splits)
  then obtain ds u where d: "scan_digits t = Some (ds, u)" by (metis option.exhaust surj_pair)
  have ne: "s \<noteq> []" using d by (auto simp: t_def scan_digits_def)
  then have sr: "(case s @ r of c # cs \<Rightarrow> if c = CHR ''-'' then ([c], cs) else ([], s @ r) | [] \<Rightarrow> ([], s @ r)) = (sign, t @ r)"
    by (cases s) (auto simp: sign_def t_def)
  obtain frac v0 ex w where f: "scan_frac u = (frac, v0)" "scan_exp v0 = (ex, w)" by (metis surj_pair)
  show ?thesis
    using assms(1) unfolding scan_number_def s sr
    by (cases "frac = [] \<and> ex = []"; cases "int_of_digits ds"; cases "sign = []")
      (auto simp: d f scan_digits_append [OF d assms(2)] scan_frac_append [OF assms(2)] scan_exp_append [OF assms(2)])
qed

lemma scan_number_int:
  assumes "length (dec_nat (nat \<bar>i\<bar>)) \<le> MAX_INT_DIGITS"
  shows "scan_number je (dec_int i) = Inr (PInt i, [])"
proof -
  let ?n = "nat \<bar>i\<bar>"
  have digits: "list_all is_digit (dec_nat ?n)" "dec_nat ?n \<noteq> []" by (rule dec_nat_digits)+
  have all: "takeWhile is_digit (dec_nat ?n) = dec_nat ?n" "dropWhile is_digit (dec_nat ?n) = []"
    using digits(1) by (simp_all add: list_all_iff)
  have zero: "dec_nat ?n = [CHR ''0'']" if "hd (dec_nat ?n) = CHR ''0''"
  proof -
    have "n = 0" if "hd (dec_nat n) = CHR ''0''" for n
      using that
    proof (induction n rule: dec_nat.induct)
      case (1 n)
      show ?case
      proof (cases "n < 10")
        case True
        with 1(2) have "char_of (48 + n) = (CHR ''0'' :: char)" by (subst (asm) dec_nat.simps) (simp add: digit_char_def)
        then have "of_char (char_of (48 + n) :: char) = (of_char (CHR ''0'') :: nat)" by simp
        with True show ?thesis by (simp add: of_char_of)
      next
        case False
        with 1(2) have "hd (dec_nat (n div 10)) = CHR ''0''"
          using dec_nat_digits(2) [of "n div 10"] by (subst (asm) dec_nat.simps) simp
        with 1(1) False show ?thesis by simp
      qed
    qed
    from this [OF that] have "?n = 0" .
    moreover have "char_of (48 :: nat) = CHR ''0''" by code_simp
    ultimately show ?thesis by (simp add: dec_nat.simps [of 0] digit_char_def)
  qed
  have sd: "scan_digits (dec_nat ?n) = Some (dec_nat ?n, [])"
    using digits all zero by (cases "dec_nat ?n") (auto simp: scan_digits_def)
  have minus: "hd (dec_nat ?n) \<noteq> CHR ''-''"
  proof
    assume "hd (dec_nat ?n) = CHR ''-''"
    moreover have "is_digit (hd (dec_nat ?n))" using digits by (cases "dec_nat ?n") simp_all
    ultimately show False by (simp add: is_digit_def)
  qed
  have iv: "int_of_digits (dec_nat ?n) = Some (int ?n)" using int_of_digits_dec [OF assms] .
  show ?thesis
  proof (cases "i < 0")
    case True
    then have "dec_int i = CHR ''-'' # dec_nat ?n" by (simp add: dec_int_def)
    with True sd iv show ?thesis by (simp add: scan_number_def scan_frac_def scan_exp_def)
  next
    case False
    then have "dec_int i = dec_nat ?n" by (simp add: dec_int_def)
    with False sd iv minus digits(2) show ?thesis
      by (cases "dec_nat ?n") (simp_all add: scan_number_def scan_frac_def scan_exp_def)
  qed
qed

lemma hex_value_char: "n < 16 \<Longrightarrow> hex_value (hex_char n) = Some n"
  by (simp add: hex_value_def hex_char_def)

lemma hex_value_zero: "hex_value (CHR ''0'') = Some 0"
  by (simp add: hex_value_def)

lemma control_escape:
  assumes "(of_char c :: nat) < 32"
  shows "scan_unicode je (CHR ''0'' # CHR ''0'' # hex_char (of_char c div 16) # hex_char (of_char c mod 16) # t) = Inr ([c], t)"
proof -
  have h: "hex4 (CHR ''0'' # CHR ''0'' # hex_char (of_char c div 16) # hex_char (of_char c mod 16) # t) = Some (of_char c, t)"
    using assms by (simp add: hex_value_zero hex_value_char)
  from assms have "\<not> is_high (of_char c)" "text_of je (of_char c) = [c]" by (simp_all add: is_high_def text_of_def)
  with h show ?thesis by (auto simp: scan_unicode_def split: list.split simp del: hex4.simps)
qed

lemma scan_escape:
  "scan_string je (escape_char c @ t) = rbind (scan_string je t) (\<lambda>(u, r). Inr (c # u, r))"
proof (cases "map_of [(quote_char, quote_char), (backslash, backslash), (CHR 0x08, CHR ''b''), (CHR 0x0C, CHR ''f''),
         (CHR 0x0A, CHR ''n''), (CHR 0x0D, CHR ''r''), (CHR 0x09, CHR ''t'')] c")
  case (Some e)
  then have "escape_char c = [backslash, e]" "simple_escape e = Some c" "e \<noteq> CHR ''u''"
    by (auto simp: escape_char_def simple_escape_def split: if_splits)
  then show ?thesis by (subst scan_string.simps) simp
next
  case None
  then have c: "c \<noteq> quote_char" "c \<noteq> backslash" by (auto split: if_splits)
  show ?thesis
  proof (cases "(of_char c :: nat) < 32")
    case True
    with None have "escape_char c = [backslash, CHR ''u'', CHR ''0'', CHR ''0'', hex_char (of_char c div 16), hex_char (of_char c mod 16)]"
      by (simp add: escape_char_def)
    then show ?thesis by (subst scan_string.simps) (simp add: control_escape [OF True])
  next
    case False
    with None have "escape_char c = [c]" by (simp add: escape_char_def)
    with c False show ?thesis by (subst scan_string.simps) simp
  qed
qed

lemma scan_json_string: "scan_string je (concat (map escape_char s) @ quote_char # r) = Inr (s, r)"
proof (induction s)
  case Nil
  show ?case by (subst scan_string.simps) simp
next
  case (Cons c s)
  then show ?case by (simp add: scan_escape)
qed

text \<open>The values that have a JSON text of their own.\<close>

definition float_ok :: "json_env \<Rightarrow> flt \<Rightarrow> bool" where
  "float_ok je f \<longleftrightarrow> is_fin f \<and> scan_number je (je_repr je f) = Inr (PFloat f, [])"

fun json_form :: "(flt \<Rightarrow> bool) \<Rightarrow> pyval \<Rightarrow> bool" where
  "json_form P (PInt i) = (length (dec_nat (nat \<bar>i\<bar>)) \<le> MAX_INT_DIGITS)"
| "json_form P (PFloat f) = P f"
| "json_form P (PList vs) = list_all (json_form P) vs"
| "json_form P (PTuple vs) = False"
| "json_form P (PDict d) = (distinct (map fst d) \<and> list_all (\<lambda>(k, v). json_form P v) d)"
| "json_form P _ = True"

abbreviation json_ok :: "json_env \<Rightarrow> pyval \<Rightarrow> bool" where
  "json_ok je \<equiv> json_form (float_ok je)"

fun floats :: "pyval \<Rightarrow> flt list" where
  "floats (PFloat f) = [f]"
| "floats (PList vs) = concat (map floats vs)"
| "floats (PTuple vs) = concat (map floats vs)"
| "floats (PDict d) = concat (map (\<lambda>(k, v). floats v) d)"
| "floats _ = []"

lemma json_form_floats: "json_form P v \<longleftrightarrow> json_form (\<lambda>_. True) v \<and> list_all P (floats v)"
proof (induction v)
  case (PList vs)
  then show ?case by (auto simp: list_all_iff)
next
  case (PDict d)
  then have "json_form P v \<longleftrightarrow> json_form (\<lambda>_. True) v \<and> list_all P (floats v)" if "(k, v) \<in> set d" for k v
    using that by (auto intro: snds.intros)
  then show ?case by (simp add: list_all_iff) (fastforce simp: list_all_iff)
qed simp_all

lemma scan_number_head:
  "scan_number je s = Inr x \<Longrightarrow> s \<noteq> [] \<and> (hd s = CHR ''-'' \<or> is_digit (hd s))"
  by (auto simp: scan_number_def scan_digits_def is_digit_def split: list.splits if_splits option.splits prod.splits)

lemma scan_at_number:
  assumes "scan_number je s = Inr x"
  shows "scan_at je nested (s @ r) = scan_number je (s @ r)"
proof -
  from scan_number_head [OF assms] obtain c cs where s: "s = c # cs" and c: "c = CHR ''-'' \<or> is_digit c"
    by (cases s) auto
  from c have "c \<noteq> quote_char" "c \<noteq> CHR ''{''" "c \<noteq> CHR ''[''" "c \<noteq> CHR ''n''" "c \<noteq> CHR ''t''" "c \<noteq> CHR ''f''"
    by (auto simp: is_digit_def)
  then show ?thesis by (simp add: scan_at_def s)
qed

lemma digit_plain: "is_digit c \<Longrightarrow> \<not> json_space c \<and> c \<noteq> CHR '']''"
  by (auto simp: is_digit_def json_space_def)

lemma json_text_head:
  assumes "json_ok je v"
  obtains c cs where "json_layout isep ksep je v = c # cs" and "\<not> json_space c" and "c \<noteq> CHR '']''"
proof -
  note out = that
  have number: thesis if num: "scan_number je (json_layout isep ksep je v) = Inr x" for x
  proof -
    obtain c cs where c: "json_layout isep ksep je v = c # cs" "c = CHR ''-'' \<or> is_digit c"
      using scan_number_head [OF num] by (cases "json_layout isep ksep je v") auto
    then have "\<not> json_space c" "c \<noteq> CHR '']''" using digit_plain by (auto simp: json_space_def)
    with c show thesis using out by blast
  qed
  show thesis
  proof (cases v)
    case (PInt i)
    with assms scan_number_int [of i je] number show ?thesis by simp
  next
    case (PFloat f)
    with assms show ?thesis by (cases f) (auto simp: float_ok_def is_fin_def flt_json_def intro!: number)
  next
    case (PBool b)
    with that show ?thesis by (cases b) (simp_all add: json_space_def)
  qed (use assms that in \<open>auto simp: json_string_def json_space_def split: if_splits\<close>)
qed

lemma skip_ws_text: "json_ok je v \<Longrightarrow> skip_ws (json_layout isep ksep je v @ r) = json_layout isep ksep je v @ r"
  by (rule json_text_head [where isep = isep and ksep = ksep]) (auto simp: skip_ws_def)

lemma skip_ws_stops [simp]: "stops r \<Longrightarrow> skip_ws r = r"
  using stops_not(7) [of r] by (cases r) (auto simp: skip_ws_def)

lemma join_Cons: "join sep (s # ss) = s @ (if ss = [] then [] else sep @ join sep ss)"
  by (cases ss) simp_all

lemma stops_simps [simp]: "stops []" "stops (CHR '','' # r)" "stops (CHR '']'' # r)" "stops (CHR ''}'' # r)"
  by (simp_all add: stops_def)

lemma skip_ws_space [simp]: "skip_ws (CHR '' '' # r) = skip_ws r" "skip_ws (CHR '':'' # r) = CHR '':'' # r"
  by (simp_all add: skip_ws_def json_space_def)

text \<open>Separators a reader accepts: a comma and a colon, each with a space after it or none.\<close>

definition json_seps :: "string \<Rightarrow> string \<Rightarrow> bool" where
  "json_seps isep ksep \<longleftrightarrow> isep \<in> {'','', '', ''} \<and> ksep \<in> {'':'', '': ''}"

lemma json_seps_simps [simp]: "json_seps '', '' '': ''" "json_seps '','' '':''"
  by (simp_all add: json_seps_def)

lemma json_sepsE:
  assumes "json_seps isep ksep"
  obtains a b where "\<And>s. isep @ s = CHR '','' # a @ s" and "\<And>s. ksep @ s = CHR '':'' # b @ s"
    and "\<And>s. skip_ws (a @ s) = skip_ws s" and "\<And>s. skip_ws (b @ s) = skip_ws s"
  using assms by (auto simp: json_seps_def)

lemma scan_elements_text:
  assumes seps: "json_seps isep ksep" and "\<And>v r. v \<in> set vs \<Longrightarrow> stops r \<Longrightarrow> f (json_layout isep ksep je v @ r) = Inr (v, r)" and "list_all (json_ok je) vs"
    and "vs \<noteq> []" and "length vs \<le> n"
  shows "scan_elements f n acc (join isep (map (json_layout isep ksep je) vs) @ CHR '']'' # r) = Inr (PList (acc @ vs), r)"
  using assms(2-)
proof (induction vs arbitrary: n acc)
  case (Cons v vs)
  then obtain k where n: "n = Suc k" by (cases n) auto
  from seps obtain a b where sep: "\<And>s. isep @ s = CHR '','' # a @ s" "\<And>s. ksep @ s = CHR '':'' # b @ s"
    "\<And>s. skip_ws (a @ s) = skip_ws s" "\<And>s. skip_ws (b @ s) = skip_ws s"
    by (rule json_sepsE) (rule that)
  have v: "f (json_layout isep ksep je v @ r) = Inr (v, r)" if "stops r" for r using Cons.prems(1) that by simp
  show ?case
  proof (cases "vs = []")
    case True
    then show ?thesis by (simp add: n v)
  next
    case False
    then obtain w ws where vs: "vs = w # ws" by (cases vs) auto
    with Cons.prems have w: "json_ok je w" by simp
    have ih: "scan_elements f k (acc @ [v]) (join isep (map (json_layout isep ksep je) vs) @ CHR '']'' # r) = Inr (PList ((acc @ [v]) @ vs), r)"
      using Cons False by (intro Cons.IH) (auto simp: n)
    have "skip_ws (join isep (map (json_layout isep ksep je) vs) @ CHR '']'' # r) = join isep (map (json_layout isep ksep je) vs) @ CHR '']'' # r"
      using skip_ws_text [OF w] by (simp add: vs join_Cons)
    with ih False show ?thesis by (simp add: sep n v join_Cons)
  qed
qed simp

lemma dset_new: "k \<notin> set (map fst d) \<Longrightarrow> dset k v d = d @ [(k, v)]"
  by (induction d) auto

abbreviation member_text :: "string \<Rightarrow> string \<Rightarrow> json_env \<Rightarrow> string \<times> pyval \<Rightarrow> string" where
  "member_text isep ksep je kv \<equiv> (case kv of (k, v) \<Rightarrow> json_string k @ ksep @ json_layout isep ksep je v)"

lemma scan_members_text:
  assumes seps: "json_seps isep ksep" and "\<And>k v r. (k, v) \<in> set d \<Longrightarrow> stops r \<Longrightarrow> f (json_layout isep ksep je v @ r) = Inr (v, r)" and "list_all (\<lambda>(k, v). json_ok je v) d"
    and "d \<noteq> []" and "length d \<le> n" and "distinct (map fst (acc @ d))"
  shows "scan_members je f n acc (join isep (map (member_text isep ksep je) d) @ CHR ''}'' # r) = Inr (PDict (acc @ d), r)"
  using assms(2-)
proof (induction d arbitrary: n acc)
  case (Cons kv d)
  obtain k v where kv: "kv = (k, v)" by (cases kv) auto
  obtain m where n: "n = Suc m" using Cons.prems(4) by (cases n) auto
  from seps obtain a b where sep: "\<And>s. isep @ s = CHR '','' # a @ s" "\<And>s. ksep @ s = CHR '':'' # b @ s"
    "\<And>s. skip_ws (a @ s) = skip_ws s" "\<And>s. skip_ws (b @ s) = skip_ws s"
    by (rule json_sepsE) (rule that)
  have v: "f (json_layout isep ksep je v @ r) = Inr (v, r)" if "stops r" for r using Cons.prems(1) [of k v r] that by (simp add: kv)
  have ok: "json_ok je v" and new: "k \<notin> set (map fst acc)" using Cons.prems(2,5) by (auto simp: kv)
  show ?case
  proof (cases "d = []")
    case True
    then show ?thesis
      using skip_ws_text [OF ok] new
      by (simp add: sep n kv v json_string_def scan_json_string dset_new)
  next
    case False
    have f: "f (json_layout isep ksep je w @ s) = Inr (w, s)" if "(l, w) \<in> set d" "stops s" for l w s
      using Cons.prems(1) [of l w s] that by simp
    have rest: "list_all (\<lambda>(k, v). json_ok je v) d" "length d \<le> m" "distinct (map fst ((acc @ [(k, v)]) @ d))"
      using Cons.prems(2,4,5) by (auto simp: n kv)
    have ih: "scan_members je f m (acc @ [(k, v)]) (join isep (map (member_text isep ksep je) d) @ CHR ''}'' # r) = Inr (PDict ((acc @ [(k, v)]) @ d), r)"
      by (rule Cons.IH [OF f rest(1) False rest(2,3)])
    have "skip_ws (join isep (map (member_text isep ksep je) d) @ CHR ''}'' # r) = join isep (map (member_text isep ksep je) d) @ CHR ''}'' # r"
      using False by (cases d) (auto simp: join_Cons json_string_def skip_ws_def json_space_def)
    with ih False show ?thesis
      using skip_ws_text [OF ok] new
      by (simp add: sep n kv v join_Cons json_string_def scan_json_string dset_new)
  qed
qed simp

lemma nesting_list: "v \<in> set vs \<Longrightarrow> nesting v \<le> foldr max (map nesting vs) 0"
  by (induction vs) auto

lemma nesting_dict: "(k, v) \<in> set d \<Longrightarrow> nesting v \<le> foldr max (map (\<lambda>(k, v). nesting v) d) 0"
  by (induction d) auto

lemma join_length: "isep \<noteq> [] \<Longrightarrow> length ss \<le> Suc (length (join isep ss))"
proof (induction ss)
  case (Cons s ss)
  moreover from Cons.prems have "1 \<le> length isep" by (cases isep) auto
  ultimately show ?case by (auto simp: join_Cons)
qed simp

theorem scan_json_text:
  assumes seps: "json_seps isep ksep" and "json_ok je v" and "nesting v \<le> d" and "stops r"
  shows "scan_value je d (json_layout isep ksep je v @ r) = Inr (v, r)"
proof -
  from seps have isep: "isep \<noteq> []" by (auto simp: json_seps_def)
  from assms(2-) show ?thesis
  proof (induction v arbitrary: d r)
    case PNone
    then show ?case by (cases d) (simp_all add: scan_at_def)
  next
    case (PBool b)
    then show ?case by (cases d) (simp_all add: scan_at_def)
  next
    case (PInt i)
    then have n: "scan_number je (dec_int i) = Inr (PInt i, [])" by (simp add: scan_number_int)
    from scan_number_append [OF n PInt(3)] scan_at_number [OF n] show ?case by (cases d) simp_all
  next
    case (PFloat f)
    then have n: "scan_number je (je_repr je f) = Inr (PFloat f, [])" and t: "json_layout isep ksep je (PFloat f) = je_repr je f"
      by (auto simp: float_ok_def flt_json_def is_fin_def split: flt.splits)
    from scan_number_append [OF n PFloat(3)] scan_at_number [OF n] t show ?case by (cases d) simp_all
  next
    case (PStr s)
    then show ?case by (cases d) (simp_all add: scan_at_def json_string_def scan_json_string)
  next
    case (PList vs)
    from PList.prems(2) obtain e where e: "d = Suc e" by (cases d) auto
    have f: "scan_value je e (json_layout isep ksep je v @ r) = Inr (v, r)" if "v \<in> set vs" "stops r" for v r
      using PList.IH [OF that(1) _ _ that(2), of e] PList.prems(1,2) nesting_list [OF that(1)] that(1)
      by (auto simp: e list_all_iff)
    show ?case
    proof (cases "vs = []")
      case True
      then show ?thesis by (simp add: e scan_at_def scan_array_def skip_ws_def json_space_def)
    next
      case False
      let ?t = "join isep (map (json_layout isep ksep je) vs) @ CHR '']'' # r"
      obtain w ws where vs: "vs = w # ws" using False by (cases vs) auto
      with PList.prems have w: "json_ok je w" by simp
      then obtain c cs where c: "?t = c # cs" "c \<noteq> CHR '']''" "\<not> json_space c"
        by (rule json_text_head [where isep = isep and ksep = ksep]) (auto simp: vs join_Cons)
      have ok: "list_all (json_ok je) vs" using PList.prems by simp
      have len: "length vs \<le> length ?t" using join_length [OF isep, of "map (json_layout isep ksep je) vs"] by simp
      have "scan_elements (scan_value je e) (length ?t) [] ?t = Inr (PList ([] @ vs), r)"
        by (rule scan_elements_text [OF seps f ok False len])
      with c show ?thesis by (simp add: e scan_at_def scan_array_def skip_ws_def)
    qed
  next
    case (PTuple vs)
    then show ?case by simp
  next
    case (PDict m)
    from PDict.prems(2) obtain e where e: "d = Suc e" by (cases d) auto
    have f: "scan_value je e (json_layout isep ksep je v @ r) = Inr (v, r)" if m: "(k, v) \<in> set m" and r: "stops r" for k v r
    proof -
      have "json_ok je v" using PDict.prems(1) m by (auto simp: list_all_iff)
      moreover have "nesting v \<le> e" using PDict.prems(2) nesting_dict [OF m] by (simp add: e)
      ultimately show ?thesis using PDict.IH [OF m, of v] r by (simp add: snds.intros)
    qed
    show ?case
    proof (cases "m = []")
      case True
      then show ?thesis by (simp add: e scan_at_def scan_object_def skip_ws_def json_space_def)
    next
      case False
      let ?t = "join isep (map (member_text isep ksep je) m) @ CHR ''}'' # r"
      obtain cs where c: "?t = quote_char # cs" using False by (cases m) (auto simp: join_Cons json_string_def)
      have ok: "list_all (\<lambda>(k, v). json_ok je v) m" "distinct (map fst ([] @ m))" using PDict.prems by simp_all
      have len: "length m \<le> length ?t" using join_length [OF isep, of "map (member_text isep ksep je) m"] by simp
      have "scan_members je (scan_value je e) (length ?t) [] ?t = Inr (PDict ([] @ m), r)"
        by (rule scan_members_text [OF seps f ok(1) False len ok(2)])
      with c show ?thesis by (simp add: e scan_at_def scan_object_def skip_ws_def json_space_def)
    qed
  qed
qed

lemma loads_dumps:
  assumes "json_ok je v" and "dumps je v = Inr s"
  shows "loads je s = Inr v"
proof -
  from assms(2) have s: "s = json_text je v" and n: "nesting v \<le> je_limit je" by (auto simp: dumps_def split: if_splits)
  from skip_ws_text [OF assms(1), where r = "[]"] scan_json_text [OF json_seps_simps(1) assms(1) n, where r = "[]"] show ?thesis
    by (simp add: loads_def s skip_ws_def [of "[]"])
qed

subsection \<open>What is read\<close>

text \<open>A scanner that consumes text and returns values of a bounded nesting.\<close>

definition reads :: "nat \<Rightarrow> scanner \<Rightarrow> bool" where
  "reads d f \<longleftrightarrow> (\<forall>s v r. f s = Inr (v, r) \<longrightarrow> json_form (\<lambda>_. True) v \<and> nesting v \<le> d \<and> length r < length s)"

lemma rbind_InrE:
  assumes "rbind m f = Inr y"
  obtains x where "m = Inr x" and "f x = Inr y"
  using assms by (cases m) simp_all

lemma scan_string_length: "scan_string je s = Inr (t, r) \<Longrightarrow> length r < length s"
proof (induction je s arbitrary: t r rule: scan_string.induct)
  case (1 je s)
  have step: "length r < length s" if "rbind (scan_string je u) (\<lambda>(v, q). Inr (g v, q)) = Inr (t, r)"
    "length u < length s" "\<And>t r. scan_string je u = Inr (t, r) \<Longrightarrow> length r < length u" for u and g :: "string \<Rightarrow> string"
    using that by (cases "scan_string je u") (auto simp: less_trans)
  obtain c cs where s: "s = c # cs" using "1.prems" by (cases s) (simp_all add: scan_string.simps [of _ "[]"])
  note eq = "1.prems" [unfolded s, simplified scan_string.simps [of je "c # cs"] list.case]
  show ?case
  proof (cases "c = quote_char")
    case True
    with eq show ?thesis by (simp add: s)
  next
    case nq: False
    show ?thesis
    proof (cases "c = backslash")
      case True
      then obtain e es where cs: "cs = e # es" using eq by (cases cs) simp_all
      show ?thesis
      proof (cases "e = CHR ''u''")
        case u: True
        then obtain x rest where x: "scan_unicode je es = Inr (x, rest)" using eq True by (cases "scan_unicode je es") (auto simp: cs)
        have "rbind (scan_string je rest) (\<lambda>(v, q). Inr (x @ v, q)) = Inr (t, r)" using eq True u x by (simp add: cs)
        then show ?thesis
          by (rule step) (use scan_unicode_length [OF x] "1.IH"(1) [OF s nq True cs u x refl] in \<open>auto simp: s cs\<close>)
      next
        case u: False
        then obtain x where x: "simple_escape e = Some x" using eq True by (cases "simple_escape e") (auto simp: cs)
        have "rbind (scan_string je es) (\<lambda>(v, q). Inr (x # v, q)) = Inr (t, r)" using eq True u x by (simp add: cs)
        then show ?thesis
          by (rule step) (use "1.IH"(2) [OF s nq True cs u x] in \<open>auto simp: s cs\<close>)
      qed
    next
      case b: False
      have l: "\<not> (of_char c :: nat) < 32" and "rbind (scan_string je cs) (\<lambda>(v, q). Inr (c # v, q)) = Inr (t, r)"
        using eq nq b by (auto split: if_splits)
      from this(2) show ?thesis by (rule step) (use "1.IH"(3) [OF s nq b l] in \<open>auto simp: s\<close>)
    qed
  qed
qed

lemma skip_ws_length: "length (skip_ws s) \<le> length s"
  by (simp add: skip_ws_def length_dropWhile_le)

lemma dec_value_bound: "list_all is_digit s \<Longrightarrow> dec_value s < 10 ^ length s"
proof (induction s rule: rev_induct)
  case (snoc c s)
  then have "dec_value s + 1 \<le> 10 ^ length s" "digit_val c \<le> 9" by (auto simp: is_digit_def digit_val_def Let_def)
  then show ?case by (simp add: dec_value_snoc)
qed (simp add: dec_value_def)

lemma dec_nat_length: "n < 10 ^ k \<Longrightarrow> 0 < k \<Longrightarrow> length (dec_nat n) \<le> k"
proof (induction n arbitrary: k rule: dec_nat.induct)
  case (1 n)
  show ?case
  proof (cases "n < 10")
    case True
    with 1 show ?thesis by (subst dec_nat.simps) simp
  next
    case False
    obtain j where k: "k = Suc j" using 1 by (cases k) auto
    have "0 < j" using 1 False by (cases j) (auto simp: k)
    moreover have "n div 10 < 10 ^ j" using 1 by (simp add: k div_less_iff_less_mult mult.commute)
    ultimately show ?thesis using 1(1) False by (subst dec_nat.simps) (simp add: k)
  qed
qed

lemma int_of_digits_length: "int_of_digits ds = Some i \<Longrightarrow> length (dec_nat (nat \<bar>i\<bar>)) \<le> MAX_INT_DIGITS"
  using dec_value_bound [of ds] dec_nat_length [of "dec_value ds" "length ds"]
  by (auto simp: int_of_digits_def split: if_splits)

lemma scan_exp_length: "length (snd (scan_exp s)) \<le> length s"
  by (auto simp: scan_exp_def length_dropWhile_le le_SucI split: list.splits)

lemma scan_frac_length: "length (snd (scan_frac s)) \<le> length s"
  by (auto simp: scan_frac_def length_dropWhile_le le_SucI split: list.splits)

lemma scan_digits_length: "scan_digits s = Some (ds, u) \<Longrightarrow> length u < length s"
  by (auto simp: scan_digits_def length_dropWhile_le less_Suc_eq_le split: list.splits if_splits)

lemma reads_number: "scan_number je s = Inr (v, r) \<Longrightarrow> json_form (\<lambda>_. True) v \<and> nesting v = 0 \<and> length r < length s"
proof -
  assume n: "scan_number je s = Inr (v, r)"
  define t where "t = (case s of c # cs \<Rightarrow> if c = CHR ''-'' then cs else s | [] \<Rightarrow> s)"
  have t: "length t \<le> length s" by (simp add: t_def split: list.split)
  obtain ds u where d: "scan_digits t = Some (ds, u)"
    and r: "r = snd (scan_exp (snd (scan_frac u)))"
    and v: "(\<exists>f. v = PFloat f) \<or> (\<exists>i. (v = PInt i \<or> v = PInt (- i)) \<and> int_of_digits ds = Some i)"
    using n by (auto simp: scan_number_def t_def split_beta split: list.splits if_splits option.splits)
  have "length r < length s"
    using scan_digits_length [OF d] scan_exp_length [of "snd (scan_frac u)"] scan_frac_length [of u] t by (simp add: r)
  with v int_of_digits_length show ?thesis by (auto split: if_splits)
qed

lemma foldr_max: "foldr max (xs :: nat list) 0 \<le> n \<longleftrightarrow> list_all (\<lambda>x. x \<le> n) xs"
  by (induction xs) auto

lemma nesting_le:
  "nesting (PList vs) \<le> Suc d \<longleftrightarrow> list_all (\<lambda>v. nesting v \<le> d) vs"
  "nesting (PDict m) \<le> Suc d \<longleftrightarrow> list_all (\<lambda>(k, v). nesting v \<le> d) m"
  by (simp_all add: foldr_max list.pred_map comp_def case_prod_unfold)

lemma list_all_dset: "list_all P d \<Longrightarrow> P (k, v) \<Longrightarrow> list_all P (dset k v d)"
  by (induction d) auto

lemma scan_members_Inr:
  assumes "scan_members je f (Suc n) acc s = Inr (v, r)"
  obtains cs k r1 cs1 w r2 c cs2 where "s = quote_char # cs" and "scan_string je cs = Inr (k, r1)"
    and "skip_ws r1 = CHR '':'' # cs1" and "f (skip_ws cs1) = Inr (w, r2)" and "skip_ws r2 = c # cs2"
    and "c = CHR ''}'' \<and> v = PDict (dset k w acc) \<and> r = cs2 \<or>
      c = CHR '','' \<and> scan_members je f n (dset k w acc) (skip_ws cs2) = Inr (v, r)"
proof -
  obtain c cs where s: "s = c # cs" using assms by (cases s) simp_all
  have q: "c = quote_char" using assms by (cases "c = quote_char") (simp_all add: s)
  obtain k r1 where k: "scan_string je cs = Inr (k, r1)" using assms by (cases "scan_string je cs") (auto simp: s q)
  obtain c1 cs1 where r1: "skip_ws r1 = c1 # cs1" using assms by (cases "skip_ws r1") (simp_all add: s q k)
  have c1: "c1 = CHR '':''" using assms by (cases "c1 = CHR '':''") (simp_all add: s q k r1)
  obtain w r2 where w: "f (skip_ws cs1) = Inr (w, r2)" using assms by (cases "f (skip_ws cs1)") (auto simp: s q k r1 c1)
  obtain c2 cs2 where r2: "skip_ws r2 = c2 # cs2" using assms by (cases "skip_ws r2") (simp_all add: s q k r1 c1 w)
  have "c2 = CHR ''}'' \<and> v = PDict (dset k w acc) \<and> r = cs2 \<or>
      c2 = CHR '','' \<and> scan_members je f n (dset k w acc) (skip_ws cs2) = Inr (v, r)"
    using assms by (cases "c2 = CHR ''}''"; cases "c2 = CHR '',''") (simp_all add: s q k r1 c1 w r2)
  from that [OF s [unfolded q] k r1 [unfolded c1] w r2 this] show thesis .
qed

lemma scan_elements_Inr:
  assumes "scan_elements f (Suc n) acc s = Inr (v, r)"
  obtains w r2 c cs2 where "f s = Inr (w, r2)" and "skip_ws r2 = c # cs2"
    and "c = CHR '']'' \<and> v = PList (acc @ [w]) \<and> r = cs2 \<or>
      c = CHR '','' \<and> scan_elements f n (acc @ [w]) (skip_ws cs2) = Inr (v, r)"
proof -
  obtain w r2 where w: "f s = Inr (w, r2)" using assms by (cases "f s") auto
  obtain c2 cs2 where r2: "skip_ws r2 = c2 # cs2" using assms by (cases "skip_ws r2") (simp_all add: w)
  have "c2 = CHR '']'' \<and> v = PList (acc @ [w]) \<and> r = cs2 \<or>
      c2 = CHR '','' \<and> scan_elements f n (acc @ [w]) (skip_ws cs2) = Inr (v, r)"
    using assms by (cases "c2 = CHR '']''"; cases "c2 = CHR '',''") (simp_all add: w r2)
  from that [OF w r2 this] show thesis .
qed

lemma reads_members:
  assumes "reads d f" and "scan_members je f n acc s = Inr (v, r)" and "json_form (\<lambda>_. True) (PDict acc)" and "nesting (PDict acc) \<le> Suc d"
  shows "json_form (\<lambda>_. True) v \<and> nesting v \<le> Suc d \<and> length r < length s"
  using assms(2-)
proof (induction n arbitrary: acc s)
  case (Suc n)
  from Suc.prems(1) obtain cs k r1 cs1 w r2 c cs2 where s: "s = quote_char # cs" and k: "scan_string je cs = Inr (k, r1)"
    and r1: "skip_ws r1 = CHR '':'' # cs1" and w: "f (skip_ws cs1) = Inr (w, r2)" and r2: "skip_ws r2 = c # cs2"
    and c: "c = CHR ''}'' \<and> v = PDict (dset k w acc) \<and> r = cs2 \<or> c = CHR '','' \<and> scan_members je f n (dset k w acc) (skip_ws cs2) = Inr (v, r)"
    by (rule scan_members_Inr)
  have w': "json_form (\<lambda>_. True) w" "nesting w \<le> d" "length r2 < length (skip_ws cs1)"
    using assms(1) w unfolding reads_def by blast+
  have len: "length cs2 < length s"
    using w'(3) scan_string_length [OF k] skip_ws_length [of cs1] skip_ws_length [of r1] skip_ws_length [of r2]
    by (simp add: s r1 r2)
  have acc: "json_form (\<lambda>_. True) (PDict (dset k w acc)) \<and> nesting (PDict (dset k w acc)) \<le> Suc d"
    using Suc.prems(2,3) w'(1,2) unfolding nesting_le by (simp add: list_all_dset distinct_update)
  from c show ?case
  proof
    assume "c = CHR '','' \<and> scan_members je f n (dset k w acc) (skip_ws cs2) = Inr (v, r)"
    then have "json_form (\<lambda>_. True) v \<and> nesting v \<le> Suc d \<and> length r < length (skip_ws cs2)"
      using Suc.IH [of "dset k w acc" "skip_ws cs2"] acc by simp
    with len skip_ws_length [of cs2] show ?thesis by linarith
  qed (use acc len in simp)
qed simp

lemma reads_elements:
  assumes "reads d f" and "scan_elements f n acc s = Inr (v, r)" and "json_form (\<lambda>_. True) (PList acc)" and "nesting (PList acc) \<le> Suc d"
  shows "json_form (\<lambda>_. True) v \<and> nesting v \<le> Suc d \<and> length r < length s"
  using assms(2-)
proof (induction n arbitrary: acc s)
  case (Suc n)
  from Suc.prems(1) obtain w r2 c cs2 where w: "f s = Inr (w, r2)" and r2: "skip_ws r2 = c # cs2"
    and c: "c = CHR '']'' \<and> v = PList (acc @ [w]) \<and> r = cs2 \<or> c = CHR '','' \<and> scan_elements f n (acc @ [w]) (skip_ws cs2) = Inr (v, r)"
    by (rule scan_elements_Inr)
  have w': "json_form (\<lambda>_. True) w" "nesting w \<le> d" "length r2 < length s"
    using assms(1) w unfolding reads_def by blast+
  have len: "length cs2 < length s" using w'(3) skip_ws_length [of r2] by (simp add: r2)
  have acc: "json_form (\<lambda>_. True) (PList (acc @ [w])) \<and> nesting (PList (acc @ [w])) \<le> Suc d"
    using Suc.prems(2,3) w'(1,2) unfolding nesting_le by simp
  from c show ?case
  proof
    assume "c = CHR '','' \<and> scan_elements f n (acc @ [w]) (skip_ws cs2) = Inr (v, r)"
    then have "json_form (\<lambda>_. True) v \<and> nesting v \<le> Suc d \<and> length r < length (skip_ws cs2)"
      using Suc.IH [of "acc @ [w]" "skip_ws cs2"] acc by simp
    with len skip_ws_length [of cs2] show ?thesis by linarith
  qed (use acc len in simp)
qed simp

lemma reads_at:
  assumes "\<And>f. nested = Some f \<Longrightarrow> reads d f \<and> e = Suc d"
  shows "reads e (scan_at je nested)"
  unfolding reads_def
proof (intro allI impI)
  fix s v r assume a: "scan_at je nested s = Inr (v, r)"
  then obtain c cs where s: "s = c # cs" by (cases s) (auto simp: scan_at_def)
  consider (str) t where "v = PStr t" "scan_string je cs = Inr (t, r)"
    | (obj) f where "nested = Some f" "scan_object je f cs = Inr (v, r)"
    | (arr) f where "nested = Some f" "scan_array f cs = Inr (v, r)"
    | (const) k where "v = PNone \<or> (\<exists>b. v = PBool b)" "r = drop (Suc k) s"
    | (num) "scan_number je s = Inr (v, r)"
  proof -
    note a' = a [unfolded scan_at_def s list.case, folded s]
    show thesis
    proof (cases "c = quote_char")
      case True
      with a' obtain x where "scan_string je cs = Inr x" "(\<lambda>(t, r). Inr (PStr t, r)) x = (Inr (v, r) :: json_error + _)"
        by (auto elim: rbind_InrE)
      then show thesis using str by (cases x) auto
    next
      case q: False
      show thesis
      proof (cases "c = CHR ''{''")
        case True
        with a' q obj show thesis by (cases nested) simp_all
      next
        case b: False
        show thesis
        proof (cases "c = CHR ''[''")
          case True
          with a' q b arr show thesis by (cases nested) simp_all
        next
          case k: False
          from a' q b k const [of 3] const [of 4] num show thesis
            by (auto split: if_splits)
        qed
      qed
    qed
  qed
  then show "json_form (\<lambda>_. True) v \<and> nesting v \<le> e \<and> length r < length s"
  proof cases
    case (str t)
    with scan_string_length [OF str(2)] show ?thesis by (simp add: s)
  next
    case (obj f)
    from assms [OF obj(1)] have d: "reads d f" "e = Suc d" by simp_all
    obtain x xs where t: "skip_ws cs = x # xs" using obj(2) by (cases "skip_ws cs") (auto simp: scan_object_def)
    have "json_form (\<lambda>_. True) v \<and> nesting v \<le> Suc d \<and> length r < length (skip_ws cs)"
      using obj(2) [unfolded scan_object_def t Let_def list.case] reads_members [OF d(1), of je "length (x # xs)" "[]" "x # xs" v r]
      unfolding t by (cases "x = CHR ''}''") auto
    with skip_ws_length [of cs] show ?thesis by (auto simp: s d)
  next
    case (arr f)
    from assms [OF arr(1)] have d: "reads d f" "e = Suc d" by simp_all
    obtain x xs where t: "skip_ws cs = x # xs" using arr(2) by (cases "skip_ws cs") (auto simp: scan_array_def)
    have "json_form (\<lambda>_. True) v \<and> nesting v \<le> Suc d \<and> length r < length (skip_ws cs)"
      using arr(2) [unfolded scan_array_def t Let_def list.case] reads_elements [OF d(1), of "length (x # xs)" "[]" "x # xs" v r]
      unfolding t by (cases "x = CHR '']''") auto
    with skip_ws_length [of cs] show ?thesis by (auto simp: s d)
  next
    case (const k)
    then show ?thesis by (auto simp: s)
  next
    case num
    with reads_number [OF num] show ?thesis by simp
  qed
qed

lemma reads_value: "reads d (scan_value je d)"
proof (induction d)
  case 0
  show ?case using reads_at [of None] by simp
next
  case (Suc d)
  then show ?case using reads_at [of "Some (scan_value je d)" d "Suc d"] by simp
qed

lemma loads_form: "loads je s = Inr v \<Longrightarrow> json_form (\<lambda>_. True) v \<and> nesting v \<le> je_limit je"
  using reads_value [of "je_limit je" je] by (auto simp: loads_def rbind_eq_Inr reads_def split: if_splits)

text \<open>The rounds allowed are enough: more of them change nothing, once there is one per character.\<close>

lemma members_rounds:
  assumes "reads d f" and "length s \<le> n" and "length s \<le> m"
  shows "scan_members je f n acc s = scan_members je f m acc s"
  using assms(2,3)
proof (induction n arbitrary: m acc s)
  case 0
  then show ?case by (cases m) simp_all
next
  case (Suc n)
  show ?case
  proof (cases s)
    case Nil
    then show ?thesis by (cases m) simp_all
  next
    case (Cons c cs)
    then obtain k where m: "m = Suc k" using Suc.prems by (cases m) auto
    have len: "scan_members je f n a (skip_ws cs2) = scan_members je f k a (skip_ws cs2)"
      if "scan_string je cs = Inr (x, r1)" "skip_ws r1 = y # cs1" "f (skip_ws cs1) = Inr (w, r2)" "skip_ws r2 = z # cs2"
      for a x r1 y cs1 w r2 z cs2
    proof (rule Suc.IH)
      have "length r2 < length (skip_ws cs1)" using assms(1) that(3) unfolding reads_def by blast
      then have "length (skip_ws cs2) < length cs"
        using scan_string_length [OF that(1)] skip_ws_length [of cs1] skip_ws_length [of r1] skip_ws_length [of r2] skip_ws_length [of cs2] that(2,4)
        by simp
      then show "length (skip_ws cs2) \<le> n" "length (skip_ws cs2) \<le> k" using Suc.prems by (simp_all add: Cons m)
    qed
    show ?thesis
      by (simp add: Cons m split: list.split) (auto intro!: rbind_cong len split: list.split)
  qed
qed

lemma elements_rounds:
  assumes "reads d f" and "f [] = Inl BadJson" and "length s \<le> n" and "length s \<le> m"
  shows "scan_elements f n acc s = scan_elements f m acc s"
  using assms(3,4)
proof (induction n arbitrary: m acc s)
  case 0
  then show ?case using assms(2) by (cases m) simp_all
next
  case (Suc n)
  show ?case
  proof (cases m)
    case 0
    then show ?thesis using assms(2) Suc.prems by simp
  next
    case (Suc k)
    have len: "scan_elements f n a (skip_ws cs2) = scan_elements f k a (skip_ws cs2)"
      if "f s = Inr (w, r2)" "skip_ws r2 = z # cs2" for a w r2 z cs2
    proof (rule Suc.IH)
      have "length r2 < length s" using assms(1) that(1) unfolding reads_def by blast
      then have "length (skip_ws cs2) < length s" using skip_ws_length [of r2] skip_ws_length [of cs2] that(2) by simp
      then show "length (skip_ws cs2) \<le> n" "length (skip_ws cs2) \<le> k" using Suc.prems Suc by simp_all
    qed
    show ?thesis by (simp add: Suc) (auto intro!: rbind_cong len split: list.split)
  qed
qed

end
