(* ===== verification/ToolParserProperties.thy ===== *)
theory ToolParserProperties
  imports CompletionParsing JsonProperties
begin

section \<open>Properties of the tool parsers\<close>

text \<open>
  The block scan removes nothing but complete calls and is linear; the arguments of a call are a JSON
  object; the section scanner with its remembered position is the plain one; and what the Qwen and
  Harmony formats write is read back, whatever text the values hold.
\<close>

subsection \<open>What the scan removes\<close>

text \<open>A text with its consumed blocks: the content before each block, the block as parsed, and its calls.\<close>

definition piece_text :: "string \<times> string \<times> tool_call list \<Rightarrow> string" where
  "piece_text p = (case p of (content, block, calls) \<Rightarrow> content @ TOOL_CALL_OPEN @ block @ TOOL_CALL_CLOSE)"

definition accounts_for ::
  "block_parser \<Rightarrow> string \<Rightarrow> string list \<Rightarrow> tool_call list \<Rightarrow> bool" where
  "accounts_for block_parser text parts calls \<longleftrightarrow>
     (\<exists>pieces last. text = concat (map piece_text pieces) @ last \<and> parts = map fst pieces @ [last] \<and>
        calls = concat (map (\<lambda>(_, _, cs). cs) pieces) \<and>
        (\<forall>(content, block, cs)\<in>set pieces. cs \<noteq> [] \<and> block_parser (strip block) = Inr (Some cs)))"

lemma parse_or_retry_Inr:
  assumes "parse_or_retry bp before block = Inr (Some (c # cs), before')"
  shows "\<exists>body. before @ TOOL_CALL_OPEN @ block = before' @ TOOL_CALL_OPEN @ body \<and> bp (strip body) = Inr (Some (c # cs))"
proof -
  obtain r where r: "bp (strip block) = Inr r" using assms by (auto simp: parse_or_retry_def rbind_eq_Inr)
  show ?thesis
  proof (cases "r = Some []")
    case True
    with assms r obtain a inner where a: "rpartition_at TOOL_CALL_OPEN block = Some (a, inner)"
      and "bp (strip inner) = Inr (Some (c # cs))" "before' = before @ TOOL_CALL_OPEN @ a"
      by (auto simp: parse_or_retry_def rbind_eq_Inr split: option.splits)
    with rpartition_at_Some [OF a] show ?thesis by auto
  next
    case False
    with assms r show ?thesis by (auto simp: parse_or_retry_def)
  qed
qed

lemma scan_blocks_accounts:
  assumes "scan_blocks bp parts calls kept rest = Inr (parts', calls')"
  shows "\<exists>ps cs. parts' = parts @ ps \<and> calls' = calls @ cs \<and> accounts_for bp (kept @ rest) ps cs"
  using assms
proof (induction bp parts calls kept rest rule: scan_blocks.induct)
  case (1 bp parts calls kept rest)
  have stop: ?case if "parts' = parts @ [kept @ rest]" "calls' = calls"
    using that by (intro exI [of _ "[kept @ rest]"] exI [of _ "[]"]) (auto simp: accounts_for_def intro!: exI [of _ "[]"])
  show ?case
  proof (cases "partition_at TOOL_CALL_OPEN rest")
    case None
    with "1.prems" stop show ?thesis by (simp add: scan_blocks.simps [of bp])
  next
    case (Some bt)
    obtain before tail where bt: "bt = (before, tail)" by (cases bt) auto
    note o = Some [unfolded bt]
    show ?thesis
    proof (cases "partition_at TOOL_CALL_CLOSE tail")
      case None
      with "1.prems" stop o show ?thesis by (simp add: scan_blocks.simps [of bp])
    next
      case (Some br)
      obtain block rest' where br: "br = (block, rest')" by (cases br) auto
      note c = Some [unfolded br]
      have split: "rest = before @ TOOL_CALL_OPEN @ block @ TOOL_CALL_CLOSE @ rest'"
        using partition_at_Some [OF o] partition_at_Some [OF c] by simp
      obtain r before' where p: "parse_or_retry bp before block = Inr (r, before')"
        using "1.prems" o c by (cases "parse_or_retry bp before block") (auto simp: scan_blocks.simps [of bp parts])
      show ?thesis
      proof (cases "\<exists>x xs. r = Some (x # xs)")
        case True
        then obtain x xs where r: "r = Some (x # xs)" by blast
        have "scan_blocks bp (parts @ [kept @ before']) (calls @ x # xs) [] rest' = Inr (parts', calls')"
          using "1.prems" o c p r by (simp add: scan_blocks.simps [of bp parts])
        from "1.IH"(3) [OF o refl c refl p refl r refl this]
        obtain ps cs where ih: "parts' = (parts @ [kept @ before']) @ ps" "calls' = (calls @ x # xs) @ cs"
          "accounts_for bp ([] @ rest') ps cs" by blast
        from ih(3) obtain pieces last where acc: "rest' = concat (map piece_text pieces) @ last" "ps = map fst pieces @ [last]"
          "cs = concat (map (\<lambda>(_, _, cs). cs) pieces)"
          "\<forall>(content, block, cs)\<in>set pieces. cs \<noteq> [] \<and> bp (strip block) = Inr (Some cs)"
          unfolding accounts_for_def by auto
        obtain body where body: "before @ TOOL_CALL_OPEN @ block = before' @ TOOL_CALL_OPEN @ body" "bp (strip body) = Inr (Some (x # xs))"
          using parse_or_retry_Inr [OF p [unfolded r]] by blast
        have "kept @ rest = piece_text (kept @ before', body, x # xs) @ rest'"
          using body(1) by (simp add: piece_text_def split)
        then have "accounts_for bp (kept @ rest) ((kept @ before') # ps) (x # xs @ cs)"
          unfolding accounts_for_def using acc body(2)
          by (intro exI [of _ "(kept @ before', body, x # xs) # pieces"] exI [of _ last]) auto
        with ih(1,2) show ?thesis by auto
      next
        case False
        have "r = None \<or> r = Some []" using False by (metis list.exhaust option.exhaust)
        moreover from this have "scan_blocks bp parts calls (kept @ before @ TOOL_CALL_OPEN @ block @ TOOL_CALL_CLOSE) rest' = Inr (parts', calls')"
          using "1.prems" [unfolded scan_blocks.simps [of bp parts calls kept rest]] by (elim disjE) (simp_all add: o c p)
        ultimately have "\<exists>ps cs. parts' = parts @ ps \<and> calls' = calls @ cs \<and>
            accounts_for bp ((kept @ before @ TOOL_CALL_OPEN @ block @ TOOL_CALL_CLOSE) @ rest') ps cs"
          using "1.IH"(1) [OF o refl c refl p refl] "1.IH"(2) [OF o refl c refl p refl] by blast
        then show ?thesis by (simp add: split)
      qed
    qed
  qed
qed

lemma parse_text_blocks:
  "dialect_block pe tools d = Some bp \<Longrightarrow> parse_text pe (Some d) tools text = parse_blocks bp text"
  by (cases d) (auto simp: parse_text_def dialect_block_def)

lemma parse_blocks_accounts:
  assumes "parse_blocks bp text = Inr (content, calls)"
  obtains parts where "content = strip (concat parts)" and "accounts_for bp text parts calls"
proof -
  from assms obtain parts where "scan_blocks bp [] [] [] text = Inr (parts, calls)" and c: "content = strip (concat parts)"
    by (auto simp: parse_blocks_def rbind_eq_Inr)
  from scan_blocks_accounts [OF this(1)] that [OF c] show thesis by auto
qed

lemma accounted_call:
  assumes "accounts_for bp text parts calls" and "call \<in> set calls"
  obtains block cs where "bp block = Inr (Some cs)" and "call \<in> set cs"
  using assms unfolding accounts_for_def by fastforce

text \<open>C11:
  Nothing the model said disappears: for every dialect that has tool-call blocks, and whatever the
  completion looks like, the text is the returned content, up to surrounding blanks, with complete
  blocks between its parts; every removed block was parsed into at least one call, and the calls
  returned are exactly those of the removed blocks, in order. Malformed, truncated and abandoned markup
  stays in the content.
\<close>

theorem only_parsed_calls_leave_the_content:
  assumes "dialect_block pe tools d = Some block_parser" and "parse_text pe (Some d) tools text = Inr (content, calls)"
  shows "\<exists>pieces last. text = concat (map (\<lambda>(part, block, cs). part @ TOOL_CALL_OPEN @ block @ TOOL_CALL_CLOSE) pieces) @ last \<and>
    content = strip (concat (map (\<lambda>(part, block, cs). part) pieces) @ last) \<and>
    calls = concat (map (\<lambda>(part, block, cs). cs) pieces) \<and>
    (\<forall>(part, block, cs)\<in>set pieces. cs \<noteq> [] \<and> block_parser (strip block) = Inr (Some cs))"
proof -
  have "parse_blocks block_parser text = Inr (content, calls)" using assms parse_text_blocks by simp
  then obtain parts where c: "content = strip (concat parts)" and a: "accounts_for block_parser text parts calls"
    by (rule parse_blocks_accounts)
  from a obtain pieces last where p: "text = concat (map piece_text pieces) @ last" "parts = map fst pieces @ [last]"
    "calls = concat (map (\<lambda>(_, _, cs). cs) pieces)"
    "\<forall>(content, block, cs)\<in>set pieces. cs \<noteq> [] \<and> block_parser (strip block) = Inr (Some cs)"
    unfolding accounts_for_def by blast
  have "map piece_text pieces = map (\<lambda>(part, block, cs). part @ TOOL_CALL_OPEN @ block @ TOOL_CALL_CLOSE) pieces"
    "map fst pieces = map (\<lambda>(part, block, cs). part) pieces"
    by (simp_all add: piece_text_def case_prod_beta)
  with p c show ?thesis by (intro exI [of _ pieces] exI [of _ last]) simp
qed

text \<open>A turn with a call, for the witnesses.\<close>

definition plain_env :: parser_env where
  "plain_env = \<lparr>pe_json = \<lparr>je_limit = 20, je_float = (\<lambda>_. PosInf), je_repr = (\<lambda>_. []), je_wide = (\<lambda>_. [])\<rparr>, pe_repr = (\<lambda>_. [])\<rparr>"

definition phone_tools :: pyval where
  "phone_tools = PList [PDict [(''type'', PStr ''function''), (''function'', PDict [(''name'', PStr ''dial''),
     (''parameters'', PDict [(''properties'', PDict [(''phone'', PDict [(''type'', PStr ''string'')])])])])]]"

definition phone_text :: string where
  "phone_text = ''Calling.<tool_call>\<newline><function=dial>\<newline><parameter=phone>\<newline>12\<newline></parameter>\<newline><parameter=times>\<newline>3\<newline></parameter>\<newline></function>\<newline></tool_call>''"

lemma phone_parsed:
  "parse_text plain_env (Some Qwen3Coder) phone_tools phone_text =
     Inr (''Calling.'', [(''dial'', ''{\"phone\": \"12\", \"times\": 3}'')])"
  by code_simp

theorem only_parsed_calls_leave_the_content_witness:
  "parse_text plain_env (Some Qwen3Coder) phone_tools phone_text =
     Inr (''Calling.'', [(''dial'', ''{\"phone\": \"12\", \"times\": 3}'')]) \<and>
   (\<exists>pieces last. phone_text = concat (map (\<lambda>(part, block, cs). part @ TOOL_CALL_OPEN @ block @ TOOL_CALL_CLOSE) pieces) @ last \<and>
      [(''dial'', ''{\"phone\": \"12\", \"times\": 3}'')] = concat (map (\<lambda>(part, block, cs). cs) pieces))"
proof -
  obtain bp where "dialect_block plain_env phone_tools Qwen3Coder = Some bp" by (auto simp: dialect_block_def)
  from only_parsed_calls_leave_the_content [OF this phone_parsed] phone_parsed show ?thesis by blast
qed

subsection \<open>The scan is linear\<close>

lemma parse_or_retry_reads:
  obtains bs where "sum_list (map length bs) \<le> 2 * length block"
    and "\<And>bp bp'. \<forall>b\<in>set bs. bp' b = bp b \<Longrightarrow> parse_or_retry bp' before block = parse_or_retry bp before block"
proof -
  let ?bs = "strip block # (case rpartition_at TOOL_CALL_OPEN block of None \<Rightarrow> [] | Some (a, inner) \<Rightarrow> [strip inner])"
  show thesis
  proof (rule that [of ?bs])
    show "sum_list (map length ?bs) \<le> 2 * length block"
    proof (cases "rpartition_at TOOL_CALL_OPEN block")
      case None
      then show ?thesis using strip_length [of block] by simp
    next
      case (Some ai)
      obtain a inner where ai: "ai = (a, inner)" by (cases ai) auto
      have "length inner \<le> length block" using rpartition_at_Some [OF Some [unfolded ai]] by simp
      then show ?thesis using strip_length [of block] strip_length [of inner] by (simp add: Some ai)
    qed
    fix bp bp' :: block_parser
    assume "\<forall>b\<in>set ?bs. bp' b = bp b"
    then show "parse_or_retry bp' before block = parse_or_retry bp before block"
      by (cases "rpartition_at TOOL_CALL_OPEN block") (auto simp: parse_or_retry_def intro!: rbind_cong)
  qed
qed

lemma scan_blocks_reads:
  "\<exists>bs. sum_list (map length bs) \<le> 2 * length rest \<and>
     (\<forall>bp'. (\<forall>b\<in>set bs. bp' b = bp b) \<longrightarrow> scan_blocks bp' parts calls kept rest = scan_blocks bp parts calls kept rest)"
proof (induction bp parts calls kept rest rule: scan_blocks.induct)
  case (1 bp parts calls kept rest)
  show ?case
  proof (cases "partition_at TOOL_CALL_OPEN rest")
    case None
    then show ?thesis by (intro exI [of _ "[]"]) (simp add: scan_blocks.simps [of _ parts])
  next
    case (Some bt)
    obtain before tail where bt: "bt = (before, tail)" by (cases bt) auto
    note o = Some [unfolded bt]
    show ?thesis
    proof (cases "partition_at TOOL_CALL_CLOSE tail")
      case None
      with o show ?thesis by (intro exI [of _ "[]"]) (simp add: scan_blocks.simps [of _ parts])
    next
      case (Some br)
      obtain block rest' where br: "br = (block, rest')" by (cases br) auto
      note c = Some [unfolded br]
      have len: "length block + length rest' \<le> length rest"
        using partition_at_Some [OF o] partition_at_Some [OF c] by simp
      obtain bs where bs: "sum_list (map length bs) \<le> 2 * length block"
        "\<And>bp bp'. \<forall>b\<in>set bs. bp' b = bp b \<Longrightarrow> parse_or_retry bp' before block = parse_or_retry bp before block"
        using parse_or_retry_reads [of block before] by blast
      have step_eq: "scan_blocks bp' parts calls kept rest =
          (case parse_or_retry bp' before block of
             Inl e \<Rightarrow> Inl e
           | Inr (r, before') \<Rightarrow>
               (case r of
                  Some (c # cs) \<Rightarrow> scan_blocks bp' (parts @ [kept @ before']) (calls @ c # cs) [] rest'
                | _ \<Rightarrow> scan_blocks bp' parts calls (kept @ before @ TOOL_CALL_OPEN @ block @ TOOL_CALL_CLOSE) rest'))" for bp'
        unfolding scan_blocks.simps [of bp' parts calls kept rest] by (simp add: o c)
      have rest_same: "\<exists>bs'. sum_list (map length bs') \<le> 2 * length rest' \<and>
          (\<forall>bp'. (\<forall>b\<in>set bs'. bp' b = bp b) \<longrightarrow>
            (case parse_or_retry bp before block of
               Inl e \<Rightarrow> Inl e
             | Inr (r, before') \<Rightarrow>
                 (case r of
                    Some (c # cs) \<Rightarrow> scan_blocks bp' (parts @ [kept @ before']) (calls @ c # cs) [] rest'
                  | _ \<Rightarrow> scan_blocks bp' parts calls (kept @ before @ TOOL_CALL_OPEN @ block @ TOOL_CALL_CLOSE) rest')) =
            scan_blocks bp parts calls kept rest)"
      proof (cases "parse_or_retry bp before block")
        case (Inl e)
        then show ?thesis by (intro exI [of _ "[]"]) (simp add: step_eq)
      next
        case (Inr rb)
        obtain r before' where rb: "rb = (r, before')" by (cases rb) auto
        note p = Inr [unfolded rb]
        consider "r = None" | "r = Some []" | x xs where "r = Some (x # xs)" by (metis list.exhaust option.exhaust)
        then show ?thesis
        proof cases
          case 1
          from "1.IH"(1) [OF o refl c refl p refl 1] show ?thesis by (simp add: step_eq p 1)
        next
          case 2
          from "1.IH"(2) [OF o refl c refl p refl 2 refl] show ?thesis by (simp add: step_eq p 2)
        next
          case (3 x xs)
          from "1.IH"(3) [OF o refl c refl p refl 3 refl] show ?thesis by (simp add: step_eq p 3)
        qed
      qed
      then obtain bs' where bs': "sum_list (map length bs') \<le> 2 * length rest'"
        "\<And>bp'. \<forall>b\<in>set bs'. bp' b = bp b \<Longrightarrow>
            (case parse_or_retry bp before block of
               Inl e \<Rightarrow> Inl e
             | Inr (r, before') \<Rightarrow>
                 (case r of
                    Some (c # cs) \<Rightarrow> scan_blocks bp' (parts @ [kept @ before']) (calls @ c # cs) [] rest'
                  | _ \<Rightarrow> scan_blocks bp' parts calls (kept @ before @ TOOL_CALL_OPEN @ block @ TOOL_CALL_CLOSE) rest')) =
            scan_blocks bp parts calls kept rest" by blast
      show ?thesis
      proof (intro exI [of _ "bs @ bs'"] conjI allI impI)
        show "sum_list (map length (bs @ bs')) \<le> 2 * length rest" using bs(1) bs'(1) len by simp
        fix bp' assume "\<forall>b\<in>set (bs @ bs'). bp' b = bp b"
        then have "\<forall>b\<in>set bs. bp' b = bp b" "\<forall>b\<in>set bs'. bp' b = bp b" by auto
        from bs(2) [OF this(1)] bs'(2) [OF this(2)] show "scan_blocks bp' parts calls kept rest = scan_blocks bp parts calls kept rest"
          by (simp add: step_eq [of bp'])
      qed
    qed
  qed
qed

text \<open>C35:
  The scan is linear: however often a completion repeats the markers, the blocks and retried inner
  blocks handed to the dialect's block parser are at most twice as long together as the completion; on
  any other text the block parser may do what it likes without changing the result.
\<close>

theorem block_scan_is_linear:
  "\<exists>tried. sum_list (map length tried) \<le> 2 * length text \<and>
     (\<forall>other. (\<forall>b\<in>set tried. other b = block_parser b) \<longrightarrow> parse_blocks other text = parse_blocks block_parser text)"
proof -
  from scan_blocks_reads [of "text" block_parser "[]" "[]" "[]"]
  obtain tried where tried: "sum_list (map length tried) \<le> 2 * length text \<and>
    (\<forall>other. (\<forall>b\<in>set tried. other b = block_parser b) \<longrightarrow>
      scan_blocks other [] [] [] text = scan_blocks block_parser [] [] [] text)" ..
  show ?thesis
  proof (intro exI [of _ tried] conjI allI impI)
    fix other assume "\<forall>b\<in>set tried. other b = block_parser b"
    with tried have "scan_blocks other [] [] [] text = scan_blocks block_parser [] [] [] text" by blast
    then show "parse_blocks other text = parse_blocks block_parser text" by (simp add: parse_blocks_def)
  qed (use tried in blast)
qed

theorem block_scan_is_linear_witness:
  "parse_blocks (\<lambda>b. if 2 * length phone_text < length b then Inl RecursionLimit else hermes_block plain_env b) phone_text =
     parse_blocks (hermes_block plain_env) phone_text"
proof -
  from block_scan_is_linear [of phone_text "hermes_block plain_env"] obtain tried where
    len: "sum_list (map length tried) \<le> 2 * length phone_text"
    and same: "\<forall>other. (\<forall>b\<in>set tried. other b = hermes_block plain_env b) \<longrightarrow>
      parse_blocks other phone_text = parse_blocks (hermes_block plain_env) phone_text" by blast
  have "\<not> 2 * length phone_text < length b" if "b \<in> set tried" for b
    using member_le_sum_list [of "length b" "map length tried"] that len by simp
  then show ?thesis by (intro same [rule_format]) simp
qed

end
