(* ===== verification/ToolSections.thy ===== *)
theory ToolSections
  imports ToolParser
begin

section \<open>The section scanner\<close>

text \<open>
  \<^verbatim>\<open>_split_sections\<close> walks a text with indices and remembers the position of a \<^verbatim>\<open>>\<close> to stay linear. Here it
  is compared with the plain reading of the format: partition at the opener, at the \<^verbatim>\<open>>\<close> behind it and at
  the close marker, with the text between the sections collected on the way.
\<close>

subsection \<open>The plain scanner\<close>

text \<open>Gap, name and body of every section, and the last gap.\<close>

function plain_sections :: "string \<Rightarrow> string \<Rightarrow> string \<Rightarrow> string \<Rightarrow> (string \<times> string \<times> string) list \<times> string" where
  "plain_sections op cl gap rest =
     (case partition_at op rest of
        None \<Rightarrow> ([], gap @ rest)
      | Some (before, tail) \<Rightarrow>
          (case partition_at ''>'' tail of
             None \<Rightarrow> ([], gap @ rest)
           | Some (name, on) \<Rightarrow>
               (case partition_at [CHR 0x0A] name of
                  Some (line, name_rest) \<Rightarrow>
                    plain_sections op cl (gap @ before @ op @ line @ [CHR 0x0A]) (name_rest @ ''>'' @ on)
                | None \<Rightarrow>
                    if strip name = [] then plain_sections op cl (gap @ before @ op @ name @ ''>'') on
                    else (case partition_at cl on of
                            None \<Rightarrow> ([], gap @ rest)
                          | Some (body, rest') \<Rightarrow>
                              (case plain_sections op cl [] rest' of (sections, rest) \<Rightarrow>
                                 ((gap @ before, strip name, body) # sections, rest))))))"
  by pat_completeness auto

termination
  by (relation "measure (\<lambda>(op, cl, gap, rest). length rest)") (auto dest!: partition_at_Some)

declare plain_sections.simps [simp del]

definition blank :: "string \<Rightarrow> bool" where
  "blank s \<longleftrightarrow> strip s = []"

definition plain_split :: "string \<Rightarrow> string \<Rightarrow> string \<Rightarrow> (string \<times> string) list \<times> bool" where
  "plain_split text op cl =
     (case plain_sections op cl [] text of (sections, rest) \<Rightarrow>
        (map snd sections, list_all blank (tl (map fst sections @ [rest]))))"

subsection \<open>Positions and pieces\<close>

lemma slice_drop: "i \<le> j \<Longrightarrow> slice s i j @ drop j s = drop i s"
proof -
  assume "i \<le> j"
  have "drop i s = drop i (take j s @ drop j s)" by simp
  also have "\<dots> = slice s i j @ drop (i - length (take j s)) (drop j s)" by (simp only: drop_append slice_def)
  also have "drop (i - length (take j s)) (drop j s) = drop j s"
    using \<open>i \<le> j\<close> by (cases "j \<le> length s") simp_all
  finally show ?thesis by simp
qed

lemma slice_append: "i \<le> j \<Longrightarrow> j \<le> k \<Longrightarrow> slice s i j @ slice s j k = slice s i k"
  using slice_drop [of i j "take k s"] by (simp add: slice_def min_def)

lemma slice_prefix: "drop i s = a @ b \<Longrightarrow> slice s i (i + length a) = a"
  by (simp add: slice_def drop_take)

lemma find_from_partition:
  "i \<le> length s \<Longrightarrow> find_from s sub i = (case partition_at sub (drop i s) of None \<Rightarrow> None | Some (a, b) \<Rightarrow> Some (i + length a))"
  by (auto simp: find_from_def split: option.splits)

lemma drop_partition: "partition_at sub (drop i s) = Some (a, b) \<Longrightarrow> drop (i + length a + length sub) s = b"
  by (drule partition_at_Some) (metis append_assoc append_eq_conv_conj drop_drop length_append add.assoc add.commute)

lemma partition_at_char: "c \<notin> set a \<Longrightarrow> partition_at [c] (a @ c # b) = Some (a, b)"
  by (induction a) auto

lemma partition_at_charD: "partition_at [c] s = Some (a, b) \<Longrightarrow> c \<notin> set a"
  by (induction s arbitrary: a) (auto split: if_splits)

lemma find_from_later:
  assumes "find_from s [c] q = Some e" and "q \<le> b" and "b \<le> e"
  shows "find_from s [c] b = Some e"
proof -
  from assms(1) obtain x y where p: "partition_at [c] (drop q s) = Some (x, y)" and e: "e = q + length x"
    by (auto simp: find_from_def split: if_splits)
  define n where "n = b - q"
  have n: "drop b s = drop n (drop q s)" "n \<le> length x" using assms(2,3) unfolding n_def e by simp_all
  have "drop q s = x @ c # y" using partition_at_Some [OF p] by simp
  with n have "drop b s = drop n x @ c # y" by (simp only: drop_append) simp
  moreover have "c \<notin> set (drop n x)" using partition_at_charD [OF p] by (meson in_set_dropD)
  ultimately have "partition_at [c] (drop b s) = Some (drop n x, y)" by (simp add: partition_at_char)
  moreover have "b \<le> length s" using find_from_bounds [OF assms(1)] assms(3) by simp
  moreover have "b + length (drop n x) = e" using n(2) assms(2) by (simp add: e n_def)
  ultimately show ?thesis by (simp only: find_from_def) simp
qed

text \<open>The remembered position: it was found by a search that began at the cursor or before it.\<close>

definition remembered :: "string \<Rightarrow> nat \<Rightarrow> nat option \<Rightarrow> bool" where
  "remembered s pos name_end \<longleftrightarrow> (\<forall>e. name_end = Some e \<longrightarrow> (\<exists>q\<le>pos. find_from s ''>'' q = Some e))"

lemma remembered_fresh:
  assumes "remembered s pos name_end" and "pos \<le> b"
  shows "(case name_end of Some e \<Rightarrow> if e < b then find_from s ''>'' b else name_end | None \<Rightarrow> find_from s ''>'' b) =
    find_from s ''>'' b"
proof (cases name_end)
  case (Some e)
  then obtain q where q: "q \<le> pos" "find_from s ''>'' q = Some e" using assms(1) by (auto simp: remembered_def)
  have "find_from s ''>'' b = Some e" if "\<not> e < b" using find_from_later [OF q(2)] q(1) assms(2) that by simp
  with Some show ?thesis by simp
qed simp

lemma rememberedI: "find_from s ''>'' q = Some e \<Longrightarrow> q \<le> pos \<Longrightarrow> remembered s pos (Some e)"
  by (auto simp: remembered_def)

text \<open>A round of the loop over the pieces of the text ahead of the cursor.\<close>

lemma sections_round:
  assumes memo: "remembered s pos name_end" and pos: "pos \<le> length s"
  shows "sections_loop op cl s sections well gap pos name_end =
    (case partition_at op (drop pos s) of
       None \<Rightarrow> sections_end s sections well gap
     | Some (before, tail) \<Rightarrow>
         (let b = pos + length before + length op in
          case partition_at ''>'' tail of
            None \<Rightarrow> sections_end s sections well gap
          | Some (name, on) \<Rightarrow>
              (let e = b + length name in
               case partition_at [CHR 0x0A] name of
                 Some (line, _) \<Rightarrow> sections_loop op cl s sections well gap (b + length line + 1) (Some e)
               | None \<Rightarrow>
                   if strip name = [] then sections_loop op cl s sections well gap (e + 1) (Some e)
                   else (case partition_at cl on of
                           None \<Rightarrow> sections_end s sections well gap
                         | Some (body, _) \<Rightarrow>
                             (let p = e + 1 + length body + length cl in
                              sections_loop op cl s (sections @ [(strip name, body)])
                                (well \<and> \<not> (sections \<noteq> [] \<and> strip (slice s gap (pos + length before)) \<noteq> [])) p p (Some e))))))"
proof (cases "partition_at op (drop pos s)")
  case None
  then show ?thesis using pos by (simp add: sections_loop.simps [of op cl s sections] find_from_partition)
next
  case (Some bt)
  obtain before tail where bt: "bt = (before, tail)" by (cases bt) auto
  note o = Some [unfolded bt]
  define b where "b = pos + length before + length op"
  have start: "find_from s op pos = Some (pos + length before)" using pos o by (simp add: find_from_partition)
  have tail: "drop b s = tail" using drop_partition [OF o] by (simp add: b_def)
  have b: "b \<le> length s" using arg_cong [OF partition_at_Some [OF o], of length] pos by (simp add: b_def)
  have fresh: "(case name_end of Some e \<Rightarrow> if e < b then find_from s ''>'' b else name_end | None \<Rightarrow> find_from s ''>'' b) =
    (case partition_at ''>'' tail of None \<Rightarrow> None | Some (name, on) \<Rightarrow> Some (b + length name))"
    using remembered_fresh [OF memo, of b] find_from_partition [OF b] by (simp add: b_def [symmetric] tail) (simp add: b_def)
  show ?thesis
  proof (cases "partition_at ''>'' tail")
    case None
    then show ?thesis
      unfolding sections_loop.simps [of op cl s sections well gap pos name_end]
      by (simp add: start o b_def [symmetric] fresh Let_def)
  next
    case (Some no)
    obtain name on where no: "no = (name, on)" by (cases no) auto
    note n = Some [unfolded no]
    define e where "e = b + length name"
    have tail': "tail = name @ ''>'' @ on" by (rule partition_at_Some [OF n])
    have name: "slice s b e = name" unfolding e_def by (rule slice_prefix) (simp add: tail tail')
    have on: "drop (e + 1) s = on" using drop_partition [of "''>''" b s name on] n by (simp add: tail e_def)
    have e: "e + 1 \<le> length s" using arg_cong [OF tail, of length] b by (simp add: tail' e_def)
    have line: "find_between s [CHR 0x0A] b e =
        (case partition_at [CHR 0x0A] name of None \<Rightarrow> None | Some (line, _) \<Rightarrow> Some (b + length line))"
      using find_from_partition [of b "take e s"] e name by (simp add: find_between_def slice_def e_def)
    have close: "find_from s cl (e + 1) = (case partition_at cl on of None \<Rightarrow> None | Some (body, _) \<Rightarrow> Some (e + 1 + length body))"
      unfolding find_from_partition [OF e, of cl] on ..
    have body: "slice s (Suc e) (Suc (e + length body)) = body" if "partition_at cl on = Some (body, rest)" for body rest
      using slice_prefix [OF trans [OF on partition_at_Some [OF that]]] by simp
    have unfolded: "sections_loop op cl s sections well gap pos name_end =
          (case find_between s [CHR 0x0A] b e of
             Some line \<Rightarrow> sections_loop op cl s sections well gap (line + 1) (Some e)
           | None \<Rightarrow>
               if strip (slice s b e) = [] then sections_loop op cl s sections well gap (e + 1) (Some e)
               else (case find_from s cl (e + 1) of
                       None \<Rightarrow> sections_end s sections well gap
                     | Some close \<Rightarrow>
                         sections_loop op cl s (sections @ [(strip (slice s b e), slice s (e + 1) close)])
                           (well \<and> \<not> (sections \<noteq> [] \<and> strip (slice s gap (pos + length before)) \<noteq> []))
                           (close + length cl) (close + length cl) (Some e)))"
      unfolding sections_loop.simps [of op cl s sections well gap pos name_end]
      by (simp only: start option.case b_def [symmetric] Let_def fresh n prod.case e_def [symmetric])
    show ?thesis
      unfolding unfolded line close name
      by (auto simp: o n b_def [symmetric] e_def [symmetric] Let_def body split: option.splits)
  qed
qed

subsection \<open>Equivalence\<close>

lemma sections_loop_plain:
  assumes "remembered s pos name_end" and "pos \<le> length s" and "gap \<le> pos"
  shows "sections_loop op cl s sections well gap pos name_end =
    (case plain_sections op cl (slice s gap pos) (drop pos s) of (found, rest) \<Rightarrow>
       (sections @ map snd found,
        well \<and> list_all blank (let gaps = map fst found @ [rest] in if sections = [] then tl gaps else gaps)))"
  using assms
proof (induction "Suc (length s) - pos" arbitrary: sections well gap pos name_end rule: less_induct)
  case less
  note memo = less.prems(1) and pos = less.prems(2) and gap = less.prems(3)
  have stop: "sections_end s sections well gap =
      (case ([], slice s gap pos @ drop pos s) of (found, rest) \<Rightarrow>
       (sections @ map snd found,
        well \<and> list_all blank (let gaps = map fst found @ [rest] in if sections = [] then tl gaps else gaps)))"
    using gap by (auto simp: sections_end_def slice_drop blank_def Let_def)
  show ?case
  proof (cases "partition_at op (drop pos s)")
    case None
    then show ?thesis unfolding sections_round [OF memo pos] stop plain_sections.simps [of op cl _ "drop pos s"] by simp
  next
    case (Some bt)
    obtain before tail where bt: "bt = (before, tail)" by (cases bt) auto
    note o = Some [unfolded bt]
    define b where "b = pos + length before + length op"
    have tail: "drop b s = tail" using drop_partition [OF o] by (simp add: b_def)
    have b: "b \<le> length s" using arg_cong [OF partition_at_Some [OF o], of length] pos by (simp add: b_def)
    have gap_before: "slice s gap (pos + length before) = slice s gap pos @ before"
      using slice_append [of gap pos "pos + length before" s] gap slice_prefix [OF partition_at_Some [OF o]] by simp
    show ?thesis
    proof (cases "partition_at ''>'' tail")
      case None
      then show ?thesis
        unfolding sections_round [OF memo pos] plain_sections.simps [of op cl _ "drop pos s"] by (simp add: o stop)
    next
      case (Some no)
      obtain name on where no: "no = (name, on)" by (cases no) auto
      note n = Some [unfolded no]
      define e where "e = b + length name"
      have tail': "tail = name @ ''>'' @ on" by (rule partition_at_Some [OF n])
      have on: "drop (e + 1) s = on" using drop_partition [of "''>''" b s name on] n by (simp add: tail e_def)
      have e: "e + 1 \<le> length s" using arg_cong [OF tail, of length] b by (simp add: tail' e_def)
      have found: "find_from s ''>'' b = Some e" using find_from_partition [OF b] n by (simp add: tail e_def)
      have mem: "remembered s p (Some e)" if "b \<le> p" for p using rememberedI [OF found that] .
      have ahead: "drop pos s = before @ op @ name @ ''>'' @ on" using partition_at_Some [OF o] by (simp add: tail')
      show ?thesis
      proof (cases "partition_at [CHR 0x0A] name")
        case (Some ln)
        obtain line name_rest where ln: "ln = (line, name_rest)" by (cases ln) auto
        note l = Some [unfolded ln]
        let ?p = "b + length line + 1"
        have name: "name = line @ [CHR 0x0A] @ name_rest" by (rule partition_at_Some [OF l])
        have at: "drop ?p s = name_rest @ ''>'' @ on" "slice s gap ?p = slice s gap pos @ before @ op @ line @ [CHR 0x0A]"
          "?p \<le> length s" "pos < ?p"
        proof -
          have d: "drop pos s = (before @ op @ line @ [CHR 0x0A]) @ name_rest @ ''>'' @ on" using ahead by (simp add: name)
          have p: "?p = pos + length (before @ op @ line @ [CHR 0x0A])" by (simp add: b_def)
          show "drop ?p s = name_rest @ ''>'' @ on" unfolding p using d by (metis append_eq_conv_conj drop_drop add.commute)
          show "slice s gap ?p = slice s gap pos @ before @ op @ line @ [CHR 0x0A]"
            using slice_append [of gap pos ?p s] gap slice_prefix [OF d] unfolding p by simp
          show "?p \<le> length s" using e by (simp add: e_def name)
          show "pos < ?p" by (simp add: b_def)
        qed
        have "sections_loop op cl s sections well gap pos name_end = sections_loop op cl s sections well gap ?p (Some e)"
          unfolding sections_round [OF memo pos] by (simp add: o n l Let_def b_def e_def)
        also note less.hyps [OF _ mem at(3), of gap sections well]
        finally show ?thesis
          using at(1,2,4) gap pos unfolding plain_sections.simps [of op cl _ "drop pos s"] by (simp add: o n l)
      next
        case None
        note nl = None
        show ?thesis
        proof (cases "strip name = []")
          case True
          have at: "slice s gap (e + 1) = slice s gap pos @ before @ op @ name @ ''>''"
          proof -
            have d: "drop pos s = (before @ op @ name @ ''>'') @ on" using ahead by simp
            have p: "e + 1 = pos + length (before @ op @ name @ ''>'')" by (simp add: e_def b_def)
            show ?thesis using slice_append [of gap pos "e + 1" s] gap slice_prefix [OF d] unfolding p by simp
          qed
          have "sections_loop op cl s sections well gap pos name_end = sections_loop op cl s sections well gap (e + 1) (Some e)"
            unfolding sections_round [OF memo pos] by (simp add: o n nl True Let_def b_def e_def)
          also note less.hyps [OF _ mem e, of gap sections well]
          finally show ?thesis
            using at on gap pos unfolding plain_sections.simps [of op cl _ "drop pos s"]
            by (simp add: o n nl True e_def b_def)
        next
          case False
          show ?thesis
          proof (cases "partition_at cl on")
            case None
            then show ?thesis
              unfolding sections_round [OF memo pos] plain_sections.simps [of op cl _ "drop pos s"]
              by (simp add: o n nl False stop Let_def)
          next
            case (Some br)
            obtain body rest where br: "br = (body, rest)" by (cases br) auto
            note c = Some [unfolded br]
            let ?p = "e + 1 + length body + length cl"
            have at: "drop ?p s = rest" using drop_partition [of cl "e + 1" s body rest] c unfolding on by simp
            have p: "?p \<le> length s" using arg_cong [OF on, of length] arg_cong [OF partition_at_Some [OF c], of length] e by simp
            have self: "slice s ?p ?p = []" by (simp add: slice_def)
            have "sections_loop op cl s sections well gap pos name_end =
              sections_loop op cl s (sections @ [(strip name, body)])
                (well \<and> \<not> (sections \<noteq> [] \<and> \<not> blank (slice s gap pos @ before))) ?p ?p (Some e)"
              unfolding sections_round [OF memo pos]
              by (simp add: o n nl False c Let_def gap_before blank_def b_def e_def)
            also note less.hyps [OF _ mem p, of ?p "sections @ [(strip name, body)]" "well \<and> \<not> (sections \<noteq> [] \<and> \<not> blank (slice s gap pos @ before))"]
            finally show ?thesis
              using at self pos unfolding plain_sections.simps [of op cl _ "drop pos s"]
              by (auto simp: o n nl False c e_def b_def Let_def split: prod.splits)
          qed
        qed
      qed
    qed
  qed
qed

lemma split_sections_plain: "split_sections text op cl = plain_split text op cl"
proof -
  have "remembered text 0 None" by (simp add: remembered_def)
  from sections_loop_plain [OF this, of 0 op cl "[]" True] show ?thesis
    by (simp add: split_sections_def plain_split_def slice_def Let_def split: prod.splits)
qed

text \<open>C18:
  The scanner of the XML dialect, with its indices, its remembered \<^verbatim>\<open>>\<close> and its recovery at newlines,
  finds exactly the sections of the plain reading on every text and every pair of markers, and reports a
  text as damaged exactly when something other than blanks stands between or behind its sections.
\<close>

theorem section_scan_is_the_plain_reading:
  "split_sections text op cl = plain_split text op cl"
  by (rule split_sections_plain)

subsection \<open>What a section is\<close>

lemma partition_at_first: "partition_at sep s = Some (a, b) \<Longrightarrow> sep \<noteq> [] \<Longrightarrow> \<not> sublist sep a"
proof (induction s arbitrary: a)
  case (Cons c cs)
  show ?case
  proof (cases "prefix sep (c # cs)")
    case True
    with Cons.prems show ?thesis by auto
  next
    case False
    with Cons.prems(1) obtain a' where a: "a = c # a'" and p: "partition_at sep cs = Some (a', b)" by auto
    have "\<not> prefix sep (c # a')"
      using False partition_at_Some [OF p] by (metis append_Cons prefix_prefix)
    with Cons.IH [OF p Cons.prems(2)] show ?thesis by (simp add: a sublist_Cons_right)
  qed
qed (simp split: if_splits)

lemma set_strip: "set (strip s) \<subseteq> set s"
  by (auto simp: strip_def lstrip_def dest!: set_dropWhileD)

definition section_ok :: "string \<Rightarrow> string \<times> string \<Rightarrow> bool" where
  "section_ok cl sec \<longleftrightarrow>
     (case sec of (name, body) \<Rightarrow> name \<noteq> [] \<and> CHR 0x0A \<notin> set name \<and> CHR ''>'' \<notin> set name \<and> \<not> sublist cl body)"

lemma partition_at_None_char: "partition_at [c] s = None \<Longrightarrow> c \<notin> set s"
  by (induction s) (auto split: if_splits)

lemma plain_sections_ok:
  "cl \<noteq> [] \<Longrightarrow> plain_sections op cl gap rest = (sections, final) \<Longrightarrow> list_all (section_ok cl) (map snd sections)"
proof (induction op cl gap rest arbitrary: sections final rule: plain_sections.induct)
  case (1 op cl gap rest)
  note unfolded = "1.prems"(2) [unfolded plain_sections.simps [of op cl gap rest]]
  show ?case
  proof (cases "partition_at op rest")
    case None
    with unfolded show ?thesis by simp
  next
    case (Some bt)
    obtain before tail where bt: "bt = (before, tail)" by (cases bt) auto
    note o = Some [unfolded bt]
    show ?thesis
    proof (cases "partition_at ''>'' tail")
      case None
      with o unfolded show ?thesis by simp
    next
      case (Some no)
      obtain name on where no: "no = (name, on)" by (cases no) auto
      note n = Some [unfolded no]
      show ?thesis
      proof (cases "partition_at [CHR 0x0A] name")
        case (Some ln)
        obtain line name_rest where ln: "ln = (line, name_rest)" by (cases ln) auto
        note l = Some [unfolded ln]
        from unfolded show ?thesis
          by (intro "1.IH"(3) [OF o refl n refl l refl "1.prems"(1)]) (simp add: o n l)
      next
        case None
        note nl = None
        show ?thesis
        proof (cases "strip name = []")
          case True
          from unfolded show ?thesis
            by (intro "1.IH"(1) [OF o refl n refl nl True "1.prems"(1)]) (simp add: o n nl True)
        next
          case False
          show ?thesis
          proof (cases "partition_at cl on")
            case None
            with unfolded o n nl False show ?thesis by simp
          next
            case (Some br)
            obtain body rest' where br: "br = (body, rest')" by (cases br) auto
            note c = Some [unfolded br]
            obtain ss f where sf: "plain_sections op cl [] rest' = (ss, f)" by fastforce
            from unfolded have s: "sections = (gap @ before, strip name, body) # ss" by (simp add: o n nl False c sf)
            have "section_ok cl (strip name, body)"
              using False set_strip [of name] partition_at_None_char [OF nl] partition_at_charD [OF n]
                partition_at_first [OF c "1.prems"(1)] by (auto simp: section_ok_def)
            with "1.IH"(2) [OF o refl n refl nl False c refl "1.prems"(1) sf] show ?thesis by (simp add: s)
          qed
        qed
      qed
    qed
  qed
qed

lemma split_sections_ok:
  "cl \<noteq> [] \<Longrightarrow> split_sections s op cl = (sections, well) \<Longrightarrow> list_all (section_ok cl) sections"
  by (auto simp: split_sections_plain plain_split_def split: prod.splits dest: plain_sections_ok)

end
