(* ===== verification/ToolCallTypes.thy ===== *)
theory ToolCallTypes
  imports ToolParserProperties ToolSections
begin

section \<open>The arguments of a parsed call\<close>

text \<open>
  What the Qwen and GLM parsers hand to the agent: a named call whose arguments are the JSON text of an
  object, with the types the tool declares. The invariant \<open>typed_arguments\<close> of the dictionary under
  construction is kept by every parameter; the text of the finished one is read back by the scanner.
\<close>

subsection \<open>Typed arguments\<close>

definition declared_string :: "(string, string) odict \<Rightarrow> string \<Rightarrow> bool" where
  "declared_string declared key \<longleftrightarrow> (case map_of declared key of None \<Rightarrow> False | Some t \<Rightarrow> t \<in> set STRING_TYPES)"

definition typed_arguments :: "(string, string) odict \<Rightarrow> pydict \<Rightarrow> bool" where
  "typed_arguments declared a \<longleftrightarrow>
     distinct (map fst a) \<and>
     list_all (\<lambda>(k, v). json_form (\<lambda>_. True) v \<and> (declared_string declared k \<longrightarrow> is_str v)) a"

lemma typed_arguments_Nil [simp]: "typed_arguments declared []"
  by (simp add: typed_arguments_def)

lemma coerce_typed:
  "coerce pe s (map_of declared k) = Inr v \<Longrightarrow>
     json_form (\<lambda>_. True) v \<and> (declared_string declared k \<longrightarrow> is_str v)"
  by (auto simp: coerce_def try_loads_def declared_string_def rbind_eq_Inr
      split: if_splits option.splits sum.splits json_error.splits dest: loads_form)

lemma typed_arguments_dset:
  assumes "typed_arguments declared d" and "coerce pe s (map_of declared k) = Inr v"
  shows "typed_arguments declared (dset k v d)"
  using assms coerce_typed [OF assms(2)]
  by (auto simp: typed_arguments_def distinct_update intro: list_all_dset)

lemma qwen_arguments_typed:
  "typed_arguments declared d \<Longrightarrow> qwen_arguments pe declared params d = Inr a \<Longrightarrow> typed_arguments declared a"
  by (induction pe declared params d rule: qwen_arguments.induct)
    (auto simp: rbind_eq_Inr intro: typed_arguments_dset)

definition typed_call :: "parser_env \<Rightarrow> param_types \<Rightarrow> tool_call \<Rightarrow> bool" where
  "typed_call pe types call \<longleftrightarrow>
     fst call \<noteq> [] \<and> (\<exists>a. typed_arguments (declared_for types (fst call)) a \<and> dumps (pe_json pe) (PDict a) = Inr (snd call))"

lemma written_Inr: "written pe v = Inr s \<longleftrightarrow> dumps (pe_json pe) v = Inr s"
  by (auto simp: written_def split: sum.splits)

lemma qwen_functions_typed:
  "list_all (section_ok cl) functions \<Longrightarrow> qwen_functions pe types functions = Inr (Some calls) \<Longrightarrow> call \<in> set calls \<Longrightarrow> typed_call pe types call"
proof (induction pe types "functions" arbitrary: calls rule: qwen_functions.induct)
  case (2 pe types name body fs)
  obtain params well where ps: "split_sections body ''<parameter='' ''</parameter>'' = (params, well)" by fastforce
  from "2.prems"(2) ps obtain d s cs where d: "qwen_arguments pe (declared_for types name) params [] = Inr d"
    and s: "written pe (PDict d) = Inr s" and cs: "qwen_functions pe types fs = Inr (Some cs)" "calls = (name, s) # cs"
    and ok: "\<not> (\<not> well \<or> params = [] \<and> strip body \<noteq> [])"
    by (auto simp: rbind_eq_Inr split: if_splits)
  have "typed_call pe types (name, s)"
    using "2.prems"(1) s qwen_arguments_typed [OF typed_arguments_Nil d] by (auto simp: typed_call_def section_ok_def written_Inr)
  moreover have "list_all (section_ok cl) fs" using "2.prems"(1) by simp
  ultimately show ?case using "2.IH" [OF ps [symmetric] ok d s _ cs(1)] cs(2) "2.prems"(3) by auto
qed simp

lemma qwen_block_typed:
  "qwen_block pe types block = Inr (Some calls) \<Longrightarrow> call \<in> set calls \<Longrightarrow> typed_call pe types call"
  by (auto simp: qwen_block_def split: prod.splits if_splits intro: qwen_functions_typed 
      dest: split_sections_ok [of "''</function>''", simplified])

lemma glm_arguments_typed:
  "typed_arguments declared d \<Longrightarrow> glm_arguments pe declared rest d = Inr (Some a) \<Longrightarrow> typed_arguments declared a"
proof (induction pe declared rest d rule: glm_arguments.induct)
  case (1 pe declared rest d)
  note unfolded = "1.prems"(2) [unfolded glm_arguments.simps [of pe declared rest d] Let_def]
  from unfolded obtain key rest1 where k: "partition_at ''</arg_key>'' rest = Some (key, rest1)"
    by (cases "partition_at ''</arg_key>'' rest") auto
  from unfolded k have c1: "\<not> (strip key = [] \<or> CHR ''<'' \<in> set (strip key) \<or> CHR ''>'' \<in> set (strip key) \<or> has_key d (strip key))"
    and c2: "prefix ''<arg_value>'' (lstrip rest1)"
    by (simp_all split: if_splits)
  from unfolded k c1 c2 obtain s rest2 where
    v: "partition_at ''</arg_value>'' (drop (length ''<arg_value>'') (lstrip rest1)) = Some (s, rest2)"
    by (cases "partition_at ''</arg_value>'' (drop (length ''<arg_value>'') (lstrip rest1))") auto
  from unfolded k c1 c2 v obtain w where w: "coerce pe s (map_of declared (strip key)) = Inr w"
    by (cases "coerce pe s (map_of declared (strip key))") auto
  have typed: "typed_arguments declared (dset (strip key) w d)" by (rule typed_arguments_dset [OF "1.prems"(1) w])
  from unfolded k c1 c2 v w have go: "if strip rest2 = [] then a = dset (strip key) w d
      else prefix ''<arg_key>'' (strip rest2) \<and>
        glm_arguments pe declared (drop (length ''<arg_key>'') (strip rest2)) (dset (strip key) w d) = Inr (Some a)"
    by (simp split: if_splits)
  show ?case
  proof (cases "strip rest2 = []")
    case True
    with go typed show ?thesis by simp
  next
    case False
    with go have p: "\<not> \<not> prefix ''<arg_key>'' (strip rest2)"
      and r: "glm_arguments pe declared (drop (length ''<arg_key>'') (strip rest2)) (dset (strip key) w d) = Inr (Some a)" by simp_all
    show ?thesis by (rule "1.IH" [OF k refl refl c1 refl _ v refl w refl refl False p typed r]) (simp add: c2)
  qed
qed

lemma glm_block_typed:
  assumes "glm_block pe types block = Inr (Some calls)" and "call \<in> set calls"
  shows "typed_call pe types call"
proof -
  obtain name rest where nr: "(case partition_at ''<arg_key>'' block of None \<Rightarrow> (block, None) | Some (a, b) \<Rightarrow> (a, Some b)) = (name, rest)"
    by fastforce
  from assms(1) nr obtain d s where n: "strip name \<noteq> []"
    and d: "(case rest of None \<Rightarrow> Inr (Some []) | Some r \<Rightarrow> glm_arguments pe (declared_for types (strip name)) r []) = Inr (Some d)"
    and s: "written pe (PDict d) = Inr s" and calls: "calls = [(strip name, s)]"
    by (auto simp: glm_block_def Let_def rbind_eq_Inr split: if_splits option.splits)
  have "typed_arguments (declared_for types (strip name)) d"
    using d glm_arguments_typed [OF typed_arguments_Nil] by (auto split: option.splits)
  with n s calls assms(2) show ?thesis by (auto simp: typed_call_def written_Inr)
qed

lemma typed_block:
  assumes "d = Qwen3Coder \<or> d = GLM47" and "dialect_block pe tools d = Some bp" and "bp block = Inr (Some calls)" and "call \<in> set calls"
  shows "\<exists>types. parameter_types pe tools = Inr types \<and> typed_call pe types call"
proof -
  have typed: "typed_call pe types call" if "qwen_block pe types block = Inr (Some calls) \<or> glm_block pe types block = Inr (Some calls)" for types
    using that qwen_block_typed [OF _ assms(4)] glm_block_typed [OF _ assms(4)] by blast
  from assms(1-3) obtain types where "parameter_types pe tools = Inr types"
    "qwen_block pe types block = Inr (Some calls) \<or> glm_block pe types block = Inr (Some calls)"
    by (auto simp: dialect_block_def rbind_eq_Inr)
  with typed show ?thesis by blast
qed

text \<open>C13:
  Whatever the model writes, a call that the Qwen and the GLM parser return has a name, and its
  arguments are the JSON text of an object with distinct keys in which every parameter the tool declares
  as text is a string; read by a JSON parser, this text is that object again, as long as its numbers are
  finite ones whose text reads back.
\<close>

theorem tool_arguments_are_typed_objects:
  assumes "d = Qwen3Coder \<or> d = GLM47" and "parse_text pe (Some d) tools text = Inr (content, calls)"
    and "(name, arguments) \<in> set calls"
  shows "name \<noteq> [] \<and>
    (\<exists>a types. arguments = json_text (pe_json pe) (PDict a) \<and> distinct (map fst a) \<and> parameter_types pe tools = Inr types \<and>
       (\<forall>(key, v)\<in>set a. declared_string (declared_for types name) key \<longrightarrow> is_str v) \<and>
       (list_all (float_ok (pe_json pe)) (floats (PDict a)) \<longrightarrow> loads (pe_json pe) arguments = Inr (PDict a)))"
proof -
  obtain bp where bp: "dialect_block pe tools d = Some bp" using assms(1) by (auto simp: dialect_block_def)
  from parse_text_blocks [OF bp] assms(2) obtain parts where "accounts_for bp text parts calls"
    by (metis parse_blocks_accounts)
  from accounted_call [OF this assms(3)] obtain block cs where "bp block = Inr (Some cs)" "(name, arguments) \<in> set cs" by blast
  from typed_block [OF assms(1) bp this] obtain types a where t: "parameter_types pe tools = Inr types" and n: "name \<noteq> []"
    and a: "typed_arguments (declared_for types name) a" and s: "dumps (pe_json pe) (PDict a) = Inr arguments"
    by (auto simp: typed_call_def)
  have "json_form (\<lambda>_. True) (PDict a)" using a by (auto simp: typed_arguments_def list_all_iff)
  then have "loads (pe_json pe) arguments = Inr (PDict a)" if "list_all (float_ok (pe_json pe)) (floats (PDict a))"
    using loads_dumps [OF _ s] that json_form_floats [of "float_ok (pe_json pe)" "PDict a"] by simp
  moreover have "arguments = json_text (pe_json pe) (PDict a)" using s by (auto simp: dumps_def split: if_splits)
  moreover have "\<forall>(key, v)\<in>set a. declared_string (declared_for types name) key \<longrightarrow> is_str v" "distinct (map fst a)"
    using a by (auto simp: typed_arguments_def list_all_iff)
  ultimately show ?thesis using n t by blast
qed

theorem tool_arguments_are_typed_objects_witness:
  "parse_text plain_env (Some Qwen3Coder) phone_tools phone_text =
     Inr (''Calling.'', [(''dial'', ''{\"phone\": \"12\", \"times\": 3}'')]) \<and>
   (\<exists>a. ''{\"phone\": \"12\", \"times\": 3}'' = json_text (pe_json plain_env) (PDict a) \<and> distinct (map fst a))"
  using phone_parsed tool_arguments_are_typed_objects [of Qwen3Coder, OF _ phone_parsed] by simp blast

subsection \<open>Two completions outside the contract\<close>

text \<open>
  JSON nested beyond the recursion limit is not a \<^verbatim>\<open>ValueError\<close>: instead of staying content, a block of
  opening brackets makes the parser raise.
\<close>

lemma scan_value_deep: "d < n \<Longrightarrow> scan_value je d (replicate n CHR ''['') = Inl TooDeep"
proof (induction d arbitrary: n)
  case 0
  then obtain m where "n = Suc m" by (cases n) auto
  then show ?case by (simp add: scan_at_def)
next
  case (Suc d)
  then obtain m where n: "n = Suc (Suc m)" "d < Suc m" by (cases n; cases "n - 1") auto
  have ws: "skip_ws (replicate (Suc m) CHR ''['') = replicate (Suc m) CHR ''[''" by (simp add: skip_ws_def json_space_def)
  have "scan_array (scan_value je d) (replicate (Suc m) CHR ''['') = Inl TooDeep"
    using Suc.IH [OF n(2)] by (simp only: scan_array_def Let_def ws) simp
  then show ?case by (simp add: n(1) scan_at_def)
qed

lemma deep_block_raises:
  assumes "je_limit (pe_json pe) < n"
  shows "hermes_block pe (replicate n CHR ''['') = Inl RecursionLimit"
proof -
  have "skip_ws (replicate n CHR ''['') = replicate n CHR ''[''" by (cases n) (simp_all add: skip_ws_def json_space_def)
  with scan_value_deep [OF assms] show ?thesis by (simp add: hermes_block_def try_loads_def loads_def)
qed

text \<open>
  The hook refuses the word \<^verbatim>\<open>Infinity\<close> but not a number that overflows: its argument text is no JSON.
\<close>

lemma overflowing_number_is_written_as_infinity:
  "parse_text plain_env (Some Qwen3Coder) PNone
     ''<tool_call><function=f><parameter=x>1e999</parameter></function></tool_call>'' =
   Inr ([], [(''f'', ''{\"x\": Infinity}'')]) \<and>
   loads (pe_json plain_env) ''{\"x\": Infinity}'' = Inl BadJson"
  by code_simp

end
