(* ===== verification/ToolRoundtrip.thy ===== *)
theory ToolRoundtrip
  imports ToolCallTypes
begin

section \<open>What the chat templates write is read back\<close>

text \<open>
  The bundled templates write the calls of an assistant message in the dialect of the model. Here the
  Qwen text of a message with calls is shown to be parsed into exactly these calls, whatever its values
  say as long as they hold no closing marker; the lemmas about markers and pieces serve every dialect.
\<close>

subsection \<open>Markers\<close>

definition marker :: "string \<Rightarrow> bool" where
  "marker sep \<longleftrightarrow> (\<exists>t. sep = CHR ''<'' # t \<and> CHR ''<'' \<notin> set t \<and> CHR 0x0A \<notin> set t)"

lemma markers [simp]:
  "marker TOOL_CALL_OPEN" "marker TOOL_CALL_CLOSE" "marker ''</function>''" "marker ''</parameter>''"
  "marker ''<function=''" "marker ''<parameter=''"
  by (simp_all add: marker_def TOOL_CALL_OPEN_def TOOL_CALL_CLOSE_def)

lemma partition_at_marker:
  assumes "marker sep" and "\<not> sublist sep a"
  shows "partition_at sep (a @ sep @ r) = Some (a, r)"
proof -
  from assms(1) obtain t where sep: "sep = CHR ''<'' # t" "CHR ''<'' \<notin> set t" by (auto simp: marker_def)
  from assms(2) show ?thesis
  proof (induction a)
    case Nil
    then show ?case by (simp add: sep(1))
  next
    case (Cons c a)
    have "\<not> prefix sep ((c # a) @ sep @ r)"
    proof
      assume "prefix sep ((c # a) @ sep @ r)"
      then have "prefix sep (c # a) \<or> (\<exists>us. sep = (c # a) @ us \<and> prefix us (sep @ r))" by (rule prefix_append [THEN iffD1])
      then obtain us where us: "prefix sep (c # a) \<or> sep = (c # a) @ us \<and> prefix us (sep @ r)" by blast
      show False
      proof (cases us)
        case Nil
        with us Cons.prems show ?thesis by auto
      next
        case (Cons x xs)
        with us Cons.prems sep show ?thesis by auto
      qed
    qed
    with Cons show ?case by (simp add: sublist_Cons_right)
  qed
qed

lemma sublist_line:
  assumes "c \<notin> set sep" and "sep \<noteq> []"
  shows "sublist sep (a @ c # b) \<longleftrightarrow> sublist sep a \<or> sublist sep b"
proof (induction a)
  case Nil
  from assms show ?case by (cases sep) (auto simp: sublist_Cons_right)
next
  case (Cons x a)
  have "prefix sep ((x # a) @ c # b) \<longleftrightarrow> prefix sep (x # a)"
  proof
    assume "prefix sep ((x # a) @ c # b)"
    then have "prefix sep (x # a) \<or> (\<exists>us. sep = (x # a) @ us \<and> prefix us (c # b))" by (rule prefix_append [THEN iffD1])
    then obtain us where us: "prefix sep (x # a) \<or> sep = (x # a) @ us \<and> prefix us (c # b)" by blast
    then show "prefix sep (x # a)" using assms by (cases us) auto
  next
    assume "prefix sep (x # a)"
    then show "prefix sep ((x # a) @ c # b)" by (rule prefix_prefix)
  qed
  with Cons show ?case by (auto simp: sublist_Cons_right)
qed

lemma marker_lines:
  "marker sep \<Longrightarrow> sublist sep (a @ CHR 0x0A # b) \<longleftrightarrow> sublist sep a \<or> sublist sep b"
  by (rule sublist_line) (auto simp: marker_def)

subsection \<open>Blocks\<close>

lemma strip_append_blank: "list_all is_space w \<Longrightarrow> strip (s @ w) = strip s"
proof -
  assume w: "list_all is_space w"
  show ?thesis
  proof (cases "list_all is_space s")
    case True
    with w show ?thesis by (simp add: strip_all_space)
  next
    case False
    then obtain x where "x \<in> set s" "\<not> is_space x" by (auto simp: list_all_iff)
    then have "lstrip (s @ w) = lstrip s @ w" by (simp add: lstrip_def dropWhile_append1)
    moreover have "dropWhile is_space (rev w @ rev (lstrip s)) = dropWhile is_space (rev (lstrip s))"
      using w by (intro dropWhile_append2) (auto simp: list_all_iff)
    ultimately show ?thesis by (simp add: strip_def)
  qed
qed

text \<open>The converse of the account of the scan: pieces without markers of their own are found again.\<close>

lemma scan_blocks_pieces:
  assumes "\<forall>(gap, block, cs)\<in>set pieces. \<not> sublist TOOL_CALL_OPEN gap \<and> \<not> sublist TOOL_CALL_CLOSE block \<and>
      cs \<noteq> [] \<and> bp (strip block) = Inr (Some cs)"
    and "partition_at TOOL_CALL_OPEN rest = None"
  shows "scan_blocks bp parts calls kept (concat (map piece_text pieces) @ rest) =
    Inr (parts @ (case map fst pieces @ [rest] of [] \<Rightarrow> [] | p # ps \<Rightarrow> (kept @ p) # ps), calls @ concat (map (\<lambda>(_, _, cs). cs) pieces))"
  using assms(1)
proof (induction pieces arbitrary: parts calls kept)
  case Nil
  with assms(2) show ?case by (simp add: scan_blocks.simps [of bp parts])
next
  case (Cons p pieces)
  obtain gap block cs where p: "p = (gap, block, cs)" by (cases p) auto
  from Cons.prems p have ok: "\<not> sublist TOOL_CALL_OPEN gap" "\<not> sublist TOOL_CALL_CLOSE block" "cs \<noteq> []"
    "bp (strip block) = Inr (Some cs)" by auto
  let ?rest = "concat (map piece_text pieces) @ rest"
  have "concat (map piece_text (p # pieces)) @ rest = gap @ TOOL_CALL_OPEN @ block @ TOOL_CALL_CLOSE @ ?rest"
    by (simp add: p piece_text_def)
  moreover have "parse_or_retry bp gap block = Inr (Some cs, gap)" using ok(3,4) by (simp add: parse_or_retry_def)
  moreover obtain c cs' where "cs = c # cs'" using ok(3) by (cases cs) auto
  ultimately have "scan_blocks bp parts calls kept (concat (map piece_text (p # pieces)) @ rest) =
      scan_blocks bp (parts @ [kept @ gap]) (calls @ cs) [] ?rest"
    using partition_at_marker [OF _ ok(1)] partition_at_marker [OF _ ok(2)]
    by (simp add: scan_blocks.simps [of bp parts])
  also have "\<dots> = Inr ((parts @ [kept @ gap]) @ (map fst pieces @ [rest]), (calls @ cs) @ concat (map (\<lambda>(_, _, cs). cs) pieces))"
    using Cons.IH [of "parts @ [kept @ gap]" "calls @ cs" "[]"] Cons.prems by (cases pieces) auto
  finally show ?case by (simp add: p)
qed

subsection \<open>The Qwen text of a message\<close>

text \<open>
  What the Qwen templates write behind the header and the thinking block of an assistant message. Strings are
  written literally and containers through \<^verbatim>\<open>|tojson\<close>, which is \<^verbatim>\<open>json.dumps\<close>. Other values go through
  \<^verbatim>\<open>|string\<close>, Python's \<^verbatim>\<open>str\<close>, in the template of Qwen3.5 and through \<^verbatim>\<open>|tojson\<close> in those of Qwen3.6 and Qwen3.8.
\<close>

datatype qwen_template = Qwen35 | Qwen36

abbreviation nl :: char where "nl \<equiv> CHR 0x0A"

definition python_scalar :: "json_env \<Rightarrow> pyval \<Rightarrow> string" where
  "python_scalar je v =
     (case v of
        PNone \<Rightarrow> ''None''
      | PBool b \<Rightarrow> if b then ''True'' else ''False''
      | PFloat f \<Rightarrow> (case f of NaN \<Rightarrow> ''nan'' | PosInf \<Rightarrow> ''inf'' | NegInf \<Rightarrow> ''-inf'' | Fin q \<Rightarrow> je_repr je f)
      | _ \<Rightarrow> json_text je v)"

definition qwen_value :: "qwen_template \<Rightarrow> json_env \<Rightarrow> pyval \<Rightarrow> string" where
  "qwen_value tp je v = (case v of PStr s \<Rightarrow> s | _ \<Rightarrow> if tp = Qwen35 then python_scalar je v else json_text je v)"

definition qwen_parameter :: "qwen_template \<Rightarrow> json_env \<Rightarrow> string \<times> pyval \<Rightarrow> string" where
  "qwen_parameter tp je p =
     (case p of (k, v) \<Rightarrow> ''<parameter='' @ k @ ''>'' @ [nl] @ qwen_value tp je v @ [nl] @ ''</parameter>'' @ [nl])"

definition qwen_function :: "qwen_template \<Rightarrow> json_env \<Rightarrow> string \<times> pydict \<Rightarrow> string" where
  "qwen_function tp je call =
     (case call of (name, params) \<Rightarrow>
        ''<function='' @ name @ ''>'' @ [nl] @ concat (map (qwen_parameter tp je) params) @ ''</function>'')"

definition qwen_call :: "qwen_template \<Rightarrow> json_env \<Rightarrow> string \<times> pydict \<Rightarrow> string" where
  "qwen_call tp je call = TOOL_CALL_OPEN @ [nl] @ qwen_function tp je call @ [nl] @ TOOL_CALL_CLOSE"

definition qwen_message :: "qwen_template \<Rightarrow> json_env \<Rightarrow> string \<Rightarrow> (string \<times> pydict) list \<Rightarrow> string" where
  "qwen_message tp je content calls =
     (let content = strip content
      in content @ (if content = [] \<or> calls = [] then [] else [nl, nl]) @ join [nl] (map (qwen_call tp je) calls))"

text \<open>Names that are one word between angle brackets, and values the format can carry: it has no escapes.\<close>

definition tag_name :: "string \<Rightarrow> bool" where
  "tag_name k \<longleftrightarrow> k \<noteq> [] \<and> strip k = k \<and> CHR ''<'' \<notin> set k \<and> CHR ''>'' \<notin> set k \<and> nl \<notin> set k"

text \<open>
  A string the tool does not declare as text must not be JSON itself. The words \<^verbatim>\<open>True\<close>, \<^verbatim>\<open>False\<close> and \<^verbatim>\<open>None\<close> of
  the older template are none.
\<close>

definition readable_value :: "qwen_template \<Rightarrow> json_env \<Rightarrow> bool \<Rightarrow> pyval \<Rightarrow> bool" where
  "readable_value tp je as_string v \<longleftrightarrow>
     (case v of
        PStr s \<Rightarrow> as_string \<or> loads je s = Inl BadJson
      | PNone \<Rightarrow> \<not> as_string \<and> tp = Qwen36
      | PBool b \<Rightarrow> \<not> as_string \<and> tp = Qwen36
      | _ \<Rightarrow> \<not> as_string \<and> json_ok je v) \<and>
     \<not> sublist ''</parameter>'' (qwen_value tp je v) \<and> \<not> sublist ''</function>'' (qwen_value tp je v) \<and>
     \<not> sublist TOOL_CALL_CLOSE (qwen_value tp je v)"

definition readable_call :: "qwen_template \<Rightarrow> json_env \<Rightarrow> param_types \<Rightarrow> string \<times> pydict \<Rightarrow> bool" where
  "readable_call tp je types call \<longleftrightarrow>
     (case call of (name, params) \<Rightarrow>
        tag_name name \<and> distinct (map fst params) \<and> nesting (PDict params) \<le> je_limit je \<and>
        (\<forall>(k, v)\<in>set params. tag_name k \<and> readable_value tp je (declared_string (declared_for types name) k) v))"

subsection \<open>Reading it back\<close>

lemma no_close_tag:
  assumes "CHR ''<'' \<notin> set (c # r)" and "c \<noteq> CHR ''/''"
  shows "\<not> sublist (CHR ''<'' # CHR ''/'' # t) (CHR ''<'' # c # r)"
proof
  assume s: "sublist (CHR ''<'' # CHR ''/'' # t) (CHR ''<'' # c # r)"
  have "\<not> prefix (CHR ''<'' # CHR ''/'' # t) (CHR ''<'' # c # r)" using assms(2) by simp
  with sublist_Cons_right [THEN iffD1, OF s] have "sublist (CHR ''<'' # CHR ''/'' # t) (c # r)" by iprover
  from set_mono_sublist [OF this] assms(1) show False by auto
qed

definition closes :: "string \<Rightarrow> bool" where
  "closes sep \<longleftrightarrow> sep = TOOL_CALL_CLOSE \<or> sep = ''</function>''"

lemma closes_marker: "closes sep \<Longrightarrow> marker sep" by (auto simp: closes_def)

lemma no_close_param:
  assumes "closes sep" and "tag_name k" and "\<not> sublist sep (qwen_value tp je v)"
  shows "sublist sep (qwen_parameter tp je (k, v) @ r) \<longleftrightarrow> sublist sep r"
proof -
  obtain t where t: "sep = CHR ''<'' # CHR ''/'' # t" using assms(1) by (auto simp: closes_def TOOL_CALL_CLOSE_def)
  have "\<not> sublist sep (''<parameter='' @ k @ ''>'')"
    using no_close_tag [of "CHR ''p''" "''arameter='' @ k @ ''>''" t] assms(2) by (simp add: t tag_name_def)
  moreover have "\<not> sublist sep ''</parameter>''" using assms(1) by (auto simp: closes_def TOOL_CALL_CLOSE_def sublist_Cons_right)
  moreover have "qwen_parameter tp je (k, v) @ r =
      (''<parameter='' @ k @ ''>'') @ nl # (qwen_value tp je v @ nl # (''</parameter>'' @ nl # r))"
    by (simp add: qwen_parameter_def)
  ultimately show ?thesis
    using assms(3) by (simp only: marker_lines [OF closes_marker [OF assms(1)]] simp_thms)
qed

lemma no_close_params:
  assumes "closes sep" and "\<forall>(k, v)\<in>set params. tag_name k \<and> readable_value tp je (declared k) v"
  shows "sublist sep (concat (map (qwen_parameter tp je) params) @ r) \<longleftrightarrow> sublist sep r"
  using assms(2)
proof (induction params)
  case (Cons p params)
  obtain k v where p: "p = (k, v)" by (cases p)
  with Cons.prems assms(1) have "tag_name k" "\<not> sublist sep (qwen_value tp je v)"
    by (auto simp: readable_value_def closes_def)
  from no_close_param [OF assms(1) this] Cons show ?case by (simp add: p)
qed simp

lemma partition_name: "CHR ''>'' \<notin> set name \<Longrightarrow> partition_at ''>'' (name @ ''>'' @ r) = Some (name, r)"
  using partition_at_char [of "CHR ''>''" name r] by simp

lemma partition_absent: "c \<notin> set s \<Longrightarrow> partition_at [c] s = None"
  by (induction s) auto

lemma plain_section:
  assumes "marker op" and "marker cl" and "\<not> sublist op before" and "tag_name name" and "\<not> sublist cl body"
  shows "plain_sections op cl gap (before @ op @ name @ ''>'' @ body @ cl @ r) =
    (case plain_sections op cl [] r of (sections, final) \<Rightarrow> ((gap @ before, name, body) # sections, final))"
proof -
  have "partition_at op (before @ op @ name @ ''>'' @ body @ cl @ r) = Some (before, name @ ''>'' @ body @ cl @ r)"
    by (rule partition_at_marker [OF assms(1,3)])
  moreover have "partition_at ''>'' (name @ ''>'' @ body @ cl @ r) = Some (name, body @ cl @ r)"
    by (rule partition_name) (use assms(4) in \<open>simp add: tag_name_def\<close>)
  moreover have "partition_at cl (body @ cl @ r) = Some (body, r)" by (rule partition_at_marker [OF assms(2,5)])
  moreover have "partition_at [nl] name = None" by (rule partition_absent) (use assms(4) in \<open>simp add: tag_name_def\<close>)
  ultimately show ?thesis
    using assms(4) unfolding plain_sections.simps [of op cl gap "before @ op @ name @ ''>'' @ body @ cl @ r"]
    by (simp add: tag_name_def)
qed

lemma plain_sections_none: "partition_at op r = None \<Longrightarrow> plain_sections op cl gap r = ([], gap @ r)"
  by (simp add: plain_sections.simps [of op cl gap r])

lemma blank_nl [simp]: "blank [nl]" "blank []" "strip [nl] = []" "strip [] = []"
  by (simp_all add: blank_def strip_def lstrip_def is_space_def)

lemma plain_params:
  assumes "\<forall>(k, v)\<in>set params. tag_name k \<and> \<not> sublist ''</parameter>'' (qwen_value tp je v)"
  shows "\<exists>sections final. plain_sections ''<parameter='' ''</parameter>'' [] (nl # concat (map (qwen_parameter tp je) params)) =
      (sections, final) \<and>
    map snd sections = map (\<lambda>(k, v). (k, nl # qwen_value tp je v @ [nl])) params \<and> list_all blank (map fst sections @ [final])"
  using assms
proof (induction params)
  case Nil
  show ?case by (simp add: plain_sections_none)
next
  case (Cons p params)
  obtain k v where p: "p = (k, v)" by (cases p)
  let ?body = "nl # qwen_value tp je v @ [nl]" and ?r = "nl # concat (map (qwen_parameter tp je) params)"
  have k: "tag_name k" and "\<not> sublist ''</parameter>'' (qwen_value tp je v)" using Cons.prems p by auto
  then have "\<not> sublist ''</parameter>'' ([] @ nl # (qwen_value tp je v @ nl # []))"
    by (simp only: marker_lines [OF markers(4)]) simp
  then have b: "\<not> sublist ''</parameter>'' ?body" by simp
  obtain sections final where ih: "plain_sections ''<parameter='' ''</parameter>'' [] ?r = (sections, final)"
    "map snd sections = map (\<lambda>(k, v). (k, nl # qwen_value tp je v @ [nl])) params" "list_all blank (map fst sections @ [final])"
    using Cons by auto
  have "\<not> sublist ''<parameter='' [nl]" by (simp add: sublist_Cons_right)
  from plain_section [OF markers(6,4) this k b, of "[]" ?r]
  have "plain_sections ''<parameter='' ''</parameter>'' [] (nl # concat (map (qwen_parameter tp je) (p # params))) =
      (([nl], k, ?body) # sections, final)"
    by (simp add: p qwen_parameter_def ih(1))
  with ih(2,3) show ?case by (simp add: p)
qed

lemma split_params:
  assumes "\<forall>(k, v)\<in>set params. tag_name k \<and> \<not> sublist ''</parameter>'' (qwen_value tp je v)"
  shows "split_sections (nl # concat (map (qwen_parameter tp je) params)) ''<parameter='' ''</parameter>'' =
    (map (\<lambda>(k, v). (k, nl # qwen_value tp je v @ [nl])) params, True)"
proof -
  from plain_params [OF assms] obtain sections final where
    "plain_sections ''<parameter='' ''</parameter>'' [] (nl # concat (map (qwen_parameter tp je) params)) = (sections, final)"
    and "map snd sections = map (\<lambda>(k, v). (k, nl # qwen_value tp je v @ [nl])) params"
    and "list_all blank (map fst sections @ [final])" by blast
  then show ?thesis by (cases sections) (simp_all add: split_sections_plain plain_split_def)
qed

lemma trim_newlines_line: "trim_newlines (nl # s @ [nl]) = s"
  by (simp add: trim_newlines_def Let_def)

lemma readable_json:
  assumes "readable_value tp je as_string v" and "\<not> is_str v"
  shows "json_ok je v \<and> \<not> as_string \<and> qwen_value tp je v = json_text je v"
  using assms
  by (cases v) (auto simp: readable_value_def qwen_value_def python_scalar_def float_ok_def is_fin_def flt_json_def split: flt.splits)

lemma coerce_value:
  assumes "readable_value tp (pe_json pe) (declared_string declared k) v" and "nesting v \<le> je_limit (pe_json pe)"
  shows "coerce pe (qwen_value tp (pe_json pe) v) (map_of declared k) = Inr v"
proof (cases "is_str v")
  case True
  with assms(1) show ?thesis
    by (auto simp: is_str_iff readable_value_def declared_string_def coerce_def qwen_value_def try_loads_def)
next
  case False
  note v = readable_json [OF assms(1) False]
  have "loads (pe_json pe) (json_text (pe_json pe) v) = Inr v"
    using v by (intro loads_dumps [of _ v]) (simp_all add: dumps_def assms(2))
  with v show ?thesis by (auto simp: coerce_def try_loads_def declared_string_def split: option.splits)
qed

lemma qwen_arguments_read:
  assumes "\<forall>(k, v)\<in>set params. readable_value tp (pe_json pe) (declared_string declared k) v \<and> nesting v \<le> je_limit (pe_json pe)"
    and "distinct (map fst params)" and "set (map fst d) \<inter> set (map fst params) = {}"
  shows "qwen_arguments pe declared (map (\<lambda>(k, v). (k, nl # qwen_value tp (pe_json pe) v @ [nl])) params) d = Inr (d @ params)"
  using assms
proof (induction params arbitrary: d)
  case (Cons p params)
  obtain k v where p: "p = (k, v)" by (cases p)
  have "coerce pe (qwen_value tp (pe_json pe) v) (map_of declared k) = Inr v" using Cons.prems(1) p by (intro coerce_value) auto
  moreover have "dset k v d = d @ [(k, v)]" using Cons.prems(3) p by (intro dset_new) auto
  ultimately show ?case using Cons.IH [of "d @ [(k, v)]"] Cons.prems p by (simp add: trim_newlines_line)
qed simp

lemma split_function:
  assumes "tag_name name" and "\<not> sublist ''</function>'' body"
  shows "split_sections (''<function='' @ name @ ''>'' @ body @ ''</function>'') ''<function='' ''</function>'' = ([(name, body)], True)"
  using plain_section [OF markers(5,3) _ assms, of "[]" "[]" "[]"]
  by (simp add: split_sections_plain plain_split_def plain_sections_none)

lemma qwen_function_read:
  assumes "readable_call tp (pe_json pe) types call"
  shows "qwen_block pe types (qwen_function tp (pe_json pe) call) =
    Inr (Some [(fst call, json_text (pe_json pe) (PDict (snd call)))])"
proof -
  let ?je = "pe_json pe"
  obtain name params where c: "call = (name, params)" by (cases call)
  let ?body = "nl # concat (map (qwen_parameter tp ?je) params)" and ?declared = "declared_for types name"
  from assms c have name: "tag_name name" and d: "distinct (map fst params)" and n: "nesting (PDict params) \<le> je_limit ?je"
    and ok: "\<forall>(k, v)\<in>set params. tag_name k \<and> readable_value tp ?je (declared_string ?declared k) v"
    by (auto simp: readable_call_def)
  have "\<not> sublist ''</function>'' (concat (map (qwen_parameter tp ?je) params) @ [])"
    using no_close_params [OF _ ok, of "''</function>''" "[]"] by (simp add: closes_def)
  then have "\<not> sublist ''</function>'' ?body" by (simp add: sublist_Cons_right)
  note f = split_function [OF name this]
  have "\<forall>(k, v)\<in>set params. tag_name k \<and> \<not> sublist ''</parameter>'' (qwen_value tp ?je v)"
    using ok by (auto simp: readable_value_def)
  note ps = split_params [OF this]
  have "\<forall>(k, v)\<in>set params. readable_value tp ?je (declared_string ?declared k) v \<and> nesting v \<le> je_limit ?je"
    using ok nesting_dict [of _ _ params] n by fastforce
  from qwen_arguments_read [OF this d, of "[]"]
  have a: "qwen_arguments pe ?declared (map (\<lambda>(k, v). (k, nl # qwen_value tp ?je v @ [nl])) params) [] = Inr params" by simp
  have w: "written pe (PDict params) = Inr (json_text ?je (PDict params))" using n by (simp add: written_def dumps_def)
  have e: "strip ?body = []" if "params = []" using that by simp
  show ?thesis
    using f ps a w e by (auto simp: c qwen_block_def qwen_function_def)
qed

lemma partition_at_absent: "\<not> sublist sep s \<Longrightarrow> partition_at sep s = None"
  by (metis old.prod.exhaust option.exhaust partition_at_Some sublist_appendI)

lemma strip_function: "strip (nl # qwen_function tp je call @ [nl]) = qwen_function tp je call"
proof -
  have head: "qwen_function tp je call = CHR ''<'' # tl (qwen_function tp je call)"
    and tail: "rev (qwen_function tp je call) = CHR ''>'' # tl (rev (qwen_function tp je call))"
    by (simp_all add: qwen_function_def split: prod.splits)
  have "lstrip (nl # qwen_function tp je call @ [nl]) = qwen_function tp je call @ [nl]"
    by (subst (1 2) head) (simp add: lstrip_def is_space_def)
  then have "strip (nl # qwen_function tp je call @ [nl]) = rev (dropWhile is_space (rev (qwen_function tp je call)))"
    by (simp add: strip_def is_space_def)
  also have "dropWhile is_space (rev (qwen_function tp je call)) = rev (qwen_function tp je call)"
    by (subst (1 2) tail) (simp add: is_space_def)
  finally show ?thesis by simp
qed

lemma function_without_close:
  assumes "readable_call tp je types call"
  shows "\<not> sublist TOOL_CALL_CLOSE (nl # qwen_function tp je call @ [nl])"
proof -
  obtain name params where c: "call = (name, params)" by (cases call)
  have closes: "closes TOOL_CALL_CLOSE" by (simp add: closes_def)
  note lines = marker_lines [OF closes_marker [OF closes]]
  from assms c have name: "tag_name name"
    and ok: "\<forall>(k, v)\<in>set params. tag_name k \<and> readable_value tp je (declared_string (declared_for types name) k) v"
    by (auto simp: readable_call_def)
  have h: "\<not> sublist TOOL_CALL_CLOSE (''<function='' @ name @ ''>'')"
    using no_close_tag [of "CHR ''f''" "''unction='' @ name @ ''>''" "''tool_call>''"] name by (simp add: TOOL_CALL_CLOSE_def tag_name_def)
  have t: "\<not> sublist TOOL_CALL_CLOSE (''</function>'' @ nl # [])"
    by (simp only: lines) (simp add: TOOL_CALL_CLOSE_def sublist_Cons_right)
  have e: "\<not> sublist TOOL_CALL_CLOSE []" by (simp add: TOOL_CALL_CLOSE_def)
  have "nl # qwen_function tp je call @ [nl] =
      [] @ nl # ((''<function='' @ name @ ''>'') @ nl # (concat (map (qwen_parameter tp je) params) @ (''</function>'' @ nl # [])))"
    by (simp add: c qwen_function_def)
  moreover have "\<not> sublist TOOL_CALL_CLOSE (concat (map (qwen_parameter tp je) params) @ (''</function>'' @ nl # []))"
    using no_close_params [OF closes ok] t by blast
  ultimately show ?thesis using h e by (simp only: lines simp_thms)
qed

lemma join_lines: "join [nl] (s # ss) = s @ concat (map (\<lambda>s. nl # s) ss)"
  by (induction ss arbitrary: s) auto

lemma gap_ok: "\<not> sublist TOOL_CALL_OPEN content \<Longrightarrow> \<not> sublist TOOL_CALL_OPEN (content @ (if b then [] else [nl, nl]))"
proof -
  assume c: "\<not> sublist TOOL_CALL_OPEN content"
  have "\<not> sublist TOOL_CALL_OPEN (content @ nl # [] @ nl # [])"
    using c by (simp only: marker_lines [OF markers(1)]) (simp add: TOOL_CALL_OPEN_def)
  with c show ?thesis by simp
qed

lemma sublist_dropWhile: "sublist (dropWhile P s) s"
  by (metis suffix_dropWhile suffix_imp_sublist)

lemma strip_sublist: "sublist (strip s) s"
proof -
  have "sublist (rev (dropWhile is_space (rev (lstrip s)))) (rev (rev (lstrip s)))"
    by (subst sublist_rev) (rule sublist_dropWhile)
  then have "sublist (strip s) (lstrip s)" by (simp add: strip_def)
  also have "sublist (lstrip s) s" by (simp add: lstrip_def sublist_dropWhile)
  finally show ?thesis .
qed

lemma strip_twice [simp]: "strip (strip s) = strip s"
proof (cases "lstrip s")
  case (Cons c cs)
  then have c: "\<not> is_space c" using hd_dropWhile [of is_space s] by (simp add: lstrip_def)
  with Cons have "strip s = c # rev (dropWhile is_space (rev cs))" by (simp add: strip_def dropWhile_append3)
  with c show ?thesis by (simp add: strip_def lstrip_def dropWhile_append3)
next
  case Nil
  then have "strip s = []" by (simp add: strip_def)
  then show ?thesis by simp
qed

lemma qwen_message_blocks:
  assumes "\<forall>call\<in>set calls. readable_call tp (pe_json pe) types call" and "\<not> sublist TOOL_CALL_OPEN content"
    and "\<And>block. bp block = qwen_block pe types block" and stripped: "strip content = content"
  shows "parse_blocks bp (qwen_message tp (pe_json pe) content calls) =
    Inr (strip content, map (\<lambda>(name, params). (name, json_text (pe_json pe) (PDict params))) calls)"
proof (cases calls)
  case Nil
  have "scan_blocks bp [] [] [] (concat (map piece_text []) @ content) = Inr ([content], [])"
    using scan_blocks_pieces [of "[]" bp content "[]" "[]" "[]"] partition_at_absent [OF assms(2)] by simp
  then show ?thesis by (simp add: Nil parse_blocks_def qwen_message_def stripped)
next
  case (Cons c cs)
  let ?je = "pe_json pe"
  let ?block = "\<lambda>c. nl # qwen_function tp ?je c @ [nl]" and ?result = "\<lambda>c. [(fst c, json_text ?je (PDict (snd c)))]"
  let ?gap = "if strip content = [] then [] else [nl, nl]"
  let ?pieces = "(content @ ?gap, ?block c, ?result c) # map (\<lambda>c. ([nl], ?block c, ?result c)) cs"
  have call: "\<not> sublist TOOL_CALL_CLOSE (?block c) \<and> bp (strip (?block c)) = Inr (Some (?result c))" if "c \<in> set calls" for c
    using that assms(1,3) function_without_close strip_function qwen_function_read by metis
  have nl: "\<not> sublist TOOL_CALL_OPEN [nl]" by (simp add: TOOL_CALL_OPEN_def sublist_Cons_right)
  have pieces: "\<forall>(gap, block, cs)\<in>set ?pieces. \<not> sublist TOOL_CALL_OPEN gap \<and> \<not> sublist TOOL_CALL_CLOSE block \<and>
      cs \<noteq> [] \<and> bp (strip block) = Inr (Some cs)"
    using call nl gap_ok [OF assms(2)] Cons by (auto simp: stripped)
  have msg: "qwen_message tp ?je content calls = concat (map piece_text ?pieces) @ []"
    by (simp add: Cons qwen_message_def Let_def stripped join_lines qwen_call_def piece_text_def comp_def)
  have none: "partition_at TOOL_CALL_OPEN [] = None" by (simp add: TOOL_CALL_OPEN_def)
  have "scan_blocks bp [] [] [] (qwen_message tp ?je content calls) =
      Inr ((content @ ?gap) # map (\<lambda>c. [nl]) cs @ [[]], concat (map ?result calls))"
    unfolding msg scan_blocks_pieces [OF pieces none] by (simp add: Cons comp_def)
  moreover have "strip (concat ((content @ ?gap) # map (\<lambda>c. [nl]) cs @ [[]])) = strip content"
  proof -
    have "list_all is_space (?gap @ concat (map (\<lambda>c. [nl]) cs))" by (simp add: list_all_iff is_space_def)
    from strip_append_blank [OF this, of content] show ?thesis by simp
  qed
  moreover have "concat (map ?result calls) = map (\<lambda>(name, params). (name, json_text ?je (PDict params))) calls"
    by (induction calls) auto
  ultimately show ?thesis by (simp add: parse_blocks_def)
qed

text \<open>C15:
  What a Qwen template writes for an assistant message is what the parser reads: its content and exactly its calls,
  in order, each with the JSON text of its arguments. The values may be any text that is declared as text or is not
  JSON itself, and any other JSON value of a parameter that is not declared as text: all of them with the templates of
  Qwen3.6 and Qwen3.8, all but booleans and null with that of Qwen3.5, which writes these as Python does. Values may
  mention openers and whole headers; only a closing marker is excluded, because the format cannot express it. The
  message has no reasoning, and its content mentions no opener of a call.
\<close>

theorem qwen_calls_are_read_back:
  assumes "parameter_types pe tools = Inr types" and "\<forall>call\<in>set calls. readable_call tp (pe_json pe) types call"
    and "\<not> sublist TOOL_CALL_OPEN content"
  shows "parse_text pe (Some Qwen3Coder) tools (qwen_message tp (pe_json pe) content calls) =
    Inr (strip content, map (\<lambda>(name, params). (name, json_text (pe_json pe) (PDict params))) calls)"
proof -
  have bp: "dialect_block pe tools Qwen3Coder = Some (\<lambda>b. rbind (parameter_types pe tools) (\<lambda>types. qwen_block pe types b))"
    by (simp add: dialect_block_def)
  have "\<not> sublist TOOL_CALL_OPEN (strip content)"
    using assms(3) strip_sublist [of content] by (blast intro: sublist_order.order_trans)
  moreover have "qwen_message tp (pe_json pe) content calls = qwen_message tp (pe_json pe) (strip content) calls"
    by (simp add: qwen_message_def)
  ultimately show ?thesis
    using parse_text_blocks [OF bp] qwen_message_blocks [OF assms(2), of "strip content"] assms(1) by simp
qed

theorem qwen_calls_are_read_back_witness:
  "parse_text plain_env (Some Qwen3Coder) phone_tools
     (qwen_message Qwen36 (pe_json plain_env) ''Calling. ''
        [(''dial'', [(''phone'', PStr ''<tool_call>''), (''times'', PInt 3), (''fast'', PBool True), (''to'', PStr ''home'')])]) =
   Inr (''Calling.'', [(''dial'', ''{\"phone\": \"<tool_call>\", \"times\": 3, \"fast\": true, \"to\": \"home\"}'')])"
proof -
  let ?params = "[(''phone'', PStr ''<tool_call>''), (''times'', PInt 3), (''fast'', PBool True), (''to'', PStr ''home'')]"
  have t: "parameter_types plain_env phone_tools = Inr [(''dial'', [(''phone'', ''string'')])]" by code_simp
  have ok: "\<forall>call\<in>set [(''dial'', ?params)]. readable_call Qwen36 (pe_json plain_env) [(''dial'', [(''phone'', ''string'')])] call"
    by code_simp
  have c: "\<not> sublist TOOL_CALL_OPEN ''Calling. ''" by code_simp
  have r: "strip ''Calling. '' = ''Calling.''" "json_text (pe_json plain_env) (PDict ?params) =
    ''{\"phone\": \"<tool_call>\", \"times\": 3, \"fast\": true, \"to\": \"home\"}''" by code_simp+
  show ?thesis using qwen_calls_are_read_back [OF t ok c] by (simp only: list.map prod.case r)
qed

text \<open>The template of Qwen3.5 shows the model a boolean as Python writes it, and this is read back as a text.\<close>

lemma python_boolean_is_read_as_text:
  "parse_text plain_env (Some Qwen3Coder) phone_tools
     (qwen_message Qwen35 (pe_json plain_env) [] [(''dial'', [(''fast'', PBool True)])]) =
   Inr ([], [(''dial'', ''{\"fast\": \"True\"}'')])"
  by code_simp

end
