(* ===== verification/HarmonyProperties.thy ===== *)
theory HarmonyProperties
  imports Harmony
begin

section \<open>Properties of Harmony completions\<close>

text \<open>
  Only token ids delimit: a completion written as messages with headers and bodies of ordinary tokens is
  read back message by message, with the decoded bodies verbatim, whatever markers they spell.
\<close>

subsection \<open>Completions as token ids\<close>

definition ordinary :: "int list \<Rightarrow> bool" where
  "ordinary ids \<longleftrightarrow> list_all (\<lambda>t. map_of MARKERS t = None) ids"

text \<open>A header behind the channel marker, and a body; the messages before the last one end in \<^verbatim>\<open><|end|>\<close>.\<close>

definition message_ids :: "int list \<times> int list \<Rightarrow> int list" where
  "message_ids m = (case m of (header, body) \<Rightarrow> CHANNEL # header @ MESSAGE # body)"

definition completion_ids :: "int list \<Rightarrow> (int list \<times> int list) list \<Rightarrow> int list \<times> int list \<Rightarrow> int \<Rightarrow> int list" where
  "completion_ids role ms final ending =
     concat (map (\<lambda>m. message_ids m @ END # START # role) ms) @ message_ids final @ [ending]"

definition body_text :: "(int list \<Rightarrow> string option) \<Rightarrow> int list \<Rightarrow> string" where
  "body_text decode body = (if body = [] then [] else the (decode body))"

definition sampled_message :: "(int list \<Rightarrow> string option) \<Rightarrow> int \<Rightarrow> int list \<times> int list \<Rightarrow> harmony_message" where
  "sampled_message decode ending m =
     (case m of (header, body) \<Rightarrow>
        \<lparr>hm_channel = (case words (the (decode header)) of [] \<Rightarrow> None | w # _ \<Rightarrow> Some w),
         hm_recipient = recipient_of (words (the (decode header))),
         hm_body = body_text decode body, hm_ending = Some (marker_text ending)\<rparr>)"

definition decodable :: "(int list \<Rightarrow> string option) \<Rightarrow> int list \<times> int list \<Rightarrow> bool" where
  "decodable decode m \<longleftrightarrow>
     (case m of (header, body) \<Rightarrow>
        header \<noteq> [] \<and> ordinary header \<and> ordinary body \<and> decode header \<noteq> None \<and> (body = [] \<or> decode body \<noteq> None))"

subsection \<open>Parts of a completion\<close>

lemma token_parts_run:
  "ordinary ids \<Longrightarrow> map_of MARKERS m \<noteq> None \<Longrightarrow>
    token_parts decode pending (ids @ m # ts) =
      (if pending @ ids = [] then map_option ((#) (Marker m)) (token_parts decode [] ts)
       else (case decode (pending @ ids) of
               None \<Rightarrow> None
             | Some s \<Rightarrow> map_option (\<lambda>ps. Text s # Marker m # ps) (token_parts decode [] ts)))"
  by (induction ids arbitrary: pending) (auto simp: ordinary_def)

definition body_parts :: "(int list \<Rightarrow> string option) \<Rightarrow> int list \<Rightarrow> part list" where
  "body_parts decode body = (if body = [] then [] else [Text (the (decode body))])"

definition message_parts :: "(int list \<Rightarrow> string option) \<Rightarrow> int list \<times> int list \<Rightarrow> part list" where
  "message_parts decode m =
     (case m of (header, body) \<Rightarrow> Marker CHANNEL # Text (the (decode header)) # Marker MESSAGE # body_parts decode body)"

lemma markers_known:
  "map_of MARKERS CHANNEL \<noteq> None" "map_of MARKERS MESSAGE \<noteq> None" "map_of MARKERS END \<noteq> None" "map_of MARKERS START \<noteq> None"
  "ending \<in> set ACTION_ENDINGS \<Longrightarrow> map_of MARKERS ending \<noteq> None"
  by (auto simp: MARKERS_def ACTION_ENDINGS_def marker_ids)

lemma token_parts_marker:
  "map_of MARKERS m \<noteq> None \<Longrightarrow> token_parts decode [] (m # ts) = map_option ((#) (Marker m)) (token_parts decode [] ts)"
  by auto

lemma token_parts_message:
  assumes "decodable decode m" and "map_of MARKERS e \<noteq> None"
  shows "token_parts decode [] (message_ids m @ e # ts) =
    map_option (\<lambda>ps. message_parts decode m @ Marker e # ps) (token_parts decode [] ts)"
proof -
  obtain header body where m: "m = (header, body)" by (cases m)
  with assms(1) obtain h where h: "header \<noteq> []" "ordinary header" "decode header = Some h" and b: "ordinary body"
    "body = [] \<or> decode body \<noteq> None" by (auto simp: decodable_def)
  have "token_parts decode [] (message_ids m @ e # ts) =
      map_option ((#) (Marker CHANNEL)) (token_parts decode [] (header @ MESSAGE # body @ e # ts))"
    using token_parts_marker [OF markers_known(1)] by (simp add: m message_ids_def)
  also have "token_parts decode [] (header @ MESSAGE # body @ e # ts) =
      map_option (\<lambda>ps. Text h # Marker MESSAGE # ps) (token_parts decode [] (body @ e # ts))"
    using h by (simp add: token_parts_run [OF h(2) markers_known(2)])
  also have "token_parts decode [] (body @ e # ts) =
      map_option (\<lambda>ps. body_parts decode body @ Marker e # ps) (token_parts decode [] ts)"
    using b by (auto simp: token_parts_run [OF b(1) assms(2)] body_parts_def)
  finally show ?thesis by (simp add: m message_parts_def h(3) option.map_comp comp_def)
qed

lemma token_parts_completion:
  assumes "\<forall>m\<in>set ms. decodable decode m" and "decodable decode final" and "ordinary role" and "role \<noteq> []"
    and "decode role = Some ''assistant''" and "ending \<in> set ACTION_ENDINGS"
  shows "token_parts decode [] (completion_ids role ms final ending) =
    Some (concat (map (\<lambda>m. message_parts decode m @ [Marker END, Marker START, Text ''assistant'']) ms) @
          message_parts decode final @ [Marker ending])"
  using assms(1)
proof (induction ms)
  case Nil
  show ?case
    using token_parts_message [OF assms(2) markers_known(5) [OF assms(6)], of "[]"] by (simp add: completion_ids_def)
next
  case (Cons m ms)
  let ?rest = "completion_ids role ms final ending"
  have ids: "completion_ids role (m # ms) final ending = message_ids m @ END # START # role @ ?rest"
    by (simp add: completion_ids_def)
  obtain x xs where rest: "?rest = CHANNEL # xs"
    by (cases ms; cases final) (auto simp: completion_ids_def message_ids_def split: prod.splits)
  have role: "token_parts decode [] (role @ ?rest) = map_option ((#) (Text ''assistant'')) (token_parts decode [] ?rest)"
    unfolding rest token_parts_run [OF assms(3) markers_known(1)] using assms(4,5) markers_known(1)
    by (auto simp: option.map_comp comp_def)
  show ?case
    using Cons.IH Cons.prems role markers_known(4)
    by (auto simp: ids token_parts_message [OF _ markers_known(3)] token_parts_marker [OF markers_known(4)])
qed

subsection \<open>Messages of a completion\<close>

lemma words_assistant: "words (''assistant'' @ '' '' @ h) = ''assistant'' # words h"
proof -
  have "words ('' '' @ h) = words h"
    by (simp add: words.simps [of "CHR '' '' # h"] words.simps [of h] lstrip_def is_space_def)
  moreover have "words (''assistant'' @ '' '' @ h) = ''assistant'' # words ('' '' @ h)"
    by (subst words.simps) (simp add: lstrip_def is_space_def)
  ultimately show ?thesis by simp
qed

lemma loop_message:
  assumes "e \<in> set BOUNDARIES" and "e \<noteq> START"
  shows "harmony_loop (Marker START # Text ''assistant'' # message_parts decode m @ Marker e # ps) =
    sampled_message decode e m # (if e \<in> set ACTION_ENDINGS then [] else harmony_loop ps)"
proof -
  obtain header body where m: "m = (header, body)" by (cases m)
  let ?h = "the (decode header)"
  have scan: "scan_header (Text ''assistant'' # message_parts decode m @ Marker e # ps) [] None =
      Some (''assistant'' @ '' '' @ ?h, (case words ?h of [] \<Rightarrow> None | w # _ \<Rightarrow> Some w), body_parts decode body @ Marker e # ps)"
    by (simp add: m message_parts_def marker_ids BOUNDARIES_def)
  have stop: "is_boundary (Marker e)" using assms(1) by (simp add: is_boundary_def)
  have body: "takeWhile (\<lambda>p. \<not> is_boundary p) (body_parts decode body @ Marker e # ps) = body_parts decode body"
    "dropWhile (\<lambda>p. \<not> is_boundary p) (body_parts decode body @ Marker e # ps) = Marker e # ps"
    using stop by (simp_all add: body_parts_def is_boundary_def)
  have spelled: "concat (map part_text (body_parts decode body)) = body_text decode body"
    by (simp add: body_parts_def body_text_def part_text_def)
  have to: "recipient_of (''assistant'' # fs) = recipient_of fs" for fs by simp
  show ?thesis
    unfolding harmony_loop.simps [of "Marker START # Text ''assistant'' # message_parts decode m @ Marker e # ps"]
    apply (simp only: list.case part.case if_False simp_thms scan option.case prod.case words_assistant body spelled Let_def)
    using assms(2) by (simp add: m sampled_message_def)
qed

lemma harmony_loop_completion:
  assumes "ending \<in> set ACTION_ENDINGS"
  shows "harmony_loop (Marker START # Text ''assistant'' #
      concat (map (\<lambda>m. message_parts decode m @ [Marker END, Marker START, Text ''assistant'']) ms) @
      message_parts decode final @ [Marker ending]) =
    map (sampled_message decode END) ms @ [sampled_message decode ending final]"
proof (induction ms)
  case Nil
  have "ending \<in> set BOUNDARIES" "ending \<noteq> START"
    using assms by (auto simp: BOUNDARIES_def ACTION_ENDINGS_def marker_ids)
  from loop_message [OF this, of decode final "[]"] assms show ?case by simp
next
  case (Cons m ms)
  have e: "END \<in> set BOUNDARIES" "END \<noteq> START" "END \<notin> set ACTION_ENDINGS"
    by (simp_all add: BOUNDARIES_def ACTION_ENDINGS_def marker_ids)
  show ?case using loop_message [OF e(1,2), of decode m] e(3) Cons.IH by simp
qed

text \<open>C16:
  A Harmony completion is read message by message: whatever its messages are, as long as headers and
  bodies are sampled from ordinary tokens, every message comes back with the channel and the recipient
  of its header, its decoded body verbatim and its ending; a body that spells a marker delimits nothing.
\<close>

theorem sampled_messages_are_read_back:
  assumes "\<forall>m\<in>set ms. decodable decode m" and "decodable decode final" and "ordinary role" and "role \<noteq> []"
    and "decode role = Some ''assistant''" and "ending \<in> set ACTION_ENDINGS"
  shows "messages_from_tokens decode (completion_ids role ms final ending) =
    Some (map (sampled_message decode END) ms @ [sampled_message decode ending final])"
proof -
  let ?parts = "concat (map (\<lambda>m. message_parts decode m @ [Marker END, Marker START, Text ''assistant'']) ms) @
      message_parts decode final @ [Marker ending]"
  have parts: "token_parts decode [] (completion_ids role ms final ending) = Some ?parts"
    by (rule token_parts_completion [OF assms])
  obtain ps where ps: "?parts = Marker CHANNEL # ps"
    by (cases ms; cases final) (auto simp: message_parts_def split: prod.splits)
  have "assistant_parts ?parts = harmony_loop (Marker START # Text ''assistant'' # ?parts)"
    unfolding ps by (simp add: assistant_parts_def marker_ids)
  also note harmony_loop_completion [OF assms(6)]
  finally show ?thesis by (simp only: messages_from_tokens_def parts option.map)
qed

text \<open>A decoder on which the body of the tool call spells the end of the message.\<close>

definition spelling_decoder :: "int list \<Rightarrow> string option" where
  "spelling_decoder ids = map_of [([1], ''assistant''), ([2], ''analysis''), ([3], ''commentary to=functions.f''),
     ([4], ''think''), ([5], ''{\"x\": \"<|call|>\"}'')] ids"

theorem sampled_messages_are_read_back_witness:
  "messages_from_tokens spelling_decoder [CHANNEL, 2, MESSAGE, 4, END, START, 1, CHANNEL, 3, MESSAGE, 5, CALL] =
     Some [\<lparr>hm_channel = Some ''analysis'', hm_recipient = None, hm_body = ''think'', hm_ending = Some ''<|end|>''\<rparr>,
           \<lparr>hm_channel = Some ''commentary'', hm_recipient = Some ''functions.f'', hm_body = ''{\"x\": \"<|call|>\"}'',
            hm_ending = Some ''<|call|>''\<rparr>]"
proof -
  have ok: "\<forall>m\<in>set [([2], [4])]. decodable spelling_decoder m" "decodable spelling_decoder ([3], [5])" "ordinary [1]"
    "[1::int] \<noteq> []" "spelling_decoder [1] = Some ''assistant''" "CALL \<in> set ACTION_ENDINGS"
    by code_simp+
  have ids: "completion_ids [1] [([2], [4])] ([3], [5]) CALL =
      [CHANNEL, 2, MESSAGE, 4, END, START, 1, CHANNEL, 3, MESSAGE, 5, CALL]"
    by (simp add: completion_ids_def message_ids_def)
  have ms: "map (sampled_message spelling_decoder END) [([2], [4])] @ [sampled_message spelling_decoder CALL ([3], [5])] =
      [\<lparr>hm_channel = Some ''analysis'', hm_recipient = None, hm_body = ''think'', hm_ending = Some ''<|end|>''\<rparr>,
       \<lparr>hm_channel = Some ''commentary'', hm_recipient = Some ''functions.f'', hm_body = ''{\"x\": \"<|call|>\"}'',
        hm_ending = Some ''<|call|>''\<rparr>]"
    by code_simp
  show ?thesis using sampled_messages_are_read_back [OF ok] unfolding ids ms .
qed

subsection \<open>Function calls\<close>

text \<open>The arguments of a call are its trimmed body, a JSON object without infinite numbers.\<close>

lemma function_call_Some:
  "function_call je m = Inr (Some (name, arguments)) \<Longrightarrow>
     name \<noteq> [] \<and> hm_recipient m = Some (''functions.'' @ name) \<and> hm_ending m = Some ''<|call|>'' \<and>
     arguments = strip (hm_body m) \<and> (\<exists>d. loads je arguments = Inr (PDict d) \<and> all_finite (PDict d))"
  by (auto simp: function_call_def is_dict_iff marker_text_def MARKERS_def marker_ids
      split: option.splits if_splits sum.splits json_error.splits elim!: prefixE)

text \<open>Every message that is no call and no reasoning is content, whole.\<close>

lemma sort_messages_content:
  "sort_messages je ms = Inr (content, calls, reasoning) \<Longrightarrow>
     (\<forall>m\<in>set ms. hm_body m = [] \<or> hm_body m \<in> set content \<or> function_call je m \<noteq> Inr None \<or>
        hm_recipient m = None \<and> hm_channel m = Some ''analysis'') \<and>
     length content \<le> length ms \<and> (\<forall>c\<in>set calls. \<exists>m\<in>set ms. function_call je m = Inr (Some c))"
  by (induction je ms arbitrary: content calls reasoning rule: sort_messages.induct)
    (fastforce simp: rbind_eq_Inr split: option.splits if_splits)+

end
