(* ===== verification/CollectionPolicy.thy ===== *)
theory CollectionPolicy
  imports Sampling RecordValidation
begin

section \<open>Policy checks at collection\<close>

text \<open>
  \<^verbatim>\<open>validate_session_record\<close> of \<^verbatim>\<open>validation.py\<close> on the JSON object of a session, which is what a collector
  receives: the arguments are checked first, then, if asked for, the structure of the record, then every
  sampled turn of a selected agent against the expected policy.
\<close>

datatype policy_error =
    EmptyExpectation
  | BadExpectation request_error
  | BadExpectedVersion
  | BadTrainedAgents
  | BadStructure record_error
  | RecordNotMapping
  | TurnsNotList
  | TurnNoObject nat
  | TurnBadAgent nat
  | TokensNotList nat
  | NoSamplingMetadata nat
  | SamplingMismatch nat string
  | VersionMismatch nat

text \<open>The collection of agent ids; a mapping is a collection of its keys.\<close>

definition trained_agents :: "pyval \<Rightarrow> policy_error + agent list option" where
  "trained_agents v =
     (let ids = (\<lambda>vs. if list_all (\<lambda>v. agent_of v \<noteq> None) vs then Inr (Some (map (the \<circ> agent_of) vs)) else Inl BadTrainedAgents)
      in case v of
           PNone \<Rightarrow> Inr None
         | PList vs \<Rightarrow> ids vs
         | PTuple vs \<Rightarrow> ids vs
         | PDict d \<Rightarrow> Inr (Some (map (Some \<circ> fst) d))
         | _ \<Rightarrow> Inl BadTrainedAgents)"

definition expected_params :: "pyval \<Rightarrow> policy_error + pydict option" where
  "expected_params v =
     (case v of
        PNone \<Rightarrow> Inr None
      | PDict d \<Rightarrow>
          if d = [] then Inl EmptyExpectation
          else (case validate_sampling_overrides v of Inl e \<Rightarrow> Inl (BadExpectation e) | Inr d \<Rightarrow> Inr (Some d))
      | _ \<Rightarrow> Inl EmptyExpectation)"

definition expected_version :: "pyval \<Rightarrow> policy_error + string option" where
  "expected_version v =
     (case v of PNone \<Rightarrow> Inr None | PStr s \<Rightarrow> if s = [] then Inl BadExpectedVersion else Inr (Some s) | _ \<Rightarrow> Inl BadExpectedVersion)"

definition check_turn_policy ::
  "agent list option \<Rightarrow> pydict option \<Rightarrow> string option \<Rightarrow> nat \<Rightarrow> pyval \<Rightarrow> policy_error + unit" where
  "check_turn_policy selected sampling version index turn =
     (case turn of
        PDict t \<Rightarrow>
          (case agent_of (dget t ''agent_id'') of
             None \<Rightarrow> Inl (TurnBadAgent index)
           | Some agent \<Rightarrow>
               if \<not> is_selected selected agent then Inr ()
               else
                 (case dget t ''completion_token_ids'' of
                    PList tokens \<Rightarrow>
                      if tokens = [] then Inr ()
                      else
                        rbind (case sampling of
                                 None \<Rightarrow> Inr ()
                               | Some expected \<Rightarrow>
                                   (case dget t ''sampling_params'' of
                                      PDict actual \<Rightarrow>
                                        check_all (\<lambda>(k, v). require (finite_num (dget actual k) \<and> py_eq (dget actual k) v)
                                          (SamplingMismatch index k)) expected
                                    | _ \<Rightarrow> Inl (NoSamplingMetadata index))) (\<lambda>_.
                          case version of
                            None \<Rightarrow> Inr ()
                          | Some v \<Rightarrow> require (dget t ''weight_version'' = PStr v) (VersionMismatch index))
                  | _ \<Rightarrow> Inl (TokensNotList index)))
      | _ \<Rightarrow> Inl (TurnNoObject index))"

fun check_turns_policy ::
  "agent list option \<Rightarrow> pydict option \<Rightarrow> string option \<Rightarrow> nat \<Rightarrow> pyval list \<Rightarrow> policy_error + unit" where
  "check_turns_policy selected sampling version i [] = Inr ()"
| "check_turns_policy selected sampling version i (t # ts) =
     rbind (check_turn_policy selected sampling version i t) (\<lambda>_. check_turns_policy selected sampling version (Suc i) ts)"

record policy =
  po_sampling :: pyval
  po_version :: pyval
  po_agents :: pyval
  po_strict :: bool
  po_logprobs :: bool
  po_experts :: bool

definition validate_session_record :: "policy \<Rightarrow> pyval \<Rightarrow> policy_error + unit" where
  "validate_session_record po rec =
     rbind (expected_params (po_sampling po)) (\<lambda>sampling.
     rbind (expected_version (po_version po)) (\<lambda>version.
     rbind (trained_agents (po_agents po)) (\<lambda>selected.
     rbind (if po_strict po \<or> po_logprobs po \<or> po_experts po
            then (case validate_record_structure rec selected (po_logprobs po) (po_experts po) of
                    Inl e \<Rightarrow> Inl (BadStructure e) | Inr u \<Rightarrow> Inr u)
            else Inr ()) (\<lambda>_.
       case rec of
         PDict r \<Rightarrow>
           (case dget r ''turns'' of
              PList turns \<Rightarrow> check_turns_policy selected sampling version 0 turns
            | _ \<Rightarrow> Inl TurnsNotList)
       | _ \<Rightarrow> Inl RecordNotMapping))))"

subsection \<open>What an accepted record contains\<close>

definition turn_on_policy :: "agent list option \<Rightarrow> pydict option \<Rightarrow> string option \<Rightarrow> pydict \<Rightarrow> bool" where
  "turn_on_policy selected sampling version t \<longleftrightarrow>
     (\<exists>agent. agent_of (dget t ''agent_id'') = Some agent \<and>
        (is_selected selected agent \<and> dget t ''completion_token_ids'' \<noteq> PList [] \<longrightarrow>
           (\<forall>expected. sampling = Some expected \<longrightarrow>
              (\<exists>actual. dget t ''sampling_params'' = PDict actual \<and>
                 (\<forall>(k, v)\<in>set expected. finite_num (dget actual k) \<and> py_eq (dget actual k) v))) \<and>
           (\<forall>v. version = Some v \<longrightarrow> dget t ''weight_version'' = PStr v)))"

lemma check_turn_policy_Inr:
  "check_turn_policy selected sampling version i turn = Inr () \<Longrightarrow>
     \<exists>t. turn = PDict t \<and> turn_on_policy selected sampling version t"
  by (auto simp: check_turn_policy_def turn_on_policy_def result_simps split: pyval.splits option.splits if_splits)

lemma check_turns_policy_Inr:
  "check_turns_policy selected sampling version i turns = Inr () \<Longrightarrow>
     \<forall>turn\<in>set turns. \<exists>t. turn = PDict t \<and> turn_on_policy selected sampling version t"
  by (induction turns arbitrary: i) (auto simp: result_simps dest!: check_turn_policy_Inr)

end
