(* ===== verification/ControlRoutes.thy ===== *)
theory ControlRoutes
  imports Service
begin

section \<open>Control routes\<close>

text \<open>
  The routes of \<^verbatim>\<open>_build_app\<close> a trainer uses beside the agents' completions: the instance binding every
  request passes through, the layers of sampling overrides and of the capture of routed experts, the
  tokenizer fingerprint, and the dump of a session. Finalization and deletion are events of \<open>Service\<close>.
  The fingerprint of a model is an argument; the wording of an error body is left out.
\<close>

record http_request =
  hq_instance :: "string option"
  hq_authorization :: string
  hq_body :: "pyval option"

record http_response =
  hr_status :: int
  hr_instance :: "string option"
  hr_body :: "pyval option"

text \<open>The service with the capture layers of its provider, \<open>None\<close> for a transport that has none.\<close>

record node =
  nd_server :: server
  nd_capture :: "capture_layers option"

type_synonym route_result = "int \<times> pyval"

definition refuse :: "int \<Rightarrow> route_result" where
  "refuse status = (status, PDict [(''detail'', PStr [])])"

abbreviation nd_provider :: "node \<Rightarrow> provider" where
  "nd_provider n \<equiv> px_provider (sv_proxy (nd_server n))"

text \<open>Writing needs the bare key, not the keyed form an agent holds.\<close>

definition bare_key :: "service_config \<Rightarrow> http_request \<Rightarrow> bool" where
  "bare_key cf rq = (case sc_api_key cf of None \<Rightarrow> False | Some key \<Rightarrow> key \<noteq> [] \<and> bearer_token (hq_authorization rq) = key)"

definition health :: "service_config \<Rightarrow> route_result" where
  "health cf = (200, PDict [(''status'', PStr ''ok''), (''instance_id'', PStr (sc_instance cf))])"

definition layers_json :: "pydict \<times> pydict \<times> pydict \<Rightarrow> pyval" where
  "layers_json l = (case l of (config, runtime, effective) \<Rightarrow>
     PDict [(''config'', PDict config), (''runtime'', PDict runtime), (''effective'', PDict effective)])"

definition get_sampling_overrides :: "node \<Rightarrow> route_result" where
  "get_sampling_overrides n = (200, layers_json (sampling_layers (nd_provider n)))"

definition put_sampling_overrides :: "service_config \<Rightarrow> http_request \<Rightarrow> node \<Rightarrow> route_result \<times> node" where
  "put_sampling_overrides cf rq n =
     (if \<not> bare_key cf rq then (refuse 401, n)
      else
        (case hq_body rq of
           None \<Rightarrow> (refuse 400, n)
         | Some body \<Rightarrow>
             (case set_runtime_sampling_overrides body (nd_provider n) of
                (Inl _, _) \<Rightarrow> (refuse 400, n)
              | (Inr layers, p) \<Rightarrow>
                  ((200, layers_json layers),
                   n\<lparr>nd_server := (nd_server n)\<lparr>sv_proxy := (sv_proxy (nd_server n))\<lparr>px_provider := p\<rparr>\<rparr>\<rparr>))))"

definition capture_json :: "capture_layers \<Rightarrow> pyval" where
  "capture_json l = PDict [(''config'', PBool (cl_config l)),
     (''runtime'', case cl_runtime l of None \<Rightarrow> PNone | Some b \<Rightarrow> PBool b), (''effective'', PBool (effective_capture l))]"

definition get_routed_experts :: "node \<Rightarrow> route_result" where
  "get_routed_experts n = (case nd_capture n of None \<Rightarrow> refuse 501 | Some l \<Rightarrow> (200, capture_json l))"

definition put_routed_experts :: "service_config \<Rightarrow> http_request \<Rightarrow> node \<Rightarrow> route_result \<times> node" where
  "put_routed_experts cf rq n =
     (case nd_capture n of
        None \<Rightarrow> (refuse 501, n)
      | Some l \<Rightarrow>
          if \<not> bare_key cf rq then (refuse 401, n)
          else
            (case hq_body rq of
               Some (PDict body) \<Rightarrow>
                 if \<not> has_key body ''enabled'' then (refuse 400, n)
                 else
                   (case set_runtime_routed_experts (dget body ''enabled'') l of
                      (Inl _, _) \<Rightarrow> (refuse 400, n)
                    | (Inr l', _) \<Rightarrow> ((200, capture_json l'), n\<lparr>nd_capture := Some l'\<rparr>))
             | _ \<Rightarrow> (refuse 400, n)))"

definition get_tokenizer_fingerprint :: "(string \<Rightarrow> model_error + pyval) \<Rightarrow> string \<Rightarrow> route_result" where
  "get_tokenizer_fingerprint fingerprint model =
     (case fingerprint model of
        Inl (UnknownModel _) \<Rightarrow> refuse 404
      | Inl _ \<Rightarrow> refuse 500
      | Inr v \<Rightarrow> (200, v))"

definition get_session_route :: "string \<Rightarrow> node \<Rightarrow> route_result" where
  "get_session_route sid n =
     (case dump_session sid (px_recorder (sv_proxy (nd_server n))) of
        Inl _ \<Rightarrow> refuse 500
      | Inr None \<Rightarrow> refuse 404
      | Inr (Some d) \<Rightarrow> (200, PDict d))"

datatype route =
    Health
  | GetSampling
  | PutSampling
  | GetExperts
  | PutExperts
  | GetFingerprint string
  | GetSession string

fun control_route ::
  "service_config \<Rightarrow> (string \<Rightarrow> model_error + pyval) \<Rightarrow> route \<Rightarrow> http_request \<Rightarrow> node \<Rightarrow> route_result \<times> node" where
  "control_route cf fp Health rq n = (health cf, n)"
| "control_route cf fp GetSampling rq n = (get_sampling_overrides n, n)"
| "control_route cf fp PutSampling rq n = put_sampling_overrides cf rq n"
| "control_route cf fp GetExperts rq n = (get_routed_experts n, n)"
| "control_route cf fp PutExperts rq n = put_routed_experts cf rq n"
| "control_route cf fp (GetFingerprint model) rq n = (get_tokenizer_fingerprint fp model, n)"
| "control_route cf fp (GetSession sid) rq n = (get_session_route sid n, n)"

text \<open>
  The middleware around every route: a request bound to another instance is answered without reaching
  its route, and every answer names the instance.
\<close>

definition instance_binding ::
  "service_config \<Rightarrow> (http_request \<Rightarrow> 's \<Rightarrow> route_result \<times> 's) \<Rightarrow> http_request \<Rightarrow> 's \<Rightarrow> http_response \<times> 's" where
  "instance_binding cf call_next rq s =
     (let ((status, body), s') =
        (if hq_instance rq \<noteq> None \<and> hq_instance rq \<noteq> Some (sc_instance cf) then (refuse 412, s) else call_next rq s)
      in (\<lparr>hr_status = status, hr_instance = Some (sc_instance cf), hr_body = Some body\<rparr>, s'))"

definition serve_control ::
  "service_config \<Rightarrow> (string \<Rightarrow> model_error + pyval) \<Rightarrow> route \<Rightarrow> http_request \<Rightarrow> node \<Rightarrow> http_response \<times> node" where
  "serve_control cf fp r = instance_binding cf (control_route cf fp r)"

subsection \<open>The routes and the service\<close>

text \<open>Only the two writes change anything, and the service sees them as its event \<open>SetSampling\<close> or not at all.\<close>

lemma put_sampling_event:
  "put_sampling_overrides cf rq n = (r, n') \<Longrightarrow>
     n' = n \<or> (\<exists>v. server_step cf (SetSampling v) (nd_server n) = Some (nd_server n') \<and> nd_capture n' = nd_capture n)"
  by (auto simp: put_sampling_overrides_def split: if_splits option.splits prod.splits sum.splits) (metis snd_conv)+

lemma put_experts_server: "put_routed_experts cf rq n = (r, n') \<Longrightarrow> nd_server n' = nd_server n"
  by (auto simp: put_routed_experts_def split: if_splits option.splits pyval.splits prod.splits sum.splits)

lemma control_keeps_reachable:
  assumes "server_reachable cf (nd_server n)" and "tombstones_last (nd_server n)"
    and "serve_control cf fp r rq n = (rs, n')"
  shows "server_reachable cf (nd_server n')"
proof -
  have same: "server_reachable cf (nd_server n')" if "nd_server n' = nd_server n" using that assms(1) by simp
  have set: "server_reachable cf (nd_server n')" if s: "server_step cf (SetSampling v) (nd_server n) = Some (nd_server n')" for v
  proof (rule server_next [OF assms(1) s])
    have "sv_deletions (nd_server n') = sv_deletions (nd_server n)" "sv_clock (nd_server n') = sv_clock (nd_server n)"
      "px_recorder (sv_proxy (nd_server n')) = px_recorder (sv_proxy (nd_server n))"
      using s by (auto simp: eq_commute [of _ "nd_server n'"])
    then show "tombstones_last (nd_server n')" using assms(2) by (simp add: tombstones_last_def session_deleted_def)
  qed (simp add: names_session_def)
  show ?thesis
  proof (cases r)
    case PutSampling
    obtain x m where x: "put_sampling_overrides cf rq n = (x, m)" by fastforce
    from assms(3) PutSampling x have "n' = n \<or> n' = m"
      by (auto simp: serve_control_def instance_binding_def Let_def split: if_splits prod.splits)
    with put_sampling_event [OF x] same set show ?thesis by auto
  next
    case PutExperts
    obtain x m where x: "put_routed_experts cf rq n = (x, m)" by fastforce
    from assms(3) PutExperts x have "n' = n \<or> n' = m"
      by (auto simp: serve_control_def instance_binding_def Let_def split: if_splits prod.splits)
    with put_experts_server [OF x] same show ?thesis by auto
  qed (use assms(3) same in \<open>auto simp: serve_control_def instance_binding_def Let_def split: if_splits prod.splits\<close>)
qed

text \<open>What a write of the sampling layer installs.\<close>

lemma put_sampling_200:
  assumes "put_sampling_overrides cf rq n = ((200, v), n')"
  shows "bare_key cf rq \<and> (\<exists>body d. hq_body rq = Some body \<and> validate_sampling_overrides body = Inr d \<and>
     pv_runtime (nd_provider n') = d \<and> v = layers_json (sampling_layers (nd_provider n')))"
  using assms
  by (auto simp: put_sampling_overrides_def set_runtime_sampling_overrides_def refuse_def Let_def
      split: if_splits option.splits sum.splits)

end
