(* ===== verification/Client.thy ===== *)
theory Client
  imports CollectionPolicy ControlRoutes
begin

section \<open>The trainer's client\<close>

text \<open>
  \<^verbatim>\<open>client.py\<close>: what a collector does with the answers of the proxy. An HTTP exchange is an argument, an
  answer or a transport failure; the functions check the instance the answer comes from, its status and
  its payload. The synchronous helpers and the methods of \<^verbatim>\<open>AsyncProxyClient\<close> run the same checks; the
  latter take the expected instance from the client's state. The file of template pins is its JSON value.
\<close>

datatype exchange = Failed | Answer http_response

datatype client_error =
    BadKey key_error
  | InstanceChanged
  | StatusError int
  | NoJson
  | NoObject
  | TransportError
  | ClientClosed
  | AlreadyBound
  | OtherRecord
  | NotFinalized
  | NothingRequested
  | BadCaptureFlag
  | SamplingNotMapping
  | BadControls request_error
  | NotNumbers
  | SamplingNotApplied
  | CaptureNotApplied
  | BadPinFile
  | TemplateChanged
  | OtherModel
  | IncompatibleFingerprint
  | TokenizersDiffer
  | NoTemplatePin
  | OffPolicy policy_error

subsection \<open>Answers\<close>

definition is_success :: "http_response \<Rightarrow> bool" where
  "is_success r \<longleftrightarrow> 200 \<le> hr_status r \<and> hr_status r < 300"

definition instance_headers :: "string option \<Rightarrow> client_error + string option" where
  "instance_headers expected =
     (case expected of
        None \<Rightarrow> Inr None
      | Some i \<Rightarrow> (case validate_instance_id i of Inl e \<Rightarrow> Inl (BadKey e) | Inr i \<Rightarrow> Inr (Some i)))"

definition check_instance_response :: "http_response \<Rightarrow> string option \<Rightarrow> client_error + unit" where
  "check_instance_response r expected =
     require (\<not> (expected \<noteq> None \<and> is_success r \<and> hr_instance r \<noteq> expected)) InstanceChanged"

definition replacement_response :: "http_response \<Rightarrow> string option \<Rightarrow> bool" where
  "replacement_response r expected =
     (if expected = None \<or> hr_status r \<noteq> 412 then False
      else (case hr_instance r of
              None \<Rightarrow> False
            | Some i \<Rightarrow> (case validate_instance_id i of Inl _ \<Rightarrow> False | Inr actual \<Rightarrow> Some actual \<noteq> expected)))"

definition object_response :: "http_response \<Rightarrow> string option \<Rightarrow> client_error + pydict" where
  "object_response r expected =
     rbind (check_instance_response r expected) (\<lambda>_.
     rbind (require (is_success r) (StatusError (hr_status r))) (\<lambda>_.
       case hr_body r of
         None \<Rightarrow> Inl NoJson
       | Some (PDict d) \<Rightarrow> Inr d
       | Some _ \<Rightarrow> Inl NoObject))"

definition exchanged :: "exchange \<Rightarrow> string option \<Rightarrow> client_error + pydict" where
  "exchanged x expected = (case x of Failed \<Rightarrow> Inl TransportError | Answer r \<Rightarrow> object_response r expected)"

definition health_instance :: "http_response \<Rightarrow> string option \<Rightarrow> client_error + string" where
  "health_instance r expected =
     rbind (object_response r expected) (\<lambda>d.
     rbind (case dget d ''instance_id'' of
              PStr i \<Rightarrow> (case validate_instance_id i of Inl e \<Rightarrow> Inl (BadKey e) | Inr i \<Rightarrow> Inr i)
            | _ \<Rightarrow> Inl (BadKey BadInstanceId)) (\<lambda>actual.
     rbind (require (expected = None \<or> expected = Some actual) InstanceChanged) (\<lambda>_.
     rbind (check_instance_response r (Some actual)) (\<lambda>_. Inr actual))))"

subsection \<open>Binding\<close>

text \<open>\<^verbatim>\<open>AsyncProxyClient\<close>: whether it is closed, and the instance it is bound to.\<close>

record client =
  ct_closed :: bool
  ct_instance :: "string option"

definition client_response :: "exchange \<Rightarrow> client \<Rightarrow> client_error + http_response" where
  "client_response x c =
     (if ct_closed c then Inl ClientClosed
      else rbind (instance_headers (ct_instance c)) (\<lambda>_.
        case x of
          Failed \<Rightarrow> Inl TransportError
        | Answer r \<Rightarrow> rbind (check_instance_response r (ct_instance c)) (\<lambda>_. Inr r)))"

text \<open>An explicit id stays pinned when its verification fails.\<close>

definition bind_instance :: "string option \<Rightarrow> exchange \<Rightarrow> (client, client_error, string) action" where
  "bind_instance explicit x c =
     (let verify = (\<lambda>c. case rbind (client_response x c) (\<lambda>r. health_instance r (ct_instance c)) of
                          Inl e \<Rightarrow> (Inl e, c)
                        | Inr actual \<Rightarrow> (Inr actual, c\<lparr>ct_instance := Some actual\<rparr>))
      in case explicit of
           None \<Rightarrow> verify c
         | Some i \<Rightarrow>
             (case validate_instance_id i of
                Inl e \<Rightarrow> (Inl (BadKey e), c)
              | Inr _ \<Rightarrow>
                  if ct_instance c \<noteq> None \<and> ct_instance c \<noteq> Some i then (Inl AlreadyBound, c)
                  else verify (c\<lparr>ct_instance := Some i\<rparr>)))"

subsection \<open>Sessions\<close>

definition check_finalization :: "pydict \<Rightarrow> string \<Rightarrow> client_error + unit" where
  "check_finalization result sid =
     require (dget result ''session_id'' = PStr sid \<and> dget result ''status'' = PStr ''finalized'') NotFinalized"

definition finalize_answer :: "exchange \<Rightarrow> string option \<Rightarrow> string \<Rightarrow> client_error + pydict" where
  "finalize_answer x expected sid =
     rbind (instance_headers expected) (\<lambda>_.
     rbind (exchanged x expected) (\<lambda>d. rbind (check_finalization d sid) (\<lambda>_. Inr d)))"

definition wants_checks :: "policy \<Rightarrow> bool" where
  "wants_checks po \<longleftrightarrow> po_sampling po \<noteq> PNone \<or> po_version po \<noteq> PNone \<or> po_strict po \<or> po_logprobs po \<or> po_experts po"

definition collect :: "policy \<Rightarrow> exchange \<Rightarrow> string option \<Rightarrow> string \<Rightarrow> client_error + pydict" where
  "collect po x expected sid =
     rbind (instance_headers expected) (\<lambda>_.
     rbind (exchanged x expected) (\<lambda>d.
     rbind (require (dget d ''session_id'' = PStr sid) OtherRecord) (\<lambda>_.
     rbind (if wants_checks po then (case validate_session_record po (PDict d) of Inl e \<Rightarrow> Inl (OffPolicy e) | Inr u \<Rightarrow> Inr u)
            else Inr ()) (\<lambda>_. Inr d))))"

definition TRANSIENT_STATUS :: "int list" where "TRANSIENT_STATUS = [408, 429, 500, 502, 503, 504]"

text \<open>The delays in milliseconds.\<close>

definition DELETE_DELAYS :: "nat list" where "DELETE_DELAYS = [500, 1000, 2000]"

text \<open>
  The loop of \<^verbatim>\<open>end_session\<close> and \<^verbatim>\<open>close\<close>: one more attempt than there are delays. The result counts the
  attempts made; the exchange of each attempt is an argument.
\<close>

fun delete_attempts :: "(nat \<Rightarrow> exchange) \<Rightarrow> string option \<Rightarrow> nat \<Rightarrow> nat list \<Rightarrow> client_error + nat" where
  "delete_attempts http expected i delays =
     (let retry = (\<lambda>e. case delays of [] \<Rightarrow> Inl e | d # ds \<Rightarrow> delete_attempts http expected (Suc i) ds)
      in case http i of
           Failed \<Rightarrow> retry TransportError
         | Answer r \<Rightarrow>
             rbind (check_instance_response r expected) (\<lambda>_.
               if replacement_response r expected then Inr (Suc i)
               else if hr_status r = 404 then Inr (Suc i)
               else if is_success r then Inr (Suc i)
               else if hr_status r \<in> set TRANSIENT_STATUS then retry (StatusError (hr_status r))
               else Inl (StatusError (hr_status r))))"

declare delete_attempts.simps [simp del]

definition end_session :: "(nat \<Rightarrow> exchange) \<Rightarrow> string option \<Rightarrow> client_error + nat" where
  "end_session http expected =
     rbind (instance_headers expected) (\<lambda>_. delete_attempts http expected 0 DELETE_DELAYS)"

subsection \<open>Controls\<close>

definition matches_sampling :: "pyval \<Rightarrow> pydict \<Rightarrow> bool" where
  "matches_sampling actual expected =
     (case actual of
        PDict a \<Rightarrow> list_all (\<lambda>(k, v). finite_num (dget a k) \<and> py_eq (dget a k) v) expected
      | _ \<Rightarrow> False)"

text \<open>The normalized sampling layer to send, if any.\<close>

definition validate_controls :: "pyval \<Rightarrow> pyval \<Rightarrow> client_error + pydict option" where
  "validate_controls sampling experts =
     rbind (require (\<not> (sampling = PNone \<and> experts = PNone)) NothingRequested) (\<lambda>_.
     rbind (require (experts = PNone \<or> is_bool experts) BadCaptureFlag) (\<lambda>_.
       case sampling of
         PNone \<Rightarrow> Inr None
       | PDict d \<Rightarrow>
           rbind (case validate_sampling_overrides sampling of Inl e \<Rightarrow> Inl (BadControls e) | Inr d \<Rightarrow> Inr d) (\<lambda>d.
           rbind (require (list_all (\<lambda>(k, v). is_number v) d) NotNumbers) (\<lambda>_. Inr (Some d)))
       | _ \<Rightarrow> Inl SamplingNotMapping))"

definition check_sampling_response :: "pydict \<Rightarrow> pydict \<Rightarrow> client_error + unit" where
  "check_sampling_response payload sampling =
     require (matches_sampling (dget payload ''runtime'') sampling \<and>
        (case dget payload ''runtime'' of PDict r \<Rightarrow> set (map fst r) = set (map fst sampling) | _ \<Rightarrow> False) \<and>
        matches_sampling (dget payload ''effective'') (apply_temperature_floor sampling)) SamplingNotApplied"

text \<open>The updates of \<^verbatim>\<open>synchronize_proxy\<close> and \<^verbatim>\<open>synchronize\<close>, one after the other.\<close>

definition synchronize ::
  "pyval \<Rightarrow> pyval \<Rightarrow> string option \<Rightarrow> (pydict \<Rightarrow> 's \<Rightarrow> exchange \<times> 's) \<Rightarrow> (bool \<Rightarrow> 's \<Rightarrow> exchange \<times> 's) \<Rightarrow>
   ('s, client_error, pydict) action" where
  "synchronize sampling experts expected put_sampling put_experts =
     sbind (slift (validate_controls sampling experts)) (\<lambda>layer.
     sbind (slift (instance_headers expected)) (\<lambda>_.
     sbind (case layer of
              None \<Rightarrow> sret []
            | Some d \<Rightarrow> (\<lambda>s. case put_sampling d s of (x, s) \<Rightarrow>
                (rbind (exchanged x expected) (\<lambda>payload.
                   rbind (check_sampling_response payload d) (\<lambda>_. Inr [(''sampling_overrides'', PDict payload)])), s)))
       (\<lambda>result.
     case experts of
       PBool b \<Rightarrow> (\<lambda>s. case put_experts b s of (x, s) \<Rightarrow>
         (rbind (exchanged x expected) (\<lambda>payload.
            rbind (require (dget payload ''effective'' = PBool b) CaptureNotApplied) (\<lambda>_.
              Inr (result @ [(''routed_experts'', PDict payload)]))), s))
     | _ \<Rightarrow> sret result)))"

subsection \<open>Tokenizer checks\<close>

text \<open>\<^verbatim>\<open>_check_template_pin\<close>: what the file holds afterwards; a missing file holds the empty object.\<close>

definition check_template_pin :: "pyval \<Rightarrow> string \<Rightarrow> string \<Rightarrow> client_error + pydict" where
  "check_template_pin pins model pin =
     (case pins of
        PDict d \<Rightarrow>
          rbind (require (list_all (\<lambda>(k, v). case v of PStr s \<Rightarrow> s \<noteq> [] | _ \<Rightarrow> False) d) BadPinFile) (\<lambda>_.
            if has_key d model then rbind (require (dget d model = PStr pin) TemplateChanged) (\<lambda>_. Inr d)
            else Inr (dset model (PStr pin) d))
      | _ \<Rightarrow> Inl BadPinFile)"

definition check_tokenizer_response ::
  "string \<Rightarrow> string \<Rightarrow> string \<Rightarrow> pydict \<Rightarrow> string \<Rightarrow> client_error + string" where
  "check_tokenizer_response algorithm corpus local remote model =
     rbind (require (dget remote ''model'' = PStr model) OtherModel) (\<lambda>_.
     rbind (require (dget remote ''algorithm'' = PStr algorithm \<and> dget remote ''corpus_sha256'' = PStr corpus)
       IncompatibleFingerprint) (\<lambda>_.
     rbind (require (dget remote ''fingerprint'' = PStr local) TokenizersDiffer) (\<lambda>_.
       case dget remote ''template_pin'' of
         PStr pin \<Rightarrow> if pin = [] then Inl NoTemplatePin else Inr pin
       | _ \<Rightarrow> Inl NoTemplatePin)))"

definition check_tokenizer ::
  "string \<Rightarrow> string \<Rightarrow> string \<Rightarrow> exchange \<Rightarrow> string option \<Rightarrow> string \<Rightarrow> pyval option \<Rightarrow> client_error + pydict \<times> pydict option" where
  "check_tokenizer algorithm corpus local x expected model pins =
     rbind (instance_headers expected) (\<lambda>_.
     rbind (exchanged x expected) (\<lambda>remote.
     rbind (check_tokenizer_response algorithm corpus local remote model) (\<lambda>pin.
       case pins of
         None \<Rightarrow> Inr (remote, None)
       | Some file \<Rightarrow> rbind (check_template_pin file model pin) (\<lambda>d. Inr (remote, Some d)))))"

end
