(* ===== verification/Fingerprint.thy ===== *)
theory Fingerprint
  imports JsonProperties Client "HOL-Library.List_Lexorder" "HOL-Library.Char_ord"
begin

section \<open>Tokenizer identity\<close>

text \<open>
  \<^verbatim>\<open>fingerprint.py\<close> and \<^verbatim>\<open>ModelRegistry.fingerprint_payload\<close>: canonical JSON, the parts of a tokenizer that are
  hashed, the strict identity over their hashes, the pin of the chat format, and the cached payload of a profile.
  Arguments are the digest (\<^verbatim>\<open>sha256(...).hexdigest()\<close>), what a tokenizer object answers, and the probe corpus,
  which holds characters beyond the 255 a text of this development has. Bytes are numbers, as in \<open>Base64\<close>.
\<close>

record fingerprint_env =
  fe_json :: json_env
  fe_sha :: "nat list \<Rightarrow> string"

datatype fingerprint_error =
    NoBackend
  | NoModel
  | MergesNoList
  | MergeNoPair
  | NoVocab
  | LongInteger
  | DeepValue

subsection \<open>Canonical JSON\<close>

fun ints :: "pyval \<Rightarrow> int list" where
  "ints (PInt i) = [i]"
| "ints (PList vs) = concat (map ints vs)"
| "ints (PTuple vs) = concat (map ints vs)"
| "ints (PDict d) = concat (map (\<lambda>(k, v). ints v) d)"
| "ints _ = []"

text \<open>\<^verbatim>\<open>sort_keys\<close>: the entries of every dictionary in the order of their keys.\<close>

fun ordered :: "pyval \<Rightarrow> pyval" where
  "ordered (PList vs) = PList (map ordered vs)"
| "ordered (PTuple vs) = PTuple (map ordered vs)"
| "ordered (PDict d) = PDict (sort_key fst (map (\<lambda>(k, v). (k, ordered v)) d))"
| "ordered v = v"

definition utf8_char :: "char \<Rightarrow> nat list" where
  "utf8_char c = (let n = of_char c in if n < 128 then [n] else [192 + n div 64, 128 + n mod 64])"

definition utf8 :: "string \<Rightarrow> nat list" where
  "utf8 s = concat (map utf8_char s)"

text \<open>An integer of more digits than the interpreter converts is a \<^verbatim>\<open>ValueError\<close>.\<close>

definition canonical :: "fingerprint_env \<Rightarrow> pyval \<Rightarrow> fingerprint_error + nat list" where
  "canonical fe v =
     rbind (require (nesting v \<le> je_limit (fe_json fe)) DeepValue) (\<lambda>_.
     rbind (require (list_all (\<lambda>i. length (dec_nat (nat \<bar>i\<bar>)) \<le> MAX_INT_DIGITS) (ints v)) LongInteger) (\<lambda>_.
       Inr (utf8 (json_layout '','' '':'' (fe_json fe) (ordered v)))))"

definition digest :: "fingerprint_env \<Rightarrow> pyval \<Rightarrow> fingerprint_error + string" where
  "digest fe v = rbind (canonical fe v) (\<lambda>bytes. Inr (fe_sha fe bytes))"

subsection \<open>Merges\<close>

text \<open>\<^verbatim>\<open>entry.split(" ")\<close>.\<close>

fun space_split :: "string \<Rightarrow> string list" where
  "space_split [] = [[]]"
| "space_split (c # cs) =
     (if c = CHR '' '' then [] # space_split cs
      else (case space_split cs of [] \<Rightarrow> [[c]] | p # ps \<Rightarrow> (c # p) # ps))"

definition merge_pair :: "pyval \<Rightarrow> fingerprint_error + pyval" where
  "merge_pair v =
     rbind (case v of
              PStr s \<Rightarrow> Inr (map PStr (space_split s))
            | PList vs \<Rightarrow> Inr vs
            | PTuple vs \<Rightarrow> Inr vs
            | _ \<Rightarrow> Inl MergeNoPair) (\<lambda>parts.
     rbind (require (length parts = 2 \<and> list_all is_str parts) MergeNoPair) (\<lambda>_. Inr (PList parts)))"

fun merge_pairs :: "pyval list \<Rightarrow> fingerprint_error + pyval list" where
  "merge_pairs [] = Inr []"
| "merge_pairs (v # vs) = rbind (merge_pair v) (\<lambda>p. rbind (merge_pairs vs) (\<lambda>ps. Inr (p # ps)))"

definition normalized_merges :: "pyval \<Rightarrow> fingerprint_error + pyval" where
  "normalized_merges v =
     (case v of
        PNone \<Rightarrow> Inr PNone
      | PList vs \<Rightarrow> rbind (merge_pairs vs) (\<lambda>ps. Inr (PList ps))
      | _ \<Rightarrow> Inl MergesNoList)"

subsection \<open>The parts of a tokenizer\<close>

record added_token =
  at_content :: string
  at_special :: bool
  at_lstrip :: bool
  at_rstrip :: bool
  at_single_word :: bool
  at_normalized :: bool

text \<open>
  What the code reads of a tokenizer: the JSON its backend serializes to (none when it has none, or one that cannot
  be read), its encoding of a text without special tokens, its vocabulary, its added tokens by id, a runtime setting
  and its chat template. The last two dictionaries are the lists of their entries.
\<close>

record hf_tokenizer =
  hf_backend :: "pyval option"
  hf_encode :: "string \<Rightarrow> int list"
  hf_vocab :: "(string \<times> int) list option"
  hf_added :: "(int \<times> added_token) list"
  hf_split_special :: bool
  hf_template :: pyval

text \<open>A row starts with the token's id, so the rows are sorted by it. A tuple is written as a list.\<close>

definition added_row :: "int \<times> added_token \<Rightarrow> pyval" where
  "added_row = (\<lambda>(i, t).
     PList [PInt i, PStr (at_content t), PBool (at_special t), PBool (at_lstrip t), PBool (at_rstrip t),
       PBool (at_single_word t), PBool (at_normalized t)])"

definition added_token_table :: "hf_tokenizer \<Rightarrow> pyval" where
  "added_token_table tok = PList (map added_row (sort_key fst (hf_added tok)))"

definition vocab_items :: "(string \<times> int) list \<Rightarrow> pyval" where
  "vocab_items vocab = PList (map (\<lambda>(t, i). PList [PStr t, PInt i]) (sort_key fst vocab))"

definition serialized_model :: "hf_tokenizer \<Rightarrow> fingerprint_error + pydict \<times> pyval" where
  "serialized_model tok =
     (case hf_backend tok of
        Some (PDict data) \<Rightarrow>
          (case dget data ''model'' of
             PDict (e # es) \<Rightarrow>
               rbind (if has_key (e # es) ''merges''
                      then rbind (normalized_merges (dget (e # es) ''merges'')) (\<lambda>m. Inr (dset ''merges'' m (e # es)))
                      else Inr (e # es)) (\<lambda>model.
                 Inr (model, PList (map (dget data) [''normalizer'', ''pre_tokenizer'', ''post_processor'', ''decoder''])))
           | _ \<Rightarrow> Inl NoModel)
      | Some _ \<Rightarrow> Inl NoModel
      | None \<Rightarrow> Inl NoBackend)"

record parts =
  tp_model :: pydict
  tp_chain :: pyval
  tp_probe :: pyval
  tp_vocab :: pyval
  tp_size :: nat
  tp_added :: pyval
  tp_encoding :: pyval

definition tokenizer_parts :: "string list \<Rightarrow> hf_tokenizer \<Rightarrow> fingerprint_error + parts" where
  "tokenizer_parts corpus tok =
     rbind (serialized_model tok) (\<lambda>(model, chain).
       case hf_vocab tok of
         None \<Rightarrow> Inl NoVocab
       | Some vocab \<Rightarrow>
           Inr \<lparr>tp_model = model, tp_chain = chain,
             tp_probe = PList (map (\<lambda>t. PList (map PInt (hf_encode tok t))) corpus),
             tp_vocab = vocab_items vocab, tp_size = length vocab, tp_added = added_token_table tok,
             tp_encoding = PDict [(''split_special_tokens'', PBool (hf_split_special tok))]\<rparr>)"

definition backend_part :: "parts \<Rightarrow> pyval" where
  "backend_part p = PDict [(''model'', PDict (tp_model p)), (''chain'', tp_chain p)]"

subsection \<open>The fingerprint\<close>

definition FINGERPRINT_ALGORITHM :: string where "FINGERPRINT_ALGORITHM = ''v1''"

definition probe_corpus_digest :: "fingerprint_env \<Rightarrow> string list \<Rightarrow> fingerprint_error + string" where
  "probe_corpus_digest fe corpus = digest fe (PList (map PStr corpus))"

definition components :: "fingerprint_env \<Rightarrow> parts \<Rightarrow> fingerprint_error + pydict" where
  "components fe p =
     rbind (digest fe (tp_probe p)) (\<lambda>probe.
     rbind (digest fe (tp_vocab p)) (\<lambda>vocab.
     rbind (digest fe (tp_added p)) (\<lambda>added.
     rbind (digest fe (backend_part p)) (\<lambda>backend.
     rbind (digest fe (tp_encoding p)) (\<lambda>encoding.
     rbind (digest fe (dget (tp_model p) ''merges'')) (\<lambda>merges.
     rbind (digest fe (tp_chain p)) (\<lambda>chain.
       Inr [(''probe'', PStr probe), (''vocab'', PStr vocab), (''vocab_size'', PInt (int (tp_size p))),
            (''added_tokens'', PStr added), (''backend'', PStr backend), (''encoding'', PStr encoding),
            (''structural'', PDict [(''merges'', PStr merges), (''normalizer_chain'', PStr chain)])])))))))"

definition strict_identity :: "string \<Rightarrow> pydict \<Rightarrow> pyval" where
  "strict_identity corpus c =
     PDict ([(''algorithm'', PStr FINGERPRINT_ALGORITHM), (''corpus'', PStr corpus)] @
       map (\<lambda>k. (k, dget c k)) [''probe'', ''vocab'', ''vocab_size'', ''added_tokens'', ''backend'', ''encoding''])"

definition tokenizer_fingerprint ::
  "fingerprint_env \<Rightarrow> string list \<Rightarrow> hf_tokenizer \<Rightarrow> fingerprint_error + pydict" where
  "tokenizer_fingerprint fe corpus tok =
     rbind (tokenizer_parts corpus tok) (\<lambda>p.
     rbind (components fe p) (\<lambda>c.
     rbind (probe_corpus_digest fe corpus) (\<lambda>corpus_sha.
     rbind (digest fe (strict_identity corpus_sha c)) (\<lambda>fingerprint.
     rbind (digest fe (hf_template tok)) (\<lambda>template.
       Inr [(''algorithm'', PStr FINGERPRINT_ALGORITHM), (''corpus_sha256'', PStr corpus_sha),
            (''fingerprint'', PStr fingerprint), (''components'', PDict c), (''template_sha256'', PStr template)])))))"

text \<open>The markers of a chat format; an empty tuple of markers is left out.\<close>

definition marker_list :: "string \<Rightarrow> string list \<Rightarrow> pydict" where
  "marker_list key ms = (if ms = [] then [] else [(key, PList (map PStr ms))])"

definition template_pin ::
  "fingerprint_env \<Rightarrow> string \<Rightarrow> string \<Rightarrow> string \<Rightarrow> string list \<Rightarrow> string list \<Rightarrow> fingerprint_error + string" where
  "template_pin fe template generation_prompt turn_end headers endings =
     digest fe (PDict ([(''template_sha256'', PStr template), (''generation_prompt'', PStr generation_prompt),
       (''assistant_turn_end'', PStr turn_end)] @
       marker_list ''continuation_headers'' headers @ marker_list ''assistant_turn_endings'' endings))"

subsection \<open>The registry's payload\<close>

datatype payload_error = PayloadModel model_error | PayloadTokenizer fingerprint_error

definition profile_payload ::
  "fingerprint_env \<Rightarrow> string list \<Rightarrow> model_profile \<Rightarrow> hf_tokenizer \<Rightarrow> fingerprint_error + pydict" where
  "profile_payload fe corpus profile tok =
     rbind (tokenizer_fingerprint fe corpus tok) (\<lambda>d.
     rbind (template_pin fe (case dget d ''template_sha256'' of PStr t \<Rightarrow> t | _ \<Rightarrow> []) (mp_generation_prompt profile)
         (mp_assistant_turn_end profile) (mp_continuation_headers profile) (mp_assistant_turn_endings profile)) (\<lambda>pin.
       Inr (d @ [(''profile'', PStr (mp_name profile)), (''generation_prompt'', PStr (mp_generation_prompt profile)),
         (''assistant_turn_end'', PStr (mp_assistant_turn_end profile))] @
         marker_list ''continuation_headers'' (mp_continuation_headers profile) @
         marker_list ''assistant_turn_endings'' (mp_assistant_turn_endings profile) @ [(''template_pin'', PStr pin)])))"

text \<open>
  \<open>runtime\<close> resolves a model name to its profile and the tokenizer object that serves it; the payloads computed so
  far are kept by profile name.
\<close>

definition fingerprint_payload ::
  "fingerprint_env \<Rightarrow> string list \<Rightarrow> (string \<Rightarrow> model_error + model_profile \<times> hf_tokenizer) \<Rightarrow> string \<Rightarrow>
   (string \<times> pydict) list \<Rightarrow> (payload_error + pydict) \<times> (string \<times> pydict) list" where
  "fingerprint_payload fe corpus runtime model cache =
     (case runtime model of
        Inl e \<Rightarrow> (Inl (PayloadModel e), cache)
      | Inr (profile, tok) \<Rightarrow>
          (case map_of cache (mp_name profile) of
             Some payload \<Rightarrow> (Inr ((''model'', PStr model) # payload), cache)
           | None \<Rightarrow>
               (case profile_payload fe corpus profile tok of
                  Inl e \<Rightarrow> (Inl (PayloadTokenizer e), cache)
                | Inr payload \<Rightarrow> (Inr ((''model'', PStr model) # payload), AList.update (mp_name profile) payload cache))))"

end
