(* ===== verification/FingerprintProperties.thy ===== *)
theory FingerprintProperties
  imports Fingerprint
begin

section \<open>What a fingerprint identifies\<close>

text \<open>
  Canonical JSON says everything about a value but the order of its dictionaries, and UTF-8 everything about a text.
  So two strict identities are equal exactly when the tokenizers encode the probe corpus alike and agree on
  vocabulary, added tokens, serialized backend and runtime setting, as long as the digest tells the hashed texts apart.
\<close>

subsection \<open>UTF-8\<close>

lemma utf8_char_append:
  assumes "utf8_char c @ s = utf8_char d @ t"
  shows "c = d \<and> s = t"
proof -
  have *: "c = d" if "of_char c div 64 = (of_char d div 64 :: nat)" "of_char c mod 64 = (of_char d mod 64 :: nat)"
  proof -
    have "of_char c = (of_char d :: nat)" using that by (metis div_mult_mod_eq)
    then show ?thesis by simp
  qed
  show ?thesis using assms by (auto simp: utf8_char_def Let_def split: if_splits intro: *)
qed

lemma utf8_inj: "utf8 s = utf8 t \<Longrightarrow> s = t"
proof (induction s arbitrary: t)
  case Nil
  then show ?case by (cases t) (auto simp: utf8_def utf8_char_def Let_def split: if_splits)
next
  case (Cons c s)
  then obtain d t' where t: "t = d # t'"
    by (cases t) (auto simp: utf8_def utf8_char_def Let_def split: if_splits)
  with Cons.prems utf8_char_append [of c "utf8 s" d "utf8 t'"] Cons.IH [of t'] show ?case by (simp add: utf8_def)
qed

subsection \<open>Sorted dictionaries\<close>

lemma sort_key_distinct: "distinct (map fst xs) \<Longrightarrow> distinct (map fst (sort_key fst xs))"
  by (simp add: distinct_map distinct_sort)

lemma sort_key_map_of:
  assumes "distinct (map fst xs)" and "distinct (map fst ys)"
  shows "sort_key fst xs = sort_key fst ys \<longleftrightarrow> map_of xs = map_of ys"
proof
  assume "sort_key fst xs = sort_key fst ys"
  then have "set xs = set ys" by (metis set_sort)
  with assms show "map_of xs = map_of ys" by (simp add: map_of_inject_set)
next
  assume "map_of xs = map_of ys"
  with assms have s: "set xs = set ys" by (simp add: map_of_inject_set)
  have "inj_on fst (set xs)" using assms(1) by (simp add: distinct_map)
  with s show "sort_key fst xs = sort_key fst ys"
    by (intro map_sorted_distinct_set_unique [where f = fst]) (simp_all add: sort_key_distinct assms)
qed

lemma ordered_keys [simp]: "map fst (map (\<lambda>(k, v). (k, ordered v)) d) = map fst d"
  by (induction d) auto

lemma ordered_map_of: "map_of (map (\<lambda>(k, v). (k, ordered v)) d) = map_option ordered \<circ> map_of d"
  by (induction d) auto

lemma ordered_dict:
  assumes "distinct (map fst d)" and "distinct (map fst e)"
  shows "ordered (PDict d) = ordered (PDict e) \<longleftrightarrow> (\<forall>k. map_option ordered (map_of d k) = map_option ordered (map_of e k))"
proof -
  have "ordered (PDict d) = ordered (PDict e) \<longleftrightarrow>
      map_of (map (\<lambda>(k, v). (k, ordered v)) d) = map_of (map (\<lambda>(k, v). (k, ordered v)) e)"
    using sort_key_map_of [of "map (\<lambda>(k, v). (k, ordered v)) d" "map (\<lambda>(k, v). (k, ordered v)) e"] assms
    by (simp only: ordered_keys ordered.simps pyval.inject)
  also have "\<dots> \<longleftrightarrow> map_option ordered \<circ> map_of d = map_option ordered \<circ> map_of e" by (simp only: ordered_map_of)
  finally show ?thesis by (simp add: fun_eq_iff)
qed

subsection \<open>Values that are written and read back\<close>

fun shape :: "pyval \<Rightarrow> bool" where
  "shape (PList vs) = list_all shape vs"
| "shape (PTuple vs) = False"
| "shape (PDict d) = (distinct (map fst d) \<and> list_all (\<lambda>(k, v). shape v) d)"
| "shape _ = True"

abbreviation short_int :: "int \<Rightarrow> bool" where
  "short_int i \<equiv> length (dec_nat (nat \<bar>i\<bar>)) \<le> MAX_INT_DIGITS"

lemma json_form_shape: "json_form P v \<longleftrightarrow> shape v \<and> list_all short_int (ints v) \<and> list_all P (floats v)"
proof (induction v)
  case (PList vs)
  then show ?case by (auto simp: list_all_iff)
next
  case (PDict d)
  then have "json_form P v \<longleftrightarrow> shape v \<and> list_all short_int (ints v) \<and> list_all P (floats v)" if "(k, v) \<in> set d" for k v
    using that by (auto intro: snds.intros)
  then show ?case by (simp add: list_all_iff) (fastforce simp: list_all_iff)
qed simp_all

lemma json_form_ordered: "json_form P v \<Longrightarrow> json_form P (ordered v)"
proof (induction v)
  case (PDict d)
  have "json_form P (ordered v)" if "(k, v) \<in> set d" for k v
    using PDict.IH [OF that, of v] PDict.prems that by (auto simp: list_all_iff intro: snds.intros)
  moreover have "distinct (map fst (sort_key fst (map (\<lambda>(k, v). (k, ordered v)) d)))"
    using PDict.prems by (intro sort_key_distinct) (simp only: ordered_keys json_form.simps)
  ultimately show ?case by (auto simp: list_all_iff)
qed (auto simp: list_all_iff)

lemma nesting_ordered: "nesting v \<le> n \<Longrightarrow> nesting (ordered v) \<le> n"
proof (induction v arbitrary: n)
  case (PList vs)
  then show ?case by (cases n) (auto simp: foldr_max list_all_iff)
next
  case (PTuple vs)
  then show ?case by (cases n) (auto simp: foldr_max list_all_iff)
next
  case (PDict d)
  then show ?case by (cases n) (fastforce simp: foldr_max list_all_iff intro: snds.intros)+
qed simp_all

lemma layout_ordered_inj:
  assumes "json_ok je v" and "json_ok je w"
    and "json_layout '','' '':'' je (ordered v) = json_layout '','' '':'' je (ordered w)"
  shows "ordered v = ordered w"
proof -
  define n where "n = max (nesting (ordered v)) (nesting (ordered w))"
  have "scan_value je n (json_layout '','' '':'' je (ordered u) @ []) = Inr (ordered u, [])" if "u \<in> {v, w}" for u
    using that assms(1,2) by (intro scan_json_text) (auto simp: n_def json_form_ordered)
  from this [of v] this [of w] assms(3) show ?thesis by simp
qed

lemma canonical_Inr:
  "canonical fe v = Inr t \<Longrightarrow> list_all short_int (ints v) \<and> t = utf8 (json_layout '','' '':'' (fe_json fe) (ordered v))"
  by (auto simp: canonical_def result_simps)

text \<open>Values of the same entries have the same canonical text, and only they.\<close>

lemma canonical_eq:
  assumes "canonical fe v = Inr t" and "canonical fe w = Inr u"
    and "shape v \<and> list_all (float_ok (fe_json fe)) (floats v)" and "shape w \<and> list_all (float_ok (fe_json fe)) (floats w)"
  shows "t = u \<longleftrightarrow> ordered v = ordered w"
proof -
  note t = canonical_Inr [OF assms(1)] and u = canonical_Inr [OF assms(2)]
  from t u assms(3,4) have "json_ok (fe_json fe) v" "json_ok (fe_json fe) w" by (simp_all add: json_form_shape)
  from layout_ordered_inj [OF this] t u show ?thesis by (auto dest: utf8_inj)
qed

subsection \<open>Equal fingerprints\<close>

text \<open>The values whose texts enter the strict identity of a tokenizer, the corpus and the identity itself.\<close>

definition hashed :: "fingerprint_env \<Rightarrow> string list \<Rightarrow> hf_tokenizer \<Rightarrow> pyval list" where
  "hashed fe corpus tok =
     (case rbind (tokenizer_parts corpus tok) (\<lambda>p. rbind (components fe p) (\<lambda>c.
             rbind (probe_corpus_digest fe corpus) (\<lambda>s.
               Inr [PList (map PStr corpus), tp_probe p, tp_vocab p, tp_added p, backend_part p, tp_encoding p,
                    strict_identity s c]))) of
        Inl _ \<Rightarrow> [] | Inr vs \<Rightarrow> vs)"

text \<open>The digest tells the texts of these values apart.\<close>

definition collision_free :: "fingerprint_env \<Rightarrow> pyval list \<Rightarrow> bool" where
  "collision_free fe vs \<longleftrightarrow>
     (\<forall>v\<in>set vs. \<forall>w\<in>set vs. \<forall>t u. canonical fe v = Inr t \<longrightarrow> canonical fe w = Inr u \<longrightarrow> fe_sha fe t = fe_sha fe u \<longrightarrow> t = u)"

definition canonical_form :: "fingerprint_env \<Rightarrow> pyval \<Rightarrow> bool" where
  "canonical_form fe v \<longleftrightarrow> shape v \<and> list_all (float_ok (fe_json fe)) (floats v)"

text \<open>
  A tokenizer object as Python holds one: dictionaries have one entry for a key, and the backend is JSON whose doubles
  are read back from their text.
\<close>

definition tokenizer_ok :: "fingerprint_env \<Rightarrow> hf_tokenizer \<Rightarrow> bool" where
  "tokenizer_ok fe tok \<longleftrightarrow>
     (\<forall>v. hf_backend tok = Some v \<longrightarrow> canonical_form fe v) \<and>
     (\<forall>vocab. hf_vocab tok = Some vocab \<longrightarrow> distinct (map fst vocab)) \<and> distinct (map fst (hf_added tok))"

definition same_tokenizer :: "string list \<Rightarrow> hf_tokenizer \<Rightarrow> hf_tokenizer \<Rightarrow> bool" where
  "same_tokenizer corpus t u \<longleftrightarrow>
     (\<forall>text\<in>set corpus. hf_encode t text = hf_encode u text) \<and>
     map_option map_of (hf_vocab t) = map_option map_of (hf_vocab u) \<and>
     map_of (hf_added t) = map_of (hf_added u) \<and>
     hf_split_special t = hf_split_special u \<and>
     map_sum id (\<lambda>(model, chain). (ordered (PDict model), ordered chain)) (serialized_model t) =
     map_sum id (\<lambda>(model, chain). (ordered (PDict model), ordered chain)) (serialized_model u)"

lemma digest_eq:
  assumes "digest fe v = Inr s" and "digest fe w = Inr s'" and "canonical_form fe v" and "canonical_form fe w"
    and "collision_free fe vs" and "v \<in> set vs" and "w \<in> set vs"
  shows "s = s' \<longleftrightarrow> ordered v = ordered w"
proof -
  from assms(1,2) obtain t u where tu: "canonical fe v = Inr t" "canonical fe w = Inr u" "s = fe_sha fe t" "s' = fe_sha fe u"
    by (auto simp: digest_def result_simps)
  with assms(5-7) have "s = s' \<longleftrightarrow> t = u" unfolding collision_free_def by blast
  with canonical_eq [OF tu(1,2)] assms(3,4) show ?thesis by (simp add: canonical_form_def)
qed

lemma canonical_form_simps [simp]:
  "canonical_form fe (PList vs) \<longleftrightarrow> list_all (canonical_form fe) vs"
  "canonical_form fe (PDict d) \<longleftrightarrow> distinct (map fst d) \<and> list_all (\<lambda>(k, v). canonical_form fe v) d"
  "canonical_form fe PNone" "canonical_form fe (PStr s)" "canonical_form fe (PInt i)" "canonical_form fe (PBool b)"
  by (auto simp: canonical_form_def list_all_iff)

lemma canonical_form_dget: "list_all (\<lambda>(k, v). canonical_form fe v) d \<Longrightarrow> canonical_form fe (dget d k)"
  by (auto simp: dget_def list_all_iff split: option.splits dest!: map_of_SomeD)

lemma merge_pairs_form: "merge_pairs vs = Inr ps \<Longrightarrow> list_all (canonical_form fe) ps"
proof (induction vs arbitrary: ps)
  case (Cons v vs)
  have "canonical_form fe p" if "merge_pair v = Inr p" for p
    using that by (auto simp: merge_pair_def result_simps list_all_iff is_str_iff)
      (metis canonical_form_simps(4))+
  with Cons show ?case by (auto simp: result_simps)
qed simp

lemma serialized_model_form:
  assumes "serialized_model tok = Inr (model, chain)" and "tokenizer_ok fe tok"
  shows "canonical_form fe (PDict model) \<and> canonical_form fe chain"
proof -
  from assms(1) obtain data e es where b: "hf_backend tok = Some (PDict data)" and m: "dget data ''model'' = PDict (e # es)"
    by (auto simp: serialized_model_def split: option.splits pyval.splits list.splits)
  from assms(2) b have data: "list_all (\<lambda>(k, v). canonical_form fe v) data" by (auto simp: tokenizer_ok_def)
  from canonical_form_dget [OF this] have d: "canonical_form fe (dget data k)" for k .
  from d [of "''model''"] have model: "canonical_form fe (PDict (e # es))" by (simp only: m)
  from assms(1) b m have chain: "chain = PList (map (dget data) [''normalizer'', ''pre_tokenizer'', ''post_processor'', ''decoder''])"
    and merges: "model = e # es \<or> (\<exists>ms. normalized_merges (dget (e # es) ''merges'') = Inr ms \<and> model = dset ''merges'' ms (e # es))"
    by (auto simp: serialized_model_def result_simps split: if_splits)
  have "canonical_form fe (PDict (dset ''merges'' ms (e # es)))" if "normalized_merges v = Inr ms" for v ms
  proof -
    have "canonical_form fe ms"
      using that by (auto simp: normalized_merges_def result_simps dest: merge_pairs_form split: pyval.splits)
    with model show ?thesis
      by (simp only: canonical_form_simps distinct_update list_all_dset [where P = "\<lambda>(k, v). canonical_form fe v"] split_conv)
  qed
  with merges model d show ?thesis unfolding chain by auto
qed

lemma ordered_ids [simp]:
  "ordered (vocab_items vocab) = vocab_items vocab" "ordered (added_token_table tok) = added_token_table tok"
  by (simp_all add: vocab_items_def added_token_table_def added_row_def split_beta)

lemma tokenizer_parts_Inr:
  assumes "tokenizer_parts corpus tok = Inr p"
  obtains model chain vocab where "serialized_model tok = Inr (model, chain)" and "hf_vocab tok = Some vocab"
    and "tp_model p = model" and "tp_chain p = chain" and "tp_probe p = PList (map (\<lambda>t. PList (map PInt (hf_encode tok t))) corpus)"
    and "tp_vocab p = vocab_items vocab" and "tp_size p = length vocab" and "tp_added p = added_token_table tok"
    and "tp_encoding p = PDict [(''split_special_tokens'', PBool (hf_split_special tok))]"
  using assms by (auto simp: tokenizer_parts_def result_simps split: option.splits)

definition identity_keys :: "string list" where
  "identity_keys = [''probe'', ''vocab'', ''vocab_size'', ''added_tokens'', ''backend'', ''encoding'']"

lemma identity_eq:
  "ordered (strict_identity s c) = ordered (strict_identity s' c') \<longleftrightarrow>
   s = s' \<and> list_all (\<lambda>k. ordered (dget c k) = ordered (dget c' k)) identity_keys"
  (is "?l = ?r")
proof -
  let ?d = "\<lambda>s c. [(''algorithm'', PStr FINGERPRINT_ALGORITHM), (''corpus'', PStr s)] @ map (\<lambda>k. (k, dget c k)) identity_keys"
  have "?l \<longleftrightarrow> (\<forall>k. map_option ordered (map_of (?d s c) k) = map_option ordered (map_of (?d s' c') k))"
    unfolding strict_identity_def identity_keys_def by (rule ordered_dict) simp_all
  also have "\<dots> \<longleftrightarrow> ?r"
  proof
    assume a: "\<forall>k. map_option ordered (map_of (?d s c) k) = map_option ordered (map_of (?d s' c') k)"
    from a [rule_format, of "''corpus''"] a [rule_format, of "''probe''"] a [rule_format, of "''vocab''"]
      a [rule_format, of "''vocab_size''"] a [rule_format, of "''added_tokens''"] a [rule_format, of "''backend''"]
      a [rule_format, of "''encoding''"]
    show ?r by (simp add: identity_keys_def)
  qed (simp add: identity_keys_def)
  finally show ?thesis .
qed

lemma strict_identity_form:
  assumes "list_all (\<lambda>k. canonical_form fe (dget c k)) identity_keys"
  shows "canonical_form fe (strict_identity s c)"
  using assms by (simp add: strict_identity_def identity_keys_def)

text \<open>What a fingerprint consists of.\<close>

lemma tokenizer_fingerprint_Inr:
  assumes "tokenizer_fingerprint fe corpus tok = Inr d"
  obtains p c s f where "tokenizer_parts corpus tok = Inr p" and "components fe p = Inr c"
    and "digest fe (PList (map PStr corpus)) = Inr s" and "digest fe (strict_identity s c) = Inr f"
    and "dget d ''fingerprint'' = PStr f" and "dget d ''corpus_sha256'' = PStr s"
    and "hashed fe corpus tok = [PList (map PStr corpus), tp_probe p, tp_vocab p, tp_added p, backend_part p, tp_encoding p,
           strict_identity s c]"
proof -
  from assms obtain p c s f m where "tokenizer_parts corpus tok = Inr p" "components fe p = Inr c"
    "probe_corpus_digest fe corpus = Inr s" "digest fe (strict_identity s c) = Inr f"
    "d = [(''algorithm'', PStr FINGERPRINT_ALGORITHM), (''corpus_sha256'', PStr s),
            (''fingerprint'', PStr f), (''components'', PDict c), (''template_sha256'', PStr m)]"
    by (auto simp: tokenizer_fingerprint_def result_simps)
  then show thesis by (intro that [of p c s f]) (simp_all add: probe_corpus_digest_def hashed_def)
qed

lemma components_Inr:
  assumes "components fe p = Inr c"
  obtains a v t b e where "digest fe (tp_probe p) = Inr a" and "digest fe (tp_vocab p) = Inr v"
    and "digest fe (tp_added p) = Inr t" and "digest fe (backend_part p) = Inr b" and "digest fe (tp_encoding p) = Inr e"
    and "map (dget c) identity_keys = [PStr a, PStr v, PInt (int (tp_size p)), PStr t, PStr b, PStr e]"
  using assms by (auto simp: components_def result_simps identity_keys_def)

lemma map_inj_eq: "(\<And>x y. f x = f y \<Longrightarrow> x = y) \<Longrightarrow> map f xs = map f ys \<longleftrightarrow> xs = ys"
  by (simp add: inj_def inj_map_eq_map)

lemma map_constructors [simp]: "map PInt ms = map PInt ns \<longleftrightarrow> ms = ns" "map PStr ss = map PStr ts \<longleftrightarrow> ss = ts"
  by (rule map_inj_eq, simp)+

lemma vocab_items_eq:
  assumes "distinct (map fst v)" and "distinct (map fst w)"
  shows "vocab_items v = vocab_items w \<longleftrightarrow> map_of v = map_of w"
proof -
  have "vocab_items v = vocab_items w \<longleftrightarrow> sort_key fst v = sort_key fst w"
    unfolding vocab_items_def pyval.inject by (rule map_inj_eq) auto
  with sort_key_map_of [OF assms] show ?thesis by simp
qed

lemma added_token_table_eq:
  assumes "distinct (map fst (hf_added t))" and "distinct (map fst (hf_added u))"
  shows "added_token_table t = added_token_table u \<longleftrightarrow> map_of (hf_added t) = map_of (hf_added u)"
proof -
  have row: "x = y" if "added_row x = added_row y" for x y
    using that by (cases x; cases y) (simp add: added_row_def added_token.equality)
  have "added_token_table t = added_token_table u \<longleftrightarrow> sort_key fst (hf_added t) = sort_key fst (hf_added u)"
    unfolding added_token_table_def pyval.inject using row by (rule map_inj_eq)
  with sort_key_map_of [OF assms] show ?thesis by simp
qed

lemma map_of_length:
  assumes "map_of v = map_of w" and "distinct (map fst v)" and "distinct (map fst w)"
  shows "length v = length w"
proof -
  from assms have "set v = set w" by (simp add: map_of_inject_set)
  with assms(2,3) show ?thesis by (metis distinct_card distinct_map)
qed

lemma probe_eq:
  "ordered (PList (map (\<lambda>t. PList (map PInt (f t))) c)) = ordered (PList (map (\<lambda>t. PList (map PInt (g t))) c)) \<longleftrightarrow>
   (\<forall>t\<in>set c. f t = g t)"
  by (simp add: comp_def)

lemma backend_eq:
  "ordered (backend_part p) = ordered (backend_part q) \<longleftrightarrow>
   ordered (PDict (tp_model p)) = ordered (PDict (tp_model q)) \<and> ordered (tp_chain p) = ordered (tp_chain q)"
proof -
  let ?d = "\<lambda>p. [(''model'', PDict (tp_model p)), (''chain'', tp_chain p)]"
  have "ordered (backend_part p) = ordered (backend_part q) \<longleftrightarrow>
      (\<forall>k. map_option ordered (map_of (?d p) k) = map_option ordered (map_of (?d q) k))"
    unfolding backend_part_def by (rule ordered_dict) simp_all
  also have "\<dots> \<longleftrightarrow> ordered (PDict (tp_model p)) = ordered (PDict (tp_model q)) \<and> ordered (tp_chain p) = ordered (tp_chain q)"
    (is "?l \<longleftrightarrow> ?r")
  proof
    assume l: ?l
    from l [rule_format, of "''model''"] l [rule_format, of "''chain''"] show ?r by simp
  qed simp
  finally show ?thesis .
qed

lemma parts_form:
  assumes "tokenizer_parts corpus tok = Inr p" and "tokenizer_ok fe tok"
  shows "list_all (canonical_form fe) [PList (map PStr corpus), tp_probe p, tp_vocab p, tp_added p, backend_part p, tp_encoding p]"
  using tokenizer_parts_Inr [OF assms(1)]
proof cases
  case (1 model chain vocab)
  with serialized_model_form [OF 1(1) assms(2)] show ?thesis
    by (simp add: backend_part_def vocab_items_def added_token_table_def added_row_def list_all_iff split_beta)
qed

text \<open>The parts that are hashed are equal exactly for the same tokenizer.\<close>

lemma parts_eq:
  assumes "tokenizer_parts corpus t = Inr p" and "tokenizer_parts corpus u = Inr q"
    and "tokenizer_ok fe t" and "tokenizer_ok fe u"
  shows "ordered (tp_probe p) = ordered (tp_probe q) \<and> ordered (tp_vocab p) = ordered (tp_vocab q) \<and> tp_size p = tp_size q \<and>
    ordered (tp_added p) = ordered (tp_added q) \<and> ordered (backend_part p) = ordered (backend_part q) \<and>
    ordered (tp_encoding p) = ordered (tp_encoding q) \<longleftrightarrow> same_tokenizer corpus t u"
proof -
  obtain m ch v where 1: "serialized_model t = Inr (m, ch)" "hf_vocab t = Some v" "tp_model p = m" "tp_chain p = ch"
    "tp_probe p = PList (map (\<lambda>x. PList (map PInt (hf_encode t x))) corpus)" "tp_vocab p = vocab_items v" "tp_size p = length v"
    "tp_added p = added_token_table t" "tp_encoding p = PDict [(''split_special_tokens'', PBool (hf_split_special t))]"
    by (rule tokenizer_parts_Inr [OF assms(1)])
  obtain n ci w where 2: "serialized_model u = Inr (n, ci)" "hf_vocab u = Some w" "tp_model q = n" "tp_chain q = ci"
    "tp_probe q = PList (map (\<lambda>x. PList (map PInt (hf_encode u x))) corpus)" "tp_vocab q = vocab_items w" "tp_size q = length w"
    "tp_added q = added_token_table u" "tp_encoding q = PDict [(''split_special_tokens'', PBool (hf_split_special u))]"
    by (rule tokenizer_parts_Inr [OF assms(2)])
  from assms(3,4) 1(2) 2(2) have d: "distinct (map fst v)" "distinct (map fst w)"
    "distinct (map fst (hf_added t))" "distinct (map fst (hf_added u))" by (auto simp: tokenizer_ok_def)
  have e: "ordered (tp_encoding p) = ordered (tp_encoding q) \<longleftrightarrow> hf_split_special t = hf_split_special u"
    by (simp add: 1(9) 2(9))
  show ?thesis
    unfolding same_tokenizer_def e backend_eq probe_eq 1(1-8) 2(1-8) ordered_ids vocab_items_eq [OF d(1,2)]
      added_token_table_eq [OF d(3,4)]
    using map_of_length [OF _ d(1,2)] by auto
qed

lemma fingerprints_equal_iff:
  assumes t: "tokenizer_fingerprint fe corpus t = Inr d" "tokenizer_ok fe t"
    and u: "tokenizer_fingerprint fe corpus' u = Inr d'" "tokenizer_ok fe u"
    and free: "collision_free fe (hashed fe corpus t @ hashed fe corpus' u)"
  shows "dget d ''fingerprint'' = dget d' ''fingerprint'' \<longleftrightarrow> corpus = corpus' \<and> same_tokenizer corpus t u"
    and "dget d ''corpus_sha256'' = dget d' ''corpus_sha256'' \<longleftrightarrow> corpus = corpus'"
proof -
  obtain p c s f where p: "tokenizer_parts corpus t = Inr p" "components fe p = Inr c"
    and ps: "digest fe (PList (map PStr corpus)) = Inr s" and pf: "digest fe (strict_identity s c) = Inr f"
    and pd: "dget d ''fingerprint'' = PStr f" "dget d ''corpus_sha256'' = PStr s"
    and ph: "hashed fe corpus t = [PList (map PStr corpus), tp_probe p, tp_vocab p, tp_added p, backend_part p, tp_encoding p,
           strict_identity s c]"
    by (rule tokenizer_fingerprint_Inr [OF t(1)])
  obtain q c' s' f' where q: "tokenizer_parts corpus' u = Inr q" "components fe q = Inr c'"
    and qs: "digest fe (PList (map PStr corpus')) = Inr s'" and qf: "digest fe (strict_identity s' c') = Inr f'"
    and qd: "dget d' ''fingerprint'' = PStr f'" "dget d' ''corpus_sha256'' = PStr s'"
    and qh: "hashed fe corpus' u = [PList (map PStr corpus'), tp_probe q, tp_vocab q, tp_added q, backend_part q, tp_encoding q,
           strict_identity s' c']"
    by (rule tokenizer_fingerprint_Inr [OF u(1)])
  note forms = parts_form [OF p(1) t(2), simplified list.pred_inject] parts_form [OF q(1) u(2), simplified list.pred_inject]
  obtain a v w b e where pc: "digest fe (tp_probe p) = Inr a" "digest fe (tp_vocab p) = Inr v" "digest fe (tp_added p) = Inr w"
    "digest fe (backend_part p) = Inr b" "digest fe (tp_encoding p) = Inr e"
    and pk: "map (dget c) identity_keys = [PStr a, PStr v, PInt (int (tp_size p)), PStr w, PStr b, PStr e]"
    by (rule components_Inr [OF p(2)])
  obtain a' v' w' b' e' where qc: "digest fe (tp_probe q) = Inr a'" "digest fe (tp_vocab q) = Inr v'" "digest fe (tp_added q) = Inr w'"
    "digest fe (backend_part q) = Inr b'" "digest fe (tp_encoding q) = Inr e'"
    and qk: "map (dget c') identity_keys = [PStr a', PStr v', PInt (int (tp_size q)), PStr w', PStr b', PStr e']"
    by (rule components_Inr [OF q(2)])
  have i: "canonical_form fe (strict_identity s c)" "canonical_form fe (strict_identity s' c')"
    using pk qk by (auto intro!: strict_identity_form simp: identity_keys_def)
  note eq = digest_eq [OF _ _ _ _ free]
  have hs: "s = s' \<longleftrightarrow> corpus = corpus'"
    using eq [OF ps qs] forms by (simp add: ph qh comp_def)
  then show "dget d ''corpus_sha256'' = dget d' ''corpus_sha256'' \<longleftrightarrow> corpus = corpus'" by (simp add: pd qd)
  have "f = f' \<longleftrightarrow> ordered (strict_identity s c) = ordered (strict_identity s' c')"
    using eq [OF pf qf i] by (simp add: ph qh)
  also have "\<dots> \<longleftrightarrow> s = s' \<and> a = a' \<and> v = v' \<and> tp_size p = tp_size q \<and> w = w' \<and> b = b' \<and> e = e'"
    using pk qk by (auto simp: identity_eq identity_keys_def)
  also have "\<dots> \<longleftrightarrow> corpus = corpus' \<and> ordered (tp_probe p) = ordered (tp_probe q) \<and> ordered (tp_vocab p) = ordered (tp_vocab q) \<and>
      tp_size p = tp_size q \<and> ordered (tp_added p) = ordered (tp_added q) \<and> ordered (backend_part p) = ordered (backend_part q) \<and>
      ordered (tp_encoding p) = ordered (tp_encoding q)"
    using hs eq [OF pc(1) qc(1)] eq [OF pc(2) qc(2)] eq [OF pc(3) qc(3)] eq [OF pc(4) qc(4)] eq [OF pc(5) qc(5)] forms
    by (simp add: ph qh)
  also have "\<dots> \<longleftrightarrow> corpus = corpus' \<and> same_tokenizer corpus t u"
    using parts_eq [OF p(1) _ t(2) u(2), of q] q(1) by auto
  finally show "dget d ''fingerprint'' = dget d' ''fingerprint'' \<longleftrightarrow> corpus = corpus' \<and> same_tokenizer corpus t u"
    by (simp add: pd qd)
qed

subsection \<open>The registry and the trainer's check\<close>

text \<open>
  A profile name stands for one profile and one loaded tokenizer, and the kept payloads are theirs: true of a registry
  that has computed none, and kept by every request.
\<close>

definition runtime_ok :: "(string \<Rightarrow> model_error + model_profile \<times> hf_tokenizer) \<Rightarrow> bool" where
  "runtime_ok runtime \<longleftrightarrow>
     (\<forall>m n p q t u. runtime m = Inr (p, t) \<longrightarrow> runtime n = Inr (q, u) \<longrightarrow> mp_name p = mp_name q \<longrightarrow> p = q \<and> t = u)"

definition payloads_ok ::
  "fingerprint_env \<Rightarrow> string list \<Rightarrow> (string \<Rightarrow> model_error + model_profile \<times> hf_tokenizer) \<Rightarrow> (string \<times> pydict) list \<Rightarrow> bool" where
  "payloads_ok fe corpus runtime cache \<longleftrightarrow>
     (\<forall>m p t d. runtime m = Inr (p, t) \<longrightarrow> map_of cache (mp_name p) = Some d \<longrightarrow> profile_payload fe corpus p t = Inr d)"

lemma payloads_ok_Nil: "payloads_ok fe corpus runtime []"
  by (simp add: payloads_ok_def)

lemma fingerprint_payload_keeps:
  assumes "runtime_ok runtime" and "payloads_ok fe corpus runtime cache"
  shows "payloads_ok fe corpus runtime (snd (fingerprint_payload fe corpus runtime model cache))"
proof (cases "runtime model")
  case (Inr pt)
  obtain p t where pt: "pt = (p, t)" by (cases pt)
  show ?thesis
  proof (cases "map_of cache (mp_name p) = None \<and> (\<exists>d. profile_payload fe corpus p t = Inr d)")
    case True
    then obtain d where d: "map_of cache (mp_name p) = None" "profile_payload fe corpus p t = Inr d" by auto
    have "profile_payload fe corpus q u = Inr e"
      if "runtime m = Inr (q, u)" "map_of (AList.update (mp_name p) d cache) (mp_name q) = Some e" for m q u e
    proof (cases "mp_name q = mp_name p")
      case True
      with assms(1) that(1) Inr pt have "q = p \<and> u = t" unfolding runtime_ok_def by blast
      with that(2) d show ?thesis by (simp add: update_conv')
    next
      case False
      with that assms(2) show ?thesis by (auto simp: payloads_ok_def update_conv')
    qed
    with d Inr pt show ?thesis by (simp add: fingerprint_payload_def payloads_ok_def)
  next
    case False
    with assms(2) Inr pt show ?thesis by (auto simp: fingerprint_payload_def split: option.splits sum.splits)
  qed
qed (use assms(2) in \<open>simp add: fingerprint_payload_def\<close>)

lemma fingerprint_payload_Inr:
  assumes "fingerprint_payload fe corpus runtime model cache = (Inr remote, cache')"
    and "payloads_ok fe corpus runtime cache" and "runtime model = Inr (p, t)"
  shows "\<exists>d. profile_payload fe corpus p t = Inr d \<and> remote = (''model'', PStr model) # d"
  using assms by (auto simp: fingerprint_payload_def payloads_ok_def split: option.splits sum.splits)

lemma dget_append: "dget (d @ e) k = (if has_key d k then dget d k else dget e k)"
  by (auto simp: dget_def has_key_def map_add_def split: option.splits)

lemma marker_list_other [simp]: "k \<noteq> key \<Longrightarrow> \<not> has_key (marker_list key ms) k"
  by (simp add: marker_list_def has_key_def)

lemma profile_payload_Inr:
  assumes "profile_payload fe corpus p t = Inr e"
  obtains d template pin where "tokenizer_fingerprint fe corpus t = Inr d" and "digest fe (hf_template t) = Inr template"
    and "template_pin fe template (mp_generation_prompt p) (mp_assistant_turn_end p) (mp_continuation_headers p)
      (mp_assistant_turn_endings p) = Inr pin"
    and "dget e ''fingerprint'' = dget d ''fingerprint''" and "dget e ''corpus_sha256'' = dget d ''corpus_sha256''"
    and "dget e ''template_pin'' = PStr pin" and "dget e ''algorithm'' = PStr FINGERPRINT_ALGORITHM"
proof -
  from assms obtain d pin where d: "tokenizer_fingerprint fe corpus t = Inr d"
    and pin: "template_pin fe (case dget d ''template_sha256'' of PStr t \<Rightarrow> t | _ \<Rightarrow> []) (mp_generation_prompt p)
      (mp_assistant_turn_end p) (mp_continuation_headers p) (mp_assistant_turn_endings p) = Inr pin"
    and e: "e = d @ [(''profile'', PStr (mp_name p)), (''generation_prompt'', PStr (mp_generation_prompt p)),
         (''assistant_turn_end'', PStr (mp_assistant_turn_end p))] @
         marker_list ''continuation_headers'' (mp_continuation_headers p) @
         marker_list ''assistant_turn_endings'' (mp_assistant_turn_endings p) @ [(''template_pin'', PStr pin)]"
    by (auto simp: profile_payload_def result_simps)
  from d obtain c s f template where t: "digest fe (hf_template t) = Inr template"
    and dd: "d = [(''algorithm'', PStr FINGERPRINT_ALGORITHM), (''corpus_sha256'', PStr s),
            (''fingerprint'', PStr f), (''components'', PDict c), (''template_sha256'', PStr template)]"
    by (auto simp: tokenizer_fingerprint_def result_simps)
  show thesis
    by (rule that [OF d t]) (use pin in \<open>simp_all add: e dd dget_append has_key_def marker_list_def\<close>)
qed

subsection \<open>A checkpoint and the tokenizer that serves it\<close>

text \<open>A digest fails for deep values and long integers only.\<close>

definition digestible :: "fingerprint_env \<Rightarrow> pyval \<Rightarrow> bool" where
  "digestible fe v \<longleftrightarrow> nesting v \<le> je_limit (fe_json fe) \<and> list_all short_int (ints v)"

lemma digest_some: "digestible fe v \<Longrightarrow> \<exists>s. digest fe v = Inr s"
  by (simp add: digestible_def digest_def canonical_def)

lemma tokenizer_fingerprint_some:
  assumes p: "tokenizer_parts corpus tok = Inr p"
    and "list_all (digestible fe) [tp_probe p, tp_vocab p, tp_added p, backend_part p, tp_encoding p, dget (tp_model p) ''merges'',
      tp_chain p, PList (map PStr corpus), hf_template tok]"
    and "short_int (int (tp_size p))" and "1 \<le> je_limit (fe_json fe)"
  shows "\<exists>d. tokenizer_fingerprint fe corpus tok = Inr d"
proof -
  from assms(2) have "digestible fe (tp_probe p)" "digestible fe (tp_vocab p)" "digestible fe (tp_added p)"
    "digestible fe (backend_part p)" "digestible fe (tp_encoding p)" "digestible fe (dget (tp_model p) ''merges'')"
    "digestible fe (tp_chain p)" "digestible fe (PList (map PStr corpus))" "digestible fe (hf_template tok)"
    by (simp_all only: list.pred_inject)
  from this [THEN digest_some] obtain a v t b e m ch s template where d: "digest fe (tp_probe p) = Inr a"
    "digest fe (tp_vocab p) = Inr v" "digest fe (tp_added p) = Inr t" "digest fe (backend_part p) = Inr b"
    "digest fe (tp_encoding p) = Inr e" "digest fe (dget (tp_model p) ''merges'') = Inr m" "digest fe (tp_chain p) = Inr ch"
    and s: "digest fe (PList (map PStr corpus)) = Inr s" and template: "digest fe (hf_template tok) = Inr template"
    by (elim exE) (rule that)
  have "\<exists>c. components fe p = Inr c" by (simp add: components_def d)
  then obtain c where c: "components fe p = Inr c" by blast
  obtain a' v' t' b' e' where "map (dget c) identity_keys = [PStr a', PStr v', PInt (int (tp_size p)), PStr t', PStr b', PStr e']"
    by (rule components_Inr [OF c]) (rule that)
  with assms(3,4) have "digestible fe (strict_identity s c)"
    by (simp add: digestible_def strict_identity_def identity_keys_def)
  then obtain f where "digest fe (strict_identity s c) = Inr f" using digest_some by blast
  then show ?thesis by (simp add: tokenizer_fingerprint_def probe_corpus_digest_def p c s template)
qed

text \<open>The digest of this environment is the text itself.\<close>

definition demo_env :: fingerprint_env where
  "demo_env = \<lparr>fe_json = \<lparr>je_limit = 10, je_float = \<lambda>s. Fin 0, je_repr = \<lambda>f. [], je_wide = \<lambda>n. []\<rparr>, fe_sha = map char_of\<rparr>"

text \<open>Two releases of the tokenizers library write merges as texts or as pairs, and a vocabulary in any order.\<close>

definition demo_tokenizer :: "pyval \<Rightarrow> (string \<times> int) list \<Rightarrow> hf_tokenizer" where
  "demo_tokenizer merges vocab =
     \<lparr>hf_backend = Some (PDict [(''model'', PDict [(''type'', PStr ''BPE''), (''merges'', merges)])]),
      hf_encode = map (\<lambda>c. if c = CHR ''a'' then 0 else 1), hf_vocab = Some vocab,
      hf_added = [(2, \<lparr>at_content = ''<e>'', at_special = True, at_lstrip = False, at_rstrip = False,
        at_single_word = False, at_normalized = False\<rparr>)], hf_split_special = False, hf_template = PNone\<rparr>"

definition checkpoint_tokenizer :: hf_tokenizer where
  "checkpoint_tokenizer = demo_tokenizer (PList [PStr ''a b'']) [(''a'', 0), (''b'', 1)]"

definition runtime_tokenizer :: hf_tokenizer where
  "runtime_tokenizer = demo_tokenizer (PList [PList [PStr ''a'', PStr ''b'']]) [(''b'', 1), (''a'', 0)]"

lemmas demo_defs = checkpoint_tokenizer_def runtime_tokenizer_def demo_tokenizer_def

lemma utf8_char_of_inj: "map char_of (utf8 s) = (map char_of (utf8 t) :: string) \<Longrightarrow> utf8 s = utf8 t"
proof -
  have b: "list_all (\<lambda>n. n < 256) (utf8 s)" for s
  proof (induction s)
    case (Cons c s)
    have "of_char c < (256 :: nat)" by simp
    then have "of_char c div 64 < (4 :: nat)" by (intro less_mult_imp_div_less) simp
    with Cons show ?case by (auto simp: utf8_def utf8_char_def Let_def)
  qed (simp add: utf8_def)
  have "map of_char (map char_of (utf8 s) :: string) = utf8 s" for s
    using b [of s] by (auto simp: list_all_iff intro!: map_idI)
  then show "map char_of (utf8 s) = (map char_of (utf8 t) :: string) \<Longrightarrow> utf8 s = utf8 t" by metis
qed

lemma demo_collision_free: "collision_free demo_env vs"
  unfolding collision_free_def by (auto dest!: canonical_Inr utf8_char_of_inj simp: demo_env_def)

lemma demo_ok: "tokenizer_ok demo_env checkpoint_tokenizer" "tokenizer_ok demo_env runtime_tokenizer"
  by (simp_all add: tokenizer_ok_def demo_defs)

lemma demo_model:
  "serialized_model checkpoint_tokenizer = serialized_model runtime_tokenizer"
  "serialized_model runtime_tokenizer =
     Inr ([(''type'', PStr ''BPE''), (''merges'', PList [PList [PStr ''a'', PStr ''b'']])], PList [PNone, PNone, PNone, PNone])"
  by (simp_all add: serialized_model_def demo_defs normalized_merges_def merge_pair_def has_key_def)

lemma demo_same: "same_tokenizer corpus checkpoint_tokenizer runtime_tokenizer"
  unfolding same_tokenizer_def demo_model(1) by (auto simp: demo_defs)

lemma demo_short [simp]: "length (dec_nat 0) \<le> MAX_INT_DIGITS" "length (dec_nat (Suc 0)) \<le> MAX_INT_DIGITS"
  "length (dec_nat 2) \<le> MAX_INT_DIGITS"
  using dec_nat_length [of 0 1] dec_nat_length [of "Suc 0" 1] dec_nat_length [of 2 1] by (simp_all add: MAX_INT_DIGITS_def)

text \<open>What is hashed of the two is the same.\<close>

definition demo_parts :: parts where
  "demo_parts =
     \<lparr>tp_model = [(''type'', PStr ''BPE''), (''merges'', PList [PList [PStr ''a'', PStr ''b'']])],
      tp_chain = PList [PNone, PNone, PNone, PNone], tp_probe = PList [PList [PInt 0, PInt 1]],
      tp_vocab = PList [PList [PStr ''a'', PInt 0], PList [PStr ''b'', PInt 1]], tp_size = 2,
      tp_added = PList [PList [PInt 2, PStr ''<e>'', PBool True, PBool False, PBool False, PBool False, PBool False]],
      tp_encoding = PDict [(''split_special_tokens'', PBool False)]\<rparr>"

lemma demo_tokenizer_parts:
  "tokenizer_parts [''ab''] checkpoint_tokenizer = Inr demo_parts"
  "tokenizer_parts [''ab''] runtime_tokenizer = Inr demo_parts"
  unfolding tokenizer_parts_def demo_model demo_parts_def
  by (simp_all add: demo_defs vocab_items_def added_token_table_def added_row_def)

lemma demo_fingerprints:
  assumes "tokenizer_parts [''ab''] tok = Inr demo_parts" and "hf_template tok = PNone"
  shows "\<exists>d. tokenizer_fingerprint demo_env [''ab''] tok = Inr d"
  by (rule tokenizer_fingerprint_some [OF assms(1)])
    (simp_all add: assms(2) digestible_def demo_parts_def demo_env_def backend_part_def)

text \<open>C33: Two fingerprints are equal exactly when they were taken with the same probe corpus of the same tokenizer: equal
  encodings of every text of the corpus, vocabulary, added tokens with their flags, serialized model and normalizer chain
  up to the order of dictionaries and the form of merges, and runtime setting.
\<close>

theorem equal_fingerprints_identify_the_tokenizer:
  assumes "tokenizer_fingerprint fe corpus t = Inr d" and "tokenizer_ok fe t"
    and "tokenizer_fingerprint fe corpus' u = Inr d'" and "tokenizer_ok fe u"
    and "collision_free fe (hashed fe corpus t @ hashed fe corpus' u)"
  shows "dget d ''fingerprint'' = dget d' ''fingerprint'' \<longleftrightarrow> corpus = corpus' \<and> same_tokenizer corpus t u"
  by (rule fingerprints_equal_iff(1) [OF assms])

theorem equal_fingerprints_identify_the_tokenizer_witness:
  "\<exists>d d'. tokenizer_fingerprint demo_env [''ab''] checkpoint_tokenizer = Inr d \<and>
     tokenizer_fingerprint demo_env [''ab''] runtime_tokenizer = Inr d' \<and>
     dget d ''fingerprint'' = dget d' ''fingerprint''"
proof -
  from demo_fingerprints [OF demo_tokenizer_parts(1)] obtain d
    where d: "tokenizer_fingerprint demo_env [''ab''] checkpoint_tokenizer = Inr d" by (auto simp: demo_defs)
  from demo_fingerprints [OF demo_tokenizer_parts(2)] obtain d'
    where d': "tokenizer_fingerprint demo_env [''ab''] runtime_tokenizer = Inr d'" by (auto simp: demo_defs)
  from equal_fingerprints_identify_the_tokenizer [OF d demo_ok(1) d' demo_ok(2) demo_collision_free] d d' demo_same
  show ?thesis by blast
qed

text \<open>C31: When the trainer's tokenizer check accepts the answer of the service, the service runs the trainer's probe corpus,
  its tokenizer is the checkpoint's (equal encodings of the corpus, vocabulary, added tokens, serialized backend and
  runtime setting), and the pin the check records is the pin of the template and the markers the service serves with.
\<close>

theorem accepted_tokenizer_is_the_served_one:
  assumes "check_tokenizer FINGERPRINT_ALGORITHM s f x expected model pins = Inr (remote, file)"
    and "tokenizer_fingerprint fe corpus t = Inr d" and "dget d ''fingerprint'' = PStr f"
    and "fst (fingerprint_payload fe corpus' runtime model cache) = Inr remote"
    and "payloads_ok fe corpus' runtime cache" and "runtime model = Inr (p, u)"
    and "tokenizer_ok fe t" and "tokenizer_ok fe u"
    and "collision_free fe (hashed fe corpus t @ hashed fe corpus' u)"
  shows "corpus' = corpus \<and> same_tokenizer corpus t u \<and>
    (\<exists>template pin. digest fe (hf_template u) = Inr template \<and>
       template_pin fe template (mp_generation_prompt p) (mp_assistant_turn_end p) (mp_continuation_headers p)
         (mp_assistant_turn_endings p) = Inr pin \<and>
       (\<forall>recorded. file = Some recorded \<longrightarrow> dget recorded model = PStr pin))"
proof -
  obtain cache' where "fingerprint_payload fe corpus' runtime model cache = (Inr remote, cache')"
    using assms(4) by (cases "fingerprint_payload fe corpus' runtime model cache") auto
  from fingerprint_payload_Inr [OF this assms(5,6)] obtain e where e: "profile_payload fe corpus' p u = Inr e"
    and r: "remote = (''model'', PStr model) # e" by blast
  obtain d' template pin where d': "tokenizer_fingerprint fe corpus' u = Inr d'"
    and template: "digest fe (hf_template u) = Inr template"
    and pin: "template_pin fe template (mp_generation_prompt p) (mp_assistant_turn_end p) (mp_continuation_headers p)
      (mp_assistant_turn_endings p) = Inr pin"
    and same: "dget e ''fingerprint'' = dget d' ''fingerprint''" "dget e ''corpus_sha256'' = dget d' ''corpus_sha256''"
      "dget e ''template_pin'' = PStr pin"
    by (rule profile_payload_Inr [OF e])
  from assms(1) obtain pin' where check: "check_tokenizer_response FINGERPRINT_ALGORITHM s f remote model = Inr pin'"
    and written: "\<And>old. pins = Some old \<Longrightarrow> \<exists>new. check_template_pin old model pin' = Inr new \<and> file = Some new"
    and none: "pins = None \<Longrightarrow> file = None"
    by (auto simp: check_tokenizer_def result_simps split: option.splits)
  from check r same have "dget d' ''fingerprint'' = PStr f" "pin' = pin"
    by (auto simp: check_tokenizer_response_def result_simps split: pyval.splits if_splits)
  with fingerprints_equal_iff(1) [OF assms(2,7) d' assms(8,9)] assms(3) have "corpus' = corpus \<and> same_tokenizer corpus t u" by auto
  moreover have "dget recorded model = PStr pin" if "file = Some recorded" for recorded
    using that written none \<open>pin' = pin\<close>
    by (cases pins) (auto simp: check_template_pin_def result_simps split: pyval.splits if_splits)
  ultimately show ?thesis using template pin by blast
qed

lemma demo_digest: "digest demo_env (PDict d) \<noteq> Inr []"
  by (simp add: digest_def canonical_def demo_env_def utf8_def utf8_char_def require_def)

lemma demo_payload:
  "\<exists>e. profile_payload demo_env [''ab''] llama3_1 runtime_tokenizer = Inr e"
proof -
  from demo_fingerprints [OF demo_tokenizer_parts(2)] obtain d
    where d: "tokenizer_fingerprint demo_env [''ab''] runtime_tokenizer = Inr d" by (auto simp: demo_defs)
  have "\<exists>pin. template_pin demo_env template (mp_generation_prompt llama3_1) (mp_assistant_turn_end llama3_1)
      (mp_continuation_headers llama3_1) (mp_assistant_turn_endings llama3_1) = Inr pin" for template
    unfolding template_pin_def by (rule digest_some) (simp add: digestible_def marker_list_def llama3_1_def no_profile_def demo_env_def)
  from this [of "case dget d ''template_sha256'' of PStr t \<Rightarrow> t | _ \<Rightarrow> []"] obtain pin where
    "template_pin demo_env (case dget d ''template_sha256'' of PStr t \<Rightarrow> t | _ \<Rightarrow> []) (mp_generation_prompt llama3_1)
      (mp_assistant_turn_end llama3_1) (mp_continuation_headers llama3_1) (mp_assistant_turn_endings llama3_1) = Inr pin"
    by blast
  then show ?thesis by (simp add: profile_payload_def d)
qed

theorem accepted_tokenizer_is_the_served_one_witness:
  "\<exists>s f remote file pin.
     check_tokenizer FINGERPRINT_ALGORITHM s f (Answer \<lparr>hr_status = 200, hr_instance = None, hr_body = Some (PDict remote)\<rparr>)
       None ''m'' (Some (PDict [])) = Inr (remote, Some file) \<and> dget file ''m'' = PStr pin \<and>
     same_tokenizer [''ab''] checkpoint_tokenizer runtime_tokenizer"
proof -
  obtain e where e: "profile_payload demo_env [''ab''] llama3_1 runtime_tokenizer = Inr e" using demo_payload by blast
  from demo_fingerprints [OF demo_tokenizer_parts(1)] obtain d
    where d: "tokenizer_fingerprint demo_env [''ab''] checkpoint_tokenizer = Inr d" by (auto simp: demo_defs)
  obtain d' template pin where d': "tokenizer_fingerprint demo_env [''ab''] runtime_tokenizer = Inr d'"
    and pin: "template_pin demo_env template (mp_generation_prompt llama3_1) (mp_assistant_turn_end llama3_1)
      (mp_continuation_headers llama3_1) (mp_assistant_turn_endings llama3_1) = Inr pin"
    and e1: "dget e ''fingerprint'' = dget d' ''fingerprint''" "dget e ''corpus_sha256'' = dget d' ''corpus_sha256''"
      "dget e ''template_pin'' = PStr pin" "dget e ''algorithm'' = PStr FINGERPRINT_ALGORITHM"
    by (rule profile_payload_Inr [OF e])
  obtain f where f: "dget d ''fingerprint'' = PStr f" by (rule tokenizer_fingerprint_Inr [OF d])
  obtain s where s: "dget d' ''corpus_sha256'' = PStr s" by (rule tokenizer_fingerprint_Inr [OF d'])
  have same: "dget d' ''fingerprint'' = PStr f"
    using fingerprints_equal_iff(1) [OF d demo_ok(1) d' demo_ok(2) demo_collision_free] demo_same f by auto
  let ?remote = "(''model'', PStr ''m'') # e"
  let ?runtime = "\<lambda>_. Inr (llama3_1, runtime_tokenizer)"
  have "pin \<noteq> []" using pin demo_digest by (auto simp: template_pin_def)
  then have c: "check_tokenizer FINGERPRINT_ALGORITHM s f (Answer \<lparr>hr_status = 200, hr_instance = None, hr_body = Some (PDict ?remote)\<rparr>)
      None ''m'' (Some (PDict [])) = Inr (?remote, Some [(''m'', PStr pin)])"
    by (simp add: check_tokenizer_def instance_headers_def exchanged_def object_response_def check_instance_response_def
        is_success_def check_tokenizer_response_def check_template_pin_def e1 s same has_key_def)
  have "fst (fingerprint_payload demo_env [''ab''] ?runtime ''m'' []) = Inr ?remote"
    by (simp add: fingerprint_payload_def e)
  from accepted_tokenizer_is_the_served_one [OF c d f this payloads_ok_Nil refl demo_ok demo_collision_free]
  have "same_tokenizer [''ab''] checkpoint_tokenizer runtime_tokenizer" by blast
  with c show ?thesis by (intro exI conjI) (assumption | simp)+
qed

end
