(* ===== verification/ClientProperties.thy ===== *)
theory ClientProperties
  imports Client ServiceProperties
begin

section \<open>Properties of the client and the control routes\<close>

text \<open>
  The client and the service composed: a request bound to one instance leaves every other instance
  alone and is never taken for served, a successful synchronization is the policy in force, and what is
  collected under a policy was sampled under it. The client alone: a binding never changes, a deletion
  makes at most four attempts, and a template pin is never overwritten.
\<close>

subsection \<open>Instances\<close>

lemma instance_binding_foreign:
  assumes "hq_instance rq = Some i" and "i \<noteq> sc_instance cf"
  shows "instance_binding cf call_next rq s =
    (\<lparr>hr_status = 412, hr_instance = Some (sc_instance cf), hr_body = Some (snd (refuse 412))\<rparr>, s)"
  using assms by (simp add: instance_binding_def refuse_def)

lemma object_response_Inr:
  "object_response r expected = Inr d \<longleftrightarrow>
     (expected = None \<or> hr_instance r = expected) \<and> is_success r \<and> hr_body r = Some (PDict d)"
  by (auto simp: object_response_def check_instance_response_def result_simps split: option.splits pyval.splits)

text \<open>C28:
  Restart protection: when a request carries the instance a collector is bound to and another instance
  answers, then whatever route it was for, nothing of that instance's state changes, the answer is never
  accepted as a result, and it is recognized as that of a replaced instance, which a deletion counts as
  done; and an answer a bound client accepts comes from its instance.
\<close>

theorem foreign_instance_is_untouched:
  assumes "hq_instance rq = Some i" and "instance_binding cf call_next rq s = (r, s')"
  shows "(sc_instance cf \<noteq> i \<longrightarrow> s' = s \<and> (\<forall>d. object_response r (Some i) \<noteq> Inr d) \<and>
            (validate_instance_id (sc_instance cf) = Inr (sc_instance cf) \<longrightarrow> replacement_response r (Some i))) \<and>
         (\<forall>d. object_response r (Some i) = Inr d \<longrightarrow> sc_instance cf = i \<and> hr_instance r = Some i)"
proof (cases "sc_instance cf = i")
  case True
  with assms show ?thesis by (auto simp: object_response_Inr)
next
  case False
  then have "i \<noteq> sc_instance cf" by simp
  note b = instance_binding_foreign [OF assms(1) this, of call_next s]
  from b assms(2) have r: "s' = s" "r = \<lparr>hr_status = 412, hr_instance = Some (sc_instance cf), hr_body = Some (snd (refuse 412))\<rparr>"
    by simp_all
  show ?thesis using False by (auto simp: r object_response_Inr is_success_def replacement_response_def)
qed

definition idle_node :: node where
  "idle_node = \<lparr>nd_server = demo_server, nd_capture = Some \<lparr>cl_config = False, cl_runtime = None\<rparr>\<rparr>"

definition bound_request :: "string \<Rightarrow> http_request" where
  "bound_request i = \<lparr>hq_instance = Some i, hq_authorization = ''Bearer key'', hq_body = None\<rparr>"

theorem foreign_instance_is_untouched_witness:
  "snd (serve_control demo_config (\<lambda>_. Inl BadMapping) PutSampling (bound_request ''1'') idle_node) = idle_node \<and>
   object_response (fst (serve_control demo_config (\<lambda>_. Inl BadMapping) PutSampling (bound_request ''1'') idle_node)) (Some ''1'') \<noteq> Inr []"
proof -
  obtain r n where s: "instance_binding demo_config (control_route demo_config (\<lambda>_. Inl BadMapping) PutSampling) (bound_request ''1'') idle_node = (r, n)"
    by fastforce
  have i: "hq_instance (bound_request ''1'') = Some ''1''" "sc_instance demo_config \<noteq> ''1''"
    by (simp_all add: bound_request_def demo_config_def)
  from foreign_instance_is_untouched [OF i(1) s] i(2) show ?thesis by (simp add: serve_control_def s)
qed

text \<open>A binding is never exchanged for another one, and a successful one names the answering instance.\<close>

lemma health_instance_Inr:
  "health_instance r expected = Inr actual \<Longrightarrow> (expected = None \<or> expected = Some actual) \<and> hr_instance r = Some actual"
  by (auto simp: health_instance_def result_simps object_response_Inr check_instance_response_def)

lemma binding_is_kept:
  "bind_instance explicit x c = (result, c') \<Longrightarrow> ct_instance c = Some i \<Longrightarrow> ct_instance c' = Some i"
  by (auto simp: bind_instance_def Let_def result_simps split: option.splits sum.splits if_splits dest: health_instance_Inr health_instance_Inr [OF sym])

lemma bound_to_answering_instance:
  "bind_instance explicit (Answer r) c = (Inr actual, c') \<Longrightarrow> ct_instance c' = Some actual \<and> hr_instance r = Some actual"
  by (auto simp: bind_instance_def client_response_def Let_def result_simps
      split: option.splits sum.splits if_splits dest: health_instance_Inr health_instance_Inr [OF sym])

subsection \<open>Synchronization\<close>

text \<open>The two updates of a client, answered by the service.\<close>

definition put_sampling_call ::
  "service_config \<Rightarrow> string \<Rightarrow> string option \<Rightarrow> pydict \<Rightarrow> node \<Rightarrow> exchange \<times> node" where
  "put_sampling_call cf key expected d n =
     (case serve_control cf (\<lambda>_. Inl BadMapping) PutSampling
             \<lparr>hq_instance = expected, hq_authorization = ''Bearer '' @ key, hq_body = Some (PDict d)\<rparr> n of
        (r, n') \<Rightarrow> (Answer r, n'))"

definition put_experts_call ::
  "service_config \<Rightarrow> string \<Rightarrow> string option \<Rightarrow> bool \<Rightarrow> node \<Rightarrow> exchange \<times> node" where
  "put_experts_call cf key expected b n =
     (case serve_control cf (\<lambda>_. Inl BadMapping) PutExperts
             \<lparr>hq_instance = expected, hq_authorization = ''Bearer '' @ key, hq_body = Some (PDict [(''enabled'', PBool b)])\<rparr> n of
        (r, n') \<Rightarrow> (Answer r, n'))"

lemma validated_again:
  assumes "validate_sampling_overrides v = Inr d" and "validate_sampling_overrides (PDict d) = Inr d'"
  shows "d' = d"
proof -
  let ?K = SAMPLING_PARAM_KEYS
  from assms obtain e where d: "d = pick_keys ?K (\<lambda>_. True) e" and d': "d' = pick_keys ?K (\<lambda>_. True) d"
    by (auto simp: validate_sampling_overrides_Inr)
  have "d' = map (\<lambda>k. (k, dget d k)) (filter (\<lambda>k. has_key d k \<and> True) ?K)" by (simp only: d' pick_keys_def)
  also have "filter (\<lambda>k. has_key d k \<and> True) ?K = filter (\<lambda>k. has_key e k \<and> True) ?K"
    by (rule filter_cong) (auto simp: d has_key_pick_keys)
  also have "map (\<lambda>k. (k, dget d k)) (filter (\<lambda>k. has_key e k \<and> True) ?K) =
      map (\<lambda>k. (k, dget e k)) (filter (\<lambda>k. has_key e k \<and> True) ?K)"
    by (rule map_cong) (auto simp: d dget_pick_keys)
  also have "\<dots> = d" by (simp only: d pick_keys_def)
  finally show ?thesis .
qed

lemma sampling_call_accepted:
  assumes "put_sampling_call cf key expected d n = (x, n')" and "exchanged x expected = Inr payload"
  shows "(\<forall>i. expected = Some i \<longrightarrow> sc_instance cf = i) \<and> nd_capture n' = nd_capture n \<and>
    validate_sampling_overrides (PDict d) = Inr (pv_runtime (nd_provider n'))"
proof -
  let ?rq = "\<lparr>hq_instance = expected, hq_authorization = ''Bearer '' @ key, hq_body = Some (PDict d)\<rparr>"
  obtain r where r: "serve_control cf (\<lambda>_. Inl BadMapping) PutSampling ?rq n = (r, n')" "x = Answer r"
    using assms(1) by (auto simp: put_sampling_call_def split: prod.splits)
  with assms(2) have ok: "is_success r" "expected = None \<or> hr_instance r = expected"
    by (auto simp: exchanged_def object_response_Inr)
  from r(1) ok(1) have served: "expected = None \<or> expected = Some (sc_instance cf)"
    by (auto simp: serve_control_def instance_binding_def is_success_def refuse_def Let_def split: if_splits)
  then obtain status v where p: "put_sampling_overrides cf ?rq n = ((status, v), n')" and s: "hr_status r = status"
    using r(1) by (auto simp: serve_control_def instance_binding_def Let_def split: prod.splits if_splits)
  from p s ok(1) have "status = 200"
    by (auto simp: put_sampling_overrides_def refuse_def is_success_def split: if_splits option.splits prod.splits sum.splits)
  with put_sampling_200 [of cf ?rq n v n'] p have "validate_sampling_overrides (PDict d) = Inr (pv_runtime (nd_provider n'))" by auto
  moreover have "nd_capture n' = nd_capture n"
    using p by (auto simp: put_sampling_overrides_def split: if_splits option.splits prod.splits sum.splits)
  ultimately show ?thesis using served by auto
qed

lemma experts_call_accepted:
  assumes "put_experts_call cf key expected b n = (x, n')" and "exchanged x expected = Inr payload"
    and "dget payload ''effective'' = PBool b"
  shows "(\<forall>i. expected = Some i \<longrightarrow> sc_instance cf = i) \<and> nd_server n' = nd_server n \<and>
    (\<exists>l. nd_capture n' = Some l \<and> effective_capture l = b)"
proof -
  let ?rq = "\<lparr>hq_instance = expected, hq_authorization = ''Bearer '' @ key, hq_body = Some (PDict [(''enabled'', PBool b)])\<rparr>"
  obtain r where r: "serve_control cf (\<lambda>_. Inl BadMapping) PutExperts ?rq n = (r, n')" "x = Answer r"
    using assms(1) by (auto simp: put_experts_call_def split: prod.splits)
  with assms(2) have ok: "is_success r" "expected = None \<or> hr_instance r = expected"
    by (auto simp: exchanged_def object_response_Inr)
  from r(1) ok(1) have served: "expected = None \<or> expected = Some (sc_instance cf)"
    by (auto simp: serve_control_def instance_binding_def is_success_def refuse_def Let_def split: if_splits)
  then obtain status v where p: "put_routed_experts cf ?rq n = ((status, v), n')" and s: "hr_status r = status"
    using r(1) by (auto simp: serve_control_def instance_binding_def Let_def split: prod.splits if_splits)
  from p s ok(1) have "\<exists>l. nd_capture n' = Some l \<and> effective_capture l = b"
    by (auto simp: put_routed_experts_def refuse_def is_success_def set_runtime_routed_experts_def effective_capture_def
        split: if_splits option.splits)
  with served put_experts_server [OF p] show ?thesis by auto
qed

lemma synchronize_Inr:
  assumes "synchronize sampling experts expected put_s put_e n = (Inr result, n')"
  obtains layer m where "validate_controls sampling experts = Inr layer"
    and "case layer of None \<Rightarrow> m = n
       | Some d \<Rightarrow> \<exists>x payload. put_s d n = (x, m) \<and> exchanged x expected = Inr payload \<and>
           check_sampling_response payload d = Inr ()"
    and "case experts of
         PBool b \<Rightarrow> \<exists>x payload. put_e b m = (x, n') \<and> exchanged x expected = Inr payload \<and> dget payload ''effective'' = PBool b
       | _ \<Rightarrow> n' = m"
proof -
  from assms obtain layer where layer: "validate_controls sampling experts = Inr layer"
    by (auto simp: synchronize_def sbind_slift split: sum.splits)
  from assms layer obtain h where "instance_headers expected = Inr h"
    by (auto simp: synchronize_def sbind_slift split: sum.splits)
  note s = assms [unfolded synchronize_def sbind_slift layer this sum.case]
  show thesis
  proof (cases layer)
    case None
    with s have "case experts of
         PBool b \<Rightarrow> \<exists>x payload. put_e b n = (x, n') \<and> exchanged x expected = Inr payload \<and> dget payload ''effective'' = PBool b
       | _ \<Rightarrow> n' = n"
      by (auto simp: result_simps split: pyval.splits prod.splits)
    with None layer show thesis by (intro that [of layer n]) auto
  next
    case (Some d)
    with s obtain x m payload where p: "put_s d n = (x, m)" "exchanged x expected = Inr payload"
      "check_sampling_response payload d = Inr ()"
      by (auto simp: result_simps split: prod.splits)
    with s Some have "case experts of
         PBool b \<Rightarrow> \<exists>x payload. put_e b m = (x, n') \<and> exchanged x expected = Inr payload \<and> dget payload ''effective'' = PBool b
       | _ \<Rightarrow> n' = m"
      by (auto simp: result_simps split: pyval.splits prod.splits)
    with Some p layer show thesis by (intro that [of layer m]) auto
  qed
qed

text \<open>C27:
  What the trainer synchronized is in force: when a synchronization against the service succeeds, the
  service is the instance the client is bound to, its runtime sampling layer is exactly the validated
  policy that was requested, and the capture of routed experts is as requested; an earlier update is not
  lost by the later one.
\<close>

theorem synchronized_policy_is_in_force:
  assumes "synchronize sampling experts expected (put_sampling_call cf key expected) (put_experts_call cf key expected) n =
      (Inr result, n')"
  shows "(\<forall>i. expected = Some i \<longrightarrow> sc_instance cf = i) \<and>
    (sampling \<noteq> PNone \<longrightarrow> validate_sampling_overrides sampling = Inr (pv_runtime (nd_provider n'))) \<and>
    (\<forall>b. experts = PBool b \<longrightarrow> (\<exists>l. nd_capture n' = Some l \<and> effective_capture l = b))"
proof -
  obtain layer m where layer: "validate_controls sampling experts = Inr layer"
    and s: "case layer of None \<Rightarrow> m = n
       | Some d \<Rightarrow> \<exists>x payload. put_sampling_call cf key expected d n = (x, m) \<and> exchanged x expected = Inr payload \<and>
           check_sampling_response payload d = Inr ()"
    and e: "case experts of
         PBool b \<Rightarrow> \<exists>x payload. put_experts_call cf key expected b m = (x, n') \<and> exchanged x expected = Inr payload \<and>
           dget payload ''effective'' = PBool b
       | _ \<Rightarrow> n' = m"
    by (rule synchronize_Inr [OF assms])
  have experts: "nd_server n' = nd_server m \<and> (\<forall>b. experts = PBool b \<longrightarrow>
      (\<forall>i. expected = Some i \<longrightarrow> sc_instance cf = i) \<and> (\<exists>l. nd_capture n' = Some l \<and> effective_capture l = b))"
    using e by (auto split: pyval.splits dest!: experts_call_accepted)
  show ?thesis
  proof (cases layer)
    case None
    with layer have "sampling = PNone" "\<exists>b. experts = PBool b"
      by (auto simp: validate_controls_def result_simps split: pyval.splits elim!: is_bool.elims)
    with experts show ?thesis by auto
  next
    case (Some d)
    with layer have d: "validate_sampling_overrides sampling = Inr d"
      by (auto simp: validate_controls_def result_simps split: pyval.splits sum.splits)
    from s Some obtain x payload where "put_sampling_call cf key expected d n = (x, m)" "exchanged x expected = Inr payload"
      by auto
    note a = sampling_call_accepted [OF this]
    with validated_again [OF d] have "pv_runtime (nd_provider m) = d" by auto
    with a experts d show ?thesis by auto
  qed
qed

theorem synchronized_policy_is_in_force_witness:
  "\<exists>n. nd_capture n = Some \<lparr>cl_config = False, cl_runtime = Some True\<rparr> \<and>
     (\<exists>l. nd_capture n = Some l \<and> effective_capture l) \<and> pv_runtime (nd_provider n) = [(''top_p'', PInt 1)]"
proof -
  let ?n = "snd (synchronize (PDict [(''top_p'', PInt 1)]) (PBool True) None
      (put_sampling_call demo_config ''key'' None) (put_experts_call demo_config ''key'' None) idle_node)"
  obtain r n where s: "synchronize (PDict [(''top_p'', PInt 1)]) (PBool True) None
      (put_sampling_call demo_config ''key'' None) (put_experts_call demo_config ''key'' None) idle_node = (r, n)" by fastforce
  have "(case fst (synchronize (PDict [(''top_p'', PInt 1)]) (PBool True) None
      (put_sampling_call demo_config ''key'' None) (put_experts_call demo_config ''key'' None) idle_node) of Inl _ \<Rightarrow> False | Inr _ \<Rightarrow> True) \<and>
      nd_capture ?n = Some \<lparr>cl_config = False, cl_runtime = Some True\<rparr>"
    by code_simp
  with s obtain result where r: "r = Inr result" and c: "nd_capture n = Some \<lparr>cl_config = False, cl_runtime = Some True\<rparr>"
    by (auto split: sum.splits)
  have v: "validate_sampling_overrides (PDict [(''top_p'', PInt 1)]) = Inr [(''top_p'', PInt 1)]" by code_simp
  from synchronized_policy_is_in_force [OF s [unfolded r]] c v show ?thesis by auto
qed

subsection \<open>Collection\<close>

lemma collect_Inr:
  "collect po x expected sid = Inr d \<Longrightarrow>
     exchanged x expected = Inr d \<and> dget d ''session_id'' = PStr sid \<and> (wants_checks po \<longrightarrow> validate_session_record po (PDict d) = Inr ())"
  by (auto simp: collect_def result_simps split: if_splits sum.splits)

text \<open>C30:
  What is collected is on policy: when a collector that expects a sampling policy and a weight version
  accepts the record of a session, the record is of that session and from its instance, and every turn
  of a selected agent that sampled tokens carries exactly that version and, for every parameter of the
  policy, a finite number equal to it.
\<close>

theorem collected_turns_are_on_policy:
  assumes "collect po (Answer r) expected sid = Inr d" and "po_sampling po = PDict s" and "po_version po = PStr version"
  shows "dget d ''session_id'' = PStr sid \<and> (expected = None \<or> hr_instance r = expected) \<and>
    (\<exists>turns policy selected. dget d ''turns'' = PList turns \<and> validate_sampling_overrides (PDict s) = Inr policy \<and>
       trained_agents (po_agents po) = Inr selected \<and>
       (\<forall>turn\<in>set turns. \<exists>t agent. turn = PDict t \<and> agent_of (dget t ''agent_id'') = Some agent \<and>
          (is_selected selected agent \<and> dget t ''completion_token_ids'' \<noteq> PList [] \<longrightarrow>
             dget t ''weight_version'' = PStr version \<and>
             (\<exists>actual. dget t ''sampling_params'' = PDict actual \<and>
                (\<forall>(k, v)\<in>set policy. finite_num (dget actual k) \<and> py_eq (dget actual k) v)))))"
proof -
  from collect_Inr [OF assms(1)] have x: "exchanged (Answer r) expected = Inr d" and sid: "dget d ''session_id'' = PStr sid"
    and v: "validate_session_record po (PDict d) = Inr ()"
    using assms(2) by (simp_all add: wants_checks_def)
  have i: "expected = None \<or> hr_instance r = expected" using x by (simp add: exchanged_def object_response_Inr)
  from v obtain sampling ver selected where sampling: "expected_params (po_sampling po) = Inr sampling"
    and ver: "expected_version (po_version po) = Inr ver" and sel: "trained_agents (po_agents po) = Inr selected"
    and "(case dget d ''turns'' of PList turns \<Rightarrow> check_turns_policy selected sampling ver 0 turns | _ \<Rightarrow> Inl TurnsNotList) = Inr ()"
    by (auto simp: validate_session_record_def result_simps)
  then obtain turns where t: "dget d ''turns'' = PList turns" and ok: "check_turns_policy selected sampling ver 0 turns = Inr ()"
    by (auto split: pyval.splits)
  from sampling assms(2) obtain policy where p: "sampling = Some policy" "validate_sampling_overrides (PDict s) = Inr policy"
    by (auto simp: expected_params_def split: if_splits sum.splits)
  have ver: "ver = Some version" using ver assms(3) by (auto simp: expected_version_def split: if_splits)
  have "\<forall>turn\<in>set turns. \<exists>t agent. turn = PDict t \<and> agent_of (dget t ''agent_id'') = Some agent \<and>
          (is_selected selected agent \<and> dget t ''completion_token_ids'' \<noteq> PList [] \<longrightarrow>
             dget t ''weight_version'' = PStr version \<and>
             (\<exists>actual. dget t ''sampling_params'' = PDict actual \<and>
                (\<forall>(k, v)\<in>set policy. finite_num (dget actual k) \<and> py_eq (dget actual k) v)))"
    using check_turns_policy_Inr [OF ok] unfolding turn_on_policy_def p(1) ver by fastforce
  with sid i t p(2) sel show ?thesis by blast
qed

definition demo_policy :: policy where
  "demo_policy = \<lparr>po_sampling = PDict [(''top_p'', PInt 1)], po_version = PStr ''v7'', po_agents = PNone, po_strict = False,
     po_logprobs = False, po_experts = False\<rparr>"

definition demo_record :: pydict where
  "demo_record = [(''session_id'', PStr ''run''), (''turns'', PList [PDict [(''agent_id'', PStr ''main''),
     (''completion_token_ids'', PList [PInt 5]), (''sampling_params'', PDict [(''top_p'', PInt 1)]), (''weight_version'', PStr ''v7'')]])]"

theorem collected_turns_are_on_policy_witness:
  "collect demo_policy (Answer \<lparr>hr_status = 200, hr_instance = None, hr_body = Some (PDict demo_record)\<rparr>) None ''run'' = Inr demo_record \<and>
   (\<exists>turns. dget demo_record ''turns'' = PList turns)"
proof -
  have c: "collect demo_policy (Answer \<lparr>hr_status = 200, hr_instance = None, hr_body = Some (PDict demo_record)\<rparr>) None ''run'' = Inr demo_record"
    by code_simp
  from collected_turns_are_on_policy [OF c, of "[(''top_p'', PInt 1)]" "''v7''"] c show ?thesis by (auto simp: demo_policy_def)
qed

subsection \<open>Deletion and template pins\<close>

lemma delete_attempts_step:
  assumes "delete_attempts http expected i delays = Inr k"
  shows "k = Suc i \<or> (\<exists>d ds. delays = d # ds \<and> delete_attempts http expected (Suc i) ds = Inr k)"
proof (cases "http i")
  case Failed
  with assms show ?thesis
    unfolding delete_attempts.simps [of http expected i delays] by (cases delays) simp_all
next
  case (Answer r)
  have checked: "check_instance_response r expected = Inr ()"
    using assms Answer unfolding delete_attempts.simps [of http expected i delays]
    by (cases "check_instance_response r expected") simp_all
  show ?thesis
    using assms Answer checked unfolding delete_attempts.simps [of http expected i delays]
    by (cases delays) (simp_all split: if_splits)
qed

lemma delete_attempts_bound: "delete_attempts http expected i delays = Inr k \<Longrightarrow> k \<le> i + Suc (length delays)"
proof (induction delays arbitrary: i)
  case Nil
  then show ?case by (auto dest: delete_attempts_step)
next
  case (Cons d ds)
  from delete_attempts_step [OF Cons.prems] Cons.IH [of "Suc i"] show ?case by auto
qed

text \<open>A deletion makes at most four attempts and reports a transport failure only when all of them failed.\<close>

lemma end_session_attempts: "end_session http expected = Inr k \<Longrightarrow> k \<le> 4"
  using delete_attempts_bound [of http expected 0 DELETE_DELAYS k]
  by (auto simp: end_session_def result_simps DELETE_DELAYS_def)

lemma template_pin_is_kept:
  assumes "check_template_pin (PDict pins) model pin = Inr pins'"
  shows "dget pins' model = PStr pin \<and> (\<forall>m. has_key pins m \<longrightarrow> dget pins' m = dget pins m)"
  using assms by (auto simp: check_template_pin_def result_simps split: if_splits)

end
