(* ===== verification/Configuration.thy ===== *)
theory Configuration
  imports DirectTransport
begin

section \<open>Configuration\<close>

text \<open>
  \<^verbatim>\<open>config.py\<close> and the wiring of \<^verbatim>\<open>cli.py\<close>: how the settings of a YAML file, of the environment and of the
  command line become an engine, a transport and its target. \<open>data\<close> is what the file parses to. A
  \<^verbatim>\<open>ValueError\<close> is a constructor of its own, any other exception is \<open>ConfigCrash\<close>; resolved storage paths
  are kept as the texts they are resolved from.
\<close>

datatype config_error =
    UnknownTransport
  | UnknownEngine
  | EngineMismatch
  | ContextUnderDirect
  | ContextNoNumber
  | ContextNotPositive
  | ExpertsUnderDirect
  | KeysWithoutUrls
  | KeyNumber nat nat
  | RemovedSamplingDefaults
  | BadSamplingOverrides request_error
  | NoRouterUrl
  | NoEngineUrl
  | ConfigCrash

definition TRANSPORT_ENGINES :: "(string \<times> string) list" where
  "TRANSPORT_ENGINES = [(''sglang_generate'', ''sglang''), (''vllm_generate'', ''vllm'')]"

definition TRANSPORT_MODES :: "string list" where
  "TRANSPORT_MODES = ''direct'' # map fst TRANSPORT_ENGINES"

text \<open>\<^verbatim>\<open>a or b\<close> on optional texts.\<close>

definition or_else :: "string option \<Rightarrow> string option \<Rightarrow> string option" where
  "or_else a b = (case a of None \<Rightarrow> b | Some s \<Rightarrow> if s = [] then b else a)"

definition resolve_transport_mode :: "string option \<Rightarrow> string option \<Rightarrow> config_error + string" where
  "resolve_transport_mode mode env =
     (let name = map lower_char (strip (the (or_else mode (or_else env (Some ''direct'')))))
      in rbind (require (name \<in> set TRANSPORT_MODES) UnknownTransport) (\<lambda>_. Inr name))"

text \<open>\<open>env\<close> are the values of \<^verbatim>\<open>INFERENCE_ENGINE\<close> and \<^verbatim>\<open>TRANSPORT_MODE\<close>.\<close>

type_synonym environment = "string option \<times> string option"

definition resolve_transport_engine :: "environment \<Rightarrow> string option \<Rightarrow> string \<Rightarrow> config_error + string" where
  "resolve_transport_engine env engine mode =
     rbind (resolve_transport_mode (Some mode) (snd env)) (\<lambda>mode.
       let required = map_of TRANSPORT_ENGINES mode in
       case resolve_engine (or_else engine (or_else (fst env) required)) (fst env) of
         None \<Rightarrow> Inl UnknownEngine
       | Some name \<Rightarrow> rbind (require (required = None \<or> required = Some name) EngineMismatch) (\<lambda>_. Inr name))"

definition as_str_list :: "(pyval \<Rightarrow> string) \<Rightarrow> pyval \<Rightarrow> config_error + string list option" where
  "as_str_list repr v =
     (case v of
        PNone \<Rightarrow> Inr None
      | PStr s \<Rightarrow> Inr (Some [s])
      | PList vs \<Rightarrow> Inr (Some (map (py_str repr) vs))
      | PTuple vs \<Rightarrow> Inr (Some (map (py_str repr) vs))
      | PDict d \<Rightarrow> Inr (Some (map fst d))
      | _ \<Rightarrow> Inl ConfigCrash)"

text \<open>
  A setting that must be a text, unless it is falsy: the code strips and lowers it, or makes it a path, which
  raises an \<^verbatim>\<open>AttributeError\<close> or a \<^verbatim>\<open>TypeError\<close> for anything else.
\<close>

definition name_setting :: "pyval \<Rightarrow> config_error + string option" where
  "name_setting v = (if \<not> truthy v then Inr None else (case v of PStr s \<Rightarrow> Inr (Some s) | _ \<Rightarrow> Inl ConfigCrash))"

record proxy_config =
  pc_engine :: string
  pc_engine_inferred :: bool
  pc_delimiter :: string
  pc_host :: "string option"
  pc_port :: "int option"
  pc_session_dir :: string
  pc_log_dir :: string
  pc_save_sessions :: bool
  pc_save_logprobs :: bool
  pc_save_experts :: bool
  pc_mode :: string
  pc_router_url :: "string option"
  pc_router_key :: "string option"
  pc_context_length :: "int option"
  pc_return_experts :: bool
  pc_base_urls :: "string list option"
  pc_api_keys :: "string list option"
  pc_overrides :: "pydict option"

definition config_context_length :: "string \<Rightarrow> pyval \<Rightarrow> config_error + int option" where
  "config_context_length mode v =
     (if v = PNone then Inr None
      else
        rbind (require (map_of TRANSPORT_ENGINES mode \<noteq> None) ContextUnderDirect) (\<lambda>_.
          case caught_int v of
            Inl _ \<Rightarrow> Inl ConfigCrash
          | Inr None \<Rightarrow> Inl ContextNoNumber
          | Inr (Some n) \<Rightarrow> rbind (require (n > 0) ContextNotPositive) (\<lambda>_. Inr (Some n))))"

definition str_setting :: "(pyval \<Rightarrow> string) \<Rightarrow> pyval \<Rightarrow> string option" where
  "str_setting repr v = (if truthy v then Some (py_str repr v) else None)"

definition some_list :: "string list option \<Rightarrow> bool" where
  "some_list xs \<longleftrightarrow> (case xs of None \<Rightarrow> False | Some ys \<Rightarrow> ys \<noteq> [])"

definition check_keys :: "string list option \<Rightarrow> string list option \<Rightarrow> config_error + unit" where
  "check_keys urls ks =
     rbind (require (\<not> (some_list ks \<and> \<not> some_list urls)) KeysWithoutUrls) (\<lambda>_.
       if some_list urls \<and> some_list ks then
         require (length (the ks) = 1 \<or> length (the ks) = length (the urls)) (KeyNumber (length (the ks)) (length (the urls)))
       else Inr ())"

text \<open>The engine, the transport and the mode the arguments, the file and the environment agree on.\<close>

definition config_transport ::
  "(pyval \<Rightarrow> string) \<Rightarrow> environment \<Rightarrow> pydict \<Rightarrow> string option \<Rightarrow> string option \<Rightarrow> bool \<Rightarrow>
   config_error + string option \<times> string \<times> string" where
  "config_transport repr env data engine mode override =
     (let v = (if truthy (dget data ''inference_engine'') then dget data ''inference_engine''
               else (case engine of None \<Rightarrow> PNone | Some e \<Rightarrow> PStr e));
          filed = strip (if truthy (dget data ''transport_mode'') then py_str repr (dget data ''transport_mode'') else []);
          mode_setting = (if override \<and> or_else mode None \<noteq> None then mode else or_else (Some filed) mode)
      in rbind (resolve_transport_mode mode_setting (snd env)) (\<lambda>m.
         rbind (name_setting v) (\<lambda>setting.
         rbind (resolve_transport_engine env setting m) (\<lambda>e. Inr (setting, e, m)))))"

definition load_config ::
  "(pyval \<Rightarrow> string) \<Rightarrow> environment \<Rightarrow> string option \<Rightarrow> string option \<Rightarrow> bool \<Rightarrow> pydict \<Rightarrow> config_error + proxy_config" where
  "load_config repr env engine mode override data =
     rbind (config_transport repr env data engine mode override) (\<lambda>(setting, e, m).
     rbind (config_context_length m (dget data ''context_length'')) (\<lambda>context.
     rbind (require (\<not> (truthy (dget data ''return_routed_experts'') \<and> map_of TRANSPORT_ENGINES m = None)) ExpertsUnderDirect) (\<lambda>_.
     rbind (as_str_list repr (dget data ''inference_engine_base_url'')) (\<lambda>urls.
     rbind (as_str_list repr (dget data ''inference_engine_api_key'')) (\<lambda>ks.
     rbind (check_keys urls ks) (\<lambda>_.
     rbind (require (\<not> has_key data ''sampling_defaults'') RemovedSamplingDefaults) (\<lambda>_.
     rbind (if dget data ''sampling_overrides'' = PNone then Inr None
            else (case validate_sampling_overrides (dget data ''sampling_overrides'') of
                    Inl x \<Rightarrow> Inl (BadSamplingOverrides x) | Inr d \<Rightarrow> Inr (Some d))) (\<lambda>overrides.
     rbind (if dget data ''port'' = PNone then Inr None
            else (case caught_int (dget data ''port'') of Inr (Some n) \<Rightarrow> Inr (Some n) | _ \<Rightarrow> Inl ConfigCrash)) (\<lambda>port.
     rbind (name_setting (dget data ''rollout_session_dir'')) (\<lambda>sessions.
     rbind (name_setting (dget data ''log_dir'')) (\<lambda>logs.
       Inr \<lparr>pc_engine = e, pc_engine_inferred = (or_else setting (or_else (fst env) None) = None),
            pc_delimiter = (case str_setting repr (dget data ''proxy_api_delimiter'') of None \<Rightarrow> ''|'' | Some s \<Rightarrow> s),
            pc_host = (if dget data ''host'' = PNone then None else Some (py_str repr (dget data ''host''))),
            pc_port = port,
            pc_session_dir = (case sessions of None \<Rightarrow> ''sessions'' | Some s \<Rightarrow> s),
            pc_log_dir = (case logs of None \<Rightarrow> ''logs'' | Some s \<Rightarrow> s),
            pc_save_sessions = truthy (dget_or data ''save_rollout_sessions'' (PBool True)),
            pc_save_logprobs = truthy (dget_or data ''save_rollout_logprobs'' (PBool True)),
            pc_save_experts = truthy (dget_or data ''save_rollout_routed_experts'' (PBool False)),
            pc_mode = m, pc_router_url = str_setting repr (dget data ''router_url''),
            pc_router_key = str_setting repr (dget data ''router_api_key''), pc_context_length = context,
            pc_return_experts = truthy (dget data ''return_routed_experts''), pc_base_urls = urls, pc_api_keys = ks,
            pc_overrides = overrides\<rparr>)))))))))))"

subsection \<open>Start-up\<close>

record arguments =
  ar_mode :: "string option"
  ar_router_url :: "string option"
  ar_router_key :: "string option"
  ar_context_length :: "int option"
  ar_return_experts :: "bool option"
  ar_base_urls :: "string list option"
  ar_api_keys :: "string list option"

datatype target =
    Generate string string "string option" "int option" bool
  | Direct string "string list" "string list option"

text \<open>The provider \<^verbatim>\<open>run_standalone_proxy\<close> builds: the engine and the settings of its transport.\<close>

definition wire_transport :: "environment \<Rightarrow> arguments \<Rightarrow> proxy_config \<Rightarrow> config_error + target" where
  "wire_transport env ar cfg =
     (let setting = (if or_else (ar_mode ar) None \<noteq> None \<and> pc_engine_inferred cfg then None else Some (pc_engine cfg));
          url = or_else (ar_router_url ar) (pc_router_url cfg);
          key = or_else (ar_router_key ar) (pc_router_key cfg);
          context = (case ar_context_length ar of None \<Rightarrow> pc_context_length cfg | Some n \<Rightarrow> Some n);
          experts = (case ar_return_experts ar of None \<Rightarrow> pc_return_experts cfg | Some b \<Rightarrow> b);
          urls = (if some_list (ar_base_urls ar) then ar_base_urls ar else pc_base_urls cfg);
          ks = (if some_list (ar_api_keys ar) then ar_api_keys ar else pc_api_keys cfg)
      in rbind (resolve_transport_mode (or_else (ar_mode ar) (Some (pc_mode cfg))) (snd env)) (\<lambda>m.
         rbind (resolve_transport_engine env setting m) (\<lambda>e.
         rbind (require (\<not> (map_of TRANSPORT_ENGINES m \<noteq> None \<and> (case url of None \<Rightarrow> True | Some u \<Rightarrow> strip u = []))) NoRouterUrl) (\<lambda>_.
         rbind (require (\<not> (m = ''direct'' \<and> \<not> some_list urls)) NoEngineUrl) (\<lambda>_.
           if map_of TRANSPORT_ENGINES m \<noteq> None then Inr (Generate e (the url) key context experts)
           else Inr (Direct e (the urls) ks))))))"

subsection \<open>What a configuration guarantees\<close>

lemma resolve_transport_mode_Inr: "resolve_transport_mode mode env = Inr m \<Longrightarrow> m \<in> set TRANSPORT_MODES"
  by (auto simp: resolve_transport_mode_def result_simps Let_def)

lemma mode_cases: "m \<in> set TRANSPORT_MODES \<Longrightarrow> m = ''direct'' \<or> (\<exists>e. map_of TRANSPORT_ENGINES m = Some e)"
  by (auto simp: TRANSPORT_MODES_def TRANSPORT_ENGINES_def)

lemma resolve_engine_known: "resolve_engine a b = Some e \<Longrightarrow> e \<in> set ENGINES"
  by (auto simp: resolve_engine_def Let_def split: if_splits)

lemma engine_known:
  "resolve_transport_engine env engine mode = Inr e \<Longrightarrow> e \<in> set ENGINES"
  by (auto simp: resolve_transport_engine_def result_simps Let_def split: option.splits dest: resolve_engine_known)

text \<open>Resolving a resolved mode or engine again changes nothing.\<close>

lemma resolved_mode: "m \<in> set TRANSPORT_MODES \<Longrightarrow> resolve_transport_mode (Some m) env = Inr m"
  by (auto simp: TRANSPORT_MODES_def TRANSPORT_ENGINES_def resolve_transport_mode_def or_else_def strip_def lstrip_def
      is_space_def lower_char_def Let_def)

lemma engine_of_mode:
  assumes "resolve_transport_engine env engine m = Inr e" and "m \<in> set TRANSPORT_MODES"
  shows "map_of TRANSPORT_ENGINES m = None \<or> map_of TRANSPORT_ENGINES m = Some e"
  using assms(1) by (auto simp: resolve_transport_engine_def resolved_mode [OF assms(2)] result_simps Let_def split: option.splits)

lemma load_config_ok:
  assumes "load_config repr env engine mode override data = Inr cfg"
  shows "pc_mode cfg \<in> set TRANSPORT_MODES \<and> pc_engine cfg \<in> set ENGINES \<and>
    (map_of TRANSPORT_ENGINES (pc_mode cfg) = None \<or> map_of TRANSPORT_ENGINES (pc_mode cfg) = Some (pc_engine cfg)) \<and>
    (\<forall>n. pc_context_length cfg = Some n \<longrightarrow> n > 0 \<and> pc_mode cfg \<noteq> ''direct'') \<and>
    (pc_return_experts cfg \<longrightarrow> pc_mode cfg \<noteq> ''direct'') \<and>
    (\<forall>d. pc_overrides cfg = Some d \<longrightarrow> validate_sampling_overrides (dget data ''sampling_overrides'') = Inr d) \<and>
    check_keys (pc_base_urls cfg) (pc_api_keys cfg) = Inr ()"
proof -
  from assms obtain setting e m "context" urls ks overrides where
    t: "config_transport repr env data engine mode override = Inr (setting, e, m)"
    and c: "config_context_length m (dget data ''context_length'') = Inr context"
    and x: "\<not> (truthy (dget data ''return_routed_experts'') \<and> map_of TRANSPORT_ENGINES m = None)"
    and k: "check_keys urls ks = Inr ()"
    and o: "(if dget data ''sampling_overrides'' = PNone then Inr None
            else (case validate_sampling_overrides (dget data ''sampling_overrides'') of
                    Inl x \<Rightarrow> Inl (BadSamplingOverrides x) | Inr d \<Rightarrow> Inr (Some d))) = Inr overrides"
    and cfg: "pc_mode cfg = m" "pc_engine cfg = e" "pc_context_length cfg = context"
      "pc_return_experts cfg = truthy (dget data ''return_routed_experts'')" "pc_base_urls cfg = urls" "pc_api_keys cfg = ks"
      "pc_overrides cfg = overrides"
    by (auto simp: load_config_def result_simps)
  from t have m: "m \<in> set TRANSPORT_MODES" and e: "resolve_transport_engine env setting m = Inr e"
    by (auto simp: config_transport_def result_simps Let_def dest: resolve_transport_mode_Inr)
  have "n > 0 \<and> m \<noteq> ''direct''" if "context = Some n" for n
    using c that by (auto simp: config_context_length_def result_simps TRANSPORT_ENGINES_def split: if_splits sum.splits option.splits)
  moreover have "validate_sampling_overrides (dget data ''sampling_overrides'') = Inr d" if "overrides = Some d" for d
    using o that by (auto split: if_splits sum.splits)
  ultimately show ?thesis
    using m engine_of_mode [OF e m] engine_known [OF e] x k by (auto simp: cfg TRANSPORT_ENGINES_def)
qed

text \<open>A start-up has a target of its transport: a router, or engines, and an engine that speaks the protocol.\<close>

lemma wire_transport_Inr:
  assumes "wire_transport env ar cfg = Inr t"
  obtains m e where "resolve_transport_mode (or_else (ar_mode ar) (Some (pc_mode cfg))) (snd env) = Inr m"
    and "resolve_transport_engine env
      (if or_else (ar_mode ar) None \<noteq> None \<and> pc_engine_inferred cfg then None else Some (pc_engine cfg)) m = Inr e"
    and "case t of
       Generate e' url key window experts \<Rightarrow> e' = e \<and> m \<noteq> ''direct'' \<and> strip url \<noteq> [] \<and>
         window = (case ar_context_length ar of None \<Rightarrow> pc_context_length cfg | Some n \<Rightarrow> Some n)
     | Direct e' urls ks \<Rightarrow> e' = e \<and> m = ''direct'' \<and> urls \<noteq> [] \<and>
         Some urls = (if some_list (ar_base_urls ar) then ar_base_urls ar else pc_base_urls cfg) \<and>
         ks = (if some_list (ar_api_keys ar) then ar_api_keys ar else pc_api_keys cfg)"
proof -
  let ?setting = "if or_else (ar_mode ar) None \<noteq> None \<and> pc_engine_inferred cfg then None else Some (pc_engine cfg)"
  let ?url = "or_else (ar_router_url ar) (pc_router_url cfg)"
  let ?urls = "if some_list (ar_base_urls ar) then ar_base_urls ar else pc_base_urls cfg"
  let ?ks = "if some_list (ar_api_keys ar) then ar_api_keys ar else pc_api_keys cfg"
  let ?window = "case ar_context_length ar of None \<Rightarrow> pc_context_length cfg | Some n \<Rightarrow> Some n"
  note out = that
  from assms obtain m e key experts where
    m: "resolve_transport_mode (or_else (ar_mode ar) (Some (pc_mode cfg))) (snd env) = Inr m"
    and e: "resolve_transport_engine env ?setting m = Inr e"
    and url: "\<not> (map_of TRANSPORT_ENGINES m \<noteq> None \<and> (case ?url of None \<Rightarrow> True | Some u \<Rightarrow> strip u = []))"
    and urls: "\<not> (m = ''direct'' \<and> \<not> some_list ?urls)"
    and t: "(if map_of TRANSPORT_ENGINES m \<noteq> None then Inr (Generate e (the ?url) key ?window experts)
             else Inr (Direct e (the ?urls) ?ks)) = (Inr t :: config_error + target)"
    unfolding wire_transport_def Let_def rbind_eq_Inr require_eq by (elim exE conjE) (rule that)
  show thesis
  proof (cases "map_of TRANSPORT_ENGINES m = None")
    case True
    with mode_cases [OF resolve_transport_mode_Inr [OF m]] have d: "m = ''direct''" by auto
    with urls obtain us where "?urls = Some us" "us \<noteq> []" by (auto simp: some_list_def split: option.splits if_splits)
    with True t d show thesis by (intro out [OF m e]) auto
  next
    case False
    then have "m \<noteq> ''direct''" by (auto simp: TRANSPORT_ENGINES_def)
    with False url t show thesis by (intro out [OF m e]) (cases ?url; auto)
  qed
qed

text \<open>Start-up resolves the transport and the engine a second time, with the same answer.\<close>

lemma resolve_engine_resolved: "e \<in> set ENGINES \<Longrightarrow> resolve_engine (Some e) env = Some e"
  by (auto simp: ENGINES_def resolve_engine_def strip_def lstrip_def is_space_def lower_char_def Let_def)

lemma resolve_transport_engine_resolved:
  assumes "resolve_transport_engine env setting m = Inr e" and "m \<in> set TRANSPORT_MODES"
  shows "resolve_transport_engine env (Some e) m = Inr e"
proof -
  have e: "e \<in> set ENGINES" by (rule engine_known [OF assms(1)])
  then have "e \<noteq> []" by (auto simp: ENGINES_def)
  with engine_of_mode [OF assms] resolve_engine_resolved [OF e] show ?thesis
    by (auto simp: resolve_transport_engine_def resolved_mode [OF assms(2)] or_else_def Let_def)
qed

lemma config_transport_Inr:
  assumes "config_transport repr env data None mode override = Inr (setting, e, m)"
  shows "m \<in> set TRANSPORT_MODES \<and> resolve_transport_engine env setting m = Inr e \<and> setting \<noteq> Some [] \<and>
    (override \<and> or_else mode None \<noteq> None \<longrightarrow> resolve_transport_mode mode (snd env) = Inr m)"
  using assms
  by (auto simp: config_transport_def name_setting_def result_simps Let_def split: if_splits pyval.splits dest: resolve_transport_mode_Inr)

lemma wired_again:
  assumes "config_transport repr env data None (ar_mode ar) True = Inr (setting, e, m)"
    and "inferred \<longleftrightarrow> or_else setting (or_else (fst env) None) = None"
  shows "resolve_transport_mode (or_else (ar_mode ar) (Some m)) (snd env) = Inr m"
    and "resolve_transport_engine env (if or_else (ar_mode ar) None \<noteq> None \<and> inferred then None else Some e) m = Inr e"
proof -
  from config_transport_Inr [OF assms(1)] have m: "m \<in> set TRANSPORT_MODES"
    and e: "resolve_transport_engine env setting m = Inr e" and s: "setting \<noteq> Some []"
    and o: "or_else (ar_mode ar) None \<noteq> None \<longrightarrow> resolve_transport_mode (ar_mode ar) (snd env) = Inr m" by auto
  show "resolve_transport_mode (or_else (ar_mode ar) (Some m)) (snd env) = Inr m"
    using o resolved_mode [OF m] by (auto simp: or_else_def split: option.splits if_splits)
  have "setting = None" if "inferred" using that assms(2) s by (auto simp: or_else_def split: option.splits if_splits)
  then show "resolve_transport_engine env (if or_else (ar_mode ar) None \<noteq> None \<and> inferred then None else Some e) m = Inr e"
    using e resolve_transport_engine_resolved [OF e m] by auto
qed

lemma check_keys_fit:
  "check_keys (Some urls) ks = Inr () \<Longrightarrow> urls \<noteq> [] \<Longrightarrow> case ks of None \<Rightarrow> True | Some xs \<Rightarrow> length xs \<in> {0, 1, length urls}"
  by (auto simp: check_keys_def some_list_def result_simps split: option.splits if_splits)

lemma load_config_Inr:
  assumes "load_config repr env engine mode override data = Inr cfg"
  obtains setting where "config_transport repr env data engine mode override = Inr (setting, pc_engine cfg, pc_mode cfg)"
    and "pc_engine_inferred cfg \<longleftrightarrow> or_else setting (or_else (fst env) None) = None"
  using assms by (auto simp: load_config_def result_simps)

text \<open>C40: What \<^verbatim>\<open>run_standalone_proxy\<close> starts from a configuration it loaded itself is what was validated: the engine and
  the transport are those of the configuration although both are resolved again, a generation transport has a router
  and, unless the command line states a window, a positive one or none, and direct transport has engines, with keys that
  fit them unless the command line states its own.
\<close>

theorem started_target_is_the_validated_one:
  assumes "load_config repr env None (ar_mode ar) True data = Inr cfg" and "wire_transport env ar cfg = Inr t"
  shows "case t of
     Generate e url key window experts \<Rightarrow>
       e = pc_engine cfg \<and> map_of TRANSPORT_ENGINES (pc_mode cfg) = Some e \<and> strip url \<noteq> [] \<and>
       (ar_context_length ar = None \<longrightarrow> (\<forall>n. window = Some n \<longrightarrow> 0 < n))
   | Direct e urls ks \<Rightarrow>
       e = pc_engine cfg \<and> e \<in> set ENGINES \<and> pc_mode cfg = ''direct'' \<and> urls \<noteq> [] \<and>
       (\<not> some_list (ar_base_urls ar) \<longrightarrow> \<not> some_list (ar_api_keys ar) \<longrightarrow>
          (case ks of None \<Rightarrow> True | Some xs \<Rightarrow> length xs \<in> {0, 1, length urls}))"
proof -
  obtain setting where c: "config_transport repr env data None (ar_mode ar) True = Inr (setting, pc_engine cfg, pc_mode cfg)"
    and i: "pc_engine_inferred cfg \<longleftrightarrow> or_else setting (or_else (fst env) None) = None"
    by (rule load_config_Inr [OF assms(1)])
  obtain m e where m: "resolve_transport_mode (or_else (ar_mode ar) (Some (pc_mode cfg))) (snd env) = Inr m"
    and e: "resolve_transport_engine env
      (if or_else (ar_mode ar) None \<noteq> None \<and> pc_engine_inferred cfg then None else Some (pc_engine cfg)) m = Inr e"
    and t: "case t of
       Generate e' url key window experts \<Rightarrow> e' = e \<and> m \<noteq> ''direct'' \<and> strip url \<noteq> [] \<and>
         window = (case ar_context_length ar of None \<Rightarrow> pc_context_length cfg | Some n \<Rightarrow> Some n)
     | Direct e' urls ks \<Rightarrow> e' = e \<and> m = ''direct'' \<and> urls \<noteq> [] \<and>
         Some urls = (if some_list (ar_base_urls ar) then ar_base_urls ar else pc_base_urls cfg) \<and>
         ks = (if some_list (ar_api_keys ar) then ar_api_keys ar else pc_api_keys cfg)"
    by (rule wire_transport_Inr [OF assms(2)])
  from m wired_again(1) [OF c i] have "m = pc_mode cfg" by simp
  with e wired_again(2) [OF c i] have "e = pc_engine cfg" by simp
  with t \<open>m = pc_mode cfg\<close> load_config_ok [OF assms(1)] check_keys_fit show ?thesis
    by (cases t) (auto simp: TRANSPORT_MODES_def TRANSPORT_ENGINES_def)
qed

theorem started_target_is_the_validated_one_witness:
  "\<exists>cfg. load_config (\<lambda>_. []) (None, None) None (Some ''sglang_generate'') True
       [(''transport_mode'', PStr ''direct''), (''router_url'', PStr ''http://r'')] = Inr cfg \<and>
     wire_transport (None, None) \<lparr>ar_mode = Some ''sglang_generate'', ar_router_url = None, ar_router_key = None,
       ar_context_length = None, ar_return_experts = None, ar_base_urls = None, ar_api_keys = None\<rparr> cfg =
       Inr (Generate ''sglang'' ''http://r'' None None False) \<and>
     pc_engine cfg = ''sglang''"
proof -
  let ?ar = "\<lparr>ar_mode = Some ''sglang_generate'', ar_router_url = None, ar_router_key = None,
       ar_context_length = None, ar_return_experts = None, ar_base_urls = None, ar_api_keys = None\<rparr>"
  let ?load = "load_config (\<lambda>_. []) (None, None) None (Some ''sglang_generate'') True
       [(''transport_mode'', PStr ''direct''), (''router_url'', PStr ''http://r'')]"
  have "case ?load of Inr cfg \<Rightarrow> wire_transport (None, None) ?ar cfg = Inr (Generate ''sglang'' ''http://r'' None None False) | Inl _ \<Rightarrow> False"
    by code_simp
  then obtain cfg where cfg: "?load = Inr cfg"
    and w: "wire_transport (None, None) ?ar cfg = Inr (Generate ''sglang'' ''http://r'' None None False)"
    by (cases ?load) auto
  from started_target_is_the_validated_one [of "\<lambda>_. []" "(None, None)" ?ar, simplified arguments.simps, OF cfg w] cfg w
  show ?thesis by simp
qed

end
