(* ===== verification/Spec2Isabelle.thy ===== *)
theory Spec2Isabelle
  imports StreamProperties Sampling RecorderProperties TrainingProperties DirectTransport EndToEndProperties ToolRoundtrip HarmonyProperties FingerprintProperties ClientProperties Configuration
begin

section \<open>Rollout-Proxy-Server\<close>

text \<open>
  The program is an HTTP proxy between agents, which speak the chat protocol of OpenAI, and inference
  engines, which sample tokens. It records every conversation as the exact tokens the engine consumed and
  produced, so that a trainer can learn from them. Paths below are those under \<^verbatim>\<open>src/proxyserver/\<close>.

  \<^bold>\<open>The parts and how they interact.\<close> A chat request enters at the HTTP service (\<^verbatim>\<open>service.py\<close>), which checks
  its key, serializes the turns of a session and agent with a turn lock, and runs the completion handler
  in a task. The handler asks the rollout provider (\<^verbatim>\<open>rollout_base.py\<close>) for a completion: the provider pins
  the session to a model profile, lets the token-stream manager of that profile (\<^verbatim>\<open>token_stream.py\<close>) build
  the prompt from the stored stream, merges the sampling policy, calls one of three transports
  (\<^verbatim>\<open>rollout_sglang.py\<close>, \<^verbatim>\<open>rollout_vllm.py\<close>, \<^verbatim>\<open>rollout_provider.py\<close>), validates the reply and commits it to the
  stream. The tool parser of the profile (\<^verbatim>\<open>tokenization/\<close>) turns the sampled tokens into content, reasoning
  and tool calls, and the recorder (\<^verbatim>\<open>recorder.py\<close>) stores the turn as a delta. After finalization the record
  is dumped, validated (\<^verbatim>\<open>record_validation.py\<close>) and cut into training streams (\<^verbatim>\<open>training.py\<close>).

  \<^bold>\<open>Foundations.\<close>
  \<^item> \<open>Prelude\<close>: exceptions as sums (\<open>rbind\<close>, \<open>require\<close>), operations on a state that may raise (\<open>sbind\<close>), ordered
    dictionaries and the locale \<open>keyed_store\<close> with its interpretation; \<open>PyValue\<close>: untyped Python values,
    equality, truth, and the string methods the program uses.
  \<^item> \<open>Base64\<close>, \<open>Json\<close>: the two codecs of the standard library whose exact behaviour the program depends on;
    \<open>JsonProperties\<close>: what is written is read back, and what is read is well formed and bounded in nesting.

  \<^bold>\<open>Token streams.\<close>
  \<^item> \<open>Messages\<close>, \<open>TokenStream\<close>: \<^verbatim>\<open>token_stream.py\<close>, one definition per method of \<^verbatim>\<open>TokenStreamManager\<close>; its attributes
    are the fields of \<open>manager\<close>, an \<^verbatim>\<open>OrderedDict\<close> is an association list in the same order.
  \<^item> \<open>StreamSafety\<close>: the reachable managers and their invariant; \<open>StreamProperties\<close>: what a prompt is made of, when a
    continuation, a replay or a refusal happens, eviction, and that the caches are unobservable.

  \<^bold>\<open>Providers and engines.\<close>
  \<^item> \<open>Sampling\<close>: \<^verbatim>\<open>request_validation.py\<close>, the override checks of \<^verbatim>\<open>model_registry.py\<close>, and the merge of the policy layers.
  \<^item> \<open>Engines\<close>, \<open>SglangTransport\<close>, \<open>VllmTransport\<close>, \<open>DirectTransport\<close>: requests, responses, their checks and the capture of
    routed experts; HTTP replies are arguments.
  \<^item> \<open>Profiles\<close>: the profile modules of \<^verbatim>\<open>tokenization/\<close>, their mapping and the continuation hook.
  \<^item> \<open>Provider\<close>: \<^verbatim>\<open>BaseRolloutProvider\<close>; \<^verbatim>\<open>generate\<close> is split at the engine call (\<open>generate_start\<close>, \<open>generate_finish\<close>).
    \<open>ProviderProperties\<close> has its steps, the locale \<open>manager_observer\<close> by which a property of the managers becomes one
    of the provider, and its interpretations; \<open>ProviderStreams\<close> says what each operation does to the streams,
    and that only a valid completion enters one.

  \<^bold>\<open>Completions.\<close>
  \<^item> \<open>ToolParser\<close>, \<open>Harmony\<close>, \<open>CompletionParsing\<close>: \<^verbatim>\<open>tool_parser.py\<close>, \<^verbatim>\<open>harmony.py\<close>, \<^verbatim>\<open>glm5_3.py\<close> and the reasoning parsers of
    \<^verbatim>\<open>base.py\<close>. \<open>extract_completion\<close> has the type of the provider's parameter \<open>ev_extract\<close>.
  \<^item> \<open>ToolSections\<close>: the index scanner of the XML dialects is the plain reading of the format. \<open>ToolParserProperties\<close>: only
    parsed calls leave the content, and the scan is linear. \<open>ToolCallTypes\<close>: arguments are objects with the declared types.
    \<open>ToolRoundtrip\<close>: what the Qwen templates write is read back; \<open>HarmonyProperties\<close>: so is what gpt-oss samples.

  \<^bold>\<open>Records.\<close>
  \<^item> \<open>Recorder\<close>: \<^verbatim>\<open>recorder.py\<close> and \<^verbatim>\<open>rollout_sessions.py\<close>; \<open>RecorderProperties\<close>: lossless deltas, repeated deliveries, failures
    and repairs, deletion, merging of captures. \<open>RecordValidation\<close>: the checks on a raw record.
  \<^item> \<open>Training\<close>: \<^verbatim>\<open>training.py\<close>; \<open>TrainingProperties\<close>: the streams are the recorded turns, and results are checked against
    the allocated slots.

  \<^bold>\<open>The service.\<close>
  \<^item> \<open>SessionKeys\<close>: keys and ids; \<open>Completion\<close>: the completion handler, split at its awaits; \<open>Service\<close>: the asyncio tasks of
    \<^verbatim>\<open>LLMProxyServer\<close> as events on a record \<open>server\<close>, one event per piece of code between two awaits.
  \<^item> \<open>ServiceSafety\<close>, \<open>ServiceProperties\<close>: locks, finalization and deletion under every interleaving.
  \<^item> \<open>RecordingStreams\<close>, \<open>EndToEnd\<close>, \<open>EndToEndProperties\<close>: the composition. In every reachable state the recorded turns of a
    session spell the token stream the provider holds, and what is trained is what the engine saw.

  \<^bold>\<open>The trainer.\<close>
  \<^item> \<open>ControlRoutes\<close>: the routes of \<^verbatim>\<open>service.py\<close> a trainer uses; \<open>CollectionPolicy\<close>: \<^verbatim>\<open>validation.py\<close>; \<open>Client\<close>: \<^verbatim>\<open>client.py\<close>.
    \<open>ClientProperties\<close> composes client and service: restart protection, synchronization, collection.
  \<^item> \<open>Fingerprint\<close>: \<^verbatim>\<open>fingerprint.py\<close> and \<^verbatim>\<open>ModelRegistry.fingerprint_payload\<close>. \<open>FingerprintProperties\<close>: canonical JSON is injective
    up to the order of dictionaries, so equal fingerprints mean equal tokenizers wherever the digest has no collision
    (\<open>collision_free\<close>), and an accepted check identifies the served tokenizer and its template pin.
  \<^item> \<open>Configuration\<close>: \<^verbatim>\<open>config.py\<close> and the wiring of \<^verbatim>\<open>cli.py\<close>: settings, their checks, and the target a start-up hands to the provider.

  \<^bold>\<open>Bounds, fuel and assumptions.\<close>
  \<^item> \<^verbatim>\<open>MAX_SESSIONS\<close>, the replay limit, the tombstone limit and the lengths of ids are those of the code or fields of the state.
    The JSON scanner recurses on the nesting still allowed (\<open>je_limit\<close>, the recursion limit of the interpreter), and its
    member and element loops have one round per character: \<open>members_rounds\<close> and \<open>elements_rounds\<close> show that more rounds
    change nothing. Every other loop terminates by a measure.
  \<^item> A string holds the code points 0 to 255; a double is the rational it denotes, an infinity or not a number.
  \<^item> The tokenizer, its template, the HTTP replies, \<^verbatim>\<open>float\<close> and its text, pydantic and numpy are arguments of the definitions that
    use them. A theorem that needs a law of one states it as an assumption and has a witness with a concrete instance.
  \<^item> Every piece of code between two awaits is one event, and so is the work of a worker thread under its lock. The
    end-to-end theorems assume that tombstones are not pushed out of their table (\<open>tombstones_last\<close>) and that a deletion
    names an id the service accepts for sessions (\<open>names_session\<close>); a finding shows what other deletions do. The theorems
    on turn locks, finalization and deletion rest on the same two conditions, \<open>one_turn_per_stream\<close> in its own statement.

  \<^bold>\<open>Not modelled.\<close>
  \<^item> The search for think markers outside quotes and tool arguments (\<^verbatim>\<open>_reasoning_markers\<close> of \<^verbatim>\<open>base.py\<close>), a heuristic over
    a dozen regular expressions: the reasoning parsers take the markers it finds as an argument.
  \<^item> The digest \<^verbatim>\<open>sha256\<close>, the probe corpus (its characters go beyond the text model) and the loading of tokenizers are arguments.
  \<^item> Of \<^verbatim>\<open>config.py\<close> and \<^verbatim>\<open>cli.py\<close> the reading of YAML, \<^verbatim>\<open>argparse\<close>, signals and the serving loop, and \<^verbatim>\<open>resources.py\<close>: glue
    around libraries.
  \<^item> Log lines, the wording of error messages, clocks and response ids, and the directory handling of the session store.
\<close>

end
